(* ===== verification/Prelude.thy ===== *)
theory Prelude
  imports Main "HOL-Library.Word"
begin

text \<open>
  Shared vocabulary of the development: bytes and byte strings, the outcome type of a Rust
  computation (a value, an error of the function's error type, or a panic), the panicking index
  and slice operations of Rust, the little-endian integer codecs (to\_le\_bytes and
  from\_le\_bytes) and the lemmas about them that every wire format below relies on.

  Conventions.  A \<^verbatim>\<open>&[u8]\<close> or \<^verbatim>\<open>[u8; N]\<close> is a \<open>bytes\<close> list.  An output buffer
  \<^verbatim>\<open>out: &mut [u8]\<close> together with a returned length is modelled by its capacity
  \<open>cap = out.len()\<close> and the returned byte string, which is the written prefix
  \<^verbatim>\<open>out[..n]\<close>; its length is the returned count.  \<^verbatim>\<open>usize\<close> values are \<open>nat\<close>
  (buffer sizes are far below every target's limit); where a 64-bit value is narrowed to
  \<^verbatim>\<open>usize\<close> the pointer width is an explicit argument.
\<close>

unbundle bit_operations_syntax

type_synonym byte = "8 word"
type_synonym bytes = "byte list"
type_synonym u16 = "16 word"
type_synonym u32 = "32 word"
type_synonym u64 = "64 word"

named_theorems codec \<open>round trips and lengths of the little-endian integer codecs\<close>
named_theorems res_simps \<open>computation rules of the outcome type\<close>
named_theorems step_simps \<open>computation rules of the state-passing steps\<close>
named_theorems wire_defs \<open>sizes and tags of the wire formats\<close>

section \<open>Outcomes of a Rust computation\<close>

text \<open>
  \<open>Ok v\<close> and \<open>Err e\<close> are the two variants of \<^verbatim>\<open>Result\<close>; an \<^verbatim>\<open>Option\<close>-valued
  function uses \<open>Err ()\<close> for \<^verbatim>\<open>None\<close>.  \<open>Panic\<close> is an unwinding or aborting panic
  (index or slice out of range, \<^verbatim>\<open>unwrap\<close> of \<^verbatim>\<open>None\<close>).
\<close>

datatype ('a, 'e) res = Ok 'a | Err 'e | Panic

fun bind_res :: "('a, 'e) res \<Rightarrow> ('a \<Rightarrow> ('b, 'e) res) \<Rightarrow> ('b, 'e) res" where
  "bind_res (Ok x) f = f x"
| "bind_res (Err e) f = Err e"
| "bind_res Panic f = Panic"

text \<open>\<^verbatim>\<open>map_err\<close>, and the early return \<^verbatim>\<open>if c { return Err(e) }\<close>.\<close>

fun map_err :: "('e \<Rightarrow> 'f) \<Rightarrow> ('a, 'e) res \<Rightarrow> ('a, 'f) res" where
  "map_err f (Ok x) = Ok x"
| "map_err f (Err e) = Err (f e)"
| "map_err f Panic = Panic"

definition reject_if :: "bool \<Rightarrow> 'e \<Rightarrow> ('a, 'e) res \<Rightarrow> ('a, 'e) res" where
  "reject_if c e m = (if c then Err e else m)"

definition ok_or :: "'a option \<Rightarrow> 'e \<Rightarrow> ('a, 'e) res" where
  "ok_or x e = (case x of None \<Rightarrow> Err e | Some v \<Rightarrow> Ok v)"

definition unwrap :: "'a option \<Rightarrow> ('a, 'e) res" where
  "unwrap x = (case x of None \<Rightarrow> Panic | Some v \<Rightarrow> Ok v)"

lemma ok_or_simps [simp]: "ok_or (Some v) e = Ok v" "ok_or None e = Err e"
  by (simp_all add: ok_or_def)

lemma unwrap_simps [simp]: "unwrap (Some v) = Ok v" "unwrap None = Panic"
  by (simp_all add: unwrap_def)

lemma bind_res_Ok_iff: "bind_res m f = Ok y \<longleftrightarrow> (\<exists>x. m = Ok x \<and> f x = Ok y)"
  by (cases m) auto

lemma bind_res_Panic_iff: "bind_res m f = Panic \<longleftrightarrow> m = Panic \<or> (\<exists>x. m = Ok x \<and> f x = Panic)"
  by (cases m) auto

lemma bind_res_assoc: "bind_res (bind_res m f) g = bind_res m (\<lambda>x. bind_res (f x) g)"
  by (cases m) auto

lemma map_err_Ok_iff [simp]: "map_err f m = Ok x \<longleftrightarrow> m = Ok x"
  by (cases m) auto

lemma map_err_Panic_iff [simp]: "map_err f m = Panic \<longleftrightarrow> m = Panic"
  by (cases m) auto

section \<open>State-passing computations\<close>

text \<open>
  A method on \<^verbatim>\<open>&mut self\<close> is a step: it returns its outcome together with the state it leaves
  behind, so that the assignments made before an early return are kept.
\<close>

type_synonym ('s, 'e, 'a) estep = "'s \<Rightarrow> ('a, 'e) res \<times> 's"

definition retm :: "'a \<Rightarrow> ('s, 'e, 'a) estep" where
  "retm x = (\<lambda>s. (Ok x, s))"

definition bindm :: "('s, 'e, 'a) estep \<Rightarrow> ('a \<Rightarrow> ('s, 'e, 'b) estep) \<Rightarrow> ('s, 'e, 'b) estep" where
  "bindm m f = (\<lambda>s. case m s of (Ok x, s') \<Rightarrow> f x s' | (Err e, s') \<Rightarrow> (Err e, s') | (Panic, s') \<Rightarrow> (Panic, s'))"

definition liftm :: "('a, 'e) res \<Rightarrow> ('s, 'e, 'a) estep" where
  "liftm r = (\<lambda>s. (r, s))"

definition getm :: "('s \<Rightarrow> 'a) \<Rightarrow> ('s, 'e, 'a) estep" where
  "getm f = (\<lambda>s. (Ok (f s), s))"

definition modm :: "('s \<Rightarrow> 's) \<Rightarrow> ('s, 'e, unit) estep" where
  "modm f = (\<lambda>s. (Ok (), f s))"

definition guardm :: "bool \<Rightarrow> 'e \<Rightarrow> ('s, 'e, unit) estep" where
  "guardm c e = (\<lambda>s. (if c then Err e else Ok (), s))"

definition map_errm :: "('e \<Rightarrow> 'f) \<Rightarrow> ('s, 'e, 'a) estep \<Rightarrow> ('s, 'f, 'a) estep" where
  "map_errm f m = (\<lambda>s. case m s of (r, s') \<Rightarrow> (map_err f r, s'))"

lemma retm_simps [step_simps]: "retm x s = (Ok x, s)" by (simp add: retm_def)

lemma bindm_Ok [step_simps]: "m s = (Ok x, s') \<Longrightarrow> bindm m f s = f x s'" by (simp add: bindm_def)

lemma bindm_Err [step_simps]: "m s = (Err e, s') \<Longrightarrow> bindm m f s = (Err e, s')" by (simp add: bindm_def)

lemma bindm_Panic [step_simps]: "m s = (Panic, s') \<Longrightarrow> bindm m f s = (Panic, s')" by (simp add: bindm_def)

lemma bindm_getm [step_simps]: "bindm (getm g) f s = f (g s) s" by (simp add: bindm_def getm_def)

lemma bindm_modm [step_simps]: "bindm (modm g) f s = f () (g s)" by (simp add: bindm_def modm_def)

lemma bindm_guardm [step_simps]: "bindm (guardm c e) f s = (if c then (Err e, s) else f () s)"
  by (simp add: bindm_def guardm_def)

lemma bindm_liftm [step_simps]: "bindm (liftm r) f s = (case r of Ok x \<Rightarrow> f x s | Err e \<Rightarrow> (Err e, s) | Panic \<Rightarrow> (Panic, s))"
  by (simp add: bindm_def liftm_def split: res.split)

lemma bindm_retm [simp]: "bindm m retm = m"
  by (auto simp: bindm_def retm_def split: res.splits prod.splits)

definition no_panic :: "('s, 'e, 'a) estep \<Rightarrow> 's \<Rightarrow> bool" where
  "no_panic m s \<longleftrightarrow> fst (m s) \<noteq> Panic"

lemma no_panic_bindm:
  "no_panic m s \<Longrightarrow> (\<And>x s'. m s = (Ok x, s') \<Longrightarrow> no_panic (f x) s') \<Longrightarrow> no_panic (bindm m f) s"
  by (auto simp: no_panic_def bindm_def split: prod.splits res.splits)

lemma no_panic_simps [simp]:
  "no_panic (retm x) s" "no_panic (getm g) s" "no_panic (modm u) s" "no_panic (guardm c e) s"
  "no_panic (liftm r) s \<longleftrightarrow> r \<noteq> Panic" "no_panic (map_errm eg m) s \<longleftrightarrow> no_panic m s"
  by (auto simp: no_panic_def retm_def getm_def modm_def guardm_def liftm_def map_errm_def
      split: prod.splits)

text \<open>What a successful step did, for reasoning backwards from its result.\<close>

lemma step_OkE:
  "retm x s = (Ok y, s') \<longleftrightarrow> y = x \<and> s' = s"
  "getm g s = (Ok y, s') \<longleftrightarrow> y = g s \<and> s' = s"
  "modm u s = (Ok (), s') \<longleftrightarrow> s' = u s"
  "guardm c e s = (Ok (), s') \<longleftrightarrow> \<not> c \<and> s' = s"
  "liftm r s = (Ok y, s') \<longleftrightarrow> r = Ok y \<and> s' = s"
  "bindm m f s = (Ok z, s') \<longleftrightarrow> (\<exists>x t. m s = (Ok x, t) \<and> f x t = (Ok z, s'))"
  "map_errm eg m s = (Ok y, s') \<longleftrightarrow> m s = (Ok y, s')"
  by (auto simp: retm_def getm_def modm_def guardm_def liftm_def bindm_def map_errm_def
      split: prod.splits res.splits)

text \<open>A property of the state that a step keeps whatever its outcome.\<close>

definition keeps :: "('s \<Rightarrow> bool) \<Rightarrow> ('s, 'e, 'a) estep \<Rightarrow> bool" where
  "keeps P m \<longleftrightarrow> (\<forall>s. P s \<longrightarrow> P (snd (m s)))"

lemma keeps_bindm: "keeps P m \<Longrightarrow> (\<And>x. keeps P (f x)) \<Longrightarrow> keeps P (bindm m f)"
  by (fastforce simp: keeps_def bindm_def split: prod.splits res.splits)

lemma keeps_simps [simp]:
  "keeps P (retm x)" "keeps P (getm g)" "keeps P (liftm r)" "keeps P (guardm c e)"
  "keeps P (map_errm eg m) \<longleftrightarrow> keeps P m"
  by (auto simp: keeps_def retm_def getm_def liftm_def guardm_def map_errm_def split_beta)

lemma keeps_modm: "(\<And>s. P s \<Longrightarrow> P (u s)) \<Longrightarrow> keeps P (modm u)"
  by (simp add: keeps_def modm_def)

lemma keepsD: "keeps P m \<Longrightarrow> P s \<Longrightarrow> m s = (r, s') \<Longrightarrow> P s'"
  by (metis keeps_def snd_conv)

section \<open>Indexing and slicing\<close>

text \<open>
  \<^verbatim>\<open>xs[i]\<close> and \<^verbatim>\<open>xs[a..b]\<close> panic when out of range.
\<close>

definition idx :: "'x list \<Rightarrow> nat \<Rightarrow> ('x, 'e) res" where
  "idx xs i = (if i < length xs then Ok (xs ! i) else Panic)"

definition slice :: "'x list \<Rightarrow> nat \<Rightarrow> nat \<Rightarrow> ('x list, 'e) res" where
  "slice xs a b = (if a \<le> b \<and> b \<le> length xs then Ok (take (b - a) (drop a xs)) else Panic)"

definition slice_from :: "'x list \<Rightarrow> nat \<Rightarrow> ('x list, 'e) res" where
  "slice_from xs a = (if a \<le> length xs then Ok (drop a xs) else Panic)"

lemma idx_Ok [simp]: "i < length xs \<Longrightarrow> idx xs i = Ok (xs ! i)"
  by (simp add: idx_def)

lemma idx_first [simp]: "Suc 0 \<le> length xs \<Longrightarrow> idx xs 0 = Ok (xs ! 0)"
  by (simp add: idx_def Suc_le_eq)

lemma idx_Panic [simp]: "length xs \<le> i \<Longrightarrow> idx xs i = Panic"
  by (simp add: idx_def)

lemma slice_Ok [simp]: "a \<le> b \<Longrightarrow> b \<le> length xs \<Longrightarrow> slice xs a b = Ok (take (b - a) (drop a xs))"
  by (simp add: slice_def)

lemma slice_from_Ok [simp]: "a \<le> length xs \<Longrightarrow> slice_from xs a = Ok (drop a xs)"
  by (simp add: slice_from_def)

lemma idx_not_Err [simp]: "idx xs i \<noteq> Err e"
  by (simp add: idx_def)

lemma slice_not_Err [simp]: "slice xs a b \<noteq> Err e"
  by (simp add: slice_def)

lemma slice_from_not_Err [simp]: "slice_from xs a \<noteq> Err e"
  by (simp add: slice_from_def)

lemma take_take_drop [simp]: "c = a + b \<Longrightarrow> take a xs @ take b (drop a xs) @ drop c xs = xs"
  by (metis add.commute append_take_drop_id drop_drop)

lemma list4_split:
  assumes "4 \<le> length data"
  shows "data = [data ! 0, data ! 1, data ! 2, data ! 3] @ drop 4 data"
  using assms by (auto simp: Suc_le_length_iff eval_nat_numeral)

text \<open>\<^verbatim>\<open>buf[at..at+src.len()].copy_from_slice(src)\<close> on a buffer kept as a list.\<close>

definition splice :: "'x list \<Rightarrow> nat \<Rightarrow> 'x list \<Rightarrow> 'x list" where
  "splice buf at src = take at buf @ src @ drop (at + length src) buf"

lemma length_splice [simp]: "at + length src \<le> length buf \<Longrightarrow> length (splice buf at src) = length buf"
  by (simp add: splice_def)

section \<open>Little-endian integers\<close>

definition to_le :: "nat \<Rightarrow> 'a::len word \<Rightarrow> bytes" where
  "to_le n w = map (\<lambda>i. ucast (drop_bit (8 * i) w)) [0..<n]"

fun from_le :: "bytes \<Rightarrow> 'a::len word" where
  "from_le [] = 0"
| "from_le (b # bs) = ucast b OR push_bit 8 (from_le bs)"

declare from_le.simps [simp del]

abbreviation le16 :: "u16 \<Rightarrow> bytes" where "le16 \<equiv> to_le 2"
abbreviation le32 :: "u32 \<Rightarrow> bytes" where "le32 \<equiv> to_le 4"
abbreviation le64 :: "u64 \<Rightarrow> bytes" where "le64 \<equiv> to_le 8"

lemma length_to_le [simp, codec]: "length (to_le n w) = n"
  by (simp add: to_le_def)

lemma nth_to_le: "i < n \<Longrightarrow> to_le n w ! i = ucast (drop_bit (8 * i) w)"
  by (simp add: to_le_def)

lemma bit_from_le:
  "bit (from_le bs :: 'a::len word) i \<longleftrightarrow>
     i < LENGTH('a) \<and> i div 8 < length bs \<and> bit (bs ! (i div 8)) (i mod 8)"
proof (induction bs arbitrary: i)
  case Nil
  then show ?case by (simp add: from_le.simps)
next
  case (Cons b bs)
  show ?case
  proof (cases "i < 8")
    case True
    then show ?thesis
      by (simp add: from_le.simps bit_or_iff bit_push_bit_iff bit_ucast_iff)
  next
    case False
    then have "i div 8 = Suc ((i - 8) div 8)" and "i mod 8 = (i - 8) mod 8"
      by (simp_all add: le_div_geq le_mod_geq)
    moreover have "\<not> bit b i" using False bit_imp_le_length [of b i] by auto
    ultimately show ?thesis
      using False by (auto simp add: from_le.simps bit_or_iff bit_push_bit_iff bit_ucast_iff Cons.IH)
  qed
qed

lemma from_le_to_le [simp, codec]:
  assumes "LENGTH('a) \<le> 8 * n"
  shows "from_le (to_le n w) = (w :: 'a::len word)"
proof (rule bit_word_eqI)
  fix i assume i: "i < LENGTH('a)"
  then have "i div 8 < n" using assms by simp
  then show "bit (from_le (to_le n w) :: 'a word) i = bit w i"
    using i by (simp add: bit_from_le nth_to_le bit_ucast_iff bit_drop_bit_eq)
qed

lemma to_le_from_le [codec]:
  assumes "8 * length bs \<le> LENGTH('a)"
  shows "to_le (length bs) (from_le bs :: 'a::len word) = bs"
proof (rule nth_equalityI)
  show "length (to_le (length bs) (from_le bs :: 'a word)) = length bs" by simp
next
  fix j assume "j < length (to_le (length bs) (from_le bs :: 'a word))"
  then have j: "j < length bs" by simp
  show "to_le (length bs) (from_le bs :: 'a word) ! j = bs ! j"
  proof (rule bit_word_eqI)
    fix i :: nat assume i: "i < LENGTH(8)"
    then have i8: "i < 8" by simp
    then have "(8 * j + i) div 8 = j" "(8 * j + i) mod 8 = i" by simp_all
    moreover have "8 * j + i < LENGTH('a)" using i8 j assms by linarith
    ultimately show "bit (to_le (length bs) (from_le bs :: 'a word) ! j) i = bit (bs ! j) i"
      using i8 j by (simp add: nth_to_le bit_ucast_iff bit_drop_bit_eq bit_from_le)
  qed
qed

lemma to_le_from_le_take [codec]:
  assumes "n \<le> length bs" "8 * n = LENGTH('a)"
  shows "to_le n (from_le (take n bs) :: 'a::len word) = take n bs"
  using to_le_from_le [of "take n bs", where ?'a = 'a] assms by simp

lemma le16_bytes: "le16 w = [ucast w, ucast (drop_bit 8 w)]"
  by (simp add: to_le_def upt_rec)

lemma from_le_le16_bytes [simp, codec]: "from_le [ucast w, ucast (drop_bit 8 w)] = (w :: u16)"
  by (simp flip: le16_bytes)

lemma to_le_inj [codec]:
  assumes "LENGTH('a) \<le> 8 * n"
  shows "to_le n v = to_le n w \<longleftrightarrow> v = (w :: 'a::len word)"
  using from_le_to_le [OF assms, of v] from_le_to_le [OF assms, of w] by metis

end
