(* ===== verification/Crypto.thy ===== *)
theory Crypto
  imports Prelude
begin

text \<open>
  The cryptographic base of crates/fips-noise/src/lib.rs: the helper functions the three Noise
  handshakes and the link and session layers are written with.  The primitives themselves
  (k256 scalar multiplication, SHA-256, HKDF-SHA256, ChaCha20-Poly1305) are third-party crates;
  they are the fields of the record \<open>crypto\<close>, an argument of every definition that uses them,
  and \<open>crypto_ok\<close> collects the documented behaviour the code relies on.
\<close>

section \<open>The external primitives\<close>

text \<open>
  \<open>sha256_prim\<close>: \<^verbatim>\<open>Sha256::digest\<close>.  \<open>hkdf_prim salt ikm\<close>: the 64 bytes that
  \<^verbatim>\<open>Hkdf::new(Some(salt), ikm).expand(&[], ..)\<close> writes.  \<open>pubkey_prim sk\<close>: the compressed
  public key of a secret key, \<open>None\<close> when \<^verbatim>\<open>SecretKey::from_slice\<close> refuses it.
  \<open>point_ok\<close>: \<^verbatim>\<open>PublicKey::from_sec1_bytes\<close> accepts.  \<open>ecdh_prim sk pk\<close>: the raw
  x-coordinate of the shared point.  \<open>seal_prim\<close> and \<open>open_prim\<close>: the detached in-place
  AEAD operations on key, nonce, associated data and text (and tag).
\<close>

record crypto =
  sha256_prim :: "bytes \<Rightarrow> bytes"
  hkdf_prim :: "bytes \<Rightarrow> bytes \<Rightarrow> bytes"
  pubkey_prim :: "bytes \<Rightarrow> bytes option"
  point_ok :: "bytes \<Rightarrow> bool"
  ecdh_prim :: "bytes \<Rightarrow> bytes \<Rightarrow> bytes"
  seal_prim :: "bytes \<Rightarrow> bytes \<Rightarrow> bytes \<Rightarrow> bytes \<Rightarrow> (bytes \<times> bytes) option"
  open_prim :: "bytes \<Rightarrow> bytes \<Rightarrow> bytes \<Rightarrow> bytes \<Rightarrow> bytes \<Rightarrow> bytes option"

definition EPOCH_SIZE :: nat where [simp, wire_defs]: "EPOCH_SIZE = 8"
definition PUBKEY_SIZE :: nat where [simp, wire_defs]: "PUBKEY_SIZE = 33"
definition TAG_SIZE :: nat where [simp, wire_defs]: "TAG_SIZE = 16"
definition NONCE_SIZE :: nat where [simp, wire_defs]: "NONCE_SIZE = 12"

definition XX_HANDSHAKE_MSG1_SIZE :: nat where [simp, wire_defs]:
  "XX_HANDSHAKE_MSG1_SIZE = PUBKEY_SIZE"
definition XX_HANDSHAKE_MSG2_SIZE :: nat where [simp, wire_defs]:
  "XX_HANDSHAKE_MSG2_SIZE = PUBKEY_SIZE + (PUBKEY_SIZE + TAG_SIZE) + (EPOCH_SIZE + TAG_SIZE)"
definition XX_HANDSHAKE_MSG3_SIZE :: nat where [simp, wire_defs]:
  "XX_HANDSHAKE_MSG3_SIZE = (PUBKEY_SIZE + TAG_SIZE) + (EPOCH_SIZE + TAG_SIZE)"
definition EPOCH_ENCRYPTED_SIZE :: nat where [simp, wire_defs]:
  "EPOCH_ENCRYPTED_SIZE = EPOCH_SIZE + TAG_SIZE"
definition XK_HANDSHAKE_MSG1_SIZE :: nat where [simp, wire_defs]:
  "XK_HANDSHAKE_MSG1_SIZE = PUBKEY_SIZE"
definition XK_HANDSHAKE_MSG2_SIZE :: nat where [simp, wire_defs]:
  "XK_HANDSHAKE_MSG2_SIZE = PUBKEY_SIZE + EPOCH_ENCRYPTED_SIZE"
definition XK_HANDSHAKE_MSG3_SIZE :: nat where [simp, wire_defs]:
  "XK_HANDSHAKE_MSG3_SIZE = (PUBKEY_SIZE + TAG_SIZE) + EPOCH_ENCRYPTED_SIZE"

datatype noise_error =
    InvalidKey
  | InvalidMessage
  | InvalidState
  | InvalidPublicKey
  | DecryptionFailed
  | EncryptionFailed
  | BufferTooSmall
  | MessageTooShort nat nat
  | MessageTooLarge nat nat

text \<open>ASCII text of the protocol names.\<close>

definition ascii :: "string \<Rightarrow> bytes" where
  "ascii s = map of_char s"

definition PROTOCOL_NAME :: bytes where
  "PROTOCOL_NAME = ascii ''Noise_IK_secp256k1_ChaChaPoly_SHA256''"
definition PROTOCOL_NAME_XK :: bytes where
  "PROTOCOL_NAME_XK = ascii ''Noise_XK_secp256k1_ChaChaPoly_SHA256''"
definition PROTOCOL_NAME_XX :: bytes where
  "PROTOCOL_NAME_XX = ascii ''Noise_XX_secp256k1_ChaChaPoly_SHA256''"

section \<open>Helper functions of the handshakes\<close>

definition sha256 :: "crypto \<Rightarrow> bytes \<Rightarrow> bytes" where
  "sha256 C input = sha256_prim C input"

definition parity_normalize :: "bytes \<Rightarrow> bytes" where
  "parity_normalize pubkey = 0x02 # drop 1 pubkey"

definition x_only_ecdh :: "crypto \<Rightarrow> bytes \<Rightarrow> bytes \<Rightarrow> (bytes, noise_error) res" where
  "x_only_ecdh C my_secret their_pub =
     (case pubkey_prim C my_secret of
        None \<Rightarrow> Err InvalidKey
      | Some _ \<Rightarrow>
          if \<not> point_ok C their_pub then Err InvalidKey
          else Ok (sha256 C (ecdh_prim C my_secret their_pub)))"

definition ecdh_pubkey :: "crypto \<Rightarrow> bytes \<Rightarrow> (bytes, noise_error) res" where
  "ecdh_pubkey C secret = ok_or (pubkey_prim C secret) InvalidKey"

definition hash_concat :: "crypto \<Rightarrow> bytes \<Rightarrow> bytes \<Rightarrow> bytes" where
  "hash_concat C a b = sha256_prim C (a @ b)"

definition hash_one :: "crypto \<Rightarrow> bytes \<Rightarrow> bytes" where
  "hash_one C data = sha256_prim C data"

definition mix_key :: "crypto \<Rightarrow> bytes \<Rightarrow> bytes \<Rightarrow> bytes \<times> bytes" where
  "mix_key C ck ikm = (let okm = hkdf_prim C ck ikm in (take 32 okm, drop 32 okm))"

definition mix_hash :: "crypto \<Rightarrow> bytes \<Rightarrow> bytes \<Rightarrow> bytes" where
  "mix_hash C h data = hash_concat C h data"

definition make_nonce :: "u64 \<Rightarrow> bytes" where
  "make_nonce n = replicate 4 0 @ le64 n"

definition aead_encrypt ::
  "crypto \<Rightarrow> bytes \<Rightarrow> u64 \<Rightarrow> bytes \<Rightarrow> bytes \<Rightarrow> nat \<Rightarrow> (bytes, noise_error) res" where
  "aead_encrypt C key nonce_ctr aad plaintext cap =
     (if length key \<noteq> 32 then Err InvalidKey
      else if cap < length plaintext + TAG_SIZE then Err BufferTooSmall
      else case seal_prim C key (make_nonce nonce_ctr) aad plaintext of
             None \<Rightarrow> Err EncryptionFailed
           | Some (ct, tag) \<Rightarrow> Ok (ct @ tag))"

definition aead_decrypt ::
  "crypto \<Rightarrow> bytes \<Rightarrow> u64 \<Rightarrow> bytes \<Rightarrow> bytes \<Rightarrow> nat \<Rightarrow> (bytes, noise_error) res" where
  "aead_decrypt C key nonce_ctr aad ciphertext cap =
     (if length ciphertext < TAG_SIZE then Err InvalidMessage
      else if length key \<noteq> 32 then Err InvalidKey
      else let pt_len = length ciphertext - TAG_SIZE in
        if cap < pt_len then Err BufferTooSmall
        else case open_prim C key (make_nonce nonce_ctr) aad
                    (take pt_len ciphertext) (drop pt_len ciphertext) of
               None \<Rightarrow> Err DecryptionFailed
             | Some p \<Rightarrow> Ok p)"

text \<open>
  \<^verbatim>\<open>Split()\<close>: the body shared by the six \<^verbatim>\<open>finalize\<close> methods, on the chaining key.
\<close>

definition split_keys :: "crypto \<Rightarrow> bytes \<Rightarrow> bytes \<times> bytes" where
  "split_keys C ck = (let okm = hkdf_prim C ck [] in (take 32 okm, drop 32 okm))"

section \<open>What the code relies on\<close>

text \<open>
  Documented behaviour of the primitives: output sizes; a key accepted by
  \<^verbatim>\<open>SecretKey::from_slice\<close> has a 33-byte compressed public key with prefix 2 or 3 that parses
  back; Diffie-Hellman is symmetric, and the x-coordinate does not depend on the parity byte; the
  AEAD accepts every plaintext of packet size, keeps its length, appends a 16-byte tag, and
  opening what was sealed gives the plaintext back.
\<close>

definition crypto_ok :: "crypto \<Rightarrow> bool" where
  "crypto_ok C \<longleftrightarrow>
     (\<forall>x. length (sha256_prim C x) = 32) \<and>
     (\<forall>s i. length (hkdf_prim C s i) = 64) \<and>
     (\<forall>sk p. pubkey_prim C sk = Some p \<longrightarrow>
        length p = 33 \<and> hd p \<in> {2, 3} \<and>
        (\<forall>par \<in> {2, 3}. point_ok C (par # tl p))) \<and>
     (\<forall>a b pa pb. pubkey_prim C a = Some pa \<longrightarrow> pubkey_prim C b = Some pb \<longrightarrow>
        (\<forall>par \<in> {2, 3}. ecdh_prim C a (par # tl pb) = ecdh_prim C b pa)) \<and>
     (\<forall>k n a p. length p \<le> 65535 \<longrightarrow> seal_prim C k n a p \<noteq> None) \<and>
     (\<forall>k n a p c t. seal_prim C k n a p = Some (c, t) \<longrightarrow>
        length c = length p \<and> length t = 16 \<and> open_prim C k n a c t = Some p) \<and>
     (\<forall>k n a p c t. open_prim C k n a c t = Some p \<longrightarrow> length p = length c)"

lemma crypto_okD:
  assumes "crypto_ok C"
  shows length_sha: "length (sha256_prim C x) = 32"
    and length_hkdf: "length (hkdf_prim C s i) = 64"
    and length_pubkey: "pubkey_prim C sk = Some p \<Longrightarrow> length p = 33"
    and hd_pubkey: "pubkey_prim C sk = Some p \<Longrightarrow> hd p \<in> {2, 3}"
    and point_pubkey: "pubkey_prim C sk = Some p \<Longrightarrow> par \<in> {2, 3} \<Longrightarrow> point_ok C (par # tl p)"
    and dh_sym: "pubkey_prim C a = Some pa \<Longrightarrow> pubkey_prim C b = Some pb \<Longrightarrow> par \<in> {2, 3} \<Longrightarrow>
           ecdh_prim C a (par # tl pb) = ecdh_prim C b pa"
    and seal_total: "length pt \<le> 65535 \<Longrightarrow> seal_prim C k n aad pt \<noteq> None"
    and seal_lengths: "seal_prim C k n aad pt = Some (c, t) \<Longrightarrow> length c = length pt \<and> length t = 16"
    and open_seal: "seal_prim C k n aad pt = Some (c, t) \<Longrightarrow> open_prim C k n aad c t = Some pt"
    and length_open: "open_prim C k n aad c t = Some pt \<Longrightarrow> length pt = length c"
  using assms unfolding crypto_ok_def by (simp_all, metis+)

lemma pubkey_Cons:
  assumes "crypto_ok C" "pubkey_prim C sk = Some p"
  shows "p = hd p # tl p"
  using length_pubkey [OF assms] by (cases p) auto

lemma point_ok_pubkey:
  assumes "crypto_ok C" "pubkey_prim C sk = Some p"
  shows "point_ok C p"
  using point_pubkey [OF assms hd_pubkey [OF assms]] pubkey_Cons [OF assms] by simp

lemma ecdh_comm:
  assumes "crypto_ok C" "pubkey_prim C a = Some pa" "pubkey_prim C b = Some pb"
  shows "ecdh_prim C a pb = ecdh_prim C b pa"
  using dh_sym [OF assms hd_pubkey [OF assms(1,3)]] pubkey_Cons [OF assms(1,3)] by simp

section \<open>Facts about the helpers\<close>

lemma length_make_nonce [simp]: "length (make_nonce n) = NONCE_SIZE"
  by (simp add: make_nonce_def)

lemma make_nonce_inj [simp]: "make_nonce m = make_nonce n \<longleftrightarrow> m = n"
  by (simp add: make_nonce_def to_le_inj)

lemma length_mix_hash [simp]: "crypto_ok C \<Longrightarrow> length (mix_hash C h d) = 32"
  by (simp add: mix_hash_def hash_concat_def length_sha)

lemma length_hash_one [simp]: "crypto_ok C \<Longrightarrow> length (hash_one C d) = 32"
  by (simp add: hash_one_def length_sha)

lemma length_mix_key [simp]:
  assumes "crypto_ok C"
  shows "length (fst (mix_key C ck ikm)) = 32" "length (snd (mix_key C ck ikm)) = 32"
  by (simp_all add: mix_key_def Let_def length_hkdf [OF assms])

lemma length_split_keys [simp]:
  assumes "crypto_ok C"
  shows "length (fst (split_keys C ck)) = 32" "length (snd (split_keys C ck)) = 32"
  by (simp_all add: split_keys_def Let_def length_hkdf [OF assms])

lemma ecdh_pubkey_Ok [simp]: "ecdh_pubkey C sk = Ok p \<longleftrightarrow> pubkey_prim C sk = Some p"
  by (cases "pubkey_prim C sk") (simp_all add: ecdh_pubkey_def)

lemma ecdh_pubkey_cases:
  "ecdh_pubkey C sk = (case pubkey_prim C sk of None \<Rightarrow> Err InvalidKey | Some p \<Rightarrow> Ok p)"
  by (simp add: ecdh_pubkey_def ok_or_def)

lemma parity_normalize_parity [simp]: "parity_normalize (par # x) = 0x02 # x"
  by (simp add: parity_normalize_def)

lemma parity_normalize_idem [simp]: "parity_normalize (parity_normalize p) = parity_normalize p"
  by (simp add: parity_normalize_def)

text \<open>
  Both ends of a Diffie-Hellman exchange obtain the same key material, whichever parity byte one
  of them assumed for the other's static key.
\<close>

lemma x_only_ecdh_agree:
  assumes "crypto_ok C" "pubkey_prim C a = Some pa" "pubkey_prim C b = Some pb" "par \<in> {2, 3}"
  shows "x_only_ecdh C a (par # tl pb) = Ok (sha256 C (ecdh_prim C b pa))"
  using assms by (simp add: x_only_ecdh_def point_pubkey [OF assms(1,3)] dh_sym [OF assms(1-3)])

lemma x_only_ecdh_own:
  assumes "crypto_ok C" "pubkey_prim C a = Some pa" "pubkey_prim C b = Some pb"
  shows "x_only_ecdh C b pa = Ok (sha256 C (ecdh_prim C b pa))"
  using assms by (simp add: x_only_ecdh_def point_ok_pubkey [OF assms(1,2)])

lemma x_only_ecdh_sym:
  assumes "crypto_ok C" "pubkey_prim C a = Some pa" "pubkey_prim C b = Some pb"
  shows "x_only_ecdh C a pb = x_only_ecdh C b pa"
  using x_only_ecdh_own [OF assms] x_only_ecdh_own [OF assms(1,3,2)] ecdh_comm [OF assms] by simp

lemma x_only_ecdh_not_Panic [simp]: "x_only_ecdh C a p \<noteq> Panic"
  by (simp add: x_only_ecdh_def split: option.split)

lemma ecdh_pubkey_not_Panic [simp]: "ecdh_pubkey C a \<noteq> Panic"
  by (simp add: ecdh_pubkey_cases split: option.split)

lemma aead_encrypt_not_Panic [simp]: "aead_encrypt C k n a p cap \<noteq> Panic"
  by (auto simp add: aead_encrypt_def split: option.split)

lemma aead_decrypt_not_Panic [simp]: "aead_decrypt C k n a p cap \<noteq> Panic"
  by (auto simp add: aead_decrypt_def Let_def split: option.split)

lemma aead_encrypt_total:
  assumes "crypto_ok C" "length key = 32" "length pt \<le> 65535" "length pt + TAG_SIZE \<le> cap"
  shows "\<exists>ct. aead_encrypt C key n aad pt cap = Ok ct"
  using assms seal_total [OF assms(1,3), of key "make_nonce n" aad]
  by (auto simp add: aead_encrypt_def)

lemma aead_encrypt_length:
  assumes "crypto_ok C" "aead_encrypt C key n aad pt cap = Ok ct"
  shows "length ct = length pt + TAG_SIZE"
  using assms(2) seal_lengths [OF assms(1)]
  by (auto simp add: aead_encrypt_def split: if_splits option.splits)

lemma aead_decrypt_encrypt:
  assumes "crypto_ok C" "aead_encrypt C key n aad pt cap = Ok ct" "length pt \<le> cap'"
  shows "aead_decrypt C key n aad ct cap' = Ok pt"
proof -
  from assms(2) obtain c t where seal: "seal_prim C key (make_nonce n) aad pt = Some (c, t)"
    and ct: "ct = c @ t" and key: "length key = 32"
    by (auto simp add: aead_encrypt_def split: if_splits option.splits)
  have "length c = length pt" "length t = 16" using seal_lengths [OF assms(1) seal] by simp_all
  then show ?thesis
    using assms(3) key ct open_seal [OF assms(1) seal] by (simp add: aead_decrypt_def)
qed

lemma aead_decrypt_length:
  assumes "crypto_ok C" "aead_decrypt C key n aad ct cap = Ok pt"
  shows "length ct = length pt + TAG_SIZE"
  using assms(2) by (auto simp add: aead_decrypt_def Let_def dest!: length_open [OF assms(1)]
      split: if_splits option.splits)

section \<open>The hypotheses can hold\<close>

text \<open>
  A concrete instance of the primitives on which every hypothesis of \<open>crypto_ok\<close> holds: truncating
  hashes, XOR as the group operation and the key prefix as the tag.  It has no cryptographic
  strength; it only shows that theorems with the hypothesis \<open>crypto_ok\<close> are about something.
\<close>

definition sample_tag :: "bytes \<Rightarrow> bytes" where
  "sample_tag k = take 16 (k @ replicate 16 0)"

definition sample_crypto :: crypto where
  "sample_crypto = \<lparr>
     sha256_prim = (\<lambda>x. take 32 (x @ replicate 32 0)),
     hkdf_prim = (\<lambda>s i. take 64 (s @ i @ replicate 64 0)),
     pubkey_prim = (\<lambda>sk. if length sk = 32 then Some (2 # sk) else None),
     point_ok = (\<lambda>p. length p = 33 \<and> (hd p = 2 \<or> hd p = 3)),
     ecdh_prim = (\<lambda>a p. map2 (XOR) a (tl p)),
     seal_prim = (\<lambda>k n a p. Some (p, sample_tag k)),
     open_prim = (\<lambda>k n a c t. if t = sample_tag k then Some c else None)\<rparr>"

lemma map2_xor_comm: "map2 (XOR) (a :: bytes) b = map2 (XOR) b a"
  by (induction a b rule: list_induct2') (simp_all add: xor.commute)

lemma sample_crypto_ok: "crypto_ok sample_crypto"
  by (auto simp: crypto_ok_def sample_crypto_def sample_tag_def map2_xor_comm split: if_splits)

end
