(* ===== verification/Fmp.thy ===== *)
theory Fmp
  imports Crypto
begin

text \<open>
  The FMP link-layer frame codec, crates/fips-fmp/src/lib.rs: the common prefix, the three
  handshake frames, the established frame with its AEAD body, the inner (timestamp) header and the
  benchmark messages.  The compile-time feature \<^verbatim>\<open>noise-xx\<close> selects one of two wire
  variants and is the first argument of the definitions that depend on it.
\<close>

datatype wire = Wire_IK | Wire_XX

type_synonym session_index = u32

section \<open>Constants\<close>

definition FMP_VERSION :: "wire \<Rightarrow> byte" where
  "FMP_VERSION v = (case v of Wire_IK \<Rightarrow> 0 | Wire_XX \<Rightarrow> 1)"

definition COMMON_PREFIX_SIZE :: nat where [simp, wire_defs]: "COMMON_PREFIX_SIZE = 4"
definition IDX_SIZE :: nat where [simp, wire_defs]: "IDX_SIZE = 4"
definition ESTABLISHED_HEADER_SIZE :: nat where [simp, wire_defs]: "ESTABLISHED_HEADER_SIZE = 16"
definition INNER_HEADER_SIZE :: nat where [simp, wire_defs]: "INNER_HEADER_SIZE = 5"

text \<open>The handshake sizes of the IK wire come from the FIPS constants (106, 57 and 73).\<close>

definition HANDSHAKE_MSG1_SIZE :: "wire \<Rightarrow> nat" where
  "HANDSHAKE_MSG1_SIZE v =
     (case v of Wire_IK \<Rightarrow> PUBKEY_SIZE + PUBKEY_SIZE + TAG_SIZE + EPOCH_ENCRYPTED_SIZE
              | Wire_XX \<Rightarrow> XX_HANDSHAKE_MSG1_SIZE)"
definition HANDSHAKE_MSG2_SIZE :: "wire \<Rightarrow> nat" where
  "HANDSHAKE_MSG2_SIZE v =
     (case v of Wire_IK \<Rightarrow> PUBKEY_SIZE + EPOCH_ENCRYPTED_SIZE | Wire_XX \<Rightarrow> XX_HANDSHAKE_MSG2_SIZE)"
definition HANDSHAKE_MSG3_SIZE :: "wire \<Rightarrow> nat" where
  "HANDSHAKE_MSG3_SIZE v =
     (case v of Wire_IK \<Rightarrow> XK_HANDSHAKE_MSG3_SIZE | Wire_XX \<Rightarrow> XX_HANDSHAKE_MSG3_SIZE)"

definition MSG1_WIRE_SIZE :: "wire \<Rightarrow> nat" where
  "MSG1_WIRE_SIZE v = COMMON_PREFIX_SIZE + IDX_SIZE + HANDSHAKE_MSG1_SIZE v"
definition MSG2_WIRE_SIZE :: "wire \<Rightarrow> nat" where
  "MSG2_WIRE_SIZE v = COMMON_PREFIX_SIZE + IDX_SIZE * 2 + HANDSHAKE_MSG2_SIZE v"
definition MSG3_WIRE_SIZE :: "wire \<Rightarrow> nat" where
  "MSG3_WIRE_SIZE v = COMMON_PREFIX_SIZE + IDX_SIZE * 2 + HANDSHAKE_MSG3_SIZE v"

definition PHASE_ESTABLISHED :: byte where [simp, wire_defs]: "PHASE_ESTABLISHED = 0x00"
definition PHASE_MSG1 :: byte where [simp, wire_defs]: "PHASE_MSG1 = 0x01"
definition PHASE_MSG2 :: byte where [simp, wire_defs]: "PHASE_MSG2 = 0x02"
definition PHASE_MSG3 :: byte where [simp, wire_defs]: "PHASE_MSG3 = 0x03"

text \<open>
  Link message types (generated/fips\_protocol\_types.rs, enum LinkMessageType) and disconnect
  reasons (enum DisconnectReason) re-exported by the codec.
\<close>

definition MSG_SESSION_DATAGRAM :: byte where [wire_defs]: "MSG_SESSION_DATAGRAM = 0x00"
definition MSG_SENDER_REPORT :: byte where [wire_defs]: "MSG_SENDER_REPORT = 0x01"
definition MSG_RECEIVER_REPORT :: byte where [wire_defs]: "MSG_RECEIVER_REPORT = 0x02"
definition MSG_DISCONNECT :: byte where [wire_defs]: "MSG_DISCONNECT = 0x50"
definition MSG_HEARTBEAT :: byte where [wire_defs]: "MSG_HEARTBEAT = 0x51"
definition MSG_ECHO_REQUEST :: byte where [wire_defs]: "MSG_ECHO_REQUEST = 0xFF"
definition MSG_ECHO_RESPONSE :: byte where [wire_defs]: "MSG_ECHO_RESPONSE = 0xFE"
definition MSG_THROUGHPUT_REQUEST :: byte where [wire_defs]: "MSG_THROUGHPUT_REQUEST = 0xFD"
definition MSG_THROUGHPUT_STREAM :: byte where [wire_defs]: "MSG_THROUGHPUT_STREAM = 0xFC"
definition MSG_THROUGHPUT_REPORT :: byte where [wire_defs]: "MSG_THROUGHPUT_REPORT = 0xFB"

definition DISC_REASON_SHUTDOWN :: byte where [wire_defs]: "DISC_REASON_SHUTDOWN = 0x00"
definition DISC_REASON_TRANSPORT_FAILURE :: byte where [wire_defs]:
  "DISC_REASON_TRANSPORT_FAILURE = 0x03"
definition DISC_REASON_RESOURCE_EXHAUSTION :: byte where [wire_defs]:
  "DISC_REASON_RESOURCE_EXHAUSTION = 0x04"
definition DISC_REASON_SECURITY_VIOLATION :: byte where [wire_defs]:
  "DISC_REASON_SECURITY_VIOLATION = 0x05"
definition DISC_REASON_OTHER :: byte where [wire_defs]: "DISC_REASON_OTHER = 0xFF"

definition FLAG_KEY_EPOCH :: byte where [wire_defs]: "FLAG_KEY_EPOCH = 0x01"

definition ECHO_REQUEST_MIN_SIZE :: nat where [simp, wire_defs]: "ECHO_REQUEST_MIN_SIZE = 12"
definition ECHO_RESPONSE_MIN_SIZE :: nat where [simp, wire_defs]: "ECHO_RESPONSE_MIN_SIZE = 20"
definition ECHO_MAX_PAYLOAD :: nat where [simp, wire_defs]: "ECHO_MAX_PAYLOAD = 256"
definition THROUGHPUT_REQUEST_SIZE :: nat where [simp, wire_defs]: "THROUGHPUT_REQUEST_SIZE = 12"
definition THROUGHPUT_STREAM_MIN_SIZE :: nat where [simp, wire_defs]:
  "THROUGHPUT_STREAM_MIN_SIZE = 8"
definition THROUGHPUT_REPORT_SIZE :: nat where [simp, wire_defs]: "THROUGHPUT_REPORT_SIZE = 36"

section \<open>Benchmark messages\<close>

definition parse_echo_request :: "bytes \<Rightarrow> (u64 \<times> u32 \<times> bytes, unit) res" where
  "parse_echo_request body =
     reject_if (length body < ECHO_REQUEST_MIN_SIZE) ()
       (bind_res (slice body 0 8) (\<lambda>ts.
        bind_res (slice body 8 12) (\<lambda>seq.
        bind_res (slice_from body 12) (\<lambda>rest.
          Ok (from_le ts, from_le seq, rest)))))"

definition build_echo_response ::
  "u64 \<Rightarrow> u64 \<Rightarrow> u32 \<Rightarrow> bytes \<Rightarrow> nat \<Rightarrow> (bytes, unit) res" where
  "build_echo_response send_timestamp_us recv_timestamp_us sequence payload cap =
     (let needed = ECHO_RESPONSE_MIN_SIZE + length payload in
      if cap < needed \<or> length payload > ECHO_MAX_PAYLOAD then Err ()
      else Ok (le64 send_timestamp_us @ le64 recv_timestamp_us @ le32 sequence @ payload))"

definition parse_throughput_request :: "bytes \<Rightarrow> (u32 \<times> byte \<times> byte \<times> u16 \<times> u32, unit) res" where
  "parse_throughput_request body =
     reject_if (length body < THROUGHPUT_REQUEST_SIZE) ()
       (bind_res (slice body 0 4) (\<lambda>test_id.
        bind_res (idx body 4) (\<lambda>direction.
        bind_res (idx body 5) (\<lambda>duration_secs.
        bind_res (slice body 6 8) (\<lambda>frame_size.
        bind_res (slice body 8 12) (\<lambda>rate_bps.
          Ok (from_le test_id, direction, duration_secs, from_le frame_size, from_le rate_bps)))))))"

definition parse_throughput_stream :: "bytes \<Rightarrow> (u32 \<times> u32, unit) res" where
  "parse_throughput_stream body =
     reject_if (length body < THROUGHPUT_STREAM_MIN_SIZE) ()
       (bind_res (slice body 0 4) (\<lambda>test_id.
        bind_res (slice body 4 8) (\<lambda>sequence.
          Ok (from_le test_id, from_le sequence))))"

definition build_throughput_report ::
  "u32 \<Rightarrow> u32 \<Rightarrow> u32 \<Rightarrow> u64 \<Rightarrow> u64 \<Rightarrow> u64 \<Rightarrow> nat \<Rightarrow> (bytes, unit) res" where
  "build_throughput_report test_id frames_sent frames_recv bytes_recv duration_us achieved_bps cap =
     (if cap < THROUGHPUT_REPORT_SIZE then Err ()
      else Ok (le32 test_id @ le32 frames_sent @ le32 frames_recv @
               le64 bytes_recv @ le64 duration_us @ le64 achieved_bps))"

section \<open>The common prefix\<close>

definition ver_phase_byte :: "byte \<Rightarrow> byte \<Rightarrow> byte" where
  "ver_phase_byte version phase = push_bit 4 version OR (phase AND 0x0F)"

definition build_prefix :: "wire \<Rightarrow> byte \<Rightarrow> byte \<Rightarrow> u16 \<Rightarrow> bytes" where
  "build_prefix v phase flags payload_len =
     (let byte0 = push_bit 4 (FMP_VERSION v) OR (phase AND 0x0F)
      in [byte0, flags, ucast payload_len, ucast (drop_bit 8 payload_len)])"

definition parse_prefix :: "wire \<Rightarrow> bytes \<Rightarrow> (byte \<times> byte \<times> u16, unit) res" where
  "parse_prefix v data =
     reject_if (length data < COMMON_PREFIX_SIZE) ()
       (bind_res (idx data 0) (\<lambda>d0.
        bind_res (idx data 1) (\<lambda>flags.
        bind_res (idx data 2) (\<lambda>d2.
        bind_res (idx data 3) (\<lambda>d3.
          let version = drop_bit 4 d0; phase = d0 AND 0x0F; payload_len = from_le [d2, d3]
          in if version \<noteq> FMP_VERSION v then Err () else Ok (phase, flags, payload_len))))))"

record common_prefix =
  cp_version :: byte
  cp_phase :: byte
  cp_flags :: byte
  cp_payload_len :: u16

definition CommonPrefix_parse :: "bytes \<Rightarrow> (common_prefix, unit) res" where
  "CommonPrefix_parse data =
     reject_if (length data < COMMON_PREFIX_SIZE) ()
       (bind_res (idx data 0) (\<lambda>ver_phase.
        bind_res (idx data 1) (\<lambda>flags.
        bind_res (idx data 2) (\<lambda>d2.
        bind_res (idx data 3) (\<lambda>d3.
          Ok \<lparr>cp_version = drop_bit 4 ver_phase, cp_phase = ver_phase AND 0x0F,
              cp_flags = flags, cp_payload_len = from_le [d2, d3]\<rparr>)))))"

section \<open>Frames\<close>

datatype fmp_message =
    Msg1 session_index bytes
  | Msg2 session_index session_index bytes
  | Msg3 session_index session_index bytes
  | Established session_index u64 bytes

definition build_msg1 :: "wire \<Rightarrow> session_index \<Rightarrow> bytes \<Rightarrow> nat \<Rightarrow> (bytes, unit) res" where
  "build_msg1 v sender_idx noise_payload cap =
     (let needed = COMMON_PREFIX_SIZE + IDX_SIZE + length noise_payload;
          payload_len = of_nat (IDX_SIZE + length noise_payload) :: u16
      in if cap < needed then Err ()
         else Ok (build_prefix v PHASE_MSG1 0x00 payload_len @ le32 sender_idx @ noise_payload))"

definition build_msg2 ::
  "wire \<Rightarrow> session_index \<Rightarrow> session_index \<Rightarrow> bytes \<Rightarrow> nat \<Rightarrow> (bytes, unit) res" where
  "build_msg2 v sender_idx receiver_idx noise_payload cap =
     (let needed = COMMON_PREFIX_SIZE + IDX_SIZE * 2 + length noise_payload;
          payload_len = of_nat (IDX_SIZE * 2 + length noise_payload) :: u16
      in if cap < needed then Err ()
         else Ok (build_prefix v PHASE_MSG2 0x00 payload_len @ le32 sender_idx @
                  le32 receiver_idx @ noise_payload))"

definition build_msg3 ::
  "wire \<Rightarrow> session_index \<Rightarrow> session_index \<Rightarrow> bytes \<Rightarrow> nat \<Rightarrow> (bytes, unit) res" where
  "build_msg3 v sender_idx receiver_idx noise_payload cap =
     (let needed = COMMON_PREFIX_SIZE + IDX_SIZE * 2 + length noise_payload;
          payload_len = of_nat (IDX_SIZE * 2 + length noise_payload) :: u16
      in if cap < needed then Err ()
         else Ok (build_prefix v PHASE_MSG3 0x00 payload_len @ le32 sender_idx @
                  le32 receiver_idx @ noise_payload))"

definition build_established_header :: "wire \<Rightarrow> session_index \<Rightarrow> u64 \<Rightarrow> byte \<Rightarrow> u16 \<Rightarrow> bytes" where
  "build_established_header v receiver_idx counter flags payload_len =
     [ver_phase_byte (FMP_VERSION v) PHASE_ESTABLISHED, flags] @ le16 payload_len @
     le32 receiver_idx @ le64 counter"

definition prepend_inner_header :: "u32 \<Rightarrow> bytes \<Rightarrow> nat \<Rightarrow> (bytes, unit) res" where
  "prepend_inner_header timestamp_ms payload cap =
     (if cap < 4 + length payload then Err () else Ok (le32 timestamp_ms @ payload))"

definition strip_inner_header :: "bytes \<Rightarrow> (u32 \<times> bytes, unit) res" where
  "strip_inner_header plaintext =
     reject_if (length plaintext < INNER_HEADER_SIZE) ()
       (bind_res (idx plaintext 0) (\<lambda>b0.
        bind_res (idx plaintext 1) (\<lambda>b1.
        bind_res (idx plaintext 2) (\<lambda>b2.
        bind_res (idx plaintext 3) (\<lambda>b3.
        bind_res (slice_from plaintext 4) (\<lambda>rest.
          Ok (from_le [b0, b1, b2, b3], rest)))))))"

definition build_encrypted :: "bytes \<Rightarrow> bytes \<Rightarrow> nat \<Rightarrow> (bytes, unit) res" where
  "build_encrypted header ciphertext cap =
     (if cap < ESTABLISHED_HEADER_SIZE + length ciphertext then Err () else Ok (header @ ciphertext))"

definition encrypt_and_assemble ::
  "crypto \<Rightarrow> wire \<Rightarrow> session_index \<Rightarrow> u64 \<Rightarrow> byte \<Rightarrow> bytes \<Rightarrow> bytes \<Rightarrow> nat \<Rightarrow> (bytes, unit) res" where
  "encrypt_and_assemble C v receiver_idx counter flags inner key cap =
     (let encrypted_len = length inner + TAG_SIZE;
          total = ESTABLISHED_HEADER_SIZE + encrypted_len
      in if cap < total then Err ()
         else let header = build_established_header v receiver_idx counter flags
                             (of_nat (length inner))
              in bind_res (map_err (\<lambda>_. ())
                   (aead_encrypt C key counter header inner (cap - ESTABLISHED_HEADER_SIZE)))
                   (\<lambda>ct. Ok (header @ ct)))"

record encrypted_header =
  eh_receiver_idx :: session_index
  eh_counter :: u64
  eh_header_bytes :: bytes

definition EncryptedHeader_parse :: "wire \<Rightarrow> bytes \<Rightarrow> (encrypted_header, unit) res" where
  "EncryptedHeader_parse v data =
     reject_if (length data < ESTABLISHED_HEADER_SIZE) ()
       (bind_res (parse_prefix v data) (\<lambda>(phase, _, _).
        if phase \<noteq> PHASE_ESTABLISHED then Err ()
        else bind_res (slice data 4 8) (\<lambda>ridx.
             bind_res (slice data 8 16) (\<lambda>ctr.
             bind_res (slice data 0 ESTABLISHED_HEADER_SIZE) (\<lambda>hdr.
               Ok \<lparr>eh_receiver_idx = from_le ridx, eh_counter = from_le ctr,
                   eh_header_bytes = hdr\<rparr>)))))"

record msg1_header =
  m1_sender_idx :: session_index
  noise_msg1_offset :: nat

definition Msg1Header_parse :: "wire \<Rightarrow> bytes \<Rightarrow> (msg1_header, unit) res" where
  "Msg1Header_parse v data =
     reject_if (length data \<noteq> MSG1_WIRE_SIZE v) ()
       (bind_res (parse_prefix v data) (\<lambda>(_, flags, _).
        if flags \<noteq> 0 then Err ()
        else bind_res (slice data COMMON_PREFIX_SIZE (COMMON_PREFIX_SIZE + IDX_SIZE)) (\<lambda>sidx.
               Ok \<lparr>m1_sender_idx = from_le sidx,
                   noise_msg1_offset = COMMON_PREFIX_SIZE + IDX_SIZE\<rparr>)))"

record msg23_header =
  m_sender_idx :: session_index
  m_receiver_idx :: session_index
  noise_msg_offset :: nat

definition Msg2Header_parse :: "wire \<Rightarrow> bytes \<Rightarrow> (msg23_header, unit) res" where
  "Msg2Header_parse v data =
     reject_if (length data < MSG2_WIRE_SIZE v) ()
       (bind_res (parse_prefix v data) (\<lambda>(_, flags, _).
        if flags \<noteq> 0 then Err ()
        else bind_res (slice data COMMON_PREFIX_SIZE (COMMON_PREFIX_SIZE + IDX_SIZE)) (\<lambda>sidx.
             bind_res (slice data (COMMON_PREFIX_SIZE + IDX_SIZE)
                         (COMMON_PREFIX_SIZE + IDX_SIZE + IDX_SIZE)) (\<lambda>ridx.
               Ok \<lparr>m_sender_idx = from_le sidx, m_receiver_idx = from_le ridx,
                   noise_msg_offset = COMMON_PREFIX_SIZE + IDX_SIZE + IDX_SIZE\<rparr>))))"

definition Msg3Header_parse :: "wire \<Rightarrow> bytes \<Rightarrow> (msg23_header, unit) res" where
  "Msg3Header_parse v data =
     reject_if (length data < MSG3_WIRE_SIZE v) ()
       (bind_res (parse_prefix v data) (\<lambda>(_, flags, _).
        if flags \<noteq> 0 then Err ()
        else bind_res (slice data COMMON_PREFIX_SIZE (COMMON_PREFIX_SIZE + IDX_SIZE)) (\<lambda>sidx.
             bind_res (slice data (COMMON_PREFIX_SIZE + IDX_SIZE)
                         (COMMON_PREFIX_SIZE + IDX_SIZE + IDX_SIZE)) (\<lambda>ridx.
               Ok \<lparr>m_sender_idx = from_le sidx, m_receiver_idx = from_le ridx,
                   noise_msg_offset = COMMON_PREFIX_SIZE + IDX_SIZE + IDX_SIZE\<rparr>))))"

definition parse_message :: "wire \<Rightarrow> bytes \<Rightarrow> (fmp_message, unit) res" where
  "parse_message v data =
     bind_res (parse_prefix v data) (\<lambda>(phase, _, _).
     bind_res (slice_from data COMMON_PREFIX_SIZE) (\<lambda>payload.
       if phase = PHASE_MSG1 then
         reject_if (length payload < IDX_SIZE) ()
           (bind_res (slice payload 0 IDX_SIZE) (\<lambda>sidx.
            bind_res (slice_from payload IDX_SIZE) (\<lambda>np.
              Ok (Msg1 (from_le sidx) np))))
       else if phase = PHASE_MSG2 then
         reject_if (length payload < IDX_SIZE * 2) ()
           (bind_res (slice payload 0 IDX_SIZE) (\<lambda>sidx.
            bind_res (slice payload IDX_SIZE (IDX_SIZE * 2)) (\<lambda>ridx.
            bind_res (slice_from payload (IDX_SIZE * 2)) (\<lambda>np.
              Ok (Msg2 (from_le sidx) (from_le ridx) np)))))
       else if phase = PHASE_MSG3 then
         reject_if (length payload < IDX_SIZE * 2) ()
           (bind_res (slice payload 0 IDX_SIZE) (\<lambda>sidx.
            bind_res (slice payload IDX_SIZE (IDX_SIZE * 2)) (\<lambda>ridx.
            bind_res (slice_from payload (IDX_SIZE * 2)) (\<lambda>np.
              Ok (Msg3 (from_le sidx) (from_le ridx) np)))))
       else if phase = PHASE_ESTABLISHED then
         reject_if (length payload < IDX_SIZE + 8) ()
           (bind_res (slice payload 0 IDX_SIZE) (\<lambda>ridx.
            bind_res (slice payload IDX_SIZE (IDX_SIZE + 8)) (\<lambda>ctr.
            bind_res (slice_from payload (IDX_SIZE + 8)) (\<lambda>enc.
              Ok (Established (from_le ridx) (from_le ctr) enc)))))
       else Err ()))"

section \<open>Specification of the frames\<close>

text \<open>The phase nibble and the bytes after the common prefix of each message.\<close>

definition frame_phase :: "fmp_message \<Rightarrow> byte" where
  "frame_phase m = (case m of Msg1 _ _ \<Rightarrow> PHASE_MSG1 | Msg2 _ _ _ \<Rightarrow> PHASE_MSG2
     | Msg3 _ _ _ \<Rightarrow> PHASE_MSG3 | Established _ _ _ \<Rightarrow> PHASE_ESTABLISHED)"

definition frame_body :: "fmp_message \<Rightarrow> bytes" where
  "frame_body m = (case m of Msg1 s np \<Rightarrow> le32 s @ np | Msg2 s r np \<Rightarrow> le32 s @ le32 r @ np
     | Msg3 s r np \<Rightarrow> le32 s @ le32 r @ np | Established r c e \<Rightarrow> le32 r @ le64 c @ e)"

section \<open>Lemmas\<close>

lemma nibble_mask: "(0x0F :: byte) = mask 4"
  by (simp add: mask_eq_exp_minus_1)

lemma FMP_VERSION_high [simp]: "drop_bit 4 (push_bit 4 (FMP_VERSION v) OR (p AND 0x0F)) = FMP_VERSION v"
  unfolding nibble_mask
  by (rule bit_word_eqI) (auto simp: FMP_VERSION_def bit_simps split: wire.splits)

lemma low_nibble_prefix [simp]: "(push_bit 4 w OR (p AND 0x0F)) AND 0x0F = p AND (0x0F::byte)"
  unfolding nibble_mask
  by (rule bit_word_eqI) (auto simp: bit_simps)

lemma nibbles: "push_bit 4 (drop_bit 4 d) OR (d AND 0x0F) = (d::byte)"
  unfolding nibble_mask
  by (rule bit_word_eqI) (auto simp: bit_simps)

lemma FMP_VERSION_high0 [simp]: "drop_bit 4 (push_bit 4 (FMP_VERSION v)) = FMP_VERSION v"
  using FMP_VERSION_high [of v 0] by simp

lemma parse_prefix_build [simp]:
  "parse_prefix v (build_prefix v phase flags len @ rest) = Ok (phase AND 0x0F, flags, len)"
  by (simp add: parse_prefix_def build_prefix_def reject_if_def Let_def)

lemma parse_prefix_Ok_iff:
  "parse_prefix v data = Ok (phase, flags, len) \<longleftrightarrow>
     (phase AND 0x0F = phase \<and> (\<exists>rest. data = build_prefix v phase flags len @ rest))"
proof
  assume L: "parse_prefix v data = Ok (phase, flags, len)"
  then have 4: "4 \<le> length data" by (auto simp: parse_prefix_def reject_if_def split: if_splits)
  from L 4 have *: "drop_bit 4 (data ! 0) = FMP_VERSION v" "data ! 0 AND 0x0F = phase"
     "data ! 1 = flags" "from_le [data ! 2, data ! 3] = len"
    by (auto simp: parse_prefix_def reject_if_def Let_def split: if_splits)
  have "le16 len = [data ! 2, data ! 3]"
    using to_le_from_le [of "[data ! 2, data ! 3]", where ?'a = 16] *(4) by (simp add: numeral_2_eq_2)
  then have "build_prefix v phase flags len = [data ! 0, data ! 1, data ! 2, data ! 3]"
    using * nibbles [of "data ! 0"]
    by (simp add: build_prefix_def Let_def to_le_def upt_rec flip: *(2))
  with list4_split [OF 4] *(2) show "phase AND 0x0F = phase \<and> (\<exists>rest. data = build_prefix v phase flags len @ rest)"
    by (metis and.assoc and.idem)
next
  assume "phase AND 0x0F = phase \<and> (\<exists>rest. data = build_prefix v phase flags len @ rest)"
  then show "parse_prefix v data = Ok (phase, flags, len)" by auto
qed

lemma length_build_prefix [simp]: "length (build_prefix v phase flags len) = 4"
  by (simp add: build_prefix_def Let_def)

lemma parse_prefix_not_Panic [simp]: "parse_prefix v data \<noteq> Panic"
  by (auto simp: parse_prefix_def reject_if_def Let_def)

lemma parse_message_frame [simp]:
  "parse_message v (build_prefix v (frame_phase m) flags len @ frame_body m) = Ok m"
  by (cases m) (simp_all add: parse_message_def frame_phase_def frame_body_def reject_if_def)

lemma parse_message_sound:
  assumes "parse_message v data = Ok m"
  shows "\<exists>flags len. data = build_prefix v (frame_phase m) flags len @ frame_body m"
proof -
  from assms obtain phase flags len where p: "parse_prefix v data = Ok (phase, flags, len)"
    by (auto simp: parse_message_def bind_res_Ok_iff)
  then obtain rest where d: "data = build_prefix v phase flags len @ rest" and ph: "phase AND 0x0F = phase"
    by (auto simp: parse_prefix_Ok_iff)
  have [simp]: "drop 4 data = rest" by (simp add: d)
  have "frame_phase m = phase \<and> frame_body m = rest"
    using assms p d
    by (auto simp: parse_message_def reject_if_def frame_phase_def frame_body_def to_le_from_le_take
        split: if_splits)
  then show ?thesis using d by blast
qed

lemma parse_message_not_Panic: "parse_message v data \<noteq> Panic"
  by (auto simp: parse_message_def bind_res_Panic_iff reject_if_def parse_prefix_Ok_iff
      split: if_splits)


lemma build_msg_frames:
  "build_msg1 v s np cap = (if cap < 8 + length np then Err ()
     else Ok (build_prefix v (frame_phase (Msg1 s np)) 0 (of_nat (4 + length np)) @ frame_body (Msg1 s np)))"
  "build_msg2 v s r np cap = (if cap < 12 + length np then Err ()
     else Ok (build_prefix v (frame_phase (Msg2 s r np)) 0 (of_nat (8 + length np)) @ frame_body (Msg2 s r np)))"
  "build_msg3 v s r np cap = (if cap < 12 + length np then Err ()
     else Ok (build_prefix v (frame_phase (Msg3 s r np)) 0 (of_nat (8 + length np)) @ frame_body (Msg3 s r np)))"
  by (simp_all add: build_msg1_def build_msg2_def build_msg3_def Let_def frame_phase_def frame_body_def)

lemma established_header_frame:
  "build_established_header v r c flags len @ e =
     build_prefix v (frame_phase (Established r c e)) flags len @ frame_body (Established r c e)"
  by (simp add: build_established_header_def build_prefix_def ver_phase_byte_def frame_phase_def
      frame_body_def Let_def le16_bytes)

lemma parse_message_established:
  "parse_message v (build_established_header v r c flags len @ e) = Ok (Established r c e)"
  by (simp add: established_header_frame)

lemma length_established_header [simp]: "length (build_established_header v r c flags len) = 16"
  by (simp add: build_established_header_def)

lemma EncryptedHeader_parse_frame [simp]:
  "EncryptedHeader_parse v (build_established_header v r c flags len @ e) =
     Ok \<lparr>eh_receiver_idx = r, eh_counter = c, eh_header_bytes = build_established_header v r c flags len\<rparr>"
proof -
  let ?h = "build_established_header v r c flags len"
  have p: "parse_prefix v (?h @ e) = Ok (0, flags, len)"
    by (simp add: established_header_frame frame_phase_def)
  have "take 4 (drop 4 (?h @ e)) = le32 r" "take 8 (drop 8 (?h @ e)) = le64 c"
    by (simp_all add: build_established_header_def)
  then show ?thesis using p
    by (simp add: EncryptedHeader_parse_def reject_if_def)
qed

lemma parse_prefix_other_wire:
  assumes "v \<noteq> v'"
  shows "parse_prefix v' (build_prefix v phase flags len @ rest) = Err ()"
  using assms
  by (cases v; cases v') (simp_all add: parse_prefix_def build_prefix_def reject_if_def Let_def FMP_VERSION_def)

lemma parse_message_other_wire:
  "v' \<noteq> v \<Longrightarrow> parse_message v' (build_prefix v phase flags len @ rest) = Err ()"
  by (simp add: parse_message_def parse_prefix_other_wire)

lemma inner_header_roundtrip:
  "bind_res (prepend_inner_header ts (mt # p) cap) strip_inner_header =
     (if cap < 5 + length p then Err () else Ok (ts, mt # p))"
proof -
  have "[le32 ts ! 0, le32 ts ! 1, le32 ts ! 2, le32 ts ! 3] = le32 ts"
    using list4_split [of "le32 ts"] by simp
  then have "from_le [le32 ts ! 0, le32 ts ! 1, le32 ts ! 2, le32 ts ! 3] = ts" by simp
  then show ?thesis
    by (simp add: prepend_inner_header_def strip_inner_header_def reject_if_def nth_append)
qed

lemma encrypt_and_assemble_Ok:
  assumes "crypto_ok C" "length key = 32" "length inner \<le> 65535" "length inner + 32 \<le> cap"
  shows "\<exists>ct. encrypt_and_assemble C v r c flags inner key cap =
               Ok (build_established_header v r c flags (of_nat (length inner)) @ ct) \<and>
             length ct = length inner + 16 \<and>
             (\<forall>cap'. length inner \<le> cap' \<longrightarrow>
                aead_decrypt C key c (build_established_header v r c flags (of_nat (length inner))) ct cap' = Ok inner)"
proof -
  let ?h = "build_established_header v r c flags (of_nat (length inner))"
  obtain ct where ct: "aead_encrypt C key c ?h inner (cap - 16) = Ok ct"
    using aead_encrypt_total [OF assms(1,2,3), of "cap - 16"] assms(4) by fastforce
  show ?thesis
    using aead_encrypt_length [OF assms(1) ct] aead_decrypt_encrypt [OF assms(1) ct] ct assms(4)
    by (intro exI [of _ ct]) (simp add: encrypt_and_assemble_def Let_def)
qed

section \<open>Properties\<close>

text \<open>C16. \<^verbatim>\<open>parse_message\<close> never panics on attacker-supplied bytes, and it returns a message
  exactly for the byte strings that are the four-byte prefix of this wire version with that
  message's phase, any flags and any length field, followed by the message's body: nothing else is
  accepted and no accepted field is misread.\<close>

theorem parse_message_exact:
  "parse_message v data \<noteq> Panic \<and>
   (parse_message v data = Ok m \<longleftrightarrow>
      (\<exists>flags len. data = build_prefix v (frame_phase m) flags len @ frame_body m))"
  using parse_message_not_Panic parse_message_sound by auto

text \<open>The handshake frames the builders write are parsed back field by field, for every index
  pair and Noise payload, when the output buffer has room; a peer of the other wire version
  rejects them at the prefix.\<close>

theorem handshake_frames_roundtrip:
  assumes "COMMON_PREFIX_SIZE + IDX_SIZE * 2 + length np \<le> cap" "v' \<noteq> v"
  shows "bind_res (build_msg1 v s np cap) (parse_message v) = Ok (Msg1 s np)
       \<and> bind_res (build_msg2 v s r np cap) (parse_message v) = Ok (Msg2 s r np)
       \<and> bind_res (build_msg3 v s r np cap) (parse_message v) = Ok (Msg3 s r np)
       \<and> bind_res (build_msg1 v s np cap) (parse_message v') = Err ()"
  using assms by (simp add: build_msg_frames parse_message_other_wire)

theorem handshake_frames_roundtrip_witness:
  "bind_res (build_msg1 Wire_IK 7 [1, 2, 3] 64) (parse_message Wire_IK) = Ok (Msg1 7 [1, 2, 3])
   \<and> bind_res (build_msg1 Wire_IK 7 [1, 2, 3] 64) (parse_message Wire_XX) = Err ()"
  using handshake_frames_roundtrip [of "[1, 2, 3]" 64 Wire_XX Wire_IK 7 9] by simp

text \<open>An established frame assembled by \<^verbatim>\<open>encrypt_and_assemble\<close> is recognised by the receiver's
  parser with its index and counter, is exactly 32 bytes longer than the inner plaintext, and
  decrypts, with the transmitted header as associated data, to that plaintext.\<close>

theorem established_frame_roundtrip:
  assumes "crypto_ok C" "length key = 32" "length inner \<le> 65535" "length inner + 32 \<le> cap"
    "length inner \<le> cap'"
  shows "\<exists>frame ct hdr. encrypt_and_assemble C v r c flags inner key cap = Ok frame
     \<and> length frame = length inner + 32
     \<and> parse_message v frame = Ok (Established r c ct)
     \<and> EncryptedHeader_parse v frame = Ok \<lparr>eh_receiver_idx = r, eh_counter = c, eh_header_bytes = hdr\<rparr>
     \<and> frame = hdr @ ct \<and> aead_decrypt C key c hdr ct cap' = Ok inner"
  using encrypt_and_assemble_Ok [OF assms(1-4), of v r c flags] assms(5)
  by (auto simp: parse_message_established)

theorem established_frame_roundtrip_witness:
  "\<exists>frame ct hdr. encrypt_and_assemble sample_crypto Wire_IK 5 1 0 [1, 2, 3] (replicate 32 7) 256 = Ok frame
     \<and> length frame = length [1::byte, 2, 3] + 32
     \<and> parse_message Wire_IK frame = Ok (Established 5 1 ct)
     \<and> EncryptedHeader_parse Wire_IK frame = Ok \<lparr>eh_receiver_idx = 5, eh_counter = 1, eh_header_bytes = hdr\<rparr>
     \<and> frame = hdr @ ct \<and> aead_decrypt sample_crypto (replicate 32 7) 1 hdr ct 256 = Ok [1, 2, 3]"
  by (rule established_frame_roundtrip) (simp_all add: sample_crypto_ok)

text \<open>\<^verbatim>\<open>Msg1Header::parse\<close> does not look at the phase nibble: any frame of the right size and
  version with zero flags is taken as a first handshake message, whatever its phase.\<close>

theorem Msg1Header_parse_ignores_phase:
  assumes "length np = HANDSHAKE_MSG1_SIZE v"
  shows "Msg1Header_parse v (build_prefix v phase 0 len @ le32 s @ np) =
           Ok \<lparr>m1_sender_idx = s, noise_msg1_offset = 8\<rparr>"
  using assms by (simp add: Msg1Header_parse_def MSG1_WIRE_SIZE_def reject_if_def)

theorem Msg1Header_parse_ignores_phase_witness:
  "Msg1Header_parse Wire_XX (build_prefix Wire_XX PHASE_ESTABLISHED 0 37 @ le32 3 @ replicate 33 2) =
     Ok \<lparr>m1_sender_idx = 3, noise_msg1_offset = 8\<rparr>"
  by (rule Msg1Header_parse_ignores_phase) (simp add: HANDSHAKE_MSG1_SIZE_def)

end
