(* ===== verification/Framing.thy ===== *)
theory Framing
  imports Fmp
begin

text \<open>
  Framing of the link, crates/microfips-protocol/src/framing.rs and the send and receive halves of
  crates/microfips-protocol/src/node.rs (send\_frame, recv\_frame and what they call): frames behind
  a two-byte length on a byte stream, or one frame per datagram in raw mode.

  The receive buffer of a node is the record \<open>rx_buf\<close> (rbuf, rpos, rlen).  What the transport
  delivers during one call is a list of events; the call sees the end of the list as the timer of its
  \<^verbatim>\<open>select\<close> firing.  What the transport does with the data it is asked to send is the record
  \<open>transport\<close>: the data sent so far and whether each of the next sends succeeds.
\<close>

section \<open>Constants and errors\<close>

definition MAX_FRAME :: nat where [simp]: "MAX_FRAME = 1500"
definition RECV_BUF_SIZE :: nat where [simp]: "RECV_BUF_SIZE = 1500"
definition MAX_FRAME_SIZE :: nat where [simp]: "MAX_FRAME_SIZE = 2048"

datatype protocol_error =
    Disconnected | Timeout | InvalidFrame | InvalidMessage | DecryptFailed | PeerDisconnected
  | PeerKeyMismatch

definition protocol_error_of_noise :: "noise_error \<Rightarrow> protocol_error" where
  "protocol_error_of_noise e = (if e = DecryptionFailed then DecryptFailed else InvalidMessage)"

section \<open>The receive buffer\<close>

record rx_buf =
  rbuf :: bytes
  rpos :: nat
  rlen :: nat

datatype rx_event = Rx bytes | RxErr

definition compact :: "bytes \<Rightarrow> nat \<Rightarrow> nat \<Rightarrow> (bytes \<times> nat \<times> nat, 'e) res" where
  "compact buf pos len =
     (if 0 < pos \<and> pos < len
      then let remaining = len - pos
           in bind_res (slice buf pos len) (\<lambda>moved. Ok (splice buf 0 moved, 0, remaining))
      else Ok (buf, pos, len))"

section \<open>Frame extraction\<close>

definition handshake_frame_size :: "bytes \<Rightarrow> common_prefix \<Rightarrow> nat \<Rightarrow> (nat, unit) res" where
  "handshake_frame_size data prefix base_wire_size =
     (let total = COMMON_PREFIX_SIZE + unat (cp_payload_len prefix)
      in if total < base_wire_size \<or> length data < total \<or> MAX_FRAME < total then Err ()
         else Ok total)"

definition fmp_raw_frame_size :: "wire \<Rightarrow> bytes \<Rightarrow> (nat, unit) res" where
  "fmp_raw_frame_size v data =
     bind_res (CommonPrefix_parse data) (\<lambda>prefix.
       if cp_phase prefix = PHASE_MSG1 then
         (let total = MSG1_WIRE_SIZE v in if length data < total then Err () else Ok total)
       else if cp_phase prefix = PHASE_MSG2 then handshake_frame_size data prefix (MSG2_WIRE_SIZE v)
       else if cp_phase prefix = PHASE_MSG3 then handshake_frame_size data prefix (MSG3_WIRE_SIZE v)
       else Err ())"

definition extract_length_prefixed_frame :: "bytes \<Rightarrow> nat \<Rightarrow> nat \<Rightarrow> (bytes \<times> nat, unit) res" where
  "extract_length_prefixed_frame buf pos len =
     (if len < pos then Panic
      else let avail = len - pos
      in reject_if (avail < 2) ()
        (bind_res (idx buf pos) (\<lambda>b0.
         bind_res (idx buf (pos + 1)) (\<lambda>b1.
           let ml = unat (from_le [b0, b1] :: u16)
           in if ml = 0 \<or> MAX_FRAME < ml
              then bind_res (slice buf pos pos) (\<lambda>none. Ok (none, pos + min 2 avail))
              else if avail - 2 < ml then Err ()
              else let s = pos + 2; e = s + ml
                   in bind_res (slice buf s e) (\<lambda>frame. Ok (frame, e))))))"

definition extract_raw_frame :: "wire \<Rightarrow> bytes \<Rightarrow> nat \<Rightarrow> nat \<Rightarrow> (bytes \<times> nat, unit) res" where
  "extract_raw_frame v buf pos len =
     (if len < pos then Panic
      else let avail = len - pos
      in reject_if (avail < COMMON_PREFIX_SIZE) ()
        (bind_res (slice buf pos len) (\<lambda>data.
           case fmp_raw_frame_size v data of
             Panic \<Rightarrow> Panic
           | Ok tot \<Rightarrow>
               (if avail < tot then Err ()
                else let e = pos + tot in bind_res (slice buf pos e) (\<lambda>frame. Ok (frame, e)))
           | Err _ \<Rightarrow>
               bind_res (CommonPrefix_parse data) (\<lambda>prefix.
                 if cp_phase prefix = PHASE_ESTABLISHED then
                   (if avail < ESTABLISHED_HEADER_SIZE + TAG_SIZE then Err ()
                    else let e = pos + avail in bind_res (slice buf pos e) (\<lambda>frame. Ok (frame, e)))
                 else Err ()))))"

section \<open>Receiving a frame\<close>

text \<open>The position after a frame; an exhausted buffer starts again at the front.\<close>

definition advance :: "rx_buf \<Rightarrow> nat \<Rightarrow> rx_buf" where
  "advance st new_pos =
     (if rlen st \<le> new_pos then st\<lparr>rpos := 0, rlen := 0\<rparr> else st\<lparr>rpos := new_pos\<rparr>)"

definition compacted :: "rx_buf \<Rightarrow> (rx_buf, 'e) res" where
  "compacted st =
     bind_res (compact (rbuf st) (rpos st) (rlen st)) (\<lambda>(buf, pos, len).
       Ok (st\<lparr>rbuf := buf, rpos := pos, rlen := len\<rparr>))"

lemma extract_length_prefixed_skip:
  assumes "extract_length_prefixed_frame buf pos len = Ok ([], new_pos)"
  shows "pos + 2 \<le> len \<and> new_pos = pos + 2"
  using assms
  by (auto simp: extract_length_prefixed_frame_def Let_def reject_if_def bind_res_Ok_iff slice_def
      split: if_splits)

function recv_frame_length_prefixed ::
  "nat \<Rightarrow> rx_buf \<Rightarrow> rx_event list \<Rightarrow> (bytes, protocol_error) res \<times> rx_buf \<times> rx_event list" where
  "recv_frame_length_prefixed cap st evs =
     (case extract_length_prefixed_frame (rbuf st) (rpos st) (rlen st) of
        Panic \<Rightarrow> (Panic, st, evs)
      | Ok (frame, new_pos) \<Rightarrow>
          (if frame = [] then recv_frame_length_prefixed cap (advance st new_pos) evs
           else (Ok (take (min (length frame) cap) frame), advance st new_pos, evs))
      | Err _ \<Rightarrow>
          (case compacted st of
             Panic \<Rightarrow> (Panic, st, evs)
           | Err e \<Rightarrow> (Err e, st, evs)
           | Ok st1 \<Rightarrow>
               (case evs of
                  [] \<Rightarrow> (Err Timeout, st1, [])
                | RxErr # evs' \<Rightarrow> (Err Disconnected, st1, evs')
                | Rx d # evs' \<Rightarrow>
                    (if length (rbuf st1) < rlen st1 + length d
                     then recv_frame_length_prefixed cap (st1\<lparr>rlen := 0, rpos := 0\<rparr>) evs'
                     else if RECV_BUF_SIZE < length d then (Panic, st1, evs')
                     else recv_frame_length_prefixed cap
                            (st1\<lparr>rbuf := splice (rbuf st1) (rlen st1) d,
                                 rlen := rlen st1 + length d\<rparr>) evs'))))"
  by pat_completeness auto

termination
  by (relation "measures [\<lambda>(cap, st, evs). length evs, \<lambda>(cap, st, evs). rlen st - rpos st]")
    (auto dest: extract_length_prefixed_skip simp: advance_def)

declare recv_frame_length_prefixed.simps [simp del]

function recv_frame_raw ::
  "wire \<Rightarrow> nat \<Rightarrow> rx_buf \<Rightarrow> rx_event list \<Rightarrow> (bytes, protocol_error) res \<times> rx_buf \<times> rx_event list" where
  "recv_frame_raw v cap st evs =
     (case extract_raw_frame v (rbuf st) (rpos st) (rlen st) of
        Panic \<Rightarrow> (Panic, st, evs)
      | Ok (frame, new_pos) \<Rightarrow> (Ok (take (min (length frame) cap) frame), advance st new_pos, evs)
      | Err _ \<Rightarrow>
          (case compacted st of
             Panic \<Rightarrow> (Panic, st, evs)
           | Err e \<Rightarrow> (Err e, st, evs)
           | Ok st1 \<Rightarrow>
               (case evs of
                  [] \<Rightarrow> (Err Timeout, st1, [])
                | RxErr # evs' \<Rightarrow> (Err Disconnected, st1, evs')
                | Rx d # evs' \<Rightarrow>
                    (if length (rbuf st1) < length d \<or> RECV_BUF_SIZE < length d
                     then (Panic, st1\<lparr>rpos := 0, rlen := length d\<rparr>, evs')
                     else recv_frame_raw v cap
                            (st1\<lparr>rbuf := splice (rbuf st1) 0 d, rpos := 0, rlen := length d\<rparr>) evs'))))"
  by pat_completeness auto
termination
  by (relation "measure (\<lambda>(v, cap, st, evs). length evs)") auto

declare recv_frame_raw.simps [simp del]

definition recv_frame ::
  "wire \<Rightarrow> bool \<Rightarrow> nat \<Rightarrow> rx_buf \<Rightarrow> rx_event list \<Rightarrow> (bytes, protocol_error) res \<times> rx_buf \<times> rx_event list" where
  "recv_frame v raw_framing cap st evs =
     (if raw_framing then recv_frame_raw v cap st evs else recv_frame_length_prefixed cap st evs)"

section \<open>Sending a frame\<close>

record transport =
  tx_sent :: "bytes list"
  tx_up :: "bool list"

definition transport_send :: "bytes \<Rightarrow> (transport, unit, unit) estep" where
  "transport_send d t =
     (case tx_up t of
        False # up \<Rightarrow> (Err (), t\<lparr>tx_up := up\<rparr>)
      | up \<Rightarrow> (Ok (), t\<lparr>tx_up := drop 1 up, tx_sent := tx_sent t @ [d]\<rparr>))"

definition send_frame :: "bool \<Rightarrow> bytes \<Rightarrow> (transport, protocol_error, unit) estep" where
  "send_frame raw_framing payload =
     bindm (if raw_framing then retm ()
            else map_errm (\<lambda>_. Disconnected) (transport_send (le16 (of_nat (length payload)))))
       (\<lambda>_. map_errm (\<lambda>_. Disconnected) (transport_send payload))"

section \<open>What the receiver holds\<close>

text \<open>
  The specification: a byte stream is a sequence of frames behind their lengths, and \<open>next_frame\<close>
  reads the first of them, skipping lengths no sender writes.  \<open>pending\<close> is what the buffer holds and
  \<open>stream\<close> what the transport will deliver.  Both framings are receivers in the sense of the locale
  \<open>frame_receiver\<close> below.
\<close>

fun next_frame :: "bytes \<Rightarrow> (bytes \<times> bytes) option" where
  "next_frame (b0 # b1 # s) =
     (let ml = unat (from_le [b0, b1] :: u16)
      in if ml = 0 \<or> MAX_FRAME < ml then next_frame s
         else if length s < ml then None
         else Some (take ml s, drop ml s))"
| "next_frame s = None"

definition frame_bytes :: "bytes \<Rightarrow> bytes" where
  "frame_bytes f = le16 (of_nat (length f)) @ f"

definition valid_frame :: "bytes \<Rightarrow> bool" where
  "valid_frame f \<longleftrightarrow> f \<noteq> [] \<and> length f \<le> MAX_FRAME"

fun recv_run :: "('s \<Rightarrow> (bytes, protocol_error) res \<times> 's) \<Rightarrow> nat \<Rightarrow> 's
    \<Rightarrow> (bytes, protocol_error) res list" where
  "recv_run recv 0 s = []"
| "recv_run recv (Suc n) s = (case recv s of (r, s') \<Rightarrow> r # recv_run recv n s')"

definition empty_rx :: rx_buf where
  "empty_rx = \<lparr>rbuf = replicate MAX_FRAME_SIZE 0, rpos = 0, rlen = 0\<rparr>"

definition rx_ok :: "rx_buf \<Rightarrow> bool" where
  "rx_ok st \<longleftrightarrow> length (rbuf st) = MAX_FRAME_SIZE \<and> rlen st \<le> MAX_FRAME_SIZE \<and>
     (rpos st < rlen st \<or> rpos st = 0 \<and> rlen st = 0)"

definition pending :: "rx_buf \<Rightarrow> bytes" where
  "pending st = take (rlen st - rpos st) (drop (rpos st) (rbuf st))"

definition event_data :: "rx_event \<Rightarrow> bytes" where
  "event_data e = (case e of Rx d \<Rightarrow> d | RxErr \<Rightarrow> [])"

definition stream :: "rx_event list \<Rightarrow> bytes" where
  "stream evs = concat (map event_data evs)"

definition small_rx :: "nat \<Rightarrow> rx_event \<Rightarrow> bool" where
  "small_rx n e \<longleftrightarrow> (case e of Rx d \<Rightarrow> length d \<le> n | RxErr \<Rightarrow> False)"

definition whole_datagram :: "wire \<Rightarrow> bytes \<Rightarrow> bool" where
  "whole_datagram v d \<longleftrightarrow> extract_raw_frame v d 0 (length d) = Ok (d, length d)"

definition junk_datagram :: "wire \<Rightarrow> bytes \<Rightarrow> bool" where
  "junk_datagram v d \<longleftrightarrow> extract_raw_frame v d 0 (length d) = Err ()"

definition holds_lp :: "rx_buf \<times> rx_event list \<Rightarrow> bytes list \<Rightarrow> bool" where
  "holds_lp s fs \<longleftrightarrow> rx_ok (fst s) \<and> (\<forall>e\<in>set (snd s). small_rx 547 e) \<and> (\<forall>f\<in>set fs. valid_frame f) \<and>
     pending (fst s) @ stream (snd s) = concat (map frame_bytes fs)"

definition holds_raw :: "wire \<Rightarrow> rx_buf \<times> rx_event list \<Rightarrow> bytes list \<Rightarrow> bool" where
  "holds_raw v s fs \<longleftrightarrow> length (rbuf (fst s)) = MAX_FRAME_SIZE \<and> rpos (fst s) = 0 \<and>
     extract_raw_frame v (rbuf (fst s)) 0 (rlen (fst s)) = Err () \<and>
     (\<exists>ds. snd s = map Rx ds \<and> (\<forall>d\<in>set ds. length d \<le> RECV_BUF_SIZE \<and> (whole_datagram v d \<or> junk_datagram v d)) \<and>
        fs = filter (whole_datagram v) ds)"

definition push :: "rx_buf \<Rightarrow> bytes \<Rightarrow> rx_buf" where
  "push st d = st\<lparr>rbuf := splice (rbuf st) (rlen st) d, rlen := rlen st + length d\<rparr>"

definition next_result :: "nat \<Rightarrow> rx_buf \<Rightarrow> rx_event list \<Rightarrow> bool" where
  "next_result cap st evs \<longleftrightarrow> (case next_frame (pending st @ stream evs) of
      Some (f, rest) \<Rightarrow> \<exists>st' evs'. recv_frame_length_prefixed cap st evs = (Ok (take cap f), st', evs') \<and>
        rx_ok st' \<and> set evs' \<subseteq> set evs \<and> pending st' @ stream evs' = rest
    | None \<Rightarrow> \<exists>st' k. recv_frame_length_prefixed cap st evs = (Err Timeout, st', []) \<and> rx_ok st' \<and>
        pending st' = drop k (pending st @ stream evs))"

fun sends :: "bool \<Rightarrow> bytes list \<Rightarrow> (transport, protocol_error, unit) estep" where
  "sends raw_framing [] = retm ()"
| "sends raw_framing (f # fs) = bindm (send_frame raw_framing f) (\<lambda>_. sends raw_framing fs)"

definition fresh_transport :: transport where
  "fresh_transport = \<lparr>tx_sent = [], tx_up = []\<rparr>"

definition link_frame :: "crypto \<Rightarrow> wire \<Rightarrow> bytes \<Rightarrow> bool" where
  "link_frame C v d \<longleftrightarrow>
     (\<exists>s np cap. length np = HANDSHAKE_MSG1_SIZE v \<and> build_msg1 v s np cap = Ok d) \<or>
     (\<exists>s r np cap. HANDSHAKE_MSG2_SIZE v \<le> length np \<and> build_msg2 v s r np cap = Ok d) \<or>
     (\<exists>s r np cap. HANDSHAKE_MSG3_SIZE v \<le> length np \<and> build_msg3 v s r np cap = Ok d) \<or>
     (\<exists>r c flags inner key cap. encrypt_and_assemble C v r c flags inner key cap = Ok d)"

section \<open>Lemmas\<close>

lemma length_pending: "rx_ok st \<Longrightarrow> length (pending st) = rlen st - rpos st"
  by (auto simp: rx_ok_def pending_def)

lemma extract_pending:
  assumes "rx_ok st"
  shows "extract_length_prefixed_frame (rbuf st) (rpos st) (rlen st) =
    (case pending st of
       b0 # b1 # s \<Rightarrow>
         (let ml = unat (from_le [b0, b1] :: u16)
          in if ml = 0 \<or> MAX_FRAME < ml then Ok ([], rpos st + 2)
             else if length s < ml then Err ()
             else Ok (take ml s, rpos st + 2 + ml))
     | _ \<Rightarrow> Err ())"
proof -
  obtain buf p l where st: "rbuf st = buf" "rpos st = p" "rlen st = l" by blast
  have len: "length (pending st) = l - p" using length_pending [OF assms] st by simp
  have le: "p \<le> l" "l \<le> length buf" using assms st by (auto simp: rx_ok_def)
  show ?thesis
  proof (cases "l - p < 2")
    case True
    then have "length (pending st) < 2" using len by simp
    then have "(case pending st of b0 # b1 # s \<Rightarrow> X b0 b1 s | _ \<Rightarrow> Err ()) = (Err () :: (bytes \<times> nat, unit) res)" for X
      by (auto split: list.split)
    then show ?thesis using True le st by (simp add: extract_length_prefixed_frame_def reject_if_def)
  next
    case False
    then have pd: "pending st = buf ! p # buf ! Suc p # take (l - p - 2) (drop (p + 2) buf)"
      using le st unfolding pending_def by (simp add: take_Cons' Cons_nth_drop_Suc [symmetric])
    have "length (take (l - p - 2) (drop (p + 2) buf)) = l - p - 2" using le by simp
    then show ?thesis using False le unfolding pd st
      by (auto simp: extract_length_prefixed_frame_def reject_if_def Let_def min_def)
  qed
qed

lemma advance_pending:
  assumes "rx_ok st" "n \<le> length (pending st)"
  shows "rx_ok (advance st (rpos st + n))" "pending (advance st (rpos st + n)) = drop n (pending st)"
  using assms by (auto simp: rx_ok_def pending_def advance_def drop_take add.commute)

lemma compacted_pending:
  assumes "rx_ok st"
  obtains st1 where "compacted st = Ok st1" "rx_ok st1" "rpos st1 = 0" "pending st1 = pending st"
proof (cases "0 < rpos st \<and> rpos st < rlen st")
  case True
  define moved where "moved = take (rlen st - rpos st) (drop (rpos st) (rbuf st))"
  have l: "length moved = rlen st - rpos st" using assms True by (auto simp: moved_def rx_ok_def)
  have "compacted st = Ok (st\<lparr>rbuf := splice (rbuf st) 0 moved, rpos := 0, rlen := rlen st - rpos st\<rparr>)"
    using True assms by (simp add: compacted_def compact_def Let_def rx_ok_def moved_def)
  then show ?thesis
    using assms True l by (intro that) (auto simp: rx_ok_def pending_def splice_def moved_def [symmetric])
next
  case False
  then show ?thesis using assms by (intro that [of st]) (auto simp: compacted_def compact_def rx_ok_def)
qed

lemma push_pending:
  assumes "rx_ok st" "rpos st = 0" "rlen st + length d \<le> MAX_FRAME_SIZE"
  shows "rx_ok (st\<lparr>rbuf := splice (rbuf st) (rlen st) d, rlen := rlen st + length d\<rparr>)"
    "pending (st\<lparr>rbuf := splice (rbuf st) (rlen st) d, rlen := rlen st + length d\<rparr>) = pending st @ d"
  using assms by (auto simp: rx_ok_def pending_def splice_def)

lemma next_frame_incomplete:
  assumes "extract_length_prefixed_frame (rbuf st) (rpos st) (rlen st) = Err e" "rx_ok st"
  shows "length (pending st) \<le> MAX_FRAME + 1" "next_frame (pending st) = None"
  using assms by (auto simp: extract_pending Let_def split: list.splits if_splits)

lemma next_frame_skip:
  assumes "extract_length_prefixed_frame (rbuf st) (rpos st) (rlen st) = Ok ([], p)" "rx_ok st"
  shows "p = rpos st + 2" "2 \<le> length (pending st)" "next_frame (pending st @ t) = next_frame (drop 2 (pending st) @ t)"
  using assms by (auto simp: extract_pending Let_def split: list.splits if_splits)

lemma next_frame_found:
  assumes "extract_length_prefixed_frame (rbuf st) (rpos st) (rlen st) = Ok (f, p)" "f \<noteq> []" "rx_ok st"
  shows "p = rpos st + 2 + length f" "2 + length f \<le> length (pending st)"
    "next_frame (pending st @ t) = Some (f, drop (2 + length f) (pending st) @ t)"
  using assms by (auto simp: extract_pending Let_def split: list.splits if_splits)

locale frame_receiver =
  fixes recv :: "'s \<Rightarrow> (bytes, protocol_error) res \<times> 's"
    and holds :: "'s \<Rightarrow> bytes list \<Rightarrow> bool"
  assumes recv_next: "holds s (f # fs) \<Longrightarrow> \<exists>s'. recv s = (Ok f, s') \<and> holds s' fs"
    and recv_none: "holds s [] \<Longrightarrow> \<exists>s'. recv s = (Err Timeout, s') \<and> holds s' []"
begin

lemma recv_run_none: "holds s [] \<Longrightarrow> recv_run recv n s = replicate n (Err Timeout)"
proof (induction n arbitrary: s)
  case (Suc n)
  then show ?case using recv_none [OF Suc.prems] by auto
qed simp

lemma recv_run_all:
  "holds s fs \<Longrightarrow> recv_run recv (length fs + n) s = map Ok fs @ replicate n (Err Timeout)"
proof (induction fs arbitrary: s)
  case Nil
  then show ?case by (simp add: recv_run_none)
next
  case (Cons f fs)
  then show ?case using recv_next [OF Cons.prems] by auto
qed

end

lemma stream_simps [simp]: "stream [] = []" "stream (e # evs) = event_data e @ stream evs"
  "stream (map Rx ds) = concat ds"
  by (simp_all add: stream_def event_data_def o_def)

lemma next_frame_short: "length s < 2 \<Longrightarrow> next_frame s = None"
  by (cases s rule: next_frame.cases) auto

lemma next_frame_append_valid:
  assumes "valid_frame f"
  shows "next_frame (frame_bytes f @ t) = Some (f, t)"
proof -
  obtain w :: u16 where w: "w = of_nat (length f)" by blast
  then have "unat w = length f"
    using assms by (simp add: valid_frame_def unsigned_of_nat take_bit_nat_eq_self)
  then show ?thesis
    using assms unfolding frame_bytes_def w [symmetric] le16_bytes by (simp add: valid_frame_def)
qed

lemma compacted_room:
  assumes "rx_ok st" "extract_length_prefixed_frame (rbuf st) (rpos st) (rlen st) = Err e" "length d \<le> 547"
  obtains st1 where "compacted st = (Ok st1 :: (rx_buf, protocol_error) res)"
    "rlen st1 + length d \<le> length (rbuf st1)" "rx_ok (push st1 d)" "pending (push st1 d) = pending st @ d"
proof -
  obtain st1 where st1: "compacted st = (Ok st1 :: (rx_buf, protocol_error) res)" "rx_ok st1" "rpos st1 = 0"
    "pending st1 = pending st"
    using compacted_pending [OF assms(1)] by blast
  have "rlen st1 \<le> MAX_FRAME + 1"
    using next_frame_incomplete(1) [OF assms(2,1)] length_pending [OF st1(2)] st1(3,4) by simp
  then have "rlen st1 + length d \<le> MAX_FRAME_SIZE" using assms(3) by simp
  then show ?thesis
    using that [OF st1(1)] push_pending [OF st1(2,3)] st1(2,4) by (simp add: push_def rx_ok_def)
qed

lemma next_result_step:
  assumes "next_result cap st' evs'" "recv_frame_length_prefixed cap st evs = recv_frame_length_prefixed cap st' evs'"
    "next_frame (pending st' @ stream evs') = next_frame (pending st @ stream evs)"
    "pending st' @ stream evs' = drop k (pending st @ stream evs)" "set evs' \<subseteq> set evs"
  shows "next_result cap st evs"
proof (cases "next_frame (pending st @ stream evs)")
  case None
  then obtain st2 j where "recv_frame_length_prefixed cap st' evs' = (Err Timeout, st2, [])" "rx_ok st2"
      "pending st2 = drop j (pending st' @ stream evs')"
    using assms(1) unfolding next_result_def assms(3) by auto
  then have "recv_frame_length_prefixed cap st evs = (Err Timeout, st2, []) \<and> rx_ok st2 \<and>
      pending st2 = drop (j + k) (pending st @ stream evs)"
    unfolding assms(2,4) drop_drop by simp
  then show ?thesis unfolding next_result_def None option.case by blast
next
  case (Some fr)
  obtain f rest where fr: "fr = (f, rest)" by (cases fr)
  obtain st2 evs2 where "recv_frame_length_prefixed cap st' evs' = (Ok (take cap f), st2, evs2)" "rx_ok st2"
      "set evs2 \<subseteq> set evs'" "pending st2 @ stream evs2 = rest"
    using assms(1) unfolding next_result_def assms(3) Some fr by auto
  then show ?thesis unfolding next_result_def Some fr assms(2) option.case prod.case
    using assms(5) by blast
qed

lemma recv_length_prefixed_next:
  "rx_ok st \<Longrightarrow> \<forall>e\<in>set evs. small_rx 547 e \<Longrightarrow> next_result cap st evs"
proof (induction cap st evs rule: recv_frame_length_prefixed.induct)
  case (1 cap st evs)
  let ?ex = "extract_length_prefixed_frame (rbuf st) (rpos st) (rlen st)"
  note unf = recv_frame_length_prefixed.simps [of cap st evs]
  show ?case
  proof (cases ?ex)
    case (Ok fp)
    obtain f p where fp: "fp = (f, p)" by (cases fp)
    note ex = Ok [unfolded fp]
    show ?thesis
    proof (cases "f = []")
      case True
      note sk = next_frame_skip [OF ex [unfolded True] "1.prems"(1)]
      note adv = advance_pending [OF "1.prems"(1) sk(2)]
      have "next_result cap (advance st p) evs"
        using "1.IH"(1) [OF Ok fp [symmetric] True] adv(1) "1.prems"(2) sk(1) by simp
      then show ?thesis
        by (rule next_result_step [where k = 2]) (use unf ex True sk adv in simp_all)
    next
      case False
      note fo = next_frame_found [OF ex False "1.prems"(1)]
      have "p = rpos st + (2 + length f)" using fo(1) by simp
      note adv = advance_pending [OF "1.prems"(1) fo(2), folded this]
      have "take (min (length f) cap) f = take cap f" by (simp add: min_def)
      then show ?thesis
        unfolding next_result_def fo(3) using unf ex False adv by auto
    qed
  next
    case (Err e)
    show ?thesis
    proof (cases evs)
      case Nil
      obtain st1 where "compacted st = (Ok st1 :: (_, protocol_error) res)" "rx_ok st1" "pending st1 = pending st"
        using compacted_pending [OF "1.prems"(1)] by blast
      then show ?thesis
        using unf Err Nil next_frame_incomplete(2) [OF Err "1.prems"(1)]
        by (auto simp: next_result_def intro: exI [of _ 0])
    next
      case (Cons ev evs')
      then obtain d where d: "ev = Rx d" "length d \<le> 547"
        using "1.prems"(2) by (cases ev) (auto simp: small_rx_def)
      obtain st1 where st1: "compacted st = (Ok st1 :: (rx_buf, protocol_error) res)"
        "rlen st1 + length d \<le> length (rbuf st1)" "rx_ok (push st1 d)" "pending (push st1 d) = pending st @ d"
        using compacted_room [OF "1.prems"(1) Err d(2)] by blast
      have "next_result cap (push st1 d) evs'"
        using "1.IH"(3) [OF Err st1(1), of ev evs' d] Cons d st1 "1.prems"(2) by (simp add: push_def)
      moreover have "recv_frame_length_prefixed cap st evs = recv_frame_length_prefixed cap (push st1 d) evs'"
        using unf Err st1 Cons d by (simp add: push_def)
      ultimately show ?thesis
        by (rule next_result_step [where k = 0]) (use st1 Cons d in \<open>auto simp: event_data_def\<close>)
    qed
  next
    case Panic
    then show ?thesis using "1.prems"(1) by (auto simp: extract_pending Let_def split: list.splits if_splits)
  qed
qed

lemma holds_lp_next:
  assumes "holds_lp (st, evs) (f # fs)" "MAX_FRAME \<le> cap"
  shows "\<exists>s'. recv_frame_length_prefixed cap st evs = (Ok f, s') \<and> holds_lp s' fs"
proof -
  have "next_frame (pending st @ stream evs) = Some (f, concat (map frame_bytes fs))" "take cap f = f"
    using assms next_frame_append_valid [of f] by (auto simp: holds_lp_def valid_frame_def)
  then show ?thesis
    using recv_length_prefixed_next [of st evs cap] assms by (auto simp: holds_lp_def next_result_def)
qed

lemma holds_lp_none:
  assumes "holds_lp (st, evs) []"
  shows "\<exists>s'. recv_frame_length_prefixed cap st evs = (Err Timeout, s') \<and> holds_lp s' []"
  using recv_length_prefixed_next [of st evs cap] assms by (auto simp: holds_lp_def next_result_def)

lemma extract_raw_splice:
  assumes "length d \<le> length buf"
  shows "extract_raw_frame v (splice buf 0 d) 0 (length d) = extract_raw_frame v d 0 (length d)"
  using assms
  by (cases "CommonPrefix_parse d")
    (auto simp: extract_raw_frame_def splice_def slice_def Let_def reject_if_def split: res.split)

lemma recv_raw_junk:
  assumes "holds_raw v (st, Rx d # evs) fs" 
  shows "recv_frame_raw v cap st (Rx d # evs) =
    recv_frame_raw v cap (st\<lparr>rbuf := splice (rbuf st) 0 d, rpos := 0, rlen := length d\<rparr>) evs"
  using assms by (auto simp: recv_frame_raw.simps [of v cap st] holds_raw_def compacted_def compact_def)

lemma holds_raw_step:
  assumes "holds_raw v (st, evs) fs"
  shows "case fs of f # fs' \<Rightarrow> length f \<le> cap \<longrightarrow> (\<exists>s'. recv_frame_raw v cap st evs = (Ok f, s') \<and> holds_raw v s' fs')
    | [] \<Rightarrow> \<exists>s'. recv_frame_raw v cap st evs = (Err Timeout, s') \<and> holds_raw v s' []"
  using assms
proof (induction evs arbitrary: st)
  case Nil
  then show ?case
    by (auto simp: recv_frame_raw.simps [of v cap st] holds_raw_def compacted_def compact_def)
next
  case (Cons ev evs)
  obtain d ds where ds: "ev = Rx d" "evs = map Rx ds" "length d \<le> RECV_BUF_SIZE" "fs = filter (whole_datagram v) (d # ds)"
    "whole_datagram v d \<or> junk_datagram v d" "\<forall>d\<in>set ds. length d \<le> RECV_BUF_SIZE \<and> (whole_datagram v d \<or> junk_datagram v d)"
    using Cons.prems by (auto simp: holds_raw_def Cons_eq_map_conv)
  let ?st = "st\<lparr>rbuf := splice (rbuf st) 0 d, rpos := 0, rlen := length d\<rparr>"
  have len: "length d \<le> length (rbuf st)" using ds(3) Cons.prems by (simp add: holds_raw_def)
  note ext = extract_raw_splice [OF len, of v] and rec = recv_raw_junk [OF Cons.prems [unfolded ds(1)], of cap]
  show ?case
  proof (cases "whole_datagram v d")
    case True
    have empty: "extract_raw_frame v b 0 0 = Err ()" for b by (simp add: extract_raw_frame_def reject_if_def)
    show ?thesis
      using True ds len ext rec Cons.prems empty
      by (auto simp: whole_datagram_def recv_frame_raw.simps [of v cap ?st] advance_def holds_raw_def)
  next
    case False
    then have "holds_raw v (?st, evs) fs"
      using ds len ext Cons.prems by (auto simp: holds_raw_def junk_datagram_def)
    then show ?thesis unfolding ds(1) rec by (rule Cons.IH)
  qed
qed

interpretation lpr: frame_receiver "\<lambda>(st, evs). recv_frame_length_prefixed (MAX_FRAME + n) st evs" holds_lp for n
proof unfold_locales
  fix s f fs assume "holds_lp s (f # fs)"
  then show "\<exists>s'. (case s of (st, evs) \<Rightarrow> recv_frame_length_prefixed (MAX_FRAME + n) st evs) = (Ok f, s') \<and> holds_lp s' fs"
    using holds_lp_next [of "fst s" "snd s" f fs "MAX_FRAME + n"] by (cases s) simp
next
  fix s assume "holds_lp s []"
  then show "\<exists>s'. (case s of (st, evs) \<Rightarrow> recv_frame_length_prefixed (MAX_FRAME + n) st evs) = (Err Timeout, s') \<and> holds_lp s' []"
    using holds_lp_none [of "fst s" "snd s" "MAX_FRAME + n"] by (cases s) simp
qed

interpretation rawr: frame_receiver "\<lambda>(st, evs). recv_frame_raw v (RECV_BUF_SIZE + n) st evs" "holds_raw v" for v n
proof unfold_locales
  fix s f fs assume h: "holds_raw v s (f # fs)"
  then have "length f \<le> RECV_BUF_SIZE + n" by (auto simp: holds_raw_def Cons_eq_filter_iff)
  then show "\<exists>s'. (case s of (st, evs) \<Rightarrow> recv_frame_raw v (RECV_BUF_SIZE + n) st evs) = (Ok f, s') \<and> holds_raw v s' fs"
    using holds_raw_step [of v "fst s" "snd s" "f # fs" "RECV_BUF_SIZE + n"] h by (cases s) simp
next
  fix s assume "holds_raw v s []"
  then show "\<exists>s'. (case s of (st, evs) \<Rightarrow> recv_frame_raw v (RECV_BUF_SIZE + n) st evs) = (Err Timeout, s') \<and> holds_raw v s' []"
    using holds_raw_step [of v "fst s" "snd s" "[]" "RECV_BUF_SIZE + n"] by (cases s) simp
qed

lemma empty_rx_simps [simp]: "rx_ok empty_rx" "pending empty_rx = []"
  "rpos empty_rx = 0" "rlen empty_rx = 0" "length (rbuf empty_rx) = 2048"
  by (simp_all add: rx_ok_def empty_rx_def pending_def)

lemma send_frame_up:
  assumes "tx_up t = []"
  shows "send_frame raw f t =
    (Ok (), t\<lparr>tx_sent := tx_sent t @ (if raw then [f] else [le16 (of_nat (length f)), f])\<rparr>)"
  using assms by (simp add: send_frame_def transport_send_def map_errm_def retm_def bindm_def)

lemma sends_up:
  "tx_up t = [] \<Longrightarrow> sends raw fs t =
    (Ok (), t\<lparr>tx_sent := tx_sent t @ concat (map (\<lambda>f. if raw then [f] else [le16 (of_nat (length f)), f]) fs)\<rparr>)"
  by (induction fs arbitrary: t) (simp_all add: retm_def bindm_def send_frame_up)

lemma sends_stream: "concat (tx_sent (snd (sends False fs fresh_transport))) = concat (map frame_bytes fs)"
proof -
  have "concat (concat (map (\<lambda>f. [le16 (of_nat (length f)), f]) fs)) = concat (map frame_bytes fs)"
    by (induction fs) (simp_all add: frame_bytes_def)
  then show ?thesis by (simp add: sends_up fresh_transport_def)
qed

lemma extract_incomplete:
  assumes "valid_frame f" "k < 2 + length f" "rx_ok st" "pending st = take k (frame_bytes f @ t)"
  shows "extract_length_prefixed_frame (rbuf st) (rpos st) (rlen st) = Err ()"
proof -
  obtain w :: u16 where w: "w = of_nat (length f)" by blast
  then have u: "unat w = length f"
    using assms by (simp add: valid_frame_def unsigned_of_nat take_bit_nat_eq_self)
  show ?thesis
    using assms u unfolding extract_pending [OF assms(3)] assms(4) frame_bytes_def w [symmetric] le16_bytes
    by (auto simp: take_Cons' valid_frame_def min_def Let_def)
qed

lemma recv_length_prefixed_Rx:
  assumes "extract_length_prefixed_frame (rbuf st) (rpos st) (rlen st) = Err ()" "rpos st = 0"
  shows "recv_frame_length_prefixed cap st (Rx d # evs) =
    (if length (rbuf st) < rlen st + length d then recv_frame_length_prefixed cap (st\<lparr>rlen := 0, rpos := 0\<rparr>) evs
     else if RECV_BUF_SIZE < length d then (Panic, st, evs)
     else recv_frame_length_prefixed cap (push st d) evs)"
proof -
  have "compacted st = (Ok st :: (rx_buf, protocol_error) res)"
    using assms(2) by (cases st) (simp add: compacted_def compact_def)
  then show ?thesis
    using assms by (simp add: recv_frame_length_prefixed.simps [of cap st] push_def)
qed

lemma CommonPrefix_parse_build:
  "CommonPrefix_parse (build_prefix v phase flags len @ t) =
    Ok \<lparr>cp_version = FMP_VERSION v, cp_phase = phase AND 0x0F, cp_flags = flags, cp_payload_len = len\<rparr>"
  by (simp add: CommonPrefix_parse_def build_prefix_def reject_if_def)

lemma handshake_frame_whole:
  assumes "d = build_prefix v phase 0 (of_nat (length t)) @ t" "length d \<le> MAX_FRAME"
    "phase = PHASE_MSG1 \<and> length d = MSG1_WIRE_SIZE v \<or> phase = PHASE_MSG2 \<and> MSG2_WIRE_SIZE v \<le> length d \<or>
     phase = PHASE_MSG3 \<and> MSG3_WIRE_SIZE v \<le> length d"
  shows "whole_datagram v d"
proof -
  have "unat (of_nat (length t) :: u16) = length t"
    using assms by (simp add: unsigned_of_nat take_bit_nat_eq_self)
  then have "fmp_raw_frame_size v d = Ok (length d)"
    using assms by (auto simp: fmp_raw_frame_size_def CommonPrefix_parse_build handshake_frame_size_def Let_def)
  then show ?thesis
    using assms by (simp add: whole_datagram_def extract_raw_frame_def reject_if_def)
qed

lemma link_frame_whole:
  assumes "crypto_ok C" "link_frame C v d" "length d \<le> MAX_FRAME"
  shows "whole_datagram v d"
proof -
  consider (hs) "\<exists>phase t. d = build_prefix v phase 0 (of_nat (length t)) @ t \<and>
      (phase = PHASE_MSG1 \<and> length d = MSG1_WIRE_SIZE v \<or> phase = PHASE_MSG2 \<and> MSG2_WIRE_SIZE v \<le> length d \<or>
       phase = PHASE_MSG3 \<and> MSG3_WIRE_SIZE v \<le> length d)"
    | (est) r c flags inner key cap where "encrypt_and_assemble C v r c flags inner key cap = Ok d"
    using assms(2) unfolding link_frame_def
    by (elim disjE exE conjE)
      (force simp: build_msg_frames frame_phase_def frame_body_def MSG1_WIRE_SIZE_def MSG2_WIRE_SIZE_def
         MSG3_WIRE_SIZE_def split: if_splits)+
  then show ?thesis
  proof cases
    case hs
    then show ?thesis using handshake_frame_whole assms(3) by blast
  next
    case est
    then obtain ct where ct: "d = build_established_header v r c flags (of_nat (length inner)) @ ct"
      "length ct = length inner + 16"
      using aead_encrypt_length [OF assms(1)]
      by (auto simp: encrypt_and_assemble_def Let_def bind_res_Ok_iff split: if_splits)
    then have "CommonPrefix_parse d = Ok \<lparr>cp_version = FMP_VERSION v, cp_phase = 0, cp_flags = flags,
        cp_payload_len = of_nat (length inner)\<rparr>"
      by (simp add: established_header_frame CommonPrefix_parse_build frame_phase_def)
    then show ?thesis using ct
      by (simp add: whole_datagram_def extract_raw_frame_def reject_if_def fmp_raw_frame_size_def)
  qed
qed

section \<open>Properties\<close>



text \<open>The receive buffer of 2048 bytes is too small for a pending frame and a full transport read:
  when two frames arrive in two reads of at most 1500 bytes, the first ending inside the first frame
  and both together longer than the buffer, both frames are dropped and the call times out.\<close>

theorem stream_overflow_loses_frames:
  assumes "f \<noteq> []" "length f \<le> 1500"
    and "s = concat (tx_sent (snd (sends False [f, g] fresh_transport)))"
    and "k < 2 + length f" "k \<le> 1500" "length s - k \<le> 1500" "2048 < length s"
  shows "\<exists>st. recv_frame v False cap empty_rx [Rx (take k s), Rx (drop k s)] = (Err Timeout, st, []) \<and>
    rpos st = 0 \<and> rlen st = 0"
proof -
  have s: "s = frame_bytes f @ frame_bytes g" using sends_stream [of "[f, g]"] assms(3) by simp
  define st where "st = push empty_rx (take k s)"
  have ok: "rx_ok st" "pending st = take k s" and st: "rpos st = 0" "rlen st = k" "length (rbuf st) = 2048"
    using push_pending [of empty_rx "take k s"] assms(5,7) by (simp_all add: st_def push_def)
  have none: "extract_length_prefixed_frame b 0 0 = Err ()" for b
    by (simp add: extract_length_prefixed_frame_def reject_if_def)
  have "recv_frame_length_prefixed cap empty_rx [Rx (take k s), Rx (drop k s)] =
      recv_frame_length_prefixed cap st [Rx (drop k s)]"
    using recv_length_prefixed_Rx [of empty_rx cap "take k s"] none assms(5,7)
    by (simp add: st_def)
  also have "\<dots> = recv_frame_length_prefixed cap (st\<lparr>rlen := 0, rpos := 0\<rparr>) []"
  proof -
    have "extract_length_prefixed_frame (rbuf st) (rpos st) (rlen st) = Err ()"
      using extract_incomplete [of f k st "frame_bytes g"] assms(1,2,4) ok s by (simp add: valid_frame_def)
    then show ?thesis using recv_length_prefixed_Rx [of st cap] st assms by simp
  qed
  also have "\<dots> = (Err Timeout, st\<lparr>rlen := 0, rpos := 0\<rparr>, [])"
    using none by (simp add: recv_frame_length_prefixed.simps compacted_def compact_def)
  finally show ?thesis by (simp add: recv_frame_def)
qed

theorem stream_overflow_loses_frames_witness:
  "\<exists>st. recv_frame Wire_IK False 1500 empty_rx
     [Rx (take 1000 (frame_bytes (replicate 1048 7) @ frame_bytes (replicate 1048 9))),
      Rx (drop 1000 (frame_bytes (replicate 1048 7) @ frame_bytes (replicate 1048 9)))] = (Err Timeout, st, []) \<and>
    rpos st = 0 \<and> rlen st = 0"
proof -
  obtain f g :: bytes where fg: "f = replicate 1048 7" "g = replicate 1048 9" by blast
  then have len: "length f = 1048" "length g = 1048" by (simp_all only: length_replicate)
  then have "f \<noteq> []" by auto
  have "frame_bytes f @ frame_bytes g = concat (tx_sent (snd (sends False [f, g] fresh_transport)))"
    unfolding sends_stream by simp
  from stream_overflow_loses_frames [OF \<open>f \<noteq> []\<close> _ this, of 1000 Wire_IK 1500] len show ?thesis
    unfolding fg [symmetric] by (simp add: frame_bytes_def)
qed

text \<open>C26. Raw framing delivers every link frame that fits a datagram, in order and unchanged, whatever
  junk datagrams (those in which no frame is found) arrive between them; a junk datagram never delays
  a later frame.  Link frames are the first handshake message of the exact size, the second and third
  with any negotiation payload appended, and every sealed frame.\<close>

theorem raw_datagrams_delivered:
  assumes "crypto_ok C"
    and "\<forall>d\<in>set ds. length d \<le> 1500 \<and> (link_frame C v d \<or> extract_raw_frame v d 0 (length d) = Err ())"
  shows "recv_run (\<lambda>(st, evs). recv_frame v True (1500 + room) st evs)
      (length (filter (whole_datagram v) ds) + n) (empty_rx, map Rx ds)
    = map Ok (filter (whole_datagram v) ds) @ replicate n (Err Timeout) \<and>
    (\<forall>d\<in>set ds. link_frame C v d \<longrightarrow> whole_datagram v d)"
proof -
  have whole: "\<forall>d\<in>set ds. link_frame C v d \<longrightarrow> whole_datagram v d" using assms link_frame_whole by simp
  then have "holds_raw v (empty_rx, map Rx ds) (filter (whole_datagram v) ds)"
    using assms(2) by (auto simp: holds_raw_def empty_rx_def junk_datagram_def extract_raw_frame_def [of v _ 0 0] reject_if_def)
  from rawr.recv_run_all [OF this, of room n] whole show ?thesis by (simp add: recv_frame_def)
qed

theorem raw_datagrams_delivered_witness:
  "recv_run (\<lambda>(st, evs). recv_frame Wire_XX True (1500 + 0) st evs) 2
     (empty_rx, map Rx [[7], build_prefix Wire_XX 1 0 37 @ le32 5 @ replicate 33 9])
   = [Ok (build_prefix Wire_XX 1 0 37 @ le32 5 @ replicate 33 9), Err Timeout]"
proof -
  obtain m where m: "m = build_prefix Wire_XX 1 0 37 @ le32 5 @ replicate 33 9" by blast
  have "build_msg1 Wire_XX 5 (replicate 33 9) 64 = Ok m" by (simp add: build_msg1_def m)
  then have frame: "link_frame sample_crypto Wire_XX m"
    unfolding link_frame_def
    by (intro disjI1 exI [of _ 5] exI [of _ "replicate 33 9"] exI [of _ 64]) (simp add: HANDSHAKE_MSG1_SIZE_def)
  have junk: "extract_raw_frame Wire_XX [7] 0 1 = Err ()" by (simp add: extract_raw_frame_def reject_if_def)
  then have "\<not> whole_datagram Wire_XX [7]" by (simp add: whole_datagram_def)
  then show ?thesis
    using raw_datagrams_delivered [OF sample_crypto_ok, of "[[7], m]" Wire_XX 0 1] frame junk
    unfolding m [symmetric] by (auto simp: m numeral_2_eq_2)
qed

end
