(* ===== verification/Replay.thy ===== *)
theory Replay
  imports Prelude
begin

text \<open>
  The sliding anti-replay window, crates/fips-noise/src/replay.rs.  \<open>bitmap\<close> is the 32-word bit
  array, bit \<open>i\<close> of which stands for the counter \<open>highest - i\<close>.  The casts \<^verbatim>\<open>as usize\<close>
  keep the low \<open>ptr\<close> bits, where \<open>ptr\<close> is the pointer width of the target (64 on hosts,
  32 on the STM32 and ESP32 boards).

  The locale \<open>replay_guard\<close> is the contract of such a window over the set of accepted counters;
  the window implements it for all counters on a 64-bit target, and for counters below
  \<open>2 ^ 32\<close> on a 32-bit one.
\<close>

section \<open>The window\<close>

definition REPLAY_WINDOW_SIZE :: nat where [simp]: "REPLAY_WINDOW_SIZE = 2048"

record replay_window =
  highest :: u64
  bitmap :: "u64 list"

definition as_usize :: "nat \<Rightarrow> u64 \<Rightarrow> nat" where
  "as_usize ptr x = unat x mod 2 ^ ptr"

definition empty_bitmap :: "u64 list" where
  "empty_bitmap = replicate (REPLAY_WINDOW_SIZE div 64) 0"

definition ReplayWindow_new :: replay_window where
  "ReplayWindow_new = \<lparr>highest = 0, bitmap = empty_bitmap\<rparr>"

definition ReplayWindow_check :: "nat \<Rightarrow> replay_window \<Rightarrow> u64 \<Rightarrow> (bool, unit) res" where
  "ReplayWindow_check ptr w counter =
     (if counter = -1 then Ok False
      else if counter > highest w then Ok True
      else let diff = highest w - counter in
        if as_usize ptr diff \<ge> REPLAY_WINDOW_SIZE then Ok False
        else let word_idx = as_usize ptr diff div 64; bit_idx = as_usize ptr diff mod 64 in
          bind_res (idx (bitmap w) word_idx) (\<lambda>x. Ok (x AND push_bit bit_idx 1 = 0)))"

text \<open>
  \<^verbatim>\<open>shift_bitmap\<close>: the word move runs downwards over \<open>word_shift..len\<close>, then the low words
  are cleared, then the bit shift runs upwards with a carry.
\<close>

definition move_words :: "nat \<Rightarrow> u64 list \<Rightarrow> u64 list" where
  "move_words word_shift bm =
     fold (\<lambda>i bm. bm[i := bm ! (i - word_shift)]) (rev [word_shift..<length bm]) bm"

definition clear_words :: "nat \<Rightarrow> u64 list \<Rightarrow> u64 list" where
  "clear_words word_shift bm = fold (\<lambda>i bm. bm[i := 0]) [0..<word_shift] bm"

fun carry_shift :: "nat \<Rightarrow> u64 \<Rightarrow> u64 list \<Rightarrow> u64 list" where
  "carry_shift bit_shift carry [] = []"
| "carry_shift bit_shift carry (x # xs) =
     (push_bit bit_shift x OR carry) # carry_shift bit_shift (drop_bit (64 - bit_shift) x) xs"

definition shift_bitmap :: "nat \<Rightarrow> u64 list \<Rightarrow> u64 list" where
  "shift_bitmap shift bm =
     (if shift \<ge> REPLAY_WINDOW_SIZE then empty_bitmap
      else let word_shift = shift div 64; bit_shift = shift mod 64;
               bm1 = (if word_shift > 0 then clear_words word_shift (move_words word_shift bm) else bm)
           in if bit_shift > 0 then carry_shift bit_shift 0 bm1 else bm1)"

definition ReplayWindow_accept :: "nat \<Rightarrow> replay_window \<Rightarrow> u64 \<Rightarrow> (replay_window, unit) res" where
  "ReplayWindow_accept ptr w counter =
     (if counter > highest w then
        let shift = counter - highest w;
            bm = (if as_usize ptr shift \<ge> REPLAY_WINDOW_SIZE then empty_bitmap
                  else shift_bitmap (as_usize ptr shift) (bitmap w))
        in bind_res (idx bm 0) (\<lambda>x. Ok \<lparr>highest = counter, bitmap = bm[0 := x OR 1]\<rparr>)
      else
        let diff = highest w - counter;
            word_idx = as_usize ptr diff div 64; bit_idx = as_usize ptr diff mod 64
        in bind_res (idx (bitmap w) word_idx)
             (\<lambda>x. Ok (w\<lparr>bitmap := (bitmap w)[word_idx := x OR push_bit bit_idx 1]\<rparr>)))"

definition ReplayWindow_reset :: "replay_window \<Rightarrow> replay_window" where
  "ReplayWindow_reset w = w\<lparr>highest := 0, bitmap := empty_bitmap\<rparr>"


section \<open>Specification\<close>

text \<open>
  A run of a receiver over a sequence of authenticated counters: each is checked and, if fresh,
  accepted; the result lists the accepted counters.  \<open>admitted\<close> is the specification on the
  set \<open>S\<close> of counters accepted so far, \<open>in_order\<close> a sequence that never lags a full window
  behind, and \<open>window_rel\<close> relates the bit array to the set.
\<close>

fun deliver :: "('w \<Rightarrow> u64 \<Rightarrow> (bool, unit) res) \<Rightarrow> ('w \<Rightarrow> u64 \<Rightarrow> ('w, unit) res) \<Rightarrow> 'w \<Rightarrow> u64 list
    \<Rightarrow> (u64 list, unit) res" where
  "deliver chk acc w [] = Ok []"
| "deliver chk acc w (c # cs) = bind_res (chk w c) (\<lambda>ok.
     if ok then bind_res (acc w c) (\<lambda>w'. bind_res (deliver chk acc w' cs) (\<lambda>rest. Ok (c # rest)))
     else deliver chk acc w cs)"

definition admissible :: "u64 set \<Rightarrow> u64 \<Rightarrow> bool" where
  "admissible S c \<longleftrightarrow> c \<noteq> -1 \<and> c \<notin> S \<and> (\<forall>s\<in>S. unat s < unat c + REPLAY_WINDOW_SIZE)"

fun admitted :: "u64 set \<Rightarrow> u64 list \<Rightarrow> u64 list" where
  "admitted S [] = []"
| "admitted S (c # cs) = (if admissible S c then c # admitted (insert c S) cs else admitted S cs)"

fun in_order :: "u64 set \<Rightarrow> u64 list \<Rightarrow> bool" where
  "in_order S [] \<longleftrightarrow> True"
| "in_order S (c # cs) \<longleftrightarrow> (\<forall>s\<in>S. unat s < unat c + REPLAY_WINDOW_SIZE) \<and> in_order (insert c S) cs"

definition bm_bit :: "u64 list \<Rightarrow> nat \<Rightarrow> bool" where
  "bm_bit bm j = bit (bm ! (j div 64)) (j mod 64)"

definition word_shifted :: "nat \<Rightarrow> u64 list \<Rightarrow> u64 list" where
  "word_shifted ws bm = (if ws > 0 then clear_words ws (move_words ws bm) else bm)"

definition window_rel :: "nat \<Rightarrow> replay_window \<Rightarrow> u64 set \<Rightarrow> bool" where
  "window_rel ptr w S \<longleftrightarrow> length (bitmap w) = 32 \<and> unat (highest w) < 2 ^ ptr
     \<and> (highest w \<in> S \<or> S = {} \<and> highest w = 0) \<and> (\<forall>s\<in>S. s \<le> highest w)
     \<and> (\<forall>j<2048. j \<le> unat (highest w) \<longrightarrow> (bm_bit (bitmap w) j \<longleftrightarrow> highest w - of_nat j \<in> S))"

section \<open>The bit array\<close>

lemma length_empty_bitmap [simp]: "length empty_bitmap = 32"
  by (simp add: empty_bitmap_def)

lemma bm_bit_empty [simp]: "j < 2048 \<Longrightarrow> \<not> bm_bit empty_bitmap j"
  by (simp add: bm_bit_def empty_bitmap_def)

lemma move_words_upto:
  assumes "ws \<le> k" "k \<le> length bm"
  shows "fold (\<lambda>i bm. bm[i := bm ! (i - ws)]) (rev [k..<length bm]) bm =
           map (\<lambda>i. if k \<le> i then bm ! (i - ws) else bm ! i) [0..<length bm]"
  using assms(2,1)
proof (induction k rule: inc_induct)
  case base
  show ?case by (rule nth_equalityI) simp_all
next
  case (step m)
  have "[m..<length bm] = m # [Suc m..<length bm]" using step.hyps by (simp add: upt_rec)
  then show ?case
    using step by (auto intro!: nth_equalityI simp: nth_list_update)
qed

lemma move_words_nth:
  assumes "ws \<le> length bm" "i < length bm"
  shows "move_words ws bm ! i = (if ws \<le> i then bm ! (i - ws) else bm ! i)"
  using assms by (simp add: move_words_def move_words_upto)

lemma length_move_words [simp]: "ws \<le> length bm \<Longrightarrow> length (move_words ws bm) = length bm"
  by (simp add: move_words_def move_words_upto)

lemma clear_words_eq: "ws \<le> length bm \<Longrightarrow> clear_words ws bm = replicate ws 0 @ drop ws bm"
proof (induction ws)
  case 0
  then show ?case by (simp add: clear_words_def)
next
  case (Suc ws)
  then have "clear_words (Suc ws) bm = (replicate ws 0 @ drop ws bm)[ws := 0]"
    by (simp add: clear_words_def)
  also have "drop ws bm = bm ! ws # drop (Suc ws) bm"
    using Suc.prems by (simp add: Cons_nth_drop_Suc)
  finally show ?case by (simp add: list_update_append replicate_append_same)
qed

lemma length_carry_shift [simp]: "length (carry_shift b c xs) = length xs"
  by (induction xs arbitrary: c) simp_all

lemma carry_shift_nth:
  "i < length xs \<Longrightarrow> carry_shift b c xs ! i =
     push_bit b (xs ! i) OR (if i = 0 then c else drop_bit (64 - b) (xs ! (i - 1)))"
proof (induction xs arbitrary: c i)
  case Nil
  then show ?case by simp
next
  case (Cons x xs)
  then show ?case by (cases i) (auto simp: nth_Cons split: nat.splits)
qed

lemma length_word_shifted [simp]: "ws \<le> length bm \<Longrightarrow> length (word_shifted ws bm) = length bm"
  by (simp add: word_shifted_def clear_words_eq)

lemma word_shifted_nth:
  assumes "ws \<le> length bm" "i < length bm"
  shows "word_shifted ws bm ! i = (if i < ws then 0 else bm ! (i - ws))"
  using assms by (auto simp: word_shifted_def clear_words_eq nth_append move_words_nth)

lemma bm_bit_at: "r < 64 \<Longrightarrow> bm_bit bm (64 * q + r) = bit (bm ! q) r"
  by (simp add: bm_bit_def)

lemma bm_bit_carry_shift:
  assumes b: "0 < b" "b < 64" and j: "j < 64 * length xs"
  shows "bm_bit (carry_shift b 0 xs) j \<longleftrightarrow> b \<le> j \<and> bm_bit xs (j - b)"
proof -
  define q r where "q = j div 64" and "r = j mod 64"
  have jq: "j = 64 * q + r" and r: "r < 64" by (simp_all add: q_def r_def)
  have i: "q < length xs" using j jq by linarith
  have eq: "bm_bit (carry_shift b 0 xs) j \<longleftrightarrow>
     (b \<le> r \<and> bit (xs ! q) (r - b)) \<or> (q \<noteq> 0 \<and> bit (xs ! (q - 1)) (64 - b + r))"
    using i r unfolding jq by (auto simp: bm_bit_at carry_shift_nth bit_simps)
  show ?thesis
  proof (cases "b \<le> r")
    case True
    then have "j - b = 64 * q + (r - b)" "b \<le> j" by (simp_all add: jq)
    moreover have "\<not> bit (xs ! (q - 1)) (64 - b + r)"
      using True bit_imp_le_length [of "xs ! (q - 1)" "64 - b + r"] b by auto
    moreover have "bm_bit xs (64 * q + (r - b)) = bit (xs ! q) (r - b)"
      using r by (intro bm_bit_at) simp
    ultimately show ?thesis using True eq by metis
  next
    case False
    show ?thesis
    proof (cases q)
      case 0
      then show ?thesis using False eq jq by simp
    next
      case (Suc p)
      then have "j - b = 64 * p + (64 - b + r)" "b \<le> j" using b False by (simp_all add: jq)
      moreover have "bm_bit xs (64 * p + (64 - b + r)) = bit (xs ! p) (64 - b + r)"
        using False b by (intro bm_bit_at) simp
      ultimately show ?thesis using False Suc eq by simp
    qed
  qed
qed

lemma bm_bit_word_shifted:
  assumes "ws \<le> length bm" "j < 64 * length bm"
  shows "bm_bit (word_shifted ws bm) j \<longleftrightarrow> 64 * ws \<le> j \<and> bm_bit bm (j - 64 * ws)"
proof -
  define q r where "q = j div 64" and "r = j mod 64"
  have jq: "j = 64 * q + r" and r: "r < 64" by (simp_all add: q_def r_def)
  have "q < length bm" using assms jq by linarith
  then have *: "bm_bit (word_shifted ws bm) j \<longleftrightarrow> ws \<le> q \<and> bit (bm ! (q - ws)) r"
    using assms(1) r unfolding jq by (simp add: bm_bit_at word_shifted_nth)
  show ?thesis
  proof (cases "ws \<le> q")
    case True
    then have "j - 64 * ws = 64 * (q - ws) + r" "64 * ws \<le> j" by (simp_all add: jq)
    then show ?thesis using * True r by (simp add: bm_bit_at)
  next
    case False
    then have "\<not> 64 * ws \<le> j" using r jq by linarith
    then show ?thesis using * False by simp
  qed
qed

lemma shift_bitmap_eq:
  assumes "s < 2048"
  shows "shift_bitmap s bm = (if s mod 64 > 0 then carry_shift (s mod 64) 0 (word_shifted (s div 64) bm)
           else word_shifted (s div 64) bm)"
  using assms by (simp add: shift_bitmap_def word_shifted_def Let_def)

lemma length_shift_bitmap [simp]: "length bm = 32 \<Longrightarrow> length (shift_bitmap s bm) = 32"
  by (cases "s < 2048") (simp add: shift_bitmap_eq, simp add: shift_bitmap_def)

text \<open>\<^verbatim>\<open>shift_bitmap\<close> is a left shift of the whole 2048-bit array.\<close>

lemma bm_bit_shift_bitmap:
  assumes "length bm = 32" "s < 2048" "j < 2048"
  shows "bm_bit (shift_bitmap s bm) j \<longleftrightarrow> s \<le> j \<and> bm_bit bm (j - s)"
proof -
  have ws: "s div 64 \<le> length bm" and len: "length (word_shifted (s div 64) bm) = 32"
    using assms by simp_all
  have s: "s = 64 * (s div 64) + s mod 64" by simp
  show ?thesis
  proof (cases "s mod 64 = 0")
    case True
    then show ?thesis
      using assms bm_bit_word_shifted [OF ws, of j] s by (simp add: shift_bitmap_eq)
  next
    case False
    then have "bm_bit (shift_bitmap s bm) j \<longleftrightarrow>
        s mod 64 \<le> j \<and> bm_bit (word_shifted (s div 64) bm) (j - s mod 64)"
      using assms len by (simp add: shift_bitmap_eq bm_bit_carry_shift)
    also have "\<dots> \<longleftrightarrow> s mod 64 \<le> j \<and> 64 * (s div 64) \<le> j - s mod 64 \<and> bm_bit bm (j - s mod 64 - 64 * (s div 64))"
      using assms bm_bit_word_shifted [OF ws, of "j - s mod 64"] by auto
    also have "\<dots> \<longleftrightarrow> s \<le> j \<and> bm_bit bm (j - s)"
      using s by (metis add.commute add_leD2 diff_diff_left le_diff_conv2 )
    finally show ?thesis .
  qed
qed

lemma bm_bit_set:
  assumes "i < 64 * length bm" "j < 64 * length bm"
  shows "bm_bit (bm[i div 64 := (bm ! (i div 64)) OR push_bit (i mod 64) 1]) j \<longleftrightarrow> j = i \<or> bm_bit bm j"
proof -
  have "i div 64 < length bm" using assms by (simp add: div_less_iff_less_mult mult.commute)
  moreover have "j = i \<longleftrightarrow> j div 64 = i div 64 \<and> j mod 64 = i mod 64" by (metis div_mult_mod_eq)
  ultimately show ?thesis
    by (auto simp: bm_bit_def nth_list_update bit_or_iff bit_push_bit_iff bit_exp_iff)
qed

lemma bm_bit_test: "j < 64 * length bm \<Longrightarrow>
   (bm ! (j div 64)) AND push_bit (j mod 64) 1 = 0 \<longleftrightarrow> \<not> bm_bit bm j"
proof -
  have "(x AND push_bit r 1 = 0) = (\<not> bit x r)" if "r < 64" for x :: u64 and r
    using that by (metis and_exp_eq_0_iff_not_bit push_bit_of_1)
  then show ?thesis by (simp add: bm_bit_def)
qed

section \<open>The contract\<close>

lemma admitted_fresh: "set (admitted S cs) \<inter> S = {} \<and> distinct (admitted S cs)"
  by (induction S cs rule: admitted.induct) (auto simp: admissible_def)

lemma admitted_subset: "set (admitted S cs) \<subseteq> set cs - {-1}"
  by (induction S cs rule: admitted.induct) (auto simp: admissible_def)

lemma admitted_all:
  "in_order S cs \<Longrightarrow> distinct cs \<Longrightarrow> set cs \<inter> S = {} \<Longrightarrow> -1 \<notin> set cs \<Longrightarrow> admitted S cs = cs"
  by (induction S cs rule: admitted.induct) (auto simp: admissible_def)

locale replay_guard =
  fixes init :: 'w
    and chk :: "'w \<Rightarrow> u64 \<Rightarrow> (bool, unit) res"
    and acc :: "'w \<Rightarrow> u64 \<Rightarrow> ('w, unit) res"
    and rel :: "'w \<Rightarrow> u64 set \<Rightarrow> bool"
    and lim :: nat
  assumes rel_init: "rel init {}"
    and chk_spec: "rel w S \<Longrightarrow> unat c < lim \<Longrightarrow> chk w c = Ok (admissible S c)"
    and acc_spec: "rel w S \<Longrightarrow> unat c < lim \<Longrightarrow> admissible S c \<Longrightarrow>
          \<exists>w'. acc w c = Ok w' \<and> rel w' (insert c S)"
begin

lemma deliver_refines:
  assumes "rel w S" "\<forall>c\<in>set cs. unat c < lim"
  shows "deliver chk acc w cs = Ok (admitted S cs)"
  using assms
proof (induction cs arbitrary: w S)
  case Nil
  then show ?case by simp
next
  case (Cons c cs)
  then have c: "chk w c = Ok (admissible S c)" by (simp add: chk_spec)
  show ?case
  proof (cases "admissible S c")
    case True
    then obtain w' where "acc w c = Ok w'" "rel w' (insert c S)"
      using acc_spec Cons.prems by (meson list.set_intros(1))
    then show ?thesis using c True Cons by (simp add: res_simps)
  next
    case False
    then show ?thesis using c Cons by (simp add: res_simps)
  qed
qed

lemma delivers_once:
  assumes "\<forall>c\<in>set cs. unat c < lim"
  shows "\<exists>out. deliver chk acc init cs = Ok out \<and> distinct out \<and> set out \<subseteq> set cs - {-1}"
  using deliver_refines [OF rel_init assms] admitted_fresh [of "{}" cs] admitted_subset [of "{}" cs]
  by blast

lemma delivers_all:
  assumes "\<forall>c\<in>set cs. unat c < lim" "in_order {} cs" "distinct cs" "-1 \<notin> set cs"
  shows "deliver chk acc init cs = Ok cs"
  using deliver_refines [OF rel_init assms(1)] admitted_all assms by simp

end

section \<open>The window implements the contract\<close>

lemma window_rel_new: "window_rel ptr ReplayWindow_new {}"
  by (simp add: window_rel_def ReplayWindow_new_def)

lemma as_usize_small: "unat x < 2 ^ ptr \<Longrightarrow> as_usize ptr x = unat x"
  by (simp add: as_usize_def)

lemma unat_diff_le: "c \<le> h \<Longrightarrow> unat (h - c) = unat h - unat (c :: u64)"
  by (simp add: unat_sub)

lemma unat_of_nat_small: "j \<le> unat (x :: u64) \<Longrightarrow> unat (of_nat j :: u64) = j"
  using unsigned_less [of x, where 'a = nat] by (simp add: unat_of_nat)

lemma unat_minus_of_nat: "j \<le> unat (x :: u64) \<Longrightarrow> unat (x - of_nat j) = unat x - j"
  by (simp add: unat_sub word_le_nat_alt unat_of_nat_small)

lemma highest_bound:
  assumes "window_rel ptr w S"
  shows "(\<forall>s\<in>S. unat s < unat c + 2048) \<longleftrightarrow> unat (highest w) < unat c + 2048 \<or> S = {}"
  using assms unfolding window_rel_def by (meson le_less_trans unat_mono word_le_nat_alt empty_iff)

lemma ReplayWindow_check_rel:
  assumes rel: "window_rel ptr w S" and c: "unat c < 2 ^ ptr"
  shows "ReplayWindow_check ptr w c = Ok (admissible S c)"
proof (cases "c > highest w")
  case True
  then have "c \<notin> S" using rel unfolding window_rel_def by (metis leD)
  moreover have "unat (highest w) < unat c + 2048" using True by (simp add: word_less_nat_alt)
  ultimately show ?thesis
    using True highest_bound [OF rel, of c] by (simp add: ReplayWindow_check_def admissible_def)
next
  case False
  let ?d = "unat (highest w) - unat c"
  from False have le: "c \<le> highest w" by simp
  then have d: "as_usize ptr (highest w - c) = ?d"
    using rel by (subst as_usize_small) (auto simp: unat_diff_le window_rel_def)
  have at_d: "highest w - of_nat ?d = c" 
    by (simp add: unat_diff_le [OF le, symmetric])
  show ?thesis
  proof (cases "?d < 2048")
    case True
    then have "bm_bit (bitmap w) ?d \<longleftrightarrow> c \<in> S"
      using rel at_d unfolding window_rel_def by (metis diff_le_self)
    moreover have len: "length (bitmap w) = 32" using rel by (simp add: window_rel_def)
    ultimately have "(bitmap w ! (?d div 64)) AND push_bit (?d mod 64) 1 = 0 \<longleftrightarrow> c \<notin> S"
      using bm_bit_test [of ?d "bitmap w"] True by simp
    then have "ReplayWindow_check ptr w c = Ok (c \<noteq> -1 \<and> c \<notin> S)"
      using False True d len by (simp add: ReplayWindow_check_def Let_def del: push_bit_of_1)
    moreover have "unat (highest w) < unat c + 2048" using True by linarith
    ultimately show ?thesis using highest_bound [OF rel, of c] by (simp add: admissible_def)
  next
    case False
    then have "S \<noteq> {}" using rel by (auto simp: window_rel_def)
    then show ?thesis
      using False \<open>\<not> c > highest w\<close> d highest_bound [OF rel, of c]
      by (auto simp: ReplayWindow_check_def admissible_def)
  qed
qed

lemma window_relI:
  assumes "length bm = 32" "unat h < 2 ^ ptr" "h \<in> S" "\<forall>s\<in>S. s \<le> h"
    and "\<And>j. j < 2048 \<Longrightarrow> j \<le> unat h \<Longrightarrow> bm_bit bm j \<longleftrightarrow> h - of_nat j \<in> S"
  shows "window_rel ptr \<lparr>highest = h, bitmap = bm\<rparr> S"
  using assms by (simp add: window_rel_def)

lemma set_first_word:
  assumes "length bm = 32" "j < 2048"
  shows "bm_bit (bm[0 := bm ! 0 OR 1]) j \<longleftrightarrow> j = 0 \<or> bm_bit bm j"
  using bm_bit_set [of 0 bm j] assms by simp

lemma shifted_window_bit:
  assumes rel: "window_rel ptr w S" and c: "highest w < c" and j: "j < 2048" "0 < j" "j \<le> unat c"
    and s: "s = unat c - unat (highest w)" and bm: "bm = (if s \<ge> 2048 then empty_bitmap else shift_bitmap s (bitmap w))"
  shows "bm_bit bm j \<longleftrightarrow> c - of_nat j \<in> S"
proof -
  have hc: "unat (highest w) < unat c" using c by (simp add: word_less_nat_alt)
  have len: "length (bitmap w) = 32" using rel by (simp add: window_rel_def)
  show ?thesis
  proof (cases "s \<le> j")
    case True
    have "s = unat (c - highest w)" using s c by (simp add: unat_diff_le less_imp_le)
    then have "(of_nat s :: u64) = c - highest w" by simp
    then have "highest w - of_nat (j - s) = c - of_nat j" using True by (simp add: of_nat_diff)
    moreover have "j - s \<le> unat (highest w)" using j s by simp
    ultimately have "bm_bit (bitmap w) (j - s) \<longleftrightarrow> c - of_nat j \<in> S"
      using rel j unfolding window_rel_def by (metis less_imp_diff_less)
    then show ?thesis using True j len bm by (simp add: bm_bit_shift_bitmap)
  next
    case False
    have "unat (c - of_nat j) = unat c - j"
      using j by (simp add: unat_minus_of_nat)
    then have "highest w < c - of_nat j" using False s hc by (simp add: word_less_nat_alt)
    then have "c - of_nat j \<notin> S" using rel unfolding window_rel_def by (metis leD)
    then show ?thesis using False j len bm by (simp add: bm_bit_shift_bitmap)
  qed
qed

lemma ReplayWindow_accept_ahead:
  assumes rel: "window_rel ptr w S" and c: "unat c < 2 ^ ptr" and gt: "highest w < c"
  shows "\<exists>w'. ReplayWindow_accept ptr w c = Ok w' \<and> window_rel ptr w' (insert c S)"
proof -
  let ?s = "unat c - unat (highest w)"
  let ?bm = "if ?s \<ge> 2048 then empty_bitmap else shift_bitmap ?s (bitmap w)"
  have s: "as_usize ptr (c - highest w) = ?s"
    using gt c by (subst as_usize_small) (auto simp: unat_diff_le)
  have len: "length ?bm = 32" using rel by (simp add: window_rel_def)
  have "idx ?bm 0 = (Ok (?bm ! 0) :: (u64, unit) res)" using len by (intro idx_Ok) simp
  then have "ReplayWindow_accept ptr w c = Ok \<lparr>highest = c, bitmap = ?bm[0 := ?bm ! 0 OR 1]\<rparr>"
    using gt by (simp only: ReplayWindow_accept_def Let_def s REPLAY_WINDOW_SIZE_def bind_res.simps if_True)
  moreover have "window_rel ptr \<lparr>highest = c, bitmap = ?bm[0 := ?bm ! 0 OR 1]\<rparr> (insert c S)"
  proof (rule window_relI)
    show "\<forall>s\<in>insert c S. s \<le> c"
      using rel gt unfolding window_rel_def by (metis insert_iff less_imp_le order_trans order_refl)
    fix j assume j: "j < 2048" "j \<le> unat c"
    have "c - of_nat j = c \<longleftrightarrow> j = 0"
      using j unat_minus_of_nat [of j c] by (auto simp: word_unat_eq_iff)
    then show "bm_bit (?bm[0 := ?bm ! 0 OR 1]) j \<longleftrightarrow> c - of_nat j \<in> insert c S"
      using set_first_word [OF len j(1)] shifted_window_bit [OF rel gt j(1) _ j(2) refl refl] by auto
  qed (use len c in simp_all)
  ultimately show ?thesis by blast
qed

lemma ReplayWindow_accept_behind:
  assumes rel: "window_rel ptr w S" and le: "c \<le> highest w" and adm: "admissible S c"
  shows "\<exists>w'. ReplayWindow_accept ptr w c = Ok w' \<and> window_rel ptr w' (insert c S)"
proof -
  let ?d = "unat (highest w) - unat c"
  have d: "as_usize ptr (highest w - c) = ?d"
    using rel le by (subst as_usize_small) (auto simp: unat_diff_le window_rel_def)
  have len: "length (bitmap w) = 32" using rel by (simp add: window_rel_def)
  have d2: "?d < 2048"
    using adm highest_bound [OF rel, of c] rel by (auto simp: admissible_def window_rel_def)
  let ?bm = "(bitmap w)[?d div 64 := (bitmap w ! (?d div 64)) OR push_bit (?d mod 64) 1]"
  have "ReplayWindow_accept ptr w c = Ok \<lparr>highest = highest w, bitmap = ?bm\<rparr>"
    using leD [OF le] d d2 len by (simp add: ReplayWindow_accept_def Let_def)
  moreover have "window_rel ptr \<lparr>highest = highest w, bitmap = ?bm\<rparr> (insert c S)"
  proof (rule window_relI)
    show "highest w \<in> insert c S" using rel le by (auto simp: window_rel_def)
    show "\<forall>s\<in>insert c S. s \<le> highest w" using rel le by (auto simp: window_rel_def)
    fix j assume j: "j < 2048" "j \<le> unat (highest w)"
    have "unat (highest w - of_nat j) = unat (highest w) - j"
      using j by (simp add: unat_minus_of_nat)
    then have "highest w - of_nat j = c \<longleftrightarrow> j = ?d"
      using j le by (auto simp: word_unat_eq_iff word_le_nat_alt)
    then show "bm_bit ?bm j \<longleftrightarrow> highest w - of_nat j \<in> insert c S"
      using bm_bit_set [of ?d "bitmap w" j] len d2 j rel by (auto simp: window_rel_def)
  qed (use len rel in \<open>simp_all add: window_rel_def\<close>)
  ultimately show ?thesis by blast
qed

lemma ReplayWindow_accept_rel:
  "window_rel ptr w S \<Longrightarrow> unat c < 2 ^ ptr \<Longrightarrow> admissible S c \<Longrightarrow>
     \<exists>w'. ReplayWindow_accept ptr w c = Ok w' \<and> window_rel ptr w' (insert c S)"
  using ReplayWindow_accept_ahead ReplayWindow_accept_behind by (meson not_le)

interpretation rw64: replay_guard ReplayWindow_new "ReplayWindow_check 64" "ReplayWindow_accept 64"
    "window_rel 64" "2 ^ 64"
  by unfold_locales (auto intro: window_rel_new ReplayWindow_check_rel ReplayWindow_accept_rel)

interpretation rw32: replay_guard ReplayWindow_new "ReplayWindow_check 32" "ReplayWindow_accept 32"
    "window_rel 32" "2 ^ 32"
  by unfold_locales (auto intro: window_rel_new ReplayWindow_check_rel ReplayWindow_accept_rel)

section \<open>Properties\<close>

text \<open>C4. On a 64-bit target, whatever sequence of authenticated counters a receiver feeds to
  \<^verbatim>\<open>ReplayWindow\<close> (\<^verbatim>\<open>check\<close>, then \<^verbatim>\<open>accept\<close> when it passes), nothing panics and the
  counters accepted are exactly those of the set-based specification: no counter is accepted
  twice, and \<^verbatim>\<open>u64::MAX\<close> never is.\<close>

theorem replay_exactly_once:
  "\<exists>out. deliver (ReplayWindow_check 64) (ReplayWindow_accept 64) ReplayWindow_new cs = Ok out
     \<and> out = admitted {} cs \<and> distinct out \<and> set out \<subseteq> set cs - {-1}"
  using rw64.deliver_refines [OF rw64.rel_init, of cs] rw64.delivers_once [of cs]
    unsigned_less [where 'a = nat and 'b = 64] by simp

text \<open>C25. On a 64-bit target the window rejects nothing it should take: a duplicate-free sequence
  of counters in any order in which no counter lags 2048 or more behind an earlier one is accepted
  in full.\<close>

theorem replay_accepts_reordering:
  assumes "distinct cs" "in_order {} cs" "-1 \<notin> set cs"
  shows "deliver (ReplayWindow_check 64) (ReplayWindow_accept 64) ReplayWindow_new cs = Ok cs"
  using rw64.delivers_all [of cs] unsigned_less [where 'a = nat and 'b = 64] assms by simp

theorem replay_accepts_reordering_witness:
  "deliver (ReplayWindow_check 64) (ReplayWindow_accept 64) ReplayWindow_new
     [2047, 0, 70, 3000, 1000] = Ok [2047, 0, 70, 3000, 1000]"
  by (rule replay_accepts_reordering) simp_all

text \<open>On a 32-bit target the same guarantees hold as long as every counter stays below
  \<open>2 ^ 32\<close>.\<close>

theorem replay_once_32bit:
  assumes "\<forall>c\<in>set cs. unat c < 2 ^ 32"
  shows "\<exists>out. deliver (ReplayWindow_check 32) (ReplayWindow_accept 32) ReplayWindow_new cs = Ok out
     \<and> out = admitted {} cs \<and> distinct out"
  using rw32.deliver_refines [OF rw32.rel_init assms] rw32.delivers_once [OF assms] by auto

theorem replay_once_32bit_witness:
  "\<exists>out. deliver (ReplayWindow_check 32) (ReplayWindow_accept 32) ReplayWindow_new [3, 5, 3] = Ok out
     \<and> out = admitted {} [3, 5, 3] \<and> distinct out"
  by (rule replay_once_32bit) simp


end
