(* ===== verification/MmpReport.thy ===== *)
theory MmpReport
  imports Fmp
begin

text \<open>
  The measurement reports of crates/microfips-core/src/mmp/report.rs on both wire versions.  A report
  is encoded into a zeroed buffer of fixed size; the encoders below write the fields in order with the
  bytes that stay zero between them.  The two body sizes of the IK wire come from the FIPS constants.
\<close>

section \<open>Reports\<close>

definition SENDER_REPORT_SIZE :: "wire \<Rightarrow> nat" where
  [simp]: "SENDER_REPORT_SIZE v = (case v of Wire_IK \<Rightarrow> 48 | Wire_XX \<Rightarrow> 19)"
definition RECEIVER_REPORT_SIZE :: "wire \<Rightarrow> nat" where
  [simp]: "RECEIVER_REPORT_SIZE v = (case v of Wire_IK \<Rightarrow> 68 | Wire_XX \<Rightarrow> 53)"
definition SENDER_REPORT_BODY_SIZE :: "wire \<Rightarrow> nat" where
  [simp]: "SENDER_REPORT_BODY_SIZE v = (case v of Wire_IK \<Rightarrow> 47 | Wire_XX \<Rightarrow> 19)"
definition RECEIVER_REPORT_BODY_SIZE :: "wire \<Rightarrow> nat" where
  [simp]: "RECEIVER_REPORT_BODY_SIZE v = (case v of Wire_IK \<Rightarrow> 67 | Wire_XX \<Rightarrow> 53)"

record sender_report =
  sr_start_counter :: u64
  sr_end_counter :: u64
  sr_start_timestamp :: u32
  sr_end_timestamp :: u32
  sr_interval_bytes :: u32
  sr_cum_packets :: u64
  sr_cum_bytes :: u64

record receiver_report =
  rr_highest_counter :: u64
  rr_cum_packets :: u64
  rr_cum_bytes :: u64
  rr_timestamp_echo :: u32
  rr_dwell_time :: u16
  rr_max_burst_loss :: u16
  rr_mean_burst_loss :: u16
  rr_jitter :: u32
  rr_ecn_ce_count :: u32
  rr_owd_trend :: u32
  rr_burst_loss_count :: u32
  rr_cum_reorder :: u32
  rr_interval_packets :: u32
  rr_interval_bytes :: u32

definition SenderReport_encode :: "wire \<Rightarrow> sender_report \<Rightarrow> bytes" where
  "SenderReport_encode v r =
     (case v of
        Wire_IK \<Rightarrow> [0x01, 0, 0, 0] @ le64 (sr_start_counter r) @ le64 (sr_end_counter r) @
          le32 (sr_start_timestamp r) @ le32 (sr_end_timestamp r) @ le32 (sr_interval_bytes r) @
          le64 (sr_cum_packets r) @ le64 (sr_cum_bytes r)
      | Wire_XX \<Rightarrow>
          (let interval_packets = ucast (if sr_end_counter r < sr_start_counter r then 0
                 else sr_end_counter r - sr_start_counter r) :: u32
           in [0] @ le16 16 @ le32 interval_packets @ le32 (sr_interval_bytes r) @ le64 (sr_cum_packets r)))"

text \<open>The integer at an offset of a body, \<^verbatim>\<open>from_le_bytes(p[a..b].try_into().ok()?)\<close>.\<close>

definition le_at :: "bytes \<Rightarrow> nat \<Rightarrow> nat \<Rightarrow> ('a::len word, unit) res" where
  "le_at p a b = bind_res (slice p a b) (\<lambda>s. Ok (from_le s))"

definition SenderReport_decode :: "wire \<Rightarrow> bytes \<Rightarrow> (sender_report, unit) res" where
  "SenderReport_decode v payload =
     reject_if (length payload < SENDER_REPORT_BODY_SIZE v) ()
       (case v of
          Wire_IK \<Rightarrow>
            bind_res (slice_from payload 3) (\<lambda>p.
            bind_res (le_at p 0 8) (\<lambda>start_ctr. bind_res (le_at p 8 16) (\<lambda>end_ctr.
            bind_res (le_at p 16 20) (\<lambda>start_ts. bind_res (le_at p 20 24) (\<lambda>end_ts.
            bind_res (le_at p 24 28) (\<lambda>nbytes. bind_res (le_at p 28 36) (\<lambda>packets.
            bind_res (le_at p 36 44) (\<lambda>cbytes.
              Ok \<lparr>sr_start_counter = start_ctr, sr_end_counter = end_ctr, sr_start_timestamp = start_ts,
                  sr_end_timestamp = end_ts, sr_interval_bytes = nbytes, sr_cum_packets = packets,
                  sr_cum_bytes = cbytes\<rparr>))))))))
        | Wire_XX \<Rightarrow>
            bind_res (idx payload 0) (\<lambda>fmt.
            reject_if (fmt \<noteq> 0 \<or> length payload < 3 + 16) ()
              (bind_res (slice_from payload 3) (\<lambda>p.
               bind_res (le_at p 0 4) (\<lambda>packets :: u32. bind_res (le_at p 4 8) (\<lambda>nbytes.
               bind_res (le_at p 8 16) (\<lambda>cum.
                 Ok \<lparr>sr_start_counter = 0, sr_end_counter = ucast packets, sr_start_timestamp = 0,
                     sr_end_timestamp = 0, sr_interval_bytes = nbytes, sr_cum_packets = cum,
                     sr_cum_bytes = 0\<rparr>)))))))"

definition ReceiverReport_encode :: "wire \<Rightarrow> receiver_report \<Rightarrow> bytes" where
  "ReceiverReport_encode v r =
     (case v of
        Wire_IK \<Rightarrow> [0x02, 0, 0, 0] @ le64 (rr_highest_counter r) @ le64 (rr_cum_packets r) @
          le64 (rr_cum_bytes r) @ le32 (rr_timestamp_echo r) @ le16 (rr_dwell_time r) @
          le16 (rr_max_burst_loss r) @ le16 (rr_mean_burst_loss r) @ [0, 0] @ le32 (rr_jitter r) @
          le32 (rr_ecn_ce_count r) @ le32 (rr_owd_trend r) @ le32 (rr_burst_loss_count r) @
          le32 (rr_cum_reorder r) @ le32 (rr_interval_packets r) @ le32 (rr_interval_bytes r)
      | Wire_XX \<Rightarrow> [0] @ le16 50 @ le32 (rr_timestamp_echo r) @ le16 (rr_dwell_time r) @
          le64 (rr_highest_counter r) @ le64 (rr_cum_packets r) @ le64 (rr_cum_bytes r) @
          le32 (rr_jitter r) @ le32 (rr_ecn_ce_count r) @ le32 (rr_owd_trend r) @
          le32 (rr_burst_loss_count r) @ le32 (rr_cum_reorder r))"

definition ReceiverReport_decode :: "wire \<Rightarrow> bytes \<Rightarrow> (receiver_report, unit) res" where
  "ReceiverReport_decode v payload =
     reject_if (length payload < RECEIVER_REPORT_BODY_SIZE v) ()
       (case v of
          Wire_IK \<Rightarrow>
            bind_res (slice_from payload 3) (\<lambda>p.
            bind_res (le_at p 0 8) (\<lambda>highest. bind_res (le_at p 8 16) (\<lambda>packets.
            bind_res (le_at p 16 24) (\<lambda>cbytes. bind_res (le_at p 24 28) (\<lambda>echo.
            bind_res (le_at p 28 30) (\<lambda>dwell. bind_res (le_at p 30 32) (\<lambda>maxb.
            bind_res (le_at p 32 34) (\<lambda>meanb. bind_res (le_at p 36 40) (\<lambda>jit.
            bind_res (le_at p 40 44) (\<lambda>ecn. bind_res (le_at p 44 48) (\<lambda>owd.
            bind_res (le_at p 48 52) (\<lambda>burst. bind_res (le_at p 52 56) (\<lambda>reorder.
            bind_res (le_at p 56 60) (\<lambda>ipackets. bind_res (le_at p 60 64) (\<lambda>ibytes.
              Ok \<lparr>rr_highest_counter = highest, rr_cum_packets = packets, rr_cum_bytes = cbytes,
                  rr_timestamp_echo = echo, rr_dwell_time = dwell, rr_max_burst_loss = maxb,
                  rr_mean_burst_loss = meanb, rr_jitter = jit, rr_ecn_ce_count = ecn,
                  rr_owd_trend = owd, rr_burst_loss_count = burst, rr_cum_reorder = reorder,
                  rr_interval_packets = ipackets, rr_interval_bytes = ibytes\<rparr>)))))))))))))))
        | Wire_XX \<Rightarrow>
            bind_res (idx payload 0) (\<lambda>fmt.
            reject_if (fmt \<noteq> 0 \<or> length payload < 3 + 50) ()
              (bind_res (slice_from payload 3) (\<lambda>p.
               bind_res (le_at p 6 14) (\<lambda>highest. bind_res (le_at p 14 22) (\<lambda>packets.
               bind_res (le_at p 22 30) (\<lambda>cbytes. bind_res (le_at p 0 4) (\<lambda>echo.
               bind_res (le_at p 4 6) (\<lambda>dwell. bind_res (le_at p 30 34) (\<lambda>jit.
               bind_res (le_at p 34 38) (\<lambda>ecn. bind_res (le_at p 38 42) (\<lambda>owd.
               bind_res (le_at p 42 46) (\<lambda>burst. bind_res (le_at p 46 50) (\<lambda>reorder.
                 Ok \<lparr>rr_highest_counter = highest, rr_cum_packets = packets, rr_cum_bytes = cbytes,
                     rr_timestamp_echo = echo, rr_dwell_time = dwell, rr_max_burst_loss = 0,
                     rr_mean_burst_loss = 0, rr_jitter = jit, rr_ecn_ce_count = ecn,
                     rr_owd_trend = owd, rr_burst_loss_count = burst, rr_cum_reorder = reorder,
                     rr_interval_packets = 0, rr_interval_bytes = 0\<rparr>)))))))))))))) "

text \<open>What each wire carries of a report, and the body its decoder reads: the IK encoders put the
  message type in front of the body, the XX encoders do not.\<close>

definition sent_sender_report :: "wire \<Rightarrow> sender_report \<Rightarrow> sender_report" where
  "sent_sender_report v r =
     (case v of
        Wire_IK \<Rightarrow> r
      | Wire_XX \<Rightarrow> r\<lparr>sr_start_counter := 0, sr_start_timestamp := 0, sr_end_timestamp := 0, sr_cum_bytes := 0,
          sr_end_counter := (if sr_end_counter r < sr_start_counter r then 0
             else take_bit 32 (sr_end_counter r - sr_start_counter r))\<rparr>)"

definition sent_receiver_report :: "wire \<Rightarrow> receiver_report \<Rightarrow> receiver_report" where
  "sent_receiver_report v r =
     (case v of
        Wire_IK \<Rightarrow> r
      | Wire_XX \<Rightarrow> r\<lparr>rr_max_burst_loss := 0, rr_mean_burst_loss := 0, rr_interval_packets := 0,
          rr_interval_bytes := 0\<rparr>)"

definition report_body :: "wire \<Rightarrow> bytes \<Rightarrow> bytes" where
  "report_body v encoded = (case v of Wire_IK \<Rightarrow> drop 1 encoded | Wire_XX \<Rightarrow> encoded)"

section \<open>Lemmas\<close>

text \<open>The field at an offset: skip what lies before it, then read it.\<close>

lemma le_at_skip:
  "length x \<le> a \<Longrightarrow> a \<le> b \<Longrightarrow> le_at (x @ y) a b = le_at y (a - length x) (b - length x)"
  by (auto simp: le_at_def slice_def)

lemma le_at_hit:
  fixes w :: "'a::len word"
  assumes "b = n" "LENGTH('a) \<le> 8 * n"
  shows "le_at (to_le n w @ y) 0 b = Ok w"
  using assms by (simp add: le_at_def)

lemma le_at_hit_last:
  fixes w :: "'a::len word"
  assumes "b = n" "LENGTH('a) \<le> 8 * n"
  shows "le_at (to_le n w) 0 b = Ok w"
  using assms by (simp add: le_at_def)

lemma le_at_Cons:
  assumes "0 < a" "a \<le> b"
  shows "le_at (x # y) a b = le_at y (a - 1) (b - 1)"
  using le_at_skip [of "[x]" a b y] assms by simp

lemmas le_fields = le_at_Cons le_at_skip le_at_hit le_at_hit_last

lemma ucast_u32_u64: "ucast (ucast (x :: u64) :: u32) = (take_bit 32 x :: u64)"
  by (rule bit_word_eqI) (auto simp: bit_ucast_iff bit_take_bit_iff)

lemma SenderReport_roundtrip_aux:
  "SenderReport_decode v (report_body v (SenderReport_encode v r)) = Ok (sent_sender_report v r)"
  by (cases r; cases v) (simp_all add: SenderReport_decode_def SenderReport_encode_def report_body_def
      sent_sender_report_def reject_if_def le_fields Let_def ucast_u32_u64)

lemma ReceiverReport_roundtrip_aux:
  "ReceiverReport_decode v (report_body v (ReceiverReport_encode v r)) = Ok (sent_receiver_report v r)"
  by (cases r; cases v) (simp_all add: ReceiverReport_decode_def ReceiverReport_encode_def report_body_def
      sent_receiver_report_def reject_if_def le_fields Let_def)

text \<open>Reading a field one byte early multiplies it by 256.\<close>

lemma from_le_shifted: "from_le (0 # take 7 (le64 w)) = (push_bit 8 w :: u64)"
proof (rule bit_word_eqI)
  fix i assume i: "i < LENGTH(64)"
  show "bit (from_le (0 # take 7 (le64 w)) :: u64) i = bit (push_bit 8 w) i"
  proof (cases "i < 8")
    case True
    then show ?thesis by (simp add: bit_from_le bit_push_bit_iff)
  next
    case False
    then have "i div 8 = Suc ((i - 8) div 8)" "i mod 8 = (i - 8) mod 8" "(i - 8) div 8 < 7"
      using i by (simp_all add: le_div_geq le_mod_geq) 
    then show ?thesis using False i
      by (simp add: bit_from_le bit_push_bit_iff nth_to_le bit_ucast_iff bit_drop_bit_eq)
  qed
qed

lemma le_at_early: "le_at (0 # le64 w @ y) 0 8 = Ok (push_bit 8 w :: u64)"
  by (simp add: le_at_def from_le_shifted)

lemma reports_misread_aux:
  "\<exists>s'. SenderReport_decode Wire_IK (SenderReport_encode Wire_IK s) = Ok s' \<and>
     sr_start_counter s' = push_bit 8 (sr_start_counter s)"
  "\<exists>r'. ReceiverReport_decode Wire_IK (ReceiverReport_encode Wire_IK r) = Ok r' \<and>
     rr_highest_counter r' = push_bit 8 (rr_highest_counter r)"
  by (simp_all add: SenderReport_decode_def SenderReport_encode_def ReceiverReport_decode_def
      ReceiverReport_encode_def reject_if_def le_at_early) (simp_all add: le_at_def)

section \<open>Properties\<close>


text \<open>On the IK wire the encoded report already begins with the message type that the link layer
  adds again, so a receiver that decodes what follows the link's own type byte reads every field one
  byte early: the counters of both reports arrive multiplied by 256.\<close>

theorem mmp_ik_reports_misread:
  "\<exists>s' r'. SenderReport_decode Wire_IK (SenderReport_encode Wire_IK s) = Ok s' \<and>
     sr_start_counter s' = push_bit 8 (sr_start_counter s) \<and>
     ReceiverReport_decode Wire_IK (ReceiverReport_encode Wire_IK r) = Ok r' \<and>
     rr_highest_counter r' = push_bit 8 (rr_highest_counter r)"
  using reports_misread_aux(1) [of s] reports_misread_aux(2) [of r] by blast

end
