(* ===== verification/PeerPolicy.thy ===== *)
theory PeerPolicy
  imports Prelude
begin

text \<open>
  The peer policy, crates/microfips-protocol/src/peer\_policy.rs: reconnect back-off, frame-rate
  window, silent-peer and bad-frame limits.  An \<^verbatim>\<open>Instant\<close> is its time since boot in
  microseconds (the tick of embassy-time).  Unsigned counters are natural numbers with the saturation of
  \<^verbatim>\<open>saturating_add\<close> and \<^verbatim>\<open>saturating_mul\<close> written out.
\<close>

section \<open>Saturating arithmetic and time\<close>

definition sat_add :: "nat \<Rightarrow> nat \<Rightarrow> nat \<Rightarrow> nat" where
  "sat_add w a b = min (a + b) (2 ^ w - 1)"

definition sat_mul :: "nat \<Rightarrow> nat \<Rightarrow> nat \<Rightarrow> nat" where
  "sat_mul w a b = min (a * b) (2 ^ w - 1)"

type_synonym instant = nat

definition as_millis :: "instant \<Rightarrow> nat" where
  "as_millis t = t div 1000"

definition as_secs :: "instant \<Rightarrow> nat" where
  "as_secs t = t div 1000000"

section \<open>The policy\<close>

definition DEFAULT_RETRY_BASE_INTERVAL_SECS :: nat where [simp]: "DEFAULT_RETRY_BASE_INTERVAL_SECS = 5"
definition DEFAULT_RETRY_MAX_BACKOFF_SECS :: nat where [simp]: "DEFAULT_RETRY_MAX_BACKOFF_SECS = 300"
definition DEFAULT_FRAME_RATE_WINDOW_MS :: nat where [simp]: "DEFAULT_FRAME_RATE_WINDOW_MS = 1000"
definition DEFAULT_LINK_DEAD_TIMEOUT_SECS :: nat where [simp]: "DEFAULT_LINK_DEAD_TIMEOUT_SECS = 30"
definition FRAME_RATE_MAX :: nat where [simp]: "FRAME_RATE_MAX = 100"
definition SILENT_PEER_MIN_DATA_RATIO :: nat where [simp]: "SILENT_PEER_MIN_DATA_RATIO = 1"
definition MAX_CONSECUTIVE_BAD :: nat where [simp]: "MAX_CONSECUTIVE_BAD = 20"
definition MAX_CONSECUTIVE_FAILURES :: nat where [simp]: "MAX_CONSECUTIVE_FAILURES = 20"
definition MAX_TOTAL_RECONNECT_ATTEMPTS :: nat where [simp]: "MAX_TOTAL_RECONNECT_ATTEMPTS = 100"
definition FAILURE_RESET_WINDOW_SECS :: nat where [simp]: "FAILURE_RESET_WINDOW_SECS = 3600"
definition MAX_TOTAL_BAD_FRAMES :: nat where [simp]: "MAX_TOTAL_BAD_FRAMES = 100"

record peer_policy_timing =
  retry_base_interval_secs :: nat
  retry_max_backoff_secs :: nat
  frame_rate_window_ms :: nat
  link_dead_timeout_secs :: nat

definition PeerPolicyTiming_default :: peer_policy_timing where
  "PeerPolicyTiming_default = \<lparr>retry_base_interval_secs = DEFAULT_RETRY_BASE_INTERVAL_SECS,
     retry_max_backoff_secs = DEFAULT_RETRY_MAX_BACKOFF_SECS,
     frame_rate_window_ms = DEFAULT_FRAME_RATE_WINDOW_MS,
     link_dead_timeout_secs = DEFAULT_LINK_DEAD_TIMEOUT_SECS\<rparr>"

record peer_policy =
  pp_timing :: peer_policy_timing
  last_connect :: "instant option"
  consecutive_failures :: nat
  total_reconnect_attempts :: nat
  first_failure_time :: "instant option"
  frame_count :: nat
  frame_window_start :: instant
  data_frames_recv :: nat
  heartbeats_recv :: nat
  session_start :: "instant option"
  consecutive_bad_frames :: nat
  total_bad_frames :: nat

datatype policy_verdict = Allow | Backoff nat | Reject

definition PeerPolicy_with_timing :: "instant \<Rightarrow> peer_policy_timing \<Rightarrow> peer_policy" where
  "PeerPolicy_with_timing now timing = \<lparr>pp_timing = timing, last_connect = None, consecutive_failures = 0,
     total_reconnect_attempts = 0, first_failure_time = None, frame_count = 0, frame_window_start = now,
     data_frames_recv = 0, heartbeats_recv = 0, session_start = None, consecutive_bad_frames = 0,
     total_bad_frames = 0\<rparr>"

definition PeerPolicy_new :: "instant \<Rightarrow> peer_policy" where
  "PeerPolicy_new now = PeerPolicy_with_timing now PeerPolicyTiming_default"

text \<open>
  \<^verbatim>\<open>check_reconnect\<close> changes two \<^verbatim>\<open>Cell\<close> fields; \<open>required_ms\<close> is its middle part, from the failure
  count to the required distance.
\<close>

definition required_ms :: "peer_policy_timing \<Rightarrow> nat \<Rightarrow> nat" where
  "required_ms t failures =
     (let base_interval_ms = sat_mul 64 (retry_base_interval_secs t) 1000;
          max_backoff_ms = sat_mul 64 (retry_max_backoff_secs t) 1000;
          failure_backoff_ms =
            (if failures \<ge> MAX_CONSECUTIVE_FAILURES then max_backoff_ms
             else if failures = 0 then 0
             else let shift = min (failures - 1) 15 in min (sat_mul 64 base_interval_ms (2 ^ shift)) max_backoff_ms)
      in max base_interval_ms failure_backoff_ms)"

definition check_reconnect :: "instant \<Rightarrow> peer_policy \<Rightarrow> policy_verdict \<times> peer_policy" where
  "check_reconnect now p =
     (if total_reconnect_attempts p \<ge> MAX_TOTAL_RECONNECT_ATTEMPTS then (Reject, p)
      else let p1 = (case first_failure_time p of
              Some t \<Rightarrow> if as_secs now - as_secs t > FAILURE_RESET_WINDOW_SECS
                 then p\<lparr>consecutive_failures := 0, first_failure_time := None\<rparr> else p
            | None \<Rightarrow> p)
        in case last_connect p1 of
             None \<Rightarrow> (Allow, p1)
           | Some lc \<Rightarrow> let elapsed_ms = as_millis now - as_millis lc; req = required_ms (pp_timing p1) (consecutive_failures p1) in
               if elapsed_ms < req then (Backoff (req - elapsed_ms), p1) else (Allow, p1))"

definition check_frame_rate :: "instant \<Rightarrow> peer_policy \<Rightarrow> policy_verdict \<times> peer_policy" where
  "check_frame_rate now p =
     (let elapsed_ms = as_millis now - as_millis (frame_window_start p);
          p1 = (if elapsed_ms \<ge> frame_rate_window_ms (pp_timing p)
                then p\<lparr>frame_window_start := now, frame_count := 0\<rparr> else p)
      in if frame_count p1 \<ge> FRAME_RATE_MAX
         then (Reject, p1\<lparr>frame_window_start := now, frame_count := 0\<rparr>)
         else (Allow, p1\<lparr>frame_count := sat_add 16 (frame_count p1) 1\<rparr>))"

definition reset_session :: "peer_policy \<Rightarrow> peer_policy" where
  "reset_session p = p\<lparr>data_frames_recv := 0, heartbeats_recv := 0, session_start := None,
     consecutive_bad_frames := 0, total_bad_frames := 0\<rparr>"

definition record_handshake_ok :: "instant \<Rightarrow> peer_policy \<Rightarrow> peer_policy" where
  "record_handshake_ok now p =
     (reset_session (p\<lparr>consecutive_failures := 0, total_reconnect_attempts := 0, first_failure_time := None\<rparr>))
       \<lparr>session_start := Some now\<rparr>"

definition record_handshake_failure :: "instant \<Rightarrow> peer_policy \<Rightarrow> peer_policy" where
  "record_handshake_failure now p =
     (let p1 = p\<lparr>consecutive_failures := sat_add 16 (consecutive_failures p) 1,
                 total_reconnect_attempts := sat_add 32 (total_reconnect_attempts p) 1\<rparr>;
          p2 = (if first_failure_time p1 = None then p1\<lparr>first_failure_time := Some now\<rparr> else p1)
      in p2\<lparr>last_connect := Some now\<rparr>)"

definition record_connect_attempt :: "instant \<Rightarrow> peer_policy \<Rightarrow> peer_policy" where
  "record_connect_attempt now p = p\<lparr>last_connect := Some now\<rparr>"

definition record_data_frame :: "peer_policy \<Rightarrow> peer_policy" where
  "record_data_frame p = p\<lparr>data_frames_recv := sat_add 32 (data_frames_recv p) 1\<rparr>"

definition record_heartbeat :: "peer_policy \<Rightarrow> peer_policy" where
  "record_heartbeat p = p\<lparr>heartbeats_recv := sat_add 32 (heartbeats_recv p) 1\<rparr>"

definition record_bad_frame :: "peer_policy \<Rightarrow> peer_policy" where
  "record_bad_frame p = p\<lparr>consecutive_bad_frames := sat_add 16 (consecutive_bad_frames p) 1,
     total_bad_frames := sat_add 32 (total_bad_frames p) 1\<rparr>"

definition record_good_frame :: "peer_policy \<Rightarrow> peer_policy" where
  "record_good_frame p = p\<lparr>consecutive_bad_frames := 0\<rparr>"

definition check_silent_peer :: "instant \<Rightarrow> peer_policy \<Rightarrow> policy_verdict" where
  "check_silent_peer now p =
     (case session_start p of None \<Rightarrow> Allow
      | Some ss \<Rightarrow> if as_secs now - as_secs ss > link_dead_timeout_secs (pp_timing p)
             \<and> data_frames_recv p < SILENT_PEER_MIN_DATA_RATIO \<and> heartbeats_recv p > 0
          then Reject else Allow)"

definition check_bad_frame_limit :: "peer_policy \<Rightarrow> policy_verdict" where
  "check_bad_frame_limit p = (if consecutive_bad_frames p \<ge> MAX_CONSECUTIVE_BAD then Reject else Allow)"

definition check_total_bad_frame_limit :: "peer_policy \<Rightarrow> policy_verdict" where
  "check_total_bad_frame_limit p = (if total_bad_frames p \<ge> MAX_TOTAL_BAD_FRAMES then Reject else Allow)"

definition set_session_start :: "instant \<Rightarrow> peer_policy \<Rightarrow> peer_policy" where
  "set_session_start t p = p\<lparr>session_start := Some t\<rparr>"

section \<open>Histories\<close>

text \<open>The operations a node performs on its policy, and the policy after a history of them.\<close>

datatype policy_op =
    OpCheckReconnect instant | OpFrameRate instant | OpHandshakeOk instant | OpHandshakeFailure instant
  | OpConnectAttempt instant | OpData | OpHeartbeat | OpBadFrame | OpGoodFrame | OpResetSession

fun apply_op :: "policy_op \<Rightarrow> peer_policy \<Rightarrow> peer_policy" where
  "apply_op (OpCheckReconnect t) p = snd (check_reconnect t p)"
| "apply_op (OpFrameRate t) p = snd (check_frame_rate t p)"
| "apply_op (OpHandshakeOk t) p = record_handshake_ok t p"
| "apply_op (OpHandshakeFailure t) p = record_handshake_failure t p"
| "apply_op (OpConnectAttempt t) p = record_connect_attempt t p"
| "apply_op OpData p = record_data_frame p"
| "apply_op OpHeartbeat p = record_heartbeat p"
| "apply_op OpBadFrame p = record_bad_frame p"
| "apply_op OpGoodFrame p = record_good_frame p"
| "apply_op OpResetSession p = reset_session p"

definition is_handshake_ok :: "policy_op \<Rightarrow> bool" where
  "is_handshake_ok op = (case op of OpHandshakeOk _ \<Rightarrow> True | _ \<Rightarrow> False)"

fun frame_rate_run :: "instant list \<Rightarrow> peer_policy \<Rightarrow> policy_verdict list" where
  "frame_rate_run [] p = []"
| "frame_rate_run (t # ts) p = (case check_frame_rate t p of (v, p') \<Rightarrow> v # frame_rate_run ts p')"

section \<open>Lemmas\<close>

lemma required_ms_default:
  "required_ms PeerPolicyTiming_default n =
     (if n = 0 then 5000 else if n \<ge> 20 then 300000 else min (5000 * 2 ^ min (n - 1) 15) 300000)"
proof -
  have "5000 * (2::nat) ^ k \<ge> 5000" for k by simp
  moreover have "(5000::nat) * 2 ^ k \<le> 2 ^ 64 - 1" if "k \<le> 15" for k
  proof -
    have "(2::nat) ^ k \<le> 2 ^ 15" using that by (intro power_increasing) simp_all
    then show ?thesis by simp
  qed
  ultimately show ?thesis
    by (simp add: required_ms_def PeerPolicyTiming_default_def sat_mul_def Let_def min_def max_def)
qed

lemma total_attempts_kept:
  "\<not> is_handshake_ok op \<Longrightarrow> total_reconnect_attempts p \<ge> 100 \<Longrightarrow> total_reconnect_attempts (apply_op op p) \<ge> 100"
  by (cases op) (auto simp: is_handshake_ok_def check_reconnect_def check_frame_rate_def record_handshake_failure_def
      record_connect_attempt_def record_data_frame_def record_heartbeat_def record_bad_frame_def record_good_frame_def
      reset_session_def sat_add_def Let_def split: option.splits)

lemma total_attempts_kept_fold:
  "\<forall>op\<in>set ops. \<not> is_handshake_ok op \<Longrightarrow> total_reconnect_attempts p \<ge> 100 \<Longrightarrow>
     total_reconnect_attempts (fold apply_op ops p) \<ge> 100"
  by (induction ops arbitrary: p) (simp_all add: total_attempts_kept)

lemma frame_rate_run_allow:
  assumes "\<forall>t\<in>set ts. as_millis t - as_millis (frame_window_start p) < frame_rate_window_ms (pp_timing p)"
    and "frame_count p + length ts \<le> 100"
  shows "frame_rate_run (ts @ us) p = replicate (length ts) Allow @
      frame_rate_run us (p\<lparr>frame_count := frame_count p + length ts\<rparr>)"
  using assms
proof (induction ts arbitrary: p)
  case Nil
  then show ?case by simp
next
  case (Cons t ts)
  then have "check_frame_rate t p = (Allow, p\<lparr>frame_count := frame_count p + 1\<rparr>)"
    by (auto simp: check_frame_rate_def Let_def sat_add_def)
  then show ?case using Cons.IH [of "p\<lparr>frame_count := frame_count p + 1\<rparr>"] Cons.prems by simp
qed

lemma failures_count:
  "length ts < 2 ^ 32 - total_reconnect_attempts p \<Longrightarrow>
     total_reconnect_attempts (fold apply_op (map OpHandshakeFailure ts) p) = total_reconnect_attempts p + length ts"
  by (induction ts arbitrary: p) (simp_all add: record_handshake_failure_def sat_add_def Let_def)

lemma required_ms_default_le: "required_ms PeerPolicyTiming_default n \<le> 300000"
  "5000 \<le> required_ms PeerPolicyTiming_default n"
proof -
  have "5000 * (2::nat) ^ k \<ge> 5000" for k by simp
  then show "required_ms PeerPolicyTiming_default n \<le> 300000" "5000 \<le> required_ms PeerPolicyTiming_default n"
    by (simp_all add: required_ms_default)
qed

section \<open>Properties\<close>

text \<open>The reconnect back-off of the default policy is bounded and honest: a back-off verdict asks
  for a positive delay of at most five minutes, and the policy allows the connection when that delay
  has passed.\<close>

theorem reconnect_backoff_bounded:
  assumes "pp_timing p = PeerPolicyTiming_default" "fst (check_reconnect now p) = Backoff d"
    and "case last_connect p of Some lc \<Rightarrow> lc \<le> now | None \<Rightarrow> True"
  shows "0 < d \<and> d \<le> 300000 \<and> fst (check_reconnect (now + 1000 * d) (snd (check_reconnect now p))) = Allow"
proof -
  obtain lc where lc: "last_connect p = Some lc" "lc \<le> now"
    using assms(2,3) by (auto simp: check_reconnect_def Let_def split: if_splits option.splits)
  define p1 where "p1 = snd (check_reconnect now p)"
  have p1: "pp_timing p1 = PeerPolicyTiming_default" "last_connect p1 = Some lc" "total_reconnect_attempts p1 < 100"
    and d: "d = required_ms PeerPolicyTiming_default (consecutive_failures p1) - (as_millis now - as_millis lc)"
      "as_millis now - as_millis lc < required_ms PeerPolicyTiming_default (consecutive_failures p1)"
    using assms(1,2) lc by (auto simp: p1_def check_reconnect_def Let_def split: if_splits option.splits)
  have "required_ms PeerPolicyTiming_default 0 \<le> required_ms PeerPolicyTiming_default (consecutive_failures p1)"
    using required_ms_default_le(2) by (simp add: required_ms_default [of 0])
  moreover have "as_millis (now + 1000 * d) = as_millis now + d" "as_millis lc \<le> as_millis now"
    using lc(2) by (simp_all add: as_millis_def div_le_mono)
  ultimately have "fst (check_reconnect (now + 1000 * d) p1) = Allow"
    using p1 d by (auto simp: check_reconnect_def Let_def split: option.splits)
  then show ?thesis using d required_ms_default_le(1) [of "consecutive_failures p1"] by (simp add: p1_def)
qed

theorem reconnect_backoff_bounded_witness:
  "let p = record_handshake_failure 1000000 (PeerPolicy_new 0) in
   0 < (4000 :: nat) \<and> (4000 :: nat) \<le> 300000
     \<and> fst (check_reconnect (2000000 + 1000 * 4000) (snd (check_reconnect 2000000 p))) = Allow"
  unfolding Let_def
  by (rule reconnect_backoff_bounded)
    (simp_all add: record_handshake_failure_def PeerPolicy_new_def PeerPolicy_with_timing_def check_reconnect_def
      required_ms_default sat_add_def as_secs_def as_millis_def Let_def)

text \<open>After a hundred failed handshakes in a row the policy refuses to reconnect for good: whatever
  is recorded afterwards short of a successful handshake, and however much time passes, the verdict
  stays \<open>Reject\<close>.\<close>

theorem reconnect_reject_permanent:
  assumes "100 \<le> length ts" "length ts < 2 ^ 32" "\<forall>op\<in>set ops. \<not> is_handshake_ok op"
  shows "fst (check_reconnect now (fold apply_op ops (fold apply_op (map OpHandshakeFailure ts) (PeerPolicy_new t0)))) = Reject"
proof -
  have "total_reconnect_attempts (fold apply_op (map OpHandshakeFailure ts) (PeerPolicy_new t0)) \<ge> 100"
    using failures_count [of ts "PeerPolicy_new t0"] assms
    by (simp add: PeerPolicy_new_def PeerPolicy_with_timing_def)
  then show ?thesis
    using total_attempts_kept_fold [OF assms(3)] by (simp add: check_reconnect_def)
qed

theorem reconnect_reject_permanent_witness:
  "fst (check_reconnect (10 ^ 9) (fold apply_op [OpCheckReconnect (10 ^ 8), OpConnectAttempt (10 ^ 8)]
     (fold apply_op (map OpHandshakeFailure (replicate 100 5)) (PeerPolicy_new 0)))) = Reject"
  by (rule reconnect_reject_permanent) (simp_all add: is_handshake_ok_def)

text \<open>Within one rate window, counted from its start, exactly the first hundred frames are allowed
  and the next one is rejected.\<close>

theorem frame_rate_window_limit:
  assumes "frame_count p = 0" "length ts = 100"
    and "\<forall>t\<in>set (ts @ [u]). as_millis t - as_millis (frame_window_start p) < frame_rate_window_ms (pp_timing p)"
  shows "frame_rate_run (ts @ [u]) p = replicate 100 Allow @ [Reject]"
  using assms frame_rate_run_allow [of ts p "[u]"] by (simp add: check_frame_rate_def Let_def)

theorem frame_rate_window_limit_witness:
  "frame_rate_run (replicate 100 17 @ [18]) (PeerPolicy_new 0) = replicate 100 Allow @ [Reject]"
  by (rule frame_rate_window_limit)
    (simp_all add: PeerPolicy_new_def PeerPolicy_with_timing_def PeerPolicyTiming_default_def as_millis_def)

end
