(* ===== verification/Mmp.thy ===== *)
theory Mmp
  imports MmpReport PeerPolicy "HOL-Library.Signed_Division"
begin

text \<open>
  The link measurement state: the estimators of crates/microfips-core/src/mmp/algorithms.rs and the
  sender, receiver and metrics state of crates/microfips-protocol/src/mmp.

  Signed 64-bit quantities are \<open>int\<close>.  Floating point enters in three places whose results reach the
  protocol: the mean burst length, the delay trend and the smoothed round-trip time that is divided by
  1000.0 and multiplied by 1000.0 again.  They are the fields of the parameter \<open>f64_ops\<close>; nothing below
  assumes anything of them.  The floating-point trends, delivery ratios and the ETX of MmpMetrics are
  only displayed and are left out, as are the counters of mmp/stats.rs.  \<^verbatim>\<open>duration_since\<close> is
  subtraction: the clock is monotone.
\<close>

section \<open>Estimators\<close>

definition uadd_sat :: "'a::len word \<Rightarrow> 'a word \<Rightarrow> 'a word" where
  "uadd_sat a b = (if a + b < a then - 1 else a + b)"

record f64_ops =
  f_mean_q8 :: "u64 \<Rightarrow> u32 \<Rightarrow> u16"
  f_trend :: "(u32 \<times> int) list \<Rightarrow> u32"
  f_srtt_us :: "int \<Rightarrow> int"

record jitter_estimator =
  jitter_q4 :: int

definition JitterEstimator_new :: jitter_estimator where
  "JitterEstimator_new = \<lparr>jitter_q4 = 0\<rparr>"

definition JitterEstimator_update :: "jitter_estimator \<Rightarrow> int \<Rightarrow> jitter_estimator" where
  "JitterEstimator_update j transit_delta =
     (let abs_d = \<bar>transit_delta\<bar> in j\<lparr>jitter_q4 := jitter_q4 j + (abs_d - jitter_q4 j div 16)\<rparr>)"

definition jitter_us :: "jitter_estimator \<Rightarrow> u32" where
  "jitter_us j = word_of_int (jitter_q4 j div 16)"

definition I64_MAX :: int where "I64_MAX = 2 ^ 63 - 1"

record srtt_estimator =
  srtt_us :: int
  rttvar_us :: int
  srtt_initialized :: bool
  srtt_count :: u32
  min_rtt_us :: int

definition SrttEstimator_new :: srtt_estimator where
  "SrttEstimator_new = \<lparr>srtt_us = 0, rttvar_us = 0, srtt_initialized = False, srtt_count = 0, min_rtt_us = I64_MAX\<rparr>"

definition SrttEstimator_update :: "srtt_estimator \<Rightarrow> int \<Rightarrow> srtt_estimator" where
  "SrttEstimator_update s rtt_us =
     (let s1 =
        (if \<not> srtt_initialized s
         then s\<lparr>srtt_us := rtt_us, rttvar_us := rtt_us sdiv 2, srtt_initialized := True\<rparr>
         else let err = \<bar>srtt_us s - rtt_us\<bar>
              in s\<lparr>rttvar_us := rttvar_us s - rttvar_us s div 4 + err div 4,
                   srtt_us := srtt_us s - srtt_us s div 8 + rtt_us div 8\<rparr>)
      in s1\<lparr>min_rtt_us := min (min_rtt_us s1) rtt_us, srtt_count := srtt_count s1 + 1\<rparr>)"

definition SrttEstimator_reset :: "srtt_estimator \<Rightarrow> srtt_estimator" where
  "SrttEstimator_reset s = s\<lparr>srtt_us := 0, rttvar_us := 0, min_rtt_us := I64_MAX, srtt_initialized := False,
     srtt_count := 0\<rparr>"

definition rto_us :: "srtt_estimator \<Rightarrow> int" where
  "rto_us s = (let rto = srtt_us s + max (rttvar_us s * 4) 1000000 in max rto 1000000)"

definition DEFAULT_OWD_WINDOW_SIZE :: nat where [simp]: "DEFAULT_OWD_WINDOW_SIZE = 32"

record owd_trend_detector =
  owd_samples :: "(u32 \<times> int) list"
  owd_len :: nat
  owd_head :: nat
  owd_capacity :: nat

definition OwdTrendDetector_with_capacity :: "nat \<Rightarrow> owd_trend_detector" where
  "OwdTrendDetector_with_capacity capacity =
     (let capacity = max 1 (min capacity DEFAULT_OWD_WINDOW_SIZE)
      in \<lparr>owd_samples = replicate DEFAULT_OWD_WINDOW_SIZE (0, 0), owd_len = 0, owd_head = 0,
          owd_capacity = capacity\<rparr>)"

definition OwdTrendDetector_new :: owd_trend_detector where
  "OwdTrendDetector_new = OwdTrendDetector_with_capacity DEFAULT_OWD_WINDOW_SIZE"

definition OwdTrendDetector_clear :: "owd_trend_detector \<Rightarrow> owd_trend_detector" where
  "OwdTrendDetector_clear d = d\<lparr>owd_len := 0, owd_head := 0\<rparr>"

definition OwdTrendDetector_push :: "owd_trend_detector \<Rightarrow> u32 \<Rightarrow> int \<Rightarrow> owd_trend_detector" where
  "OwdTrendDetector_push d seq owd_us =
     (let d1 = d\<lparr>owd_samples := (owd_samples d)[owd_head d := (seq, owd_us)],
                 owd_head := (owd_head d + 1) mod owd_capacity d\<rparr>
      in if owd_len d1 < owd_capacity d1 then d1\<lparr>owd_len := owd_len d1 + 1\<rparr> else d1)"

text \<open>The samples in the order in which both loops of \<^verbatim>\<open>trend_us_per_sec\<close> visit them.\<close>

definition owd_window :: "owd_trend_detector \<Rightarrow> (u32 \<times> int) list" where
  "owd_window d =
     (let start = (if owd_len d < owd_capacity d then 0 else owd_head d)
      in map (\<lambda>i. owd_samples d ! ((start + i) mod owd_capacity d)) [0..<owd_len d])"

definition trend_us_per_sec :: "f64_ops \<Rightarrow> owd_trend_detector \<Rightarrow> u32" where
  "trend_us_per_sec F d = (if owd_len d < 2 then 0 else f_trend F (owd_window d))"

record spin_bit_state =
  is_initiator :: bool
  current_value :: bool
  highest_counter_for_spin :: u64

definition SpinBitState_new :: "bool \<Rightarrow> spin_bit_state" where
  "SpinBitState_new initiator = \<lparr>is_initiator = initiator, current_value = False, highest_counter_for_spin = 0\<rparr>"

definition rx_observe :: "spin_bit_state \<Rightarrow> bool \<Rightarrow> u64 \<Rightarrow> bool \<times> spin_bit_state" where
  "rx_observe s received_bit counter =
     (if is_initiator s then
        (if received_bit = current_value s then (True, s\<lparr>current_value := \<not> current_value s\<rparr>) else (False, s))
      else
        (False, if highest_counter_for_spin s < counter
                then s\<lparr>highest_counter_for_spin := counter, current_value := received_bit\<rparr> else s))"

section \<open>Loss bursts\<close>

record gap_tracker =
  expected_next :: "u64 option"
  in_burst :: bool
  current_burst_len :: u16
  burst_count :: u32
  max_burst_len :: u16
  total_burst_len :: u64

definition GapTracker_new :: gap_tracker where
  "GapTracker_new = \<lparr>expected_next = None, in_burst = False, current_burst_len = 0, burst_count = 0,
     max_burst_len = 0, total_burst_len = 0\<rparr>"

definition finish_burst :: "gap_tracker \<Rightarrow> gap_tracker" where
  "finish_burst g =
     (if in_burst g
      then g\<lparr>max_burst_len := max (max_burst_len g) (current_burst_len g),
             total_burst_len := total_burst_len g + ucast (current_burst_len g),
             in_burst := False, current_burst_len := 0\<rparr>
      else g)"

definition GapTracker_observe :: "gap_tracker \<Rightarrow> u64 \<Rightarrow> u64 \<times> gap_tracker" where
  "GapTracker_observe g counter =
     (case expected_next g of
        None \<Rightarrow> (0, g\<lparr>expected_next := Some (counter + 1)\<rparr>)
      | Some expected \<Rightarrow>
          (let (lost, g1) =
             (if expected < counter
              then let gap = counter - expected
                   in (gap, if in_burst g
                            then g\<lparr>current_burst_len := uadd_sat (current_burst_len g) (ucast gap)\<rparr>
                            else g\<lparr>in_burst := True, current_burst_len := ucast gap, burst_count := burst_count g + 1\<rparr>)
              else (0, if in_burst g then finish_burst g else g));
             g2 = (if expected \<le> counter then g1\<lparr>expected_next := Some (counter + 1)\<rparr> else g1)
           in (lost, g2)))"

definition take_interval_stats :: "f64_ops \<Rightarrow> gap_tracker \<Rightarrow> (u32 \<times> u16 \<times> u16) \<times> gap_tracker" where
  "take_interval_stats F g =
     (let g1 = finish_burst g;
          count = burst_count g1;
          max_len = max_burst_len g1;
          mean_len = (if 0 < count then f_mean_q8 F (total_burst_len g1) count else 0)
      in ((count, max_len, mean_len), g1\<lparr>burst_count := 0, max_burst_len := 0, total_burst_len := 0\<rparr>))"

section \<open>The receiver\<close>

definition DEFAULT_COLD_START_INTERVAL_MS :: nat where [simp]: "DEFAULT_COLD_START_INTERVAL_MS = 200"
definition MIN_REPORT_INTERVAL_MS :: nat where [simp]: "MIN_REPORT_INTERVAL_MS = 500"
definition MAX_REPORT_INTERVAL_MS :: nat where [simp]: "MAX_REPORT_INTERVAL_MS = 3000"
definition COLD_START_SAMPLES :: u32 where [simp]: "COLD_START_SAMPLES = 8"
definition REKEY_JITTER_GRACE_SECS :: nat where [simp]: "REKEY_JITTER_GRACE_SECS = 15"

record receiver_state =
  rs_cum_packets :: u64
  rs_cum_bytes :: u64
  rs_reorder :: u64
  rs_highest :: u64
  rs_interval_packets :: u32
  rs_interval_bytes :: u32
  rs_jitter :: jitter_estimator
  rs_owd :: owd_trend_detector
  rs_owd_seq :: u32
  rs_gap :: gap_tracker
  rs_ecn :: u32
  rs_last_sender_ts :: u32
  rs_last_recv :: "instant option"
  rs_grace_until :: "instant option"
  rs_last_report :: "instant option"
  rs_report_interval_ms :: nat
  rs_has_data :: bool
  rs_srtt_samples :: u32

definition ReceiverState_new_with_cold_start :: "nat \<Rightarrow> receiver_state" where
  "ReceiverState_new_with_cold_start cold_start_ms =
     \<lparr>rs_cum_packets = 0, rs_cum_bytes = 0, rs_reorder = 0, rs_highest = 0, rs_interval_packets = 0,
      rs_interval_bytes = 0, rs_jitter = JitterEstimator_new, rs_owd = OwdTrendDetector_new, rs_owd_seq = 0,
      rs_gap = GapTracker_new, rs_ecn = 0, rs_last_sender_ts = 0, rs_last_recv = None, rs_grace_until = None,
      rs_last_report = None, rs_report_interval_ms = cold_start_ms, rs_has_data = False, rs_srtt_samples = 0\<rparr>"

definition ReceiverState_new :: receiver_state where
  "ReceiverState_new = ReceiverState_new_with_cold_start DEFAULT_COLD_START_INTERVAL_MS"

definition ReceiverState_reset_for_rekey :: "instant \<Rightarrow> receiver_state \<Rightarrow> receiver_state" where
  "ReceiverState_reset_for_rekey now r =
     r\<lparr>rs_highest := 0, rs_reorder := 0, rs_gap := GapTracker_new, rs_interval_packets := 0,
       rs_interval_bytes := 0, rs_jitter := JitterEstimator_new, rs_owd := OwdTrendDetector_clear (rs_owd r),
       rs_owd_seq := 0, rs_last_sender_ts := 0, rs_last_recv := None,
       rs_grace_until := Some (now + REKEY_JITTER_GRACE_SECS * 1000000), rs_ecn := 0, rs_has_data := False\<rparr>"

text \<open>\<^verbatim>\<open>record_recv\<close>: the counters, then the jitter outside the grace period, then the delay sample.\<close>

definition recv_counters :: "u64 \<Rightarrow> nat \<Rightarrow> bool \<Rightarrow> receiver_state \<Rightarrow> receiver_state" where
  "recv_counters counter nbytes ce_flag r =
     (let r1 = r\<lparr>rs_has_data := True, rs_cum_packets := rs_cum_packets r + 1,
                 rs_cum_bytes := rs_cum_bytes r + of_nat nbytes,
                 rs_interval_packets := uadd_sat (rs_interval_packets r) 1,
                 rs_interval_bytes := uadd_sat (rs_interval_bytes r) (of_nat nbytes)\<rparr>;
          r2 = (if counter < rs_highest r1 then r1\<lparr>rs_reorder := rs_reorder r1 + 1\<rparr>
                else r1\<lparr>rs_highest := counter\<rparr>);
          r3 = r2\<lparr>rs_gap := snd (GapTracker_observe (rs_gap r2) counter)\<rparr>
      in if ce_flag then r3\<lparr>rs_ecn := uadd_sat (rs_ecn r3) 1\<rparr> else r3)"

definition recv_jitter :: "u32 \<Rightarrow> instant \<Rightarrow> receiver_state \<Rightarrow> receiver_state" where
  "recv_jitter sender_timestamp_ms now r =
     (let sender_us = int (unat sender_timestamp_ms) * 1000;
          in_grace = (case rs_grace_until r of None \<Rightarrow> False | Some deadline \<Rightarrow> now < deadline)
      in if in_grace then r
         else let r1 = r\<lparr>rs_grace_until := None\<rparr>
              in case rs_last_recv r1 of
                   None \<Rightarrow> r1
                 | Some prev_recv \<Rightarrow>
                     (let recv_delta_us = int (now - prev_recv);
                          send_delta_us = sender_us - int (unat (rs_last_sender_ts r1)) * 1000;
                          transit_delta = signed_take_bit 31 (recv_delta_us - send_delta_us)
                      in r1\<lparr>rs_jitter := JitterEstimator_update (rs_jitter r1) transit_delta\<rparr>))"

definition recv_owd :: "u32 \<Rightarrow> instant \<Rightarrow> receiver_state \<Rightarrow> receiver_state" where
  "recv_owd sender_timestamp_ms now r =
     (let sender_us = int (unat sender_timestamp_ms) * 1000;
          first_recv = (case rs_last_recv r of None \<Rightarrow> now | Some t \<Rightarrow> t);
          recv_offset_us = int (now - first_recv);
          owd_us = recv_offset_us - sender_us;
          seq = rs_owd_seq r + 1
      in r\<lparr>rs_owd_seq := seq, rs_owd := OwdTrendDetector_push (rs_owd r) seq owd_us\<rparr>)"

definition ReceiverState_record_recv ::
  "u64 \<Rightarrow> u32 \<Rightarrow> nat \<Rightarrow> bool \<Rightarrow> instant \<Rightarrow> receiver_state \<Rightarrow> receiver_state" where
  "ReceiverState_record_recv counter sender_timestamp_ms nbytes ce_flag now r =
     (let r1 = recv_counters counter nbytes ce_flag r;
          r2 = recv_jitter sender_timestamp_ms now r1;
          r3 = recv_owd sender_timestamp_ms now r2
      in r3\<lparr>rs_last_sender_ts := sender_timestamp_ms, rs_last_recv := Some now\<rparr>)"

definition ReceiverState_build_report ::
  "f64_ops \<Rightarrow> instant \<Rightarrow> receiver_state \<Rightarrow> receiver_report option \<times> receiver_state" where
  "ReceiverState_build_report F now r =
     (if \<not> rs_has_data r then (None, r)
      else let (timestamp_echo, dwell_time) =
             (case rs_last_recv r of
                None \<Rightarrow> (0, 0)
              | Some t \<Rightarrow> (let dwell_ms = as_millis (now - t)
                         in if 65535 < dwell_ms then (0, - 1) else (rs_last_sender_ts r, of_nat dwell_ms)));
           ((burst, max_burst, mean_burst), gap) = take_interval_stats F (rs_gap r);
           report = \<lparr>rr_highest_counter = rs_highest r, rr_cum_packets = rs_cum_packets r,
             rr_cum_bytes = rs_cum_bytes r, rr_timestamp_echo = timestamp_echo, rr_dwell_time = dwell_time,
             rr_max_burst_loss = max_burst, rr_mean_burst_loss = mean_burst,
             rr_jitter = jitter_us (rs_jitter r), rr_ecn_ce_count = rs_ecn r,
             rr_owd_trend = trend_us_per_sec F (rs_owd r), rr_burst_loss_count = burst,
             rr_cum_reorder = ucast (rs_reorder r), rr_interval_packets = rs_interval_packets r,
             rr_interval_bytes = rs_interval_bytes r\<rparr>
      in (Some report, r\<lparr>rs_gap := gap, rs_interval_packets := 0, rs_interval_bytes := 0, rs_has_data := False,
           rs_last_report := Some now\<rparr>))"

definition ReceiverState_should_send_report :: "instant \<Rightarrow> receiver_state \<Rightarrow> bool" where
  "ReceiverState_should_send_report now r =
     (rs_has_data r \<and> (case rs_last_report r of None \<Rightarrow> True | Some last_t \<Rightarrow> rs_report_interval_ms r * 1000 \<le> now - last_t))"

definition clamp_interval :: "nat \<Rightarrow> nat \<Rightarrow> nat \<Rightarrow> nat" where
  "clamp_interval lo hi x = (if x < lo then lo else if hi < x then hi else x)"

definition ReceiverState_update_report_interval :: "int \<Rightarrow> receiver_state \<Rightarrow> receiver_state" where
  "ReceiverState_update_report_interval srtt r =
     (let r1 = r\<lparr>rs_srtt_samples := uadd_sat (rs_srtt_samples r) 1\<rparr>;
          floor_ms = (if rs_srtt_samples r1 \<le> COLD_START_SAMPLES then DEFAULT_COLD_START_INTERVAL_MS
                      else MIN_REPORT_INTERVAL_MS)
      in if srtt \<le> 0 then r1
         else r1\<lparr>rs_report_interval_ms := clamp_interval floor_ms MAX_REPORT_INTERVAL_MS (nat srtt div 1000)\<rparr>)"

section \<open>The sender\<close>

record sender_state =
  ss_cum_packets :: u64
  ss_cum_bytes :: u64
  ss_start_counter :: u64
  ss_start_timestamp :: u32
  ss_interval_bytes :: u32
  ss_last_counter :: u64
  ss_last_timestamp :: u32
  ss_has_data :: bool
  ss_last_report :: "instant option"
  ss_report_interval_ms :: nat
  ss_send_failures :: u32
  ss_srtt_samples :: u32

definition SenderState_new :: sender_state where
  "SenderState_new = \<lparr>ss_cum_packets = 0, ss_cum_bytes = 0, ss_start_counter = 0, ss_start_timestamp = 0,
     ss_interval_bytes = 0, ss_last_counter = 0, ss_last_timestamp = 0, ss_has_data = False,
     ss_last_report = None, ss_report_interval_ms = DEFAULT_COLD_START_INTERVAL_MS, ss_send_failures = 0,
     ss_srtt_samples = 0\<rparr>"

definition SenderState_record_sent :: "u64 \<Rightarrow> u32 \<Rightarrow> nat \<Rightarrow> sender_state \<Rightarrow> sender_state" where
  "SenderState_record_sent counter timestamp nbytes s =
     (let s1 = (if \<not> ss_has_data s
                then s\<lparr>ss_start_counter := counter, ss_start_timestamp := timestamp, ss_has_data := True\<rparr> else s)
      in s1\<lparr>ss_last_counter := counter, ss_last_timestamp := timestamp,
            ss_interval_bytes := uadd_sat (ss_interval_bytes s1) (of_nat nbytes),
            ss_cum_packets := ss_cum_packets s1 + 1, ss_cum_bytes := ss_cum_bytes s1 + of_nat nbytes\<rparr>)"

definition SenderState_build_report :: "instant \<Rightarrow> sender_state \<Rightarrow> sender_report option \<times> sender_state" where
  "SenderState_build_report now s =
     (if \<not> ss_has_data s then (None, s)
      else (Some \<lparr>sr_start_counter = ss_start_counter s, sr_end_counter = ss_last_counter s,
                  sr_start_timestamp = ss_start_timestamp s, sr_end_timestamp = ss_last_timestamp s,
                  sr_interval_bytes = ss_interval_bytes s, sr_cum_packets = ss_cum_packets s,
                  sr_cum_bytes = ss_cum_bytes s\<rparr>,
            s\<lparr>ss_has_data := False, ss_interval_bytes := 0, ss_last_report := Some now\<rparr>))"

definition send_failure_backoff_multiplier :: "sender_state \<Rightarrow> nat" where
  "send_failure_backoff_multiplier s =
     (if ss_send_failures s = 0 then 1 else 2 ^ unat (min (ss_send_failures s) 5))"

definition SenderState_should_send_report :: "instant \<Rightarrow> sender_state \<Rightarrow> bool" where
  "SenderState_should_send_report now s =
     (ss_has_data s \<and>
      (case ss_last_report s of
         None \<Rightarrow> True
       | Some last_t \<Rightarrow> ss_report_interval_ms s * send_failure_backoff_multiplier s \<le> as_millis (now - last_t)))"

definition record_send_failure :: "sender_state \<Rightarrow> u32 \<times> sender_state" where
  "record_send_failure s = (let s1 = s\<lparr>ss_send_failures := ss_send_failures s + 1\<rparr> in (ss_send_failures s1, s1))"

definition record_send_success :: "sender_state \<Rightarrow> u32 \<times> sender_state" where
  "record_send_success s = (ss_send_failures s, s\<lparr>ss_send_failures := 0\<rparr>)"

definition SenderState_update_report_interval :: "int \<Rightarrow> sender_state \<Rightarrow> sender_state" where
  "SenderState_update_report_interval srtt s =
     (let s1 = s\<lparr>ss_srtt_samples := uadd_sat (ss_srtt_samples s) 1\<rparr>;
          floor_ms = (if ss_srtt_samples s1 \<le> COLD_START_SAMPLES then DEFAULT_COLD_START_INTERVAL_MS
                      else MIN_REPORT_INTERVAL_MS)
      in if srtt \<le> 0 then s1
         else s1\<lparr>ss_report_interval_ms := clamp_interval floor_ms MAX_REPORT_INTERVAL_MS (nat (srtt * 2) div 1000)\<rparr>)"

section \<open>Metrics and the state of a peer\<close>

record mmp_metrics =
  mm_srtt :: srtt_estimator
  prev_rr_cum_packets :: u64
  prev_rr_cum_bytes :: u64
  prev_rr_highest :: u64
  prev_rr_ecn :: u32
  prev_rr_reorder :: u32
  prev_rr_time :: "instant option"
  has_prev_rr :: bool
  prev_reverse_packets :: u64
  prev_reverse_highest :: u64
  has_prev_reverse :: bool

definition MmpMetrics_new :: mmp_metrics where
  "MmpMetrics_new = \<lparr>mm_srtt = SrttEstimator_new, prev_rr_cum_packets = 0, prev_rr_cum_bytes = 0,
     prev_rr_highest = 0, prev_rr_ecn = 0, prev_rr_reorder = 0, prev_rr_time = None, has_prev_rr = False,
     prev_reverse_packets = 0, prev_reverse_highest = 0, has_prev_reverse = False\<rparr>"

definition MmpMetrics_reset_for_rekey :: "mmp_metrics \<Rightarrow> mmp_metrics" where
  "MmpMetrics_reset_for_rekey m = m\<lparr>prev_rr_cum_packets := 0, prev_rr_cum_bytes := 0, prev_rr_highest := 0,
     prev_rr_ecn := 0, prev_rr_reorder := 0, prev_rr_time := None, has_prev_rr := False,
     prev_reverse_packets := 0, prev_reverse_highest := 0, has_prev_reverse := False\<rparr>"

definition is_stale_or_duplicate :: "mmp_metrics \<Rightarrow> receiver_report \<Rightarrow> bool" where
  "is_stale_or_duplicate m rr =
     (let counters_regressed = rr_highest_counter rr < prev_rr_highest m \<or> rr_cum_packets rr < prev_rr_cum_packets m
            \<or> rr_cum_bytes rr < prev_rr_cum_bytes m \<or> rr_ecn_ce_count rr < prev_rr_ecn m
            \<or> rr_cum_reorder rr < prev_rr_reorder m;
          duplicate_counters = (rr_highest_counter rr = prev_rr_highest m \<and> rr_cum_packets rr = prev_rr_cum_packets m
            \<and> rr_cum_bytes rr = prev_rr_cum_bytes m \<and> rr_ecn_ce_count rr = prev_rr_ecn m
            \<and> rr_cum_reorder rr = prev_rr_reorder m)
      in counters_regressed \<or> duplicate_counters)"

text \<open>The round-trip sample of a report, with the two checked operations of the code.\<close>

definition rtt_sample_ms :: "receiver_report \<Rightarrow> u32 \<Rightarrow> nat option" where
  "rtt_sample_ms rr our_timestamp_ms =
     (if 0 < rr_timestamp_echo rr then
        (let send_done_ms = unat (rr_timestamp_echo rr) + unat (rr_dwell_time rr)
         in if 2 ^ 32 \<le> send_done_ms \<or> unat our_timestamp_ms < send_done_ms then None
            else if unat our_timestamp_ms - send_done_ms = 0 then None
            else Some (unat our_timestamp_ms - send_done_ms))
      else None)"

definition process_receiver_report ::
  "receiver_report \<Rightarrow> u32 \<Rightarrow> instant \<Rightarrow> mmp_metrics \<Rightarrow> bool \<times> mmp_metrics" where
  "process_receiver_report rr our_timestamp_ms now m =
     (let had_srtt = srtt_initialized (mm_srtt m)
      in if has_prev_rr m \<and> is_stale_or_duplicate m rr then (False, m)
         else let m1 = (case rtt_sample_ms rr our_timestamp_ms of
                          None \<Rightarrow> m
                        | Some rtt_ms \<Rightarrow> m\<lparr>mm_srtt := SrttEstimator_update (mm_srtt m) (int rtt_ms * 1000)\<rparr>);
                  m2 = m1\<lparr>prev_rr_cum_packets := rr_cum_packets rr, prev_rr_cum_bytes := rr_cum_bytes rr,
                          prev_rr_highest := rr_highest_counter rr, prev_rr_ecn := rr_ecn_ce_count rr,
                          prev_rr_reorder := rr_cum_reorder rr, prev_rr_time := Some now, has_prev_rr := True\<rparr>
              in (\<not> had_srtt \<and> srtt_initialized (mm_srtt m2), m2))"

definition update_reverse_delivery :: "u64 \<Rightarrow> u64 \<Rightarrow> mmp_metrics \<Rightarrow> mmp_metrics" where
  "update_reverse_delivery our_recv_packets peer_highest m =
     m\<lparr>prev_reverse_packets := our_recv_packets, prev_reverse_highest := peer_highest, has_prev_reverse := True\<rparr>"

datatype mmp_mode = Full | Lightweight | Minimal

record mmp_peer_state =
  mp_sender :: sender_state
  mp_receiver :: receiver_state
  mp_metrics :: mmp_metrics
  mp_spin_bit :: spin_bit_state
  mp_mode :: mmp_mode
  mp_last_log :: "instant option"

definition MmpPeerState_new :: "mmp_mode \<Rightarrow> bool \<Rightarrow> mmp_peer_state" where
  "MmpPeerState_new mode initiator = \<lparr>mp_sender = SenderState_new, mp_receiver = ReceiverState_new,
     mp_metrics = MmpMetrics_new, mp_spin_bit = SpinBitState_new initiator, mp_mode = mode, mp_last_log = None\<rparr>"

definition MmpPeerState_default :: mmp_peer_state where
  "MmpPeerState_default = MmpPeerState_new Full True"

definition MmpPeerState_reset_for_rekey :: "instant \<Rightarrow> mmp_peer_state \<Rightarrow> mmp_peer_state" where
  "MmpPeerState_reset_for_rekey now p = p\<lparr>mp_receiver := ReceiverState_reset_for_rekey now (mp_receiver p),
     mp_metrics := MmpMetrics_reset_for_rekey (mp_metrics p)\<rparr>"

definition MmpPeerState_should_log :: "instant \<Rightarrow> mmp_peer_state \<Rightarrow> bool" where
  "MmpPeerState_should_log now p = (case mp_last_log p of None \<Rightarrow> True | Some t \<Rightarrow> 30 * 1000000 \<le> now - t)"

definition MmpPeerState_mark_logged :: "instant \<Rightarrow> mmp_peer_state \<Rightarrow> mmp_peer_state" where
  "MmpPeerState_mark_logged now p = p\<lparr>mp_last_log := Some now\<rparr>"

section \<open>Histories\<close>

text \<open>A detector after a history of samples, what it must then hold, and the losses a tracker counts
  over a history of counters.\<close>

fun owd_pushes :: "owd_trend_detector \<Rightarrow> (u32 \<times> int) list \<Rightarrow> owd_trend_detector" where
  "owd_pushes d [] = d"
| "owd_pushes d (x # xs) = owd_pushes (OwdTrendDetector_push d (fst x) (snd x)) xs"

definition owd_holds :: "owd_trend_detector \<Rightarrow> (u32 \<times> int) list \<Rightarrow> bool" where
  "owd_holds d xs \<longleftrightarrow> 0 < owd_capacity d \<and> owd_capacity d \<le> length (owd_samples d) \<and>
     owd_len d = min (length xs) (owd_capacity d) \<and> owd_head d = length xs mod owd_capacity d \<and>
     (\<forall>k<length xs. length xs \<le> k + owd_capacity d \<longrightarrow> owd_samples d ! (k mod owd_capacity d) = xs ! k)"

fun gap_run :: "gap_tracker \<Rightarrow> u64 list \<Rightarrow> nat" where
  "gap_run g [] = 0"
| "gap_run g (c # cs) = (case GapTracker_observe g c of (lost, g') \<Rightarrow> unat lost + gap_run g' cs)"

section \<open>Lemmas\<close>

lemma unat_add_one: "x \<noteq> - 1 \<Longrightarrow> unat (x + 1 :: u64) = unat x + 1"
  by (metis add.commute add_eq_0_iff2 plus_1_eq_Suc unatSuc)

lemma jitter_step:
  assumes "0 \<le> q" "q \<le> 16 * M + 15" "0 \<le> d" "d \<le> (M::int)"
  shows "0 \<le> q + (d - q div 16) \<and> q + (d - q div 16) \<le> 16 * M + 15"
proof -
  define k r where "k = q div 16" "r = q mod 16"
  then have q: "q = 16 * k + r" "0 \<le> r" "r \<le> 15" by simp_all
  then have "0 \<le> k" "k \<le> M" using assms by linarith+
  then show ?thesis using q assms(3,4) unfolding k_r_def(1) [symmetric] by linarith
qed

lemma jitter_fold:
  assumes "0 \<le> jitter_q4 j" "jitter_q4 j \<le> 16 * M + 15" "\<forall>d\<in>set ds. \<bar>d\<bar> \<le> M"
  shows "0 \<le> jitter_q4 (foldl JitterEstimator_update j ds) \<and> jitter_q4 (foldl JitterEstimator_update j ds) \<le> 16 * M + 15"
  using assms
proof (induction ds arbitrary: j)
  case (Cons d ds)
  have "0 \<le> jitter_q4 (JitterEstimator_update j d) \<and> jitter_q4 (JitterEstimator_update j d) \<le> 16 * M + 15"
    using jitter_step [of "jitter_q4 j" M "\<bar>d\<bar>"] Cons.prems by (simp add: JitterEstimator_update_def Let_def)
  then show ?case using Cons.IH [of "JitterEstimator_update j d"] Cons.prems(3) by simp
qed simp

lemma owd_push_holds:
  assumes "owd_holds d xs"
  shows "owd_holds (OwdTrendDetector_push d s w) (xs @ [(s, w)])"
proof -
  let ?c = "owd_capacity d" and ?n = "length xs"
  have c: "0 < ?c" "?c \<le> length (owd_samples d)" "owd_len d = min ?n ?c" "owd_head d = ?n mod ?c"
    and hist: "\<And>k. k < ?n \<Longrightarrow> ?n \<le> k + ?c \<Longrightarrow> owd_samples d ! (k mod ?c) = xs ! k"
    using assms by (auto simp: owd_holds_def)
  have "(owd_samples d)[?n mod ?c := (s, w)] ! (k mod ?c) = (xs @ [(s, w)]) ! k"
    if k: "k < Suc ?n" "Suc ?n \<le> k + ?c" for k
  proof (cases "k = ?n")
    case True
    then show ?thesis using c by (simp add: less_le_trans [OF mod_less_divisor])
  next
    case False
    then have "k < ?n" "?n < k + ?c" using k by auto
    have "k mod ?c \<noteq> ?n mod ?c"
    proof
      assume "k mod ?c = ?n mod ?c"
      then have "?c dvd ?n - k" using \<open>k < ?n\<close> by (metis mod_eq_dvd_iff_nat less_imp_le_nat)
      then show False using \<open>k < ?n\<close> \<open>?n < k + ?c\<close> by (auto dest: dvd_imp_le)
    qed
    then show ?thesis using hist [of k] \<open>k < ?n\<close> \<open>?n < k + ?c\<close> by (simp add: nth_append)
  qed
  then show ?thesis
    using c by (auto simp: owd_holds_def OwdTrendDetector_push_def Let_def mod_simps)
qed

lemma owd_window_holds:
  assumes "owd_holds d xs"
  shows "owd_window d = drop (length xs - owd_capacity d) xs"
proof -
  let ?c = "owd_capacity d" and ?n = "length xs"
  have c: "0 < ?c" "owd_len d = min ?n ?c" "owd_head d = ?n mod ?c"
    and hist: "\<And>k. k < ?n \<Longrightarrow> ?n \<le> k + ?c \<Longrightarrow> owd_samples d ! (k mod ?c) = xs ! k"
    using assms by (auto simp: owd_holds_def)
  show ?thesis
  proof (rule nth_equalityI)
    show "length (owd_window d) = length (drop (?n - ?c) xs)"
      using c by (simp add: owd_window_def min_def)
  next
    fix i assume "i < length (owd_window d)"
    then have i: "i < ?n" "i < ?c" using c by (simp_all add: owd_window_def)
    show "owd_window d ! i = drop (?n - ?c) xs ! i"
    proof (cases "?n < ?c")
      case True
      then show ?thesis using c i hist [of i] by (simp add: owd_window_def)
    next
      case False
      have "(?n mod ?c + i) mod ?c = (?n - ?c + i) mod ?c"
        using False by (simp add: le_mod_geq mod_simps)
      then show ?thesis using c i False hist [of "?n - ?c + i"] by (simp add: owd_window_def)
    qed
  qed
qed

lemma GapTracker_observe_expected:
  assumes "expected_next g = Some e" "e \<le> c"
  shows "fst (GapTracker_observe g c) = c - e" "expected_next (snd (GapTracker_observe g c)) = Some (c + 1)"
  using assms by (auto simp: GapTracker_observe_def Let_def finish_burst_def)

lemma gap_run_increasing:
  assumes "expected_next g = Some e" "sorted_wrt (<) cs" "\<forall>c\<in>set cs. e \<le> c \<and> c \<noteq> - 1" "cs \<noteq> []"
  shows "gap_run g cs + length cs + unat e = unat (last cs) + 1"
  using assms
proof (induction cs arbitrary: g e)
  case (Cons c cs)
  let ?g = "snd (GapTracker_observe g c)"
  have c: "e \<le> c" "c \<noteq> - 1" using Cons.prems(3) by auto
  note obs = GapTracker_observe_expected [OF Cons.prems(1) c(1)]
  have u: "unat (c + 1) = unat c + 1" using c(2) by (simp add: unat_add_one)
  have step: "gap_run g (c # cs) = unat (c - e) + gap_run ?g cs" using obs(1) by (simp add: split_beta)
  have ce: "unat (c - e) + unat e = unat c" using c(1) by (simp add: unat_sub word_le_nat_alt)
  show ?case
  proof (cases "cs = []")
    case True
    then show ?thesis using step ce by simp
  next
    case False
    have "c + 1 \<le> x" if "x \<in> set cs" for x
      using Cons.prems(2) that by (auto simp: word_le_nat_alt word_less_nat_alt u)
    then have "gap_run ?g cs + length cs + unat (c + 1) = unat (last cs) + 1"
      using Cons.IH [OF obs(2)] Cons.prems(2,3) False by auto
    then show ?thesis using step ce u False by simp
  qed
qed simp

lemma owd_pushes_holds: "owd_holds d ys \<Longrightarrow> owd_holds (owd_pushes d xs) (ys @ xs)"
proof (induction xs arbitrary: d ys)
  case (Cons x xs)
  then show ?case using Cons.IH [OF owd_push_holds [of d ys "fst x" "snd x"]] by simp
qed simp

lemma owd_pushes_capacity: "owd_capacity (owd_pushes d xs) = owd_capacity d"
  by (induction xs arbitrary: d) (simp_all add: OwdTrendDetector_push_def Let_def)

section \<open>Properties\<close>

text \<open>The jitter estimate is bounded by what was measured: after any sequence of transit differences
  of magnitude at most \<open>M\<close>, the reported jitter is at most \<open>M\<close>, so the fixed-point average neither
  overflows nor overshoots.\<close>

theorem jitter_bounded:
  assumes "\<forall>d\<in>set ds. \<bar>d\<bar> \<le> int M" "M < 2 ^ 32"
  shows "unat (jitter_us (foldl JitterEstimator_update JitterEstimator_new ds)) \<le> M"
proof -
  let ?q = "jitter_q4 (foldl JitterEstimator_update JitterEstimator_new ds)"
  have q: "0 \<le> ?q" "?q \<le> 16 * int M + 15"
    using jitter_fold [of JitterEstimator_new "int M" ds] assms(1) by (simp_all add: JitterEstimator_new_def)
  then have "0 \<le> ?q div 16" "?q div 16 \<le> int M" by simp_all
  then show ?thesis using assms(2)
    by (simp add: jitter_us_def unsigned_of_int take_bit_int_eq_self nat_le_iff)
qed

theorem jitter_bounded_witness:
  "unat (jitter_us (foldl JitterEstimator_update JitterEstimator_new [1600, -1600, 1599])) \<le> 1600"
  by (rule jitter_bounded) simp_all

text \<open>The delay-trend window is a ring buffer of the latest samples: after any history of samples the
  regression runs over the last 32 of them, oldest first.\<close>

theorem owd_window_recent:
  "owd_window (owd_pushes OwdTrendDetector_new xs) = drop (length xs - 32) xs"
proof -
  have "owd_holds OwdTrendDetector_new []"
    by (simp add: owd_holds_def OwdTrendDetector_new_def OwdTrendDetector_with_capacity_def)
  from owd_window_holds [OF owd_pushes_holds [OF this]] show ?thesis
    by (simp add: owd_pushes_capacity) (simp add: OwdTrendDetector_new_def OwdTrendDetector_with_capacity_def)
qed

text \<open>The gap tracker accounts for every counter: over packets received in increasing order, the
  losses it reports and the packets received add up to the counters from the first to the last.\<close>

theorem gap_tracker_counts_losses:
  assumes "sorted_wrt (<) (c # cs)" "\<forall>x\<in>set (c # cs). x \<noteq> - 1"
  shows "gap_run GapTracker_new (c # cs) + length (c # cs) = unat (last (c # cs)) - unat c + 1"
proof (cases "cs = []")
  case True
  then show ?thesis by (simp add: GapTracker_observe_def GapTracker_new_def)
next
  case False
  let ?g = "snd (GapTracker_observe GapTracker_new c)"
  have u: "unat (c + 1) = unat c + 1" using assms(2) by (simp add: unat_add_one)
  have "c + 1 \<le> x" if "x \<in> set cs" for x
    using assms(1) that by (auto simp: word_le_nat_alt word_less_nat_alt u)
  then have "gap_run ?g cs + length cs + unat (c + 1) = unat (last cs) + 1"
    using gap_run_increasing [of ?g "c + 1" cs] assms False by (auto simp: GapTracker_observe_def GapTracker_new_def)
  moreover have "c < last cs" using assms(1) False by simp
  ultimately show ?thesis using u False
    by (simp add: split_beta GapTracker_observe_def GapTracker_new_def word_less_nat_alt)
qed

theorem gap_tracker_counts_losses_witness:
  "gap_run GapTracker_new [3, 4, 9, 10, 12] + length [3, 4, 9, 10, 12 :: u64] =
     unat (last [3, 4, 9, 10, 12 :: u64]) - unat (3 :: u64) + 1"
  by (rule gap_tracker_counts_losses) simp_all

text \<open>A receiver report counts once: processing the same report again is recognised as a duplicate,
  changes nothing and yields no second round-trip sample.\<close>

theorem receiver_report_once:
  "process_receiver_report rr ts' now' (snd (process_receiver_report rr ts now m)) =
     (False, snd (process_receiver_report rr ts now m))"
  by (auto simp: process_receiver_report_def is_stale_or_duplicate_def Let_def split: option.splits)

end
