(* ===== verification/Link.thy ===== *)
theory Link
  imports Framing Replay Mmp
begin

text \<open>
  The link layer of crates/microfips-protocol/src/node.rs without its loop: key-epoch slots, sealing and
  opening of established frames (decrypt\_established\_frame), the trial order of the epochs, and
  the dispatch of opened messages (dispatch\_link\_message and what it calls).

  The application behind the node is the parameter \<open>handler_ops\<close>, one function per method of the trait
  NodeHandler on a state of any type \<^verbatim>\<open>'h\<close>, with the instant a clock reading of the handler yields.  The
  response buffer is a byte list that a handler may overwrite; a length it returns refers to that
  buffer, and \<open>None\<close> is a panic of the handler.  Everything within one step reads the same instant \<open>now\<close>.
\<close>

section \<open>Events, actions and handlers\<close>

datatype node_event = Connected | Msg1Sent | HandshakeOk | HeartbeatSent | HeartbeatRecvEv | DisconnectedEv | ErrorEv

datatype handle_result = HR_None | HR_SendDatagram nat | HR_Disconnect

datatype frame_action =
    FA_Continue | FA_HeartbeatRecv | FA_PeerDC byte | FA_SelfDC | FA_SendDatagram nat
  | FA_SendLinkMessage byte nat

record 'h handler_ops =
  on_event :: "instant \<Rightarrow> node_event \<Rightarrow> 'h \<Rightarrow> 'h"
  on_message :: "instant \<Rightarrow> byte \<Rightarrow> bytes \<Rightarrow> bytes \<Rightarrow> 'h \<Rightarrow> handle_result option \<times> bytes \<times> 'h"
  poll_at :: "'h \<Rightarrow> instant option"
  on_tick :: "instant \<Rightarrow> bytes \<Rightarrow> 'h \<Rightarrow> handle_result option \<times> bytes \<times> 'h"

text \<open>\<^verbatim>\<open>NoopHandler\<close>, with the default methods of the trait.\<close>

definition NoopHandler :: "unit handler_ops" where
  "NoopHandler = \<lparr>on_event = (\<lambda>_ _ h. h), on_message = (\<lambda>_ _ _ resp h. (Some HR_None, resp, h)),
     poll_at = (\<lambda>_. None), on_tick = (\<lambda>_ resp h. (Some HR_None, resp, h))\<rparr>"

section \<open>Epoch slots\<close>

record epoch_slot =
  es_ks :: bytes
  es_kr :: bytes
  es_them :: session_index
  es_send_ctr :: u64
  es_k_bit :: bool
  es_replay :: replay_window

definition new_slot :: "bytes \<Rightarrow> bytes \<Rightarrow> session_index \<Rightarrow> bool \<Rightarrow> epoch_slot" where
  "new_slot ks kr them k_bit = \<lparr>es_ks = ks, es_kr = kr, es_them = them, es_send_ctr = 0, es_k_bit = k_bit,
     es_replay = ReplayWindow_new\<rparr>"

text \<open>
  The sealing part shared by the four send functions: the counter is taken and advanced before
  anything can fail; \<open>inner_cap\<close> is the size of the caller's inner buffer and the frame is assembled
  into 256 bytes.
\<close>

definition OUT_SIZE :: nat where [simp]: "OUT_SIZE = 256"

definition seal_link :: "crypto \<Rightarrow> wire \<Rightarrow> instant \<Rightarrow> nat \<Rightarrow> bytes \<Rightarrow> (epoch_slot, unit, bytes) estep" where
  "seal_link C v now inner_cap msg slot =
     (let c = es_send_ctr slot;
          slot1 = slot\<lparr>es_send_ctr := c + 1\<rparr>;
          ts = of_nat (as_millis now) :: u32
      in (bind_res (prepend_inner_header ts msg inner_cap) (\<lambda>inner.
            let flags = (if es_k_bit slot then FLAG_KEY_EPOCH else 0x00)
            in encrypt_and_assemble C v (es_them slot) c flags inner (es_ks slot) OUT_SIZE),
          slot1))"

record decrypted_frame =
  df_counter :: u64
  df_timestamp :: u32
  df_msg_type :: byte
  df_payload :: bytes
  df_frame_bytes :: nat

definition split_first :: "bytes \<Rightarrow> (byte \<times> bytes, unit) res" where
  "split_first xs = (case xs of [] \<Rightarrow> Err () | x # rest \<Rightarrow> Ok (x, rest))"

definition decrypt_established_frame ::
  "nat \<Rightarrow> crypto \<Rightarrow> wire \<Rightarrow> bytes \<Rightarrow> bytes \<Rightarrow> (replay_window, unit, decrypted_frame) estep" where
  "decrypt_established_frame ptr C v kr data =
     bindm (liftm (parse_message v data)) (\<lambda>m.
     case m of
       Established _ _ _ \<Rightarrow>
         bindm (liftm (EncryptedHeader_parse v data)) (\<lambda>enc.
         bindm (getm (\<lambda>replay. ReplayWindow_check ptr replay (eh_counter enc))) (\<lambda>chk.
         bindm (liftm chk) (\<lambda>fresh.
         bindm (guardm (\<not> fresh) ()) (\<lambda>_.
         bindm (liftm (slice_from data ESTABLISHED_HEADER_SIZE)) (\<lambda>ct.
         bindm (liftm (map_err (\<lambda>_. ())
             (aead_decrypt C kr (eh_counter enc) (eh_header_bytes enc) ct MAX_FRAME_SIZE))) (\<lambda>plain.
         bindm (\<lambda>replay. case ReplayWindow_accept ptr replay (eh_counter enc) of
                    Ok replay' \<Rightarrow> (Ok (), replay') | Err e \<Rightarrow> (Err e, replay) | Panic \<Rightarrow> (Panic, replay)) (\<lambda>_.
         bindm (liftm (strip_inner_header plain)) (\<lambda>(sender_timestamp, inner_rest).
         bindm (liftm (split_first inner_rest)) (\<lambda>(msg_type, payload).
           retm \<lparr>df_counter = eh_counter enc, df_timestamp = sender_timestamp, df_msg_type = msg_type,
                 df_payload = payload, df_frame_bytes = length data\<rparr>)))))))))
     | _ \<Rightarrow> liftm (Err ()))"

text \<open>Opening on one slot, which keeps its own replay window.\<close>

definition open_slot :: "nat \<Rightarrow> crypto \<Rightarrow> wire \<Rightarrow> bytes \<Rightarrow> (epoch_slot, unit, decrypted_frame) estep" where
  "open_slot ptr C v data slot =
     (case decrypt_established_frame ptr C v (es_kr slot) data (es_replay slot) of
        (r, w) \<Rightarrow> (r, slot\<lparr>es_replay := w\<rparr>))"

section \<open>Trying the epochs\<close>

text \<open>
  The block \<^verbatim>\<open>'winner\<close> of \<^verbatim>\<open>steady\<close>: the current slot first, or the pending one first when the
  key-epoch bit of the frame differs from the current one; then the previous slot.
\<close>

datatype winner = From_cur decrypted_frame | From_pend decrypted_frame | From_prev decrypted_frame | No_slot | Winner_panic

record slots =
  sl_cur :: epoch_slot
  sl_pend :: "epoch_slot option"
  sl_prev :: "epoch_slot option"

definition frame_k_bit :: "wire \<Rightarrow> bytes \<Rightarrow> bool" where
  "frame_k_bit v data =
     (case EncryptedHeader_parse v data of Ok e \<Rightarrow> eh_header_bytes e ! 1 AND FLAG_KEY_EPOCH \<noteq> 0 | _ \<Rightarrow> False)"

definition try_cur :: "nat \<Rightarrow> crypto \<Rightarrow> wire \<Rightarrow> bytes \<Rightarrow> slots \<Rightarrow> winner \<times> slots" where
  "try_cur ptr C v data s =
     (case open_slot ptr C v data (sl_cur s) of
        (Ok f, slot) \<Rightarrow> (From_cur f, s\<lparr>sl_cur := slot\<rparr>)
      | (Err _, slot) \<Rightarrow> (No_slot, s\<lparr>sl_cur := slot\<rparr>)
      | (Panic, slot) \<Rightarrow> (Winner_panic, s\<lparr>sl_cur := slot\<rparr>))"

definition try_pend :: "nat \<Rightarrow> crypto \<Rightarrow> wire \<Rightarrow> bytes \<Rightarrow> slots \<Rightarrow> winner \<times> slots" where
  "try_pend ptr C v data s =
     (case sl_pend s of
        None \<Rightarrow> (No_slot, s)
      | Some p \<Rightarrow>
          (case open_slot ptr C v data p of
             (Ok f, slot) \<Rightarrow> (From_pend f, s\<lparr>sl_pend := Some slot\<rparr>)
           | (Err _, slot) \<Rightarrow> (No_slot, s\<lparr>sl_pend := Some slot\<rparr>)
           | (Panic, slot) \<Rightarrow> (Winner_panic, s\<lparr>sl_pend := Some slot\<rparr>)))"

definition try_prev :: "nat \<Rightarrow> crypto \<Rightarrow> wire \<Rightarrow> bytes \<Rightarrow> slots \<Rightarrow> winner \<times> slots" where
  "try_prev ptr C v data s =
     (case sl_prev s of
        None \<Rightarrow> (No_slot, s)
      | Some p \<Rightarrow>
          (case open_slot ptr C v data p of
             (Ok f, slot) \<Rightarrow> (From_prev f, s\<lparr>sl_prev := Some slot\<rparr>)
           | (Err _, slot) \<Rightarrow> (No_slot, s\<lparr>sl_prev := Some slot\<rparr>)
           | (Panic, slot) \<Rightarrow> (Winner_panic, s\<lparr>sl_prev := Some slot\<rparr>)))"

definition or_try :: "winner \<times> slots \<Rightarrow> (slots \<Rightarrow> winner \<times> slots) \<Rightarrow> winner \<times> slots" where
  "or_try ws next = (case ws of (No_slot, s) \<Rightarrow> next s | (w, s) \<Rightarrow> (w, s))"

definition trial_decrypt :: "nat \<Rightarrow> crypto \<Rightarrow> wire \<Rightarrow> bytes \<Rightarrow> slots \<Rightarrow> winner \<times> slots" where
  "trial_decrypt ptr C v data s =
     (let pend_first = frame_k_bit v data \<noteq> es_k_bit (sl_cur s) \<and> sl_pend s \<noteq> None
      in or_try (or_try (or_try
           (if \<not> pend_first then try_cur ptr C v data s else (No_slot, s))
           (try_pend ptr C v data))
           (\<lambda>s. if pend_first then try_cur ptr C v data s else (No_slot, s)))
           (try_prev ptr C v data))"

section \<open>Dispatch of opened messages\<close>

record throughput_state =
  tp_test_id :: u32
  tp_frames_recv :: u32
  tp_bytes_recv :: u64
  tp_started_at :: "instant option"
  tp_duration_secs :: byte
  tp_active :: bool

definition ThroughputState_default :: throughput_state where
  "ThroughputState_default = \<lparr>tp_test_id = 0, tp_frames_recv = 0, tp_bytes_recv = 0, tp_started_at = None,
     tp_duration_secs = 0, tp_active = False\<rparr>"

definition build_receiver_report_response :: "wire \<Rightarrow> bytes \<Rightarrow> bytes \<Rightarrow> frame_action \<times> bytes" where
  "build_receiver_report_response v payload resp =
     (if 27 \<le> length payload \<and> RECEIVER_REPORT_BODY_SIZE v \<le> length resp
      then let end_ctr = from_le (take 8 (drop 11 payload)) :: u64;
               end_ts = from_le (take 4 (drop 23 payload)) :: u32;
               r0 = splice resp 0 (replicate (RECEIVER_REPORT_BODY_SIZE v) 0);
               r1 = splice r0 3 (le64 end_ctr);
               r2 = splice r1 27 (le32 end_ts)
           in (FA_SendLinkMessage MSG_RECEIVER_REPORT (RECEIVER_REPORT_BODY_SIZE v), r2)
      else (FA_Continue, resp))"

definition handle_throughput_request :: "instant \<Rightarrow> decrypted_frame \<Rightarrow> throughput_state \<Rightarrow> throughput_state" where
  "handle_throughput_request now frame throughput =
     (case parse_throughput_request (df_payload frame) of
        Ok (test_id, direction, duration_secs, _, _) \<Rightarrow>
          (if direction = 0
           then \<lparr>tp_test_id = test_id, tp_frames_recv = 0, tp_bytes_recv = 0, tp_started_at = Some now,
                 tp_duration_secs = duration_secs, tp_active = True\<rparr>
           else throughput)
      | _ \<Rightarrow> throughput)"

definition usat_mul :: "u64 \<Rightarrow> nat \<Rightarrow> u64" where
  "usat_mul a b = of_nat (sat_mul 64 (unat a) b)"

definition handle_throughput_stream ::
  "instant \<Rightarrow> decrypted_frame \<Rightarrow> throughput_state \<Rightarrow> bytes \<Rightarrow> frame_action \<times> throughput_state \<times> bytes" where
  "handle_throughput_stream now frame throughput resp =
     (if \<not> tp_active throughput then (FA_Continue, throughput, resp)
      else case parse_throughput_stream (df_payload frame) of
        Ok (test_id, _) \<Rightarrow>
          (if test_id \<noteq> tp_test_id throughput then (FA_Continue, throughput, resp)
           else let t1 = throughput\<lparr>tp_frames_recv := uadd_sat (tp_frames_recv throughput) 1,
                        tp_bytes_recv := uadd_sat (tp_bytes_recv throughput) (of_nat (length (df_payload frame)))\<rparr>
           in case tp_started_at t1 of
                None \<Rightarrow> (FA_Continue, t1, resp)
              | Some t \<Rightarrow>
                  (let elapsed_us = now - t; target_duration_us = unat (tp_duration_secs t1) * 1000000
                   in if elapsed_us < target_duration_us then (FA_Continue, t1, resp)
                      else let t2 = t1\<lparr>tp_active := False\<rparr>;
                               scaled = usat_mul (usat_mul (tp_bytes_recv t1) 8) 1000000;
                               achieved_bps = (if elapsed_us = 0 then 0 else of_nat (unat scaled div elapsed_us))
                           in case build_throughput_report (tp_test_id t1) 0 (tp_frames_recv t1) (tp_bytes_recv t1)
                                     (of_nat elapsed_us) achieved_bps (length resp) of
                                Ok out \<Rightarrow> (FA_SendLinkMessage MSG_THROUGHPUT_REPORT (length out), t2, splice resp 0 out)
                              | _ \<Rightarrow> (FA_Continue, t2, resp)))
      | _ \<Rightarrow> (FA_Continue, throughput, resp))"

definition action_of_result :: "handle_result \<Rightarrow> frame_action" where
  "action_of_result r =
     (case r of HR_None \<Rightarrow> FA_Continue | HR_SendDatagram len \<Rightarrow> FA_SendDatagram len | HR_Disconnect \<Rightarrow> FA_SelfDC)"

text \<open>Both versions of \<^verbatim>\<open>dispatch_link_message\<close>; \<open>bench\<close> is the feature \<^verbatim>\<open>benchmark\<close>.\<close>

definition dispatch_link_message ::
  "bool \<Rightarrow> wire \<Rightarrow> 'h handler_ops \<Rightarrow> instant \<Rightarrow> decrypted_frame \<Rightarrow> throughput_state \<Rightarrow> bytes \<Rightarrow> 'h
     \<Rightarrow> frame_action option \<times> throughput_state \<times> bytes \<times> 'h" where
  "dispatch_link_message bench v H now frame throughput resp h =
     (let t = df_msg_type frame; payload = df_payload frame
      in if t = MSG_HEARTBEAT then (Some FA_HeartbeatRecv, throughput, resp, h)
         else if t = MSG_DISCONNECT
           then (Some (FA_PeerDC (case payload of [] \<Rightarrow> DISC_REASON_OTHER | r # _ \<Rightarrow> r)), throughput, resp, h)
         else if t = MSG_SENDER_REPORT
           then (case build_receiver_report_response v payload resp of (a, resp') \<Rightarrow> (Some a, throughput, resp', h))
         else if t = MSG_RECEIVER_REPORT then (Some FA_Continue, throughput, resp, h)
         else if t = MSG_ECHO_REQUEST
           then (case parse_echo_request payload of
                   Ok (send_ts, seq, p) \<Rightarrow>
                     (case build_echo_response send_ts (of_nat now) seq p (length resp) of
                        Ok out \<Rightarrow> (Some (FA_SendLinkMessage MSG_ECHO_RESPONSE (length out)), throughput, splice resp 0 out, h)
                      | _ \<Rightarrow> (Some FA_Continue, throughput, resp, h))
                 | _ \<Rightarrow> (Some FA_Continue, throughput, resp, h))
         else if t = MSG_THROUGHPUT_REQUEST
           then (Some FA_Continue, if bench then handle_throughput_request now frame throughput else throughput, resp, h)
         else if t = MSG_THROUGHPUT_STREAM
           then (if bench
                 then (case handle_throughput_stream now frame throughput resp of (a, tp, resp') \<Rightarrow> (Some a, tp, resp', h))
                 else (Some FA_Continue, throughput, resp, h))
         else (case on_message H now t payload resp h of
                 (r, resp', h') \<Rightarrow> (map_option action_of_result r, throughput, resp', h')))"

section \<open>Specification\<close>

text \<open>
  Sequences of messages sealed in one slot and of frames opened in another, what opening must give,
  and the three places an epoch can be in.
\<close>

type_synonym link_msg = "instant \<times> byte \<times> bytes"

definition msg_ok :: "link_msg \<Rightarrow> bool" where
  "msg_ok m = (case m of (_, _, p) \<Rightarrow> length p \<le> 219)"

fun seal_run :: "crypto \<Rightarrow> wire \<Rightarrow> link_msg list \<Rightarrow> epoch_slot \<Rightarrow> bytes list" where
  "seal_run C v [] slot = []"
| "seal_run C v ((now, t, p) # ms) slot =
     (case seal_link C v now 512 (t # p) slot of
        (Ok frame, slot') \<Rightarrow> frame # seal_run C v ms slot'
      | (_, slot') \<Rightarrow> seal_run C v ms slot')"

fun open_run :: "nat \<Rightarrow> crypto \<Rightarrow> wire \<Rightarrow> bytes list \<Rightarrow> epoch_slot \<Rightarrow> decrypted_frame list" where
  "open_run ptr C v [] slot = []"
| "open_run ptr C v (d # ds) slot =
     (case open_slot ptr C v d slot of
        (Ok f, slot') \<Rightarrow> f # open_run ptr C v ds slot'
      | (_, slot') \<Rightarrow> open_run ptr C v ds slot')"

definition opened :: "u64 \<Rightarrow> link_msg \<Rightarrow> decrypted_frame" where
  "opened c m = (case m of (now, t, p) \<Rightarrow>
     \<lparr>df_counter = c, df_timestamp = of_nat (as_millis now), df_msg_type = t, df_payload = p,
      df_frame_bytes = length p + 37\<rparr>)"

definition sealed_frame :: "crypto \<Rightarrow> wire \<Rightarrow> bytes \<Rightarrow> u64 \<Rightarrow> link_msg \<Rightarrow> bytes \<Rightarrow> bool" where
  "sealed_frame C v key c m frame \<longleftrightarrow> (case m of (now, t, p) \<Rightarrow> \<exists>r flags ct hdr.
     parse_message v frame = Ok (Established r c ct) \<and>
     EncryptedHeader_parse v frame = Ok \<lparr>eh_receiver_idx = r, eh_counter = c, eh_header_bytes = hdr\<rparr> \<and>
     hdr = build_established_header v r c flags (of_nat (length p + 5)) \<and>
     frame = hdr @ ct \<and> length frame = length p + 37 \<and>
     aead_decrypt C key c hdr ct MAX_FRAME_SIZE = Ok (le32 (of_nat (as_millis now)) @ t # p))"

datatype epoch_pos = Cur | Pend | Prev

fun slot_at :: "slots \<Rightarrow> epoch_pos \<Rightarrow> epoch_slot option" where
  "slot_at s Cur = Some (sl_cur s)"
| "slot_at s Pend = sl_pend s"
| "slot_at s Prev = sl_prev s"

fun won :: "epoch_pos \<Rightarrow> decrypted_frame \<Rightarrow> winner" where
  "won Cur f = From_cur f"
| "won Pend f = From_pend f"
| "won Prev f = From_prev f"

definition opens_under :: "crypto \<Rightarrow> wire \<Rightarrow> bytes \<Rightarrow> bytes \<Rightarrow> bool" where
  "opens_under C v key frame =
     (case EncryptedHeader_parse v frame of
        Ok enc \<Rightarrow> (case aead_decrypt C key (eh_counter enc) (eh_header_bytes enc) (drop 16 frame) MAX_FRAME_SIZE of
                    Ok _ \<Rightarrow> True | _ \<Rightarrow> False)
      | _ \<Rightarrow> False)"

definition windows_ok :: "nat \<Rightarrow> slots \<Rightarrow> bool" where
  "windows_ok ptr s \<longleftrightarrow> (\<forall>q X. slot_at s q = Some X \<longrightarrow> (\<exists>S. window_rel ptr (es_replay X) S))"

section \<open>Lemmas\<close>

lemma seal_link_Ok:
  assumes "crypto_ok C" "length (es_ks slot) = 32" "msg_ok (now, t, p)" "length p + 5 \<le> cap"
  shows "\<exists>frame. seal_link C v now cap (t # p) slot = (Ok frame, slot\<lparr>es_send_ctr := es_send_ctr slot + 1\<rparr>) \<and>
    sealed_frame C v (es_ks slot) (es_send_ctr slot) (now, t, p) frame"
proof -
  let ?inner = "le32 (of_nat (as_millis now)) @ t # p"
  let ?flags = "if es_k_bit slot then FLAG_KEY_EPOCH else 0"
  let ?hdr = "build_established_header v (es_them slot) (es_send_ctr slot) ?flags (of_nat (length ?inner))"
  have len: "length p \<le> 219" using assms(3) by (simp add: msg_ok_def)
  then obtain ct where ct: "encrypt_and_assemble C v (es_them slot) (es_send_ctr slot) ?flags ?inner (es_ks slot) 256 = Ok (?hdr @ ct)"
      "length ct = length ?inner + 16" "aead_decrypt C (es_ks slot) (es_send_ctr slot) ?hdr ct MAX_FRAME_SIZE = Ok ?inner"
    using encrypt_and_assemble_Ok [OF assms(1,2), of ?inner 256 v "es_them slot" "es_send_ctr slot" ?flags] by auto
  have "seal_link C v now cap (t # p) slot = (Ok (?hdr @ ct), slot\<lparr>es_send_ctr := es_send_ctr slot + 1\<rparr>)"
    using ct(1) assms(4) by (simp add: seal_link_def prepend_inner_header_def Let_def)
  moreover have "sealed_frame C v (es_ks slot) (es_send_ctr slot) (now, t, p) (?hdr @ ct)"
    unfolding sealed_frame_def using ct(2,3)
    by (auto simp: parse_message_established add.commute intro!: exI [of _ ct])
  ultimately show ?thesis by blast
qed

lemma strip_inner_header_sealed: "strip_inner_header (le32 ts @ t # p) = Ok (ts, t # p)"
  using inner_header_roundtrip [of ts t p "5 + length p"] by (simp add: prepend_inner_header_def)

lemma decrypt_sealed:
  assumes "sealed_frame C v kr c m frame" "ReplayWindow_check ptr w c = Ok fresh"
  shows "decrypt_established_frame ptr C v kr frame w =
    (if fresh then (case ReplayWindow_accept ptr w c of
        Ok w' \<Rightarrow> (Ok (opened c m), w') | Err e \<Rightarrow> (Err e, w) | Panic \<Rightarrow> (Panic, w))
     else (Err (), w))"
proof -
  obtain now t p where m: "m = (now, t, p)" by (cases m)
  obtain r flags ct hdr where f: "parse_message v frame = Ok (Established r c ct)"
     "EncryptedHeader_parse v frame = Ok \<lparr>eh_receiver_idx = r, eh_counter = c, eh_header_bytes = hdr\<rparr>"
     "hdr = build_established_header v r c flags (of_nat (length p + 5))"
     "frame = hdr @ ct" "length frame = length p + 37"
     "aead_decrypt C kr c hdr ct 2048 = Ok (le32 (of_nat (as_millis now)) @ t # p)"
    using assms(1) unfolding sealed_frame_def m by auto
  have ct: "slice_from frame 16 = (Ok ct :: (bytes, unit) res)" using f(3,4) by simp
  show ?thesis
    using f(1,2,5,6) ct assms(2)
    by (auto simp: decrypt_established_frame_def m opened_def step_simps bindm_Panic strip_inner_header_sealed split_first_def
        split: res.split)
qed

lemma seal_run_sealed:
  assumes "crypto_ok C" "length (es_ks slot) = 32" "\<forall>m\<in>set ms. msg_ok m"
  shows "length (seal_run C v ms slot) = length ms \<and>
    (\<forall>i<length ms. sealed_frame C v (es_ks slot) (es_send_ctr slot + of_nat i) (ms ! i) (seal_run C v ms slot ! i))"
  using assms
proof (induction ms arbitrary: slot)
  case (Cons m ms)
  obtain now t p where m: "m = (now, t, p)" by (cases m)
  have ok: "msg_ok (now, t, p)" "length p + 5 \<le> 512" using Cons.prems(3) by (simp_all add: m msg_ok_def)
  let ?slot = "slot\<lparr>es_send_ctr := es_send_ctr slot + 1\<rparr>"
  obtain frame where f: "seal_link C v now 512 (t # p) slot = (Ok frame, ?slot)"
      "sealed_frame C v (es_ks slot) (es_send_ctr slot) m frame"
    using seal_link_Ok [OF Cons.prems(1,2) ok] unfolding m by blast
  have run: "seal_run C v (m # ms) slot = frame # seal_run C v ms ?slot" using f(1) by (simp add: m)
  have IH: "length (seal_run C v ms ?slot) = length ms"
      "\<forall>i<length ms. sealed_frame C v (es_ks slot) (es_send_ctr slot + 1 + of_nat i) (ms ! i) (seal_run C v ms ?slot ! i)"
    using Cons.IH [of ?slot] Cons.prems by auto
  show ?case
  proof (intro conjI allI impI)
    fix i assume "i < length (m # ms)"
    then show "sealed_frame C v (es_ks slot) (es_send_ctr slot + of_nat i) ((m # ms) ! i) (seal_run C v (m # ms) slot ! i)"
      using f(2) IH(2) by (cases i) (auto simp: run add.assoc)
  qed (simp add: run IH(1))
qed simp

lemma open_slot_sealed:
  assumes "window_rel ptr (es_replay slot) S" "unat c < 2 ^ ptr" "sealed_frame C v (es_kr slot) c m d"
  shows "if admissible S c
    then \<exists>w. open_slot ptr C v d slot = (Ok (opened c m), slot\<lparr>es_replay := w\<rparr>) \<and> window_rel ptr w (insert c S)
    else open_slot ptr C v d slot = (Err (), slot)"
proof -
  have chk: "ReplayWindow_check ptr (es_replay slot) c = Ok (admissible S c)"
    using ReplayWindow_check_rel assms(1,2) by blast
  note dec = decrypt_sealed [OF assms(3) chk]
  show ?thesis
  proof (cases "admissible S c")
    case True
    then obtain w where "ReplayWindow_accept ptr (es_replay slot) c = Ok w" "window_rel ptr w (insert c S)"
      using ReplayWindow_accept_rel assms(1,2) by blast
    then show ?thesis using True dec by (auto simp: open_slot_def)
  next
    case False
    then show ?thesis using dec by (simp add: open_slot_def)
  qed
qed

lemma open_run_admitted:
  assumes "window_rel ptr (es_replay slot) S" "\<forall>c\<in>set cs. unat c < 2 ^ ptr \<and> sealed_frame C v (es_kr slot) c (M c) (F c)"
  shows "open_run ptr C v (map F cs) slot = map (\<lambda>c. opened c (M c)) (admitted S cs)"
  using assms
proof (induction cs arbitrary: slot S)
  case (Cons c cs)
  note step = open_slot_sealed [of ptr slot S c C v "M c" "F c"]
  show ?case
  proof (cases "admissible S c")
    case True
    then obtain w where "open_slot ptr C v (F c) slot = (Ok (opened c (M c)), slot\<lparr>es_replay := w\<rparr>)"
        "window_rel ptr w (insert c S)"
      using step Cons.prems by auto
    then show ?thesis using True Cons.IH [of "slot\<lparr>es_replay := w\<rparr>" "insert c S"] Cons.prems(2) by simp
  next
    case False
    then have "open_slot ptr C v (F c) slot = (Err (), slot)" using step Cons.prems by simp
    then show ?thesis using False Cons.IH [OF Cons.prems(1)] Cons.prems(2) by simp
  qed
qed simp

lemma all_epoch_pos: "(\<forall>q. P q) \<longleftrightarrow> P Cur \<and> P Pend \<and> P Prev"
  by (metis epoch_pos.exhaust)

lemma open_slot_other_key:
  assumes "sealed_frame C v key c m frame" "\<not> opens_under C v (es_kr X) frame"
    "window_rel ptr (es_replay X) S" "unat c < 2 ^ ptr"
  shows "open_slot ptr C v frame X = (Err (), X)"
proof -
  obtain r ct hdr where f: "parse_message v frame = Ok (Established r c ct)"
     "EncryptedHeader_parse v frame = Ok \<lparr>eh_receiver_idx = r, eh_counter = c, eh_header_bytes = hdr\<rparr>"
     "16 \<le> length frame"
    using assms(1) by (auto simp: sealed_frame_def split: prod.splits)
  have chk: "ReplayWindow_check ptr (es_replay X) c = Ok (admissible S c)"
    using ReplayWindow_check_rel assms(3,4) by blast
  have "aead_decrypt C (es_kr X) c hdr (drop 16 frame) 2048 \<noteq> Ok p" for p
    using assms(2) f(2) by (auto simp: opens_under_def)
  moreover have "aead_decrypt C (es_kr X) c hdr (drop 16 frame) 2048 \<noteq> Panic" by simp
  ultimately obtain e where "aead_decrypt C (es_kr X) c hdr (drop 16 frame) 2048 = Err e"
    by (cases "aead_decrypt C (es_kr X) c hdr (drop 16 frame) 2048") auto
  then show ?thesis using f chk by (simp add: open_slot_def decrypt_established_frame_def step_simps)
qed

lemma trial_decrypt_finds:
  assumes "slot_at s q = Some X" "open_slot ptr C v d X = (Ok f, X')"
    and "\<forall>q' Y. q' \<noteq> q \<longrightarrow> slot_at s q' = Some Y \<longrightarrow> open_slot ptr C v d Y = (Err (), Y)"
  shows "fst (trial_decrypt ptr C v d s) = won q f \<and> slot_at (snd (trial_decrypt ptr C v d s)) q = Some X' \<and>
    (\<forall>q'. q' \<noteq> q \<longrightarrow> slot_at (snd (trial_decrypt ptr C v d s)) q' = slot_at s q')"
proof -
  have other: "slot_at s q' = Some Y \<Longrightarrow> open_slot ptr C v d Y = (Err (), Y)" if "q' \<noteq> q" for q' Y
    using assms(3) that by blast
  have eq: "s\<lparr>sl_cur := sl_cur s\<rparr> = s" "sl_pend s = Some y \<Longrightarrow> s\<lparr>sl_pend := Some y\<rparr> = s" "sl_prev s = Some y \<Longrightarrow> s\<lparr>sl_prev := Some y\<rparr> = s" for y
    by simp_all
  have cur: "q \<noteq> Cur \<Longrightarrow> try_cur ptr C v d s = (No_slot, s)" using other [of Cur] by (simp add: try_cur_def)
  have pend: "q \<noteq> Pend \<Longrightarrow> try_pend ptr C v d s = (No_slot, s)"
    using other [of Pend] by (auto simp: try_pend_def eq split: option.split)
  have prev: "q \<noteq> Prev \<Longrightarrow> try_prev ptr C v d s = (No_slot, s)"
    using other [of Prev] by (auto simp: try_prev_def eq split: option.split)
  show ?thesis
  proof (cases q)
    case Cur
    then have "try_cur ptr C v d s = (From_cur f, s\<lparr>sl_cur := X'\<rparr>)"
      using assms(1,2) by (simp add: try_cur_def)
    then have "trial_decrypt ptr C v d s = (From_cur f, s\<lparr>sl_cur := X'\<rparr>)"
      using Cur pend by (simp add: trial_decrypt_def or_try_def Let_def)
    moreover have "slot_at (s\<lparr>sl_cur := X'\<rparr>) q' = slot_at s q'" if "q' \<noteq> Cur" for q' using that by (cases q') simp_all
    ultimately show ?thesis using Cur by simp
  next
    case Pend
    then have "try_pend ptr C v d s = (From_pend f, s\<lparr>sl_pend := Some X'\<rparr>)"
      using assms(1,2) by (simp add: try_pend_def)
    then have "trial_decrypt ptr C v d s = (From_pend f, s\<lparr>sl_pend := Some X'\<rparr>)"
      using Pend cur by (simp add: trial_decrypt_def or_try_def Let_def)
    moreover have "slot_at (s\<lparr>sl_pend := Some X'\<rparr>) q' = slot_at s q'" if "q' \<noteq> Pend" for q' using that by (cases q') simp_all
    ultimately show ?thesis using Pend by simp
  next
    case Prev
    then have "try_prev ptr C v d s = (From_prev f, s\<lparr>sl_prev := Some X'\<rparr>)"
      using assms(1,2) by (simp add: try_prev_def)
    then have "trial_decrypt ptr C v d s = (From_prev f, s\<lparr>sl_prev := Some X'\<rparr>)"
      using Prev cur pend by (simp add: trial_decrypt_def or_try_def Let_def)
    moreover have "slot_at (s\<lparr>sl_prev := Some X'\<rparr>) q' = slot_at s q'" if "q' \<noteq> Prev" for q' using that by (cases q') simp_all
    ultimately show ?thesis using Prev by simp
  qed
qed

section \<open>Properties\<close>



text \<open>C20. A key change interrupts no traffic: a frame sealed under the keys of any live epoch, current,
  pending or previous, is found by the trial order whatever its key-epoch bit says, is opened in that
  epoch's slot, and leaves the other epochs as they were.  The frame must be new to the slot and the
  other epochs' keys must not open it.\<close>

theorem epochs_keep_traffic:
  assumes "crypto_ok C" "length (es_ks A) = 32" "length p \<le> 219"
    and "seal_link C v now 512 (t # p) A = (Ok frame, A')" "unat (es_send_ctr A) < 2 ^ ptr"
    and "slot_at s q = Some X" "es_kr X = es_ks A" "window_rel ptr (es_replay X) S" "admissible S (es_send_ctr A)"
    and "windows_ok ptr s"
    and "\<forall>q' Y. q' \<noteq> q \<longrightarrow> slot_at s q' = Some Y \<longrightarrow> \<not> opens_under C v (es_kr Y) frame"
  shows "fst (trial_decrypt ptr C v frame s) = won q (opened (es_send_ctr A) (now, t, p)) \<and>
    (\<forall>q'. q' \<noteq> q \<longrightarrow> slot_at (snd (trial_decrypt ptr C v frame s)) q' = slot_at s q')"
proof -
  have sealed: "sealed_frame C v (es_kr X) (es_send_ctr A) (now, t, p) frame"
    using seal_link_Ok [OF assms(1,2), of now t p 512 v] assms(3,4,7) by (simp add: msg_ok_def)
  obtain w where "open_slot ptr C v frame X = (Ok (opened (es_send_ctr A) (now, t, p)), X\<lparr>es_replay := w\<rparr>)"
    using open_slot_sealed [OF assms(8,5) sealed] assms(9) by auto
  moreover have "\<forall>q' Y. q' \<noteq> q \<longrightarrow> slot_at s q' = Some Y \<longrightarrow> open_slot ptr C v frame Y = (Err (), Y)"
    using open_slot_other_key [OF sealed] assms(5,10,11) unfolding windows_ok_def by blast
  ultimately show ?thesis using trial_decrypt_finds [OF assms(6)] by blast
qed

theorem epochs_keep_traffic_witness:
  "\<exists>frame. fst (seal_link sample_crypto Wire_IK 0 512 [5, 9] (new_slot (replicate 32 2) [] 1 True)) = Ok frame \<and>
     fst (trial_decrypt 64 sample_crypto Wire_IK frame
       \<lparr>sl_cur = new_slot [] (replicate 32 1) 1 False, sl_pend = Some (new_slot [] (replicate 32 2) 1 True),
        sl_prev = None\<rparr>) = From_pend (opened 0 (0, 5, [9]))"
proof -
  let ?A = "new_slot (replicate 32 2) [] 1 True" and ?X = "new_slot [] (replicate 32 2) 1 True"
  let ?s = "\<lparr>sl_cur = new_slot [] (replicate 32 1) 1 False, sl_pend = Some ?X, sl_prev = None\<rparr>"
  obtain frame where f: "seal_link sample_crypto Wire_IK 0 512 [5, 9] ?A = (Ok frame, ?A\<lparr>es_send_ctr := es_send_ctr ?A + 1\<rparr>)"
      "frame = build_established_header Wire_IK 1 0 1 6 @ [0, 0, 0, 0, 5, 9] @ replicate 16 2"
    by (simp add: seal_link_def prepend_inner_header_def encrypt_and_assemble_def aead_encrypt_def sample_crypto_def
        sample_tag_def new_slot_def FLAG_KEY_EPOCH_def as_millis_def to_le_def upt_rec)
  have "\<not> opens_under sample_crypto Wire_IK (replicate 32 1) frame"
    unfolding f(2) by (simp add: opens_under_def aead_decrypt_def sample_crypto_def sample_tag_def)
  then have others: "\<forall>q' Y. q' \<noteq> Pend \<longrightarrow> slot_at ?s q' = Some Y \<longrightarrow> \<not> opens_under sample_crypto Wire_IK (es_kr Y) frame"
    by (simp add: all_epoch_pos new_slot_def)
  have win: "windows_ok 64 ?s"
    unfolding windows_ok_def by (auto simp: all_epoch_pos new_slot_def intro: window_rel_new)
  show ?thesis
    using epochs_keep_traffic [OF sample_crypto_ok _ _ f(1) _ _ _ _ _ win others, where X = ?X and S = "{}"] f(1)
    by (simp add: new_slot_def window_rel_new admissible_def)
qed

end
