(* ===== verification/NoiseCore.thy ===== *)
theory NoiseCore
  imports Crypto
begin

text \<open>
  What the six Noise machines of crates/fips-noise/src/lib.rs share: the symmetric state
  (\<^verbatim>\<open>h\<close>, \<^verbatim>\<open>ck\<close>, \<^verbatim>\<open>k\<close>, \<^verbatim>\<open>n\<close>), which every machine's record extends, and the state-passing
  steps their methods are built from.  A step returns its outcome together with the state it
  leaves behind: a method that fails half-way keeps the assignments it has already made.

  The locale \<open>key_agreement\<close> is the contract a handshake owes its client, the link or session
  layer: both ends finish with the same pair of keys, in opposite roles.
\<close>

section \<open>Symmetric state and steps\<close>

record sym_state =
  sy_h :: bytes
  sy_ck :: bytes
  sy_k :: "bytes option"
  sy_n :: u64

type_synonym ('s, 'a) step = "('s, noise_error, 'a) estep"

text \<open>\<^verbatim>\<open>self.h = mix_hash(&self.h, data)\<close>; and the four assignments after a Diffie-Hellman token.\<close>

definition mixh :: "crypto \<Rightarrow> bytes \<Rightarrow> ('s sym_state_scheme, unit) step" where
  "mixh C data = modm (\<lambda>s. s\<lparr>sy_h := mix_hash C (sy_h s) data\<rparr>)"

definition mixk :: "crypto \<Rightarrow> bytes \<Rightarrow> ('s sym_state_scheme, unit) step" where
  "mixk C dh = modm (\<lambda>s. let (new_ck, k) = mix_key C (sy_ck s) dh
     in s\<lparr>sy_ck := new_ck, sy_k := Some k, sy_n := 0\<rparr>)"

text \<open>
  \<^verbatim>\<open>aead_encrypt(self.k.as_ref().unwrap(), self.n, &[], ..)?; self.n += 1;
  self.h = mix_hash(..)\<close>, with empty associated data, and the decrypting counterpart.
\<close>

definition encm :: "crypto \<Rightarrow> bytes \<Rightarrow> nat \<Rightarrow> ('s sym_state_scheme, bytes) step" where
  "encm C plaintext cap = bindm (getm sy_k) (\<lambda>k. bindm (liftm (unwrap k)) (\<lambda>key. bindm (getm sy_n) (\<lambda>n.
     bindm (liftm (aead_encrypt C key n [] plaintext cap)) (\<lambda>ct.
     bindm (modm (\<lambda>s. s\<lparr>sy_n := sy_n s + 1\<rparr>)) (\<lambda>_.
     bindm (mixh C ct) (\<lambda>_. retm ct))))))"

definition decm :: "crypto \<Rightarrow> bytes \<Rightarrow> nat \<Rightarrow> ('s sym_state_scheme, bytes) step" where
  "decm C ciphertext cap = bindm (getm sy_k) (\<lambda>k. bindm (liftm (unwrap k)) (\<lambda>key. bindm (getm sy_n) (\<lambda>n.
     bindm (liftm (aead_decrypt C key n [] ciphertext cap)) (\<lambda>pt.
     bindm (modm (\<lambda>s. s\<lparr>sy_n := sy_n s + 1\<rparr>)) (\<lambda>_.
     bindm (mixh C ciphertext) (\<lambda>_. retm pt))))))"

definition slicem :: "bytes \<Rightarrow> nat \<Rightarrow> nat \<Rightarrow> ('s, bytes) step" where
  "slicem xs a b = liftm (slice xs a b)"

definition sealed :: "crypto \<Rightarrow> bytes \<Rightarrow> u64 \<Rightarrow> bytes \<Rightarrow> bytes" where
  "sealed C key n pt =
     (case seal_prim C key (make_nonce n) [] pt of Some (ct, tag) \<Rightarrow> ct @ tag | None \<Rightarrow> [])"

section \<open>Computing with steps\<close>

lemma bindm_mixh [step_simps]: "bindm (mixh C d) f s = f () (s\<lparr>sy_h := mix_hash C (sy_h s) d\<rparr>)"
  by (simp add: mixh_def step_simps)

lemma bindm_mixk [step_simps]: "bindm (mixk C d) f s =
    f () (s\<lparr>sy_ck := fst (mix_key C (sy_ck s) d), sy_k := Some (snd (mix_key C (sy_ck s) d)), sy_n := 0\<rparr>)"
  by (simp add: mixk_def step_simps split_beta Let_def)

lemma mixh_eq: "mixh C d s = (Ok (), s\<lparr>sy_h := mix_hash C (sy_h s) d\<rparr>)"
  by (simp add: mixh_def modm_def)

lemma mixk_eq: "mixk C d s =
    (Ok (), s\<lparr>sy_ck := fst (mix_key C (sy_ck s) d), sy_k := Some (snd (mix_key C (sy_ck s) d)), sy_n := 0\<rparr>)"
  by (simp add: mixk_def modm_def split_beta Let_def)

text \<open>
  \<open>sealed\<close> names the ciphertext of a handshake field, which is what one end writes and the other
  opens when key and counter agree.
\<close>

lemma aead_encrypt_sealed:
  assumes "crypto_ok C" "length key = 32" "length pt \<le> 65535" "length pt + 16 \<le> cap"
  shows "aead_encrypt C key n [] pt cap = Ok (sealed C key n pt)"
  using assms seal_total [OF assms(1,3), of key "make_nonce n" "[]"]
  by (auto simp: aead_encrypt_def sealed_def)

lemma length_sealed [simp]:
  assumes "crypto_ok C" "length key = 32" "length pt \<le> 65535"
  shows "length (sealed C key n pt) = length pt + 16"
  using aead_encrypt_length [OF assms(1) aead_encrypt_sealed [OF assms order.refl]] by simp

lemma aead_decrypt_sealed:
  assumes "crypto_ok C" "length key = 32" "length pt \<le> 65535" "length pt \<le> cap"
  shows "aead_decrypt C key n [] (sealed C key n pt) cap = Ok pt"
  using aead_decrypt_encrypt [OF assms(1) aead_encrypt_sealed [OF assms(1-3) order.refl] assms(4)] by simp

lemma bindm_encm [step_simps]:
  assumes "crypto_ok C" "sy_k s = Some key" "length key = 32" "length pt \<le> 65535" "length pt + 16 \<le> cap"
  shows "bindm (encm C pt cap) f s = f (sealed C key (sy_n s) pt)
    (s\<lparr>sy_n := sy_n s + 1, sy_h := mix_hash C (sy_h s) (sealed C key (sy_n s) pt)\<rparr>)"
  using assms by (simp add: encm_def bindm_def getm_def liftm_def modm_def mixh_def retm_def aead_encrypt_sealed)

lemma decm_sealed [step_simps]:
  assumes "crypto_ok C" "sy_k s = Some key" "n = sy_n s" "length key = 32" "length pt \<le> 65535" "length pt \<le> cap"
  shows "decm C (sealed C key n pt) cap s = (Ok pt,
    s\<lparr>sy_n := sy_n s + 1, sy_h := mix_hash C (sy_h s) (sealed C key (sy_n s) pt)\<rparr>)"
  using assms by (simp add: decm_def step_simps aead_decrypt_sealed)

lemma bindm_decm [step_simps]:
  assumes "crypto_ok C" "sy_k s = Some key" "n = sy_n s" "length key = 32" "length pt \<le> 65535" "length pt \<le> cap"
  shows "bindm (decm C (sealed C key n pt) cap) f s = f pt
    (s\<lparr>sy_n := sy_n s + 1, sy_h := mix_hash C (sy_h s) (sealed C key (sy_n s) pt)\<rparr>)"
  using assms decm_sealed [OF assms] by (simp add: bindm_def)

lemma bindm_map_errm_encm [step_simps]:
  assumes "crypto_ok C" "sy_k s = Some key" "length key = 32" "length pt \<le> 65535" "length pt + 16 \<le> cap"
  shows "bindm (map_errm g (encm C pt cap)) f s = f (sealed C key (sy_n s) pt)
    (s\<lparr>sy_n := sy_n s + 1, sy_h := mix_hash C (sy_h s) (sealed C key (sy_n s) pt)\<rparr>)"
  using assms bindm_encm [OF assms, of retm]
  by (simp add: bindm_def map_errm_def retm_def split: prod.splits res.splits)

lemma bindm_map_errm_decm [step_simps]:
  assumes "crypto_ok C" "sy_k s = Some key" "n = sy_n s" "length key = 32" "length pt \<le> 65535" "length pt \<le> cap"
  shows "bindm (map_errm g (decm C (sealed C key n pt) cap)) f s = f pt
    (s\<lparr>sy_n := sy_n s + 1, sy_h := mix_hash C (sy_h s) (sealed C key (sy_n s) pt)\<rparr>)"
  using assms decm_sealed [OF assms] by (simp add: bindm_def map_errm_def)

text \<open>The steps on an arbitrary ciphertext or buffer, case by case.\<close>

lemma encm_cases:
  assumes "sy_k s = Some key"
  shows "encm C pt cap s = (case aead_encrypt C key (sy_n s) [] pt cap of
      Ok ct \<Rightarrow> (Ok ct, s\<lparr>sy_n := sy_n s + 1, sy_h := mix_hash C (sy_h s) ct\<rparr>) | Err e \<Rightarrow> (Err e, s) | Panic \<Rightarrow> (Panic, s))"
  using assms by (simp add: encm_def step_simps split: res.split)

lemma decm_cases:
  assumes "sy_k s = Some key"
  shows "decm C ct cap s = (case aead_decrypt C key (sy_n s) [] ct cap of
      Ok pt \<Rightarrow> (Ok pt, s\<lparr>sy_n := sy_n s + 1, sy_h := mix_hash C (sy_h s) ct\<rparr>) | Err e \<Rightarrow> (Err e, s) | Panic \<Rightarrow> (Panic, s))"
  using assms by (simp add: decm_def step_simps split: res.split)

lemma no_panic_mix [simp]: "no_panic (mixh C d) s" "no_panic (mixk C d) s"
  by (simp_all add: no_panic_def mixh_def mixk_def modm_def)

lemma no_panic_encm [simp]: "sy_k s \<noteq> None \<Longrightarrow> no_panic (encm C pt cap) s"
  by (auto simp: no_panic_def encm_cases split: res.splits)

lemma no_panic_decm [simp]: "sy_k s \<noteq> None \<Longrightarrow> no_panic (decm C ct cap) s"
  by (auto simp: no_panic_def decm_cases split: res.splits)

lemma mixk_OkE: "mixk C d s = (Ok (), s') \<Longrightarrow> sy_k s' \<noteq> None"
  by (auto simp: mixk_eq)

lemma decm_keeps_k: "decm C ct cap s = (Ok pt, s') \<Longrightarrow> sy_k s' = sy_k s"
  by (cases "sy_k s") (auto simp: decm_cases decm_def step_simps split: res.splits)

lemma encm_OkD: "encm C pt cap s = (Ok ct, s') \<Longrightarrow>
    s' = s\<lparr>sy_n := sy_n s + 1, sy_h := mix_hash C (sy_h s) ct\<rparr> \<and> sy_k s \<noteq> None"
  by (cases "sy_k s") (auto simp: encm_cases encm_def step_simps split: res.splits)

lemma decm_OkD: "decm C ct cap s = (Ok pt, s') \<Longrightarrow>
    s' = s\<lparr>sy_n := sy_n s + 1, sy_h := mix_hash C (sy_h s) ct\<rparr> \<and> sy_k s \<noteq> None"
  by (cases "sy_k s") (auto simp: decm_cases decm_def step_simps split: res.splits)

lemma encm_keeps_k: "encm C pt cap s = (Ok ct, s') \<Longrightarrow> sy_k s' = sy_k s"
  by (cases "sy_k s") (auto simp: encm_cases encm_def step_simps split: res.splits)

section \<open>The contract of a handshake\<close>

text \<open>
  The secrets and epochs of a run: initiator ephemeral and static secret, responder ephemeral and
  static secret, the parity byte with which the initiator holds the responder's static key, and
  both epochs.
\<close>

record handshake_params =
  hp_ie :: bytes
  hp_is :: bytes
  hp_re :: bytes
  hp_rs :: bytes
  hp_parity :: byte
  hp_iepoch :: bytes
  hp_repoch :: bytes

definition hp_valid :: "crypto \<Rightarrow> handshake_params \<Rightarrow> bool" where
  "hp_valid C p \<longleftrightarrow> crypto_ok C \<and> pubkey_prim C (hp_ie p) \<noteq> None \<and> pubkey_prim C (hp_is p) \<noteq> None
     \<and> pubkey_prim C (hp_re p) \<noteq> None \<and> pubkey_prim C (hp_rs p) \<noteq> None
     \<and> (hp_parity p = 2 \<or> hp_parity p = 3) \<and> length (hp_iepoch p) = 8 \<and> length (hp_repoch p) = 8"

text \<open>A concrete instance of the hypotheses.\<close>

definition sample_hp :: handshake_params where
  "sample_hp = \<lparr>hp_ie = replicate 32 1, hp_is = replicate 32 2, hp_re = replicate 32 3, hp_rs = replicate 32 4,
     hp_parity = 3, hp_iepoch = replicate 8 5, hp_repoch = replicate 8 6\<rparr>"

lemma sample_hp_valid: "hp_valid sample_crypto sample_hp"
  by (simp add: hp_valid_def sample_hp_def sample_crypto_ok) (simp add: sample_crypto_def)

text \<open>
  \<open>run p\<close> is one complete exchange between an initiator and a responder with the secrets and
  epochs \<open>p\<close>; it yields the (send, receive) key pairs of the initiator and of the responder.
\<close>

type_synonym key_pair = "bytes \<times> bytes"

locale key_agreement =
  fixes C :: crypto
    and valid :: "'p \<Rightarrow> bool"
    and run :: "'p \<Rightarrow> (key_pair \<times> key_pair, noise_error) res"
  assumes agree: "valid p \<Longrightarrow> \<exists>k1 k2. run p = Ok ((k1, k2), (k2, k1)) \<and> length k1 = 32 \<and> length k2 = 32"
begin

lemma transports:
  assumes "valid p" "crypto_ok C" "length pt \<le> 65535" "length pt + 16 \<le> cap" "length pt \<le> cap'"
  shows "\<exists>isend irecv rsend rrecv. run p = Ok ((isend, irecv), (rsend, rrecv))
     \<and> (\<exists>ct. aead_encrypt C isend n aad pt cap = Ok ct \<and> aead_decrypt C rrecv n aad ct cap' = Ok pt)
     \<and> (\<exists>ct. aead_encrypt C rsend n aad pt cap = Ok ct \<and> aead_decrypt C irecv n aad ct cap' = Ok pt)"
proof -
  obtain k1 k2 where k: "run p = Ok ((k1, k2), (k2, k1))" "length k1 = 32" "length k2 = 32"
    using agree [OF assms(1)] by blast
  have "\<exists>ct. aead_encrypt C k n aad pt cap = Ok ct \<and> aead_decrypt C k n aad ct cap' = Ok pt"
    if "length k = 32" for k
    using aead_encrypt_total [OF assms(2) that assms(3), of cap n aad] assms(4,5)
      aead_decrypt_encrypt [OF assms(2)] by auto
  then show ?thesis using k by simp
qed

end

end
