(* ===== verification/NoiseIK.thy ===== *)
theory NoiseIK
  imports NoiseCore
begin

text \<open>
  The link handshake \<^verbatim>\<open>Noise_IK\<close>: \<^verbatim>\<open>NoiseIkInitiator\<close> and \<^verbatim>\<open>NoiseIkResponder\<close> of
  crates/fips-noise/src/lib.rs.  The methods are steps on the machines' records.  \<open>ik_run\<close>
  composes one exchange the way the two ends call the methods; it shows that the machines agree on
  keys and identities whatever parity byte the initiator assumed for the responder's key.
\<close>

record ik_initiator = sym_state +
  iki_e_priv :: bytes
  iki_e_pub :: bytes
  iki_s_priv :: bytes
  iki_rs_pub :: bytes

definition NoiseIkInitiator_new :: "crypto \<Rightarrow> bytes \<Rightarrow> bytes \<Rightarrow> bytes \<Rightarrow> (ik_initiator \<times> bytes, noise_error) res" where
  "NoiseIkInitiator_new C my_ephemeral_secret my_static_secret responder_static_pub =
     bind_res (ecdh_pubkey C my_ephemeral_secret) (\<lambda>e_pub.
     let h0 = hash_one C PROTOCOL_NAME;
         normalized_rs = parity_normalize responder_static_pub;
         h1 = mix_hash C h0 normalized_rs
     in Ok (\<lparr>sy_h = h1, sy_ck = h0, sy_k = None, sy_n = 0, iki_e_priv = my_ephemeral_secret,
             iki_e_pub = e_pub, iki_s_priv = my_static_secret, iki_rs_pub = responder_static_pub\<rparr>, e_pub))"

definition NoiseIkInitiator_write_message1 :: "crypto \<Rightarrow> bytes \<Rightarrow> bytes \<Rightarrow> nat \<Rightarrow> (ik_initiator, bytes) step" where
  "NoiseIkInitiator_write_message1 C my_static_pub epoch cap =
     bindm (guardm (cap < PUBKEY_SIZE + (PUBKEY_SIZE + TAG_SIZE) + (EPOCH_SIZE + TAG_SIZE)) BufferTooSmall) (\<lambda>_.
     bindm (getm iki_e_pub) (\<lambda>e_pub.
     bindm (mixh C e_pub) (\<lambda>_.
     bindm (getm iki_e_priv) (\<lambda>e_priv. bindm (getm iki_rs_pub) (\<lambda>rs_pub.
     bindm (liftm (x_only_ecdh C e_priv rs_pub)) (\<lambda>dh.
     bindm (mixk C dh) (\<lambda>_.
     bindm (encm C my_static_pub (cap - PUBKEY_SIZE)) (\<lambda>enc_s.
     bindm (getm iki_s_priv) (\<lambda>s_priv.
     bindm (liftm (x_only_ecdh C s_priv rs_pub)) (\<lambda>ss_dh.
     bindm (mixk C ss_dh) (\<lambda>_.
     bindm (encm C epoch (cap - PUBKEY_SIZE - length enc_s)) (\<lambda>enc_epoch.
       retm (e_pub @ enc_s @ enc_epoch)))))))))))))"

definition NoiseIkInitiator_read_message2 :: "crypto \<Rightarrow> bytes \<Rightarrow> (ik_initiator, bytes) step" where
  "NoiseIkInitiator_read_message2 C payload =
     bindm (guardm (length payload \<noteq> PUBKEY_SIZE + EPOCH_SIZE + TAG_SIZE) InvalidMessage) (\<lambda>_.
     bindm (slicem payload 0 PUBKEY_SIZE) (\<lambda>re_pub.
     bindm (mixh C re_pub) (\<lambda>_.
     bindm (getm iki_e_priv) (\<lambda>e_priv.
     bindm (liftm (x_only_ecdh C e_priv re_pub)) (\<lambda>dh.
     bindm (mixk C dh) (\<lambda>_.
     bindm (getm iki_rs_pub) (\<lambda>rs_pub.
     bindm (liftm (x_only_ecdh C e_priv rs_pub)) (\<lambda>se_dh.
     bindm (mixk C se_dh) (\<lambda>_.
     bindm (liftm (slice_from payload PUBKEY_SIZE)) (\<lambda>enc_epoch.
       decm C enc_epoch EPOCH_SIZE))))))))))"

definition NoiseIkInitiator_finalize :: "crypto \<Rightarrow> ik_initiator \<Rightarrow> key_pair" where
  "NoiseIkInitiator_finalize C s = split_keys C (sy_ck s)"

record ik_responder = sym_state +
  ikr_s_priv :: bytes
  ikr_ei_pub :: bytes
  ikr_rs_pub :: "bytes option"

definition NoiseIkResponder_new :: "crypto \<Rightarrow> bytes \<Rightarrow> bytes \<Rightarrow> (ik_responder, noise_error) res" where
  "NoiseIkResponder_new C responder_static_secret initiator_ephemeral_pub =
     (let h0 = hash_one C PROTOCOL_NAME in
      bind_res (map_err (\<lambda>_. InvalidPublicKey) (ecdh_pubkey C responder_static_secret)) (\<lambda>s_pub.
      let normalized_rs = parity_normalize s_pub;
          h1 = mix_hash C h0 normalized_rs;
          h2 = mix_hash C h1 initiator_ephemeral_pub
      in bind_res (map_err (\<lambda>_. DecryptionFailed) (x_only_ecdh C responder_static_secret initiator_ephemeral_pub)) (\<lambda>dh.
         let (ck, k) = mix_key C h0 dh
         in Ok \<lparr>sy_h = h2, sy_ck = ck, sy_k = Some k, sy_n = 0, ikr_s_priv = responder_static_secret,
                ikr_ei_pub = initiator_ephemeral_pub, ikr_rs_pub = None\<rparr>)))"

definition NoiseIkResponder_read_message1 :: "crypto \<Rightarrow> bytes \<Rightarrow> (ik_responder, bytes \<times> bytes) step" where
  "NoiseIkResponder_read_message1 C payload =
     (let MIN_MSG1_PAYLOAD = PUBKEY_SIZE + TAG_SIZE + EPOCH_SIZE + TAG_SIZE in
     bindm (guardm (length payload < MIN_MSG1_PAYLOAD) (MessageTooShort MIN_MSG1_PAYLOAD (length payload))) (\<lambda>_.
     bindm (slicem payload 0 49) (\<lambda>enc_static.
     bindm (map_errm (\<lambda>_. DecryptionFailed) (decm C enc_static PUBKEY_SIZE)) (\<lambda>static_buf.
     bindm (getm ikr_s_priv) (\<lambda>s_priv.
     bindm (liftm (map_err (\<lambda>_. DecryptionFailed) (x_only_ecdh C s_priv static_buf))) (\<lambda>ss_dh.
     bindm (mixk C ss_dh) (\<lambda>_.
     bindm (modm (\<lambda>s. s\<lparr>ikr_rs_pub := Some static_buf\<rparr>)) (\<lambda>_.
     bindm (liftm (slice_from payload 49)) (\<lambda>enc_epoch.
     bindm (map_errm (\<lambda>_. DecryptionFailed) (decm C enc_epoch EPOCH_SIZE)) (\<lambda>epoch_buf.
       retm (static_buf, epoch_buf)))))))))))"

definition NoiseIkResponder_write_message2 :: "crypto \<Rightarrow> bytes \<Rightarrow> bytes \<Rightarrow> nat \<Rightarrow> (ik_responder, bytes) step" where
  "NoiseIkResponder_write_message2 C responder_ephemeral_secret epoch cap =
     (let needed = PUBKEY_SIZE + EPOCH_SIZE + TAG_SIZE in
     bindm (guardm (cap < needed) (MessageTooLarge cap needed)) (\<lambda>_.
     bindm (liftm (map_err (\<lambda>_. InvalidPublicKey) (ecdh_pubkey C responder_ephemeral_secret))) (\<lambda>e_pub.
     bindm (mixh C e_pub) (\<lambda>_.
     bindm (getm ikr_ei_pub) (\<lambda>ei_pub.
     bindm (liftm (map_err (\<lambda>_. DecryptionFailed) (x_only_ecdh C responder_ephemeral_secret ei_pub))) (\<lambda>ee_dh.
     bindm (mixk C ee_dh) (\<lambda>_.
     bindm (getm ikr_s_priv) (\<lambda>s_priv.
     bindm (liftm (map_err (\<lambda>_. DecryptionFailed) (x_only_ecdh C s_priv ei_pub))) (\<lambda>se_dh.
     bindm (mixk C se_dh) (\<lambda>_.
     bindm (map_errm (\<lambda>_. EncryptionFailed) (encm C epoch (cap - PUBKEY_SIZE))) (\<lambda>enc_epoch.
       retm (e_pub @ enc_epoch))))))))))))"

definition NoiseIkResponder_finalize :: "crypto \<Rightarrow> ik_responder \<Rightarrow> key_pair" where
  "NoiseIkResponder_finalize C s = split_keys C (sy_ck s)"

text \<open>What dropping a machine does to its secrets.\<close>

definition NoiseIkInitiator_zeroize_keys :: "ik_initiator \<Rightarrow> ik_initiator" where
  "NoiseIkInitiator_zeroize_keys s = s\<lparr>sy_ck := replicate 32 0, iki_e_priv := replicate 32 0, iki_s_priv := replicate 32 0, sy_k := None\<rparr>"

definition NoiseIkResponder_zeroize_keys :: "ik_responder \<Rightarrow> ik_responder" where
  "NoiseIkResponder_zeroize_keys s = s\<lparr>sy_ck := replicate 32 0, ikr_s_priv := replicate 32 0, sy_k := None\<rparr>"

section \<open>One exchange\<close>

text \<open>
  The result of a run: the key pairs (send, receive) of both ends, and what the responder learned
  (initiator static key and epoch) and the initiator learned (responder epoch).
\<close>

definition ik_exchange ::
  "crypto \<Rightarrow> handshake_params \<Rightarrow> ((key_pair \<times> key_pair) \<times> (bytes \<times> bytes) \<times> bytes, noise_error) res" where
  "ik_exchange C p =
     bind_res (ecdh_pubkey C (hp_rs p)) (\<lambda>rs_pub.
     bind_res (ecdh_pubkey C (hp_is p)) (\<lambda>is_pub.
     bind_res (NoiseIkInitiator_new C (hp_ie p) (hp_is p) (hp_parity p # tl rs_pub)) (\<lambda>(i0, _).
     case NoiseIkInitiator_write_message1 C is_pub (hp_iepoch p) 256 i0 of (r1, i1) \<Rightarrow>
     bind_res r1 (\<lambda>msg1.
     bind_res (NoiseIkResponder_new C (hp_rs p) (take PUBKEY_SIZE msg1)) (\<lambda>r0.
     case NoiseIkResponder_read_message1 C (drop PUBKEY_SIZE msg1) r0 of (q1, r1) \<Rightarrow>
     bind_res q1 (\<lambda>learned.
     case NoiseIkResponder_write_message2 C (hp_re p) (hp_repoch p) 128 r1 of (q2, r2) \<Rightarrow>
     bind_res q2 (\<lambda>msg2.
     case NoiseIkInitiator_read_message2 C msg2 i1 of (q3, i2) \<Rightarrow>
     bind_res q3 (\<lambda>repoch.
       let (ik1, ik2) = NoiseIkInitiator_finalize C i2; (rk1, rk2) = NoiseIkResponder_finalize C r2
       in Ok (((ik1, ik2), (rk2, rk1)), learned, repoch)))))))))"

definition ik_run :: "crypto \<Rightarrow> handshake_params \<Rightarrow> (key_pair \<times> key_pair, noise_error) res" where
  "ik_run C p = bind_res (ik_exchange C p) (\<lambda>(keys, _). Ok keys)"

section \<open>Agreement\<close>

lemma ik_message1:
  assumes C: "crypto_ok C"
    and keys: "pubkey_prim C ie = Some pie" "pubkey_prim C si = Some pis" "pubkey_prim C rs = Some prs"
    and par: "par \<in> {2, 3}" and ep: "length ep = 8" and cap: "106 \<le> cap"
  shows "\<exists>i0 msg1 i1 r0 r1. NoiseIkInitiator_new C ie si (par # tl prs) = Ok (i0, pie)
     \<and> NoiseIkInitiator_write_message1 C pis ep cap i0 = (Ok msg1, i1)
     \<and> length msg1 = 106 \<and> take 33 msg1 = pie
     \<and> NoiseIkResponder_new C rs pie = Ok r0
     \<and> NoiseIkResponder_read_message1 C (drop 33 msg1) r0 = (Ok (pis, ep), r1)
     \<and> sy_ck r1 = sy_ck i1 \<and> sy_h r1 = sy_h i1 \<and> ikr_s_priv r1 = rs \<and> ikr_ei_pub r1 = pie
     \<and> iki_e_priv i1 = ie \<and> iki_rs_pub i1 = par # tl prs"
proof -
  let ?es = "sha256 C (ecdh_prim C rs pie)" and ?ss = "sha256 C (ecdh_prim C rs pis)"
  have dh [simp]: "x_only_ecdh C ie (par # tl prs) = Ok ?es" "x_only_ecdh C si (par # tl prs) = Ok ?ss"
    "x_only_ecdh C rs pie = Ok ?es" "x_only_ecdh C rs pis = Ok ?ss"
    using x_only_ecdh_agree [OF C _ keys(3) par] x_only_ecdh_own [OF C _ keys(3)] keys by auto
  have len [simp]: "length pie = 33" "length pis = 33" using length_pubkey [OF C] keys by auto
  have pn [simp]: "parity_normalize prs = 2 # tl prs"
    using pubkey_Cons [OF C keys(3)] by (metis parity_normalize_parity)
  show ?thesis
    using C cap ep keys
    by (simp add: NoiseIkInitiator_new_def NoiseIkInitiator_write_message1_def NoiseIkResponder_new_def
        NoiseIkResponder_read_message1_def ecdh_pubkey_def Let_def split_beta step_simps slicem_def)
qed

lemma ik_message2:
  assumes C: "crypto_ok C"
    and keys: "pubkey_prim C ie = Some pie" "pubkey_prim C re = Some pre" "pubkey_prim C rs = Some prs"
    and par: "par \<in> {2, 3}" and ep: "length ep = 8" and cap: "57 \<le> cap"
    and st: "sy_ck r1 = sy_ck i1" "ikr_s_priv r1 = rs" "ikr_ei_pub r1 = pie"
      "iki_e_priv i1 = ie" "iki_rs_pub i1 = par # tl prs"
  shows "\<exists>msg2 i2 r2. NoiseIkResponder_write_message2 C re ep cap r1 = (Ok msg2, r2)
     \<and> length msg2 = 57 \<and> NoiseIkInitiator_read_message2 C msg2 i1 = (Ok ep, i2) \<and> sy_ck r2 = sy_ck i2
     \<and> (sy_h r1 = sy_h i1 \<longrightarrow> sy_h r2 = sy_h i2)"
proof -
  let ?ee = "sha256 C (ecdh_prim C re pie)" and ?se = "sha256 C (ecdh_prim C rs pie)"
  have dh [simp]: "x_only_ecdh C re pie = Ok ?ee" "x_only_ecdh C ie pre = Ok ?ee"
    "x_only_ecdh C ie (par # tl prs) = Ok ?se" "x_only_ecdh C rs pie = Ok ?se"
    using x_only_ecdh_own [OF C keys(1,2)] x_only_ecdh_sym [OF C keys(1,2)]
      x_only_ecdh_agree [OF C keys(1,3) par] x_only_ecdh_own [OF C keys(1,3)] by auto
  have len [simp]: "length pre = 33" using length_pubkey [OF C] keys by auto
  show ?thesis
    using C cap ep keys st
    by (simp add: NoiseIkResponder_write_message2_def NoiseIkInitiator_read_message2_def ecdh_pubkey_def Let_def
        step_simps slicem_def decm_sealed)
qed

lemma ik_exchange_agrees:
  assumes "hp_valid C p"
  shows "\<exists>k1 k2. ik_exchange C p =
           Ok (((k1, k2), (k2, k1)), (the (pubkey_prim C (hp_is p)), hp_iepoch p), hp_repoch p)
         \<and> length k1 = 32 \<and> length k2 = 32"
proof -
  obtain pie pis pre prs where C: "crypto_ok C" and pk: "pubkey_prim C (hp_ie p) = Some pie"
    "pubkey_prim C (hp_is p) = Some pis" "pubkey_prim C (hp_re p) = Some pre" "pubkey_prim C (hp_rs p) = Some prs"
    and par: "hp_parity p \<in> {2, 3}" and ep: "length (hp_iepoch p) = 8" "length (hp_repoch p) = 8"
    using assms by (auto simp: hp_valid_def)
  obtain i0 msg1 i1 r0 r1 where 1: "NoiseIkInitiator_new C (hp_ie p) (hp_is p) (hp_parity p # tl prs) = Ok (i0, pie)"
      "NoiseIkInitiator_write_message1 C pis (hp_iepoch p) 256 i0 = (Ok msg1, i1)" "take 33 msg1 = pie"
      "NoiseIkResponder_new C (hp_rs p) pie = Ok r0"
      "NoiseIkResponder_read_message1 C (drop 33 msg1) r0 = (Ok (pis, hp_iepoch p), r1)"
      "sy_ck r1 = sy_ck i1" "ikr_s_priv r1 = hp_rs p" "ikr_ei_pub r1 = pie"
      "iki_e_priv i1 = hp_ie p" "iki_rs_pub i1 = hp_parity p # tl prs"
    using ik_message1 [OF C pk(1,2,4) par ep(1), of 256] by auto
  obtain msg2 i2 r2 where 2: "NoiseIkResponder_write_message2 C (hp_re p) (hp_repoch p) 128 r1 = (Ok msg2, r2)"
      "NoiseIkInitiator_read_message2 C msg2 i1 = (Ok (hp_repoch p), i2)" "sy_ck r2 = sy_ck i2"
    using ik_message2 [OF C pk(1,3,4) par ep(2) _ 1(6-10), of 128] by auto
  have "ik_exchange C p = Ok ((split_keys C (sy_ck i2), (snd (split_keys C (sy_ck i2)), fst (split_keys C (sy_ck i2)))),
      (pis, hp_iepoch p), hp_repoch p)"
    using 1 2 pk by (simp add: ik_exchange_def ecdh_pubkey_def NoiseIkInitiator_finalize_def
        NoiseIkResponder_finalize_def split_beta)
  then show ?thesis using C pk(2) by (intro exI [of _ "fst (split_keys C (sy_ck i2))"] exI [of _ "snd (split_keys C (sy_ck i2))"]) simp
qed

interpretation ika: key_agreement C "hp_valid C" "ik_run C" for C
  by unfold_locales (auto simp: ik_run_def dest!: ik_exchange_agrees)

lemma ik_responder_no_panic:
  assumes "sy_k r \<noteq> None"
  shows "no_panic (NoiseIkResponder_read_message1 C payload) r"
  unfolding NoiseIkResponder_read_message1_def Let_def slicem_def
  using assms
  by (intro no_panic_bindm) (auto simp: step_OkE mixk_eq dest!: decm_keeps_k)

lemma ik_initiator_no_panic: "no_panic (NoiseIkInitiator_read_message2 C payload) i"
  unfolding NoiseIkInitiator_read_message2_def slicem_def
  by (intro no_panic_bindm) (auto simp: step_OkE mixk_eq mixh_eq)

lemma NoiseIkResponder_new_k: "NoiseIkResponder_new C s e = Ok r \<Longrightarrow> sy_k r \<noteq> None"
  by (auto simp: NoiseIkResponder_new_def Let_def bind_res_Ok_iff split_beta)

section \<open>Properties\<close>

text \<open>C1. A complete IK exchange succeeds for all valid secrets and epochs, whichever parity byte the
  initiator holds the responder's static key with: both ends derive the same two 32-byte keys in
  opposite roles, the responder learns exactly the initiator's static public key and epoch, and
  the initiator the responder's epoch.\<close>

theorem ik_agreement:
  assumes "hp_valid C p"
  shows "\<exists>k1 k2. ik_exchange C p =
           Ok (((k1, k2), (k2, k1)), (the (pubkey_prim C (hp_is p)), hp_iepoch p), hp_repoch p)
         \<and> length k1 = 32 \<and> length k2 = 32"
  by (rule ik_exchange_agrees [OF assms])

theorem ik_agreement_witness:
  "\<exists>k1 k2. ik_exchange sample_crypto sample_hp =
           Ok (((k1, k2), (k2, k1)), (the (pubkey_prim sample_crypto (hp_is sample_hp)), hp_iepoch sample_hp), hp_repoch sample_hp)
         \<and> length k1 = 32 \<and> length k2 = 32"
  by (rule ik_agreement [OF sample_hp_valid])

text \<open>C34. No message of an IK peer, however malformed, panics a machine: reading the second message
  is safe in every initiator state, and reading the first in every state a responder is created in.\<close>

theorem ik_reads_never_panic:
  "fst (NoiseIkInitiator_read_message2 C payload i) \<noteq> Panic
   \<and> (case NoiseIkResponder_new C secret epub of
        Ok r \<Rightarrow> fst (NoiseIkResponder_read_message1 C payload r) \<noteq> Panic
      | Err _ \<Rightarrow> True | Panic \<Rightarrow> False)"
proof -
  have "NoiseIkResponder_new C secret epub \<noteq> Panic"
    by (auto simp: NoiseIkResponder_new_def Let_def bind_res_Panic_iff split_beta)
  then show ?thesis
    using ik_initiator_no_panic [of C payload i] ik_responder_no_panic [of _ C payload]
      NoiseIkResponder_new_k [of C secret epub]
    by (auto simp: no_panic_def split: res.split)
qed

end
