(* ===== verification/NoiseXX.thy ===== *)
theory NoiseXX
  imports NoiseCore
begin

text \<open>
  The \<^verbatim>\<open>Noise_XX\<close> handshake of the second wire version: \<^verbatim>\<open>NoiseXxInitiator\<close> and
  \<^verbatim>\<open>NoiseXxResponder\<close> of crates/fips-noise/src/lib.rs with their payload extension (the encrypted
  negotiation block after messages 2 and 3), and the agreement of one exchange.
\<close>

record xx_initiator = sym_state +
  xxi_e_priv :: bytes
  xxi_e_pub :: bytes
  xxi_s_priv :: bytes
  xxi_re_pub :: "bytes option"
  xxi_rs_pub :: "bytes option"

definition NoiseXxInitiator_new :: "crypto \<Rightarrow> bytes \<Rightarrow> bytes \<Rightarrow> (xx_initiator \<times> bytes, noise_error) res" where
  "NoiseXxInitiator_new C my_ephemeral_secret my_static_secret =
     bind_res (ecdh_pubkey C my_ephemeral_secret) (\<lambda>e_pub.
     let h = hash_one C PROTOCOL_NAME_XX
     in Ok (\<lparr>sy_h = h, sy_ck = h, sy_k = None, sy_n = 0, xxi_e_priv = my_ephemeral_secret,
             xxi_e_pub = e_pub, xxi_s_priv = my_static_secret, xxi_re_pub = None, xxi_rs_pub = None\<rparr>, e_pub))"

definition NoiseXxInitiator_write_message1 :: "crypto \<Rightarrow> nat \<Rightarrow> (xx_initiator, bytes) step" where
  "NoiseXxInitiator_write_message1 C cap =
     bindm (guardm (cap < XX_HANDSHAKE_MSG1_SIZE) BufferTooSmall) (\<lambda>_.
     bindm (getm xxi_e_pub) (\<lambda>e_pub.
     bindm (mixh C e_pub) (\<lambda>_. retm e_pub)))"

definition NoiseXxInitiator_read_message2 :: "crypto \<Rightarrow> bytes \<Rightarrow> (xx_initiator, bytes \<times> bytes) step" where
  "NoiseXxInitiator_read_message2 C payload =
     bindm (guardm (length payload \<noteq> XX_HANDSHAKE_MSG2_SIZE) InvalidMessage) (\<lambda>_.
     bindm (slicem payload 0 PUBKEY_SIZE) (\<lambda>re_pub.
     bindm (modm (\<lambda>s. s\<lparr>xxi_re_pub := Some re_pub\<rparr>)) (\<lambda>_.
     bindm (mixh C re_pub) (\<lambda>_.
     bindm (getm xxi_e_priv) (\<lambda>e_priv.
     bindm (liftm (x_only_ecdh C e_priv re_pub)) (\<lambda>ee.
     bindm (mixk C ee) (\<lambda>_.
     bindm (slicem payload PUBKEY_SIZE (PUBKEY_SIZE + PUBKEY_SIZE + TAG_SIZE)) (\<lambda>enc_rs.
     bindm (decm C enc_rs PUBKEY_SIZE) (\<lambda>rs_pub.
     bindm (modm (\<lambda>s. s\<lparr>xxi_rs_pub := Some rs_pub\<rparr>)) (\<lambda>_.
     bindm (liftm (x_only_ecdh C e_priv rs_pub)) (\<lambda>es.
     bindm (mixk C es) (\<lambda>_.
     bindm (liftm (slice_from payload (PUBKEY_SIZE + PUBKEY_SIZE + TAG_SIZE))) (\<lambda>enc_epoch.
     bindm (decm C enc_epoch EPOCH_SIZE) (\<lambda>epoch_buf.
       retm (rs_pub, epoch_buf)))))))))))))))"

definition NoiseXxInitiator_write_message3 :: "crypto \<Rightarrow> bytes \<Rightarrow> bytes \<Rightarrow> nat \<Rightarrow> (xx_initiator, bytes) step" where
  "NoiseXxInitiator_write_message3 C my_static_pub epoch cap =
     bindm (guardm (cap < XX_HANDSHAKE_MSG3_SIZE) BufferTooSmall) (\<lambda>_.
     bindm (getm xxi_re_pub) (\<lambda>re. bindm (liftm (ok_or re InvalidState)) (\<lambda>re_pub.
     bindm (encm C my_static_pub cap) (\<lambda>enc_s.
     bindm (getm xxi_s_priv) (\<lambda>s_priv.
     bindm (liftm (x_only_ecdh C s_priv re_pub)) (\<lambda>se.
     bindm (mixk C se) (\<lambda>_.
     bindm (encm C epoch (cap - length enc_s)) (\<lambda>enc_epoch.
       retm (enc_s @ enc_epoch)))))))))"

definition NoiseXxInitiator_encrypt_payload :: "crypto \<Rightarrow> bytes \<Rightarrow> nat \<Rightarrow> (xx_initiator, bytes) step" where
  "NoiseXxInitiator_encrypt_payload C plaintext cap = encm C plaintext cap"

definition NoiseXxInitiator_decrypt_payload :: "crypto \<Rightarrow> bytes \<Rightarrow> nat \<Rightarrow> (xx_initiator, bytes) step" where
  "NoiseXxInitiator_decrypt_payload C ciphertext cap = decm C ciphertext cap"

definition NoiseXxInitiator_finalize :: "crypto \<Rightarrow> xx_initiator \<Rightarrow> key_pair" where
  "NoiseXxInitiator_finalize C s = split_keys C (sy_ck s)"

definition NoiseXxInitiator_remote_static :: "xx_initiator \<Rightarrow> bytes option" where
  "NoiseXxInitiator_remote_static s = xxi_rs_pub s"

record xx_responder = sym_state +
  xxr_s_priv :: bytes
  xxr_s_pub :: bytes
  xxr_e_priv :: "bytes option"
  xxr_e_pub :: "bytes option"
  xxr_ei_pub :: "bytes option"
  xxr_rs_pub :: "bytes option"

definition NoiseXxResponder_new :: "crypto \<Rightarrow> bytes \<Rightarrow> (xx_responder, noise_error) res" where
  "NoiseXxResponder_new C my_static_secret =
     bind_res (ecdh_pubkey C my_static_secret) (\<lambda>s_pub.
     let h = hash_one C PROTOCOL_NAME_XX
     in Ok \<lparr>sy_h = h, sy_ck = h, sy_k = None, sy_n = 0, xxr_s_priv = my_static_secret, xxr_s_pub = s_pub,
            xxr_e_priv = None, xxr_e_pub = None, xxr_ei_pub = None, xxr_rs_pub = None\<rparr>)"

definition NoiseXxResponder_read_message1 :: "crypto \<Rightarrow> bytes \<Rightarrow> (xx_responder, unit) step" where
  "NoiseXxResponder_read_message1 C payload =
     bindm (guardm (length payload \<noteq> XX_HANDSHAKE_MSG1_SIZE) InvalidMessage) (\<lambda>_.
     bindm (slicem payload 0 PUBKEY_SIZE) (\<lambda>ei_pub.
     bindm (modm (\<lambda>s. s\<lparr>xxr_ei_pub := Some ei_pub\<rparr>)) (\<lambda>_.
     mixh C ei_pub)))"

definition NoiseXxResponder_write_message2 :: "crypto \<Rightarrow> bytes \<Rightarrow> bytes \<Rightarrow> nat \<Rightarrow> (xx_responder, bytes) step" where
  "NoiseXxResponder_write_message2 C my_ephemeral_secret epoch cap =
     bindm (guardm (cap < XX_HANDSHAKE_MSG2_SIZE) BufferTooSmall) (\<lambda>_.
     bindm (getm xxr_ei_pub) (\<lambda>ei. bindm (liftm (ok_or ei InvalidState)) (\<lambda>ei_pub.
     bindm (modm (\<lambda>s. s\<lparr>xxr_e_priv := Some my_ephemeral_secret\<rparr>)) (\<lambda>_.
     bindm (liftm (ecdh_pubkey C my_ephemeral_secret)) (\<lambda>e_pub.
     bindm (modm (\<lambda>s. s\<lparr>xxr_e_pub := Some e_pub\<rparr>)) (\<lambda>_.
     bindm (mixh C e_pub) (\<lambda>_.
     bindm (liftm (x_only_ecdh C my_ephemeral_secret ei_pub)) (\<lambda>ee.
     bindm (mixk C ee) (\<lambda>_.
     bindm (getm xxr_s_pub) (\<lambda>s_pub.
     bindm (encm C s_pub (cap - PUBKEY_SIZE)) (\<lambda>enc_s.
     bindm (getm xxr_s_priv) (\<lambda>s_priv.
     bindm (liftm (x_only_ecdh C s_priv ei_pub)) (\<lambda>es.
     bindm (mixk C es) (\<lambda>_.
     bindm (encm C epoch (cap - PUBKEY_SIZE - length enc_s)) (\<lambda>enc_epoch.
       retm (e_pub @ enc_s @ enc_epoch))))))))))))))))"

definition NoiseXxResponder_read_message3 :: "crypto \<Rightarrow> bytes \<Rightarrow> (xx_responder, bytes \<times> bytes) step" where
  "NoiseXxResponder_read_message3 C payload =
     bindm (guardm (length payload \<noteq> XX_HANDSHAKE_MSG3_SIZE) InvalidMessage) (\<lambda>_.
     bindm (slicem payload 0 (PUBKEY_SIZE + TAG_SIZE)) (\<lambda>enc_rs.
     bindm (decm C enc_rs PUBKEY_SIZE) (\<lambda>rs_pub.
     bindm (modm (\<lambda>s. s\<lparr>xxr_rs_pub := Some rs_pub\<rparr>)) (\<lambda>_.
     bindm (getm xxr_e_priv) (\<lambda>ep. bindm (liftm (unwrap ep)) (\<lambda>e_priv.
     bindm (liftm (x_only_ecdh C e_priv rs_pub)) (\<lambda>se.
     bindm (mixk C se) (\<lambda>_.
     bindm (liftm (slice_from payload (PUBKEY_SIZE + TAG_SIZE))) (\<lambda>enc_epoch.
     bindm (decm C enc_epoch EPOCH_SIZE) (\<lambda>epoch_buf.
       retm (rs_pub, epoch_buf)))))))))))"

definition NoiseXxResponder_encrypt_payload :: "crypto \<Rightarrow> bytes \<Rightarrow> nat \<Rightarrow> (xx_responder, bytes) step" where
  "NoiseXxResponder_encrypt_payload C plaintext cap = encm C plaintext cap"

definition NoiseXxResponder_decrypt_payload :: "crypto \<Rightarrow> bytes \<Rightarrow> nat \<Rightarrow> (xx_responder, bytes) step" where
  "NoiseXxResponder_decrypt_payload C ciphertext cap = decm C ciphertext cap"

definition NoiseXxResponder_finalize :: "crypto \<Rightarrow> xx_responder \<Rightarrow> key_pair" where
  "NoiseXxResponder_finalize C s = split_keys C (sy_ck s)"

text \<open>What dropping a machine does to its secrets.\<close>

definition NoiseXxInitiator_zeroize_keys :: "xx_initiator \<Rightarrow> xx_initiator" where
  "NoiseXxInitiator_zeroize_keys s = s\<lparr>sy_ck := replicate 32 0, xxi_e_priv := replicate 32 0, xxi_s_priv := replicate 32 0, sy_k := None\<rparr>"

definition NoiseXxResponder_zeroize_keys :: "xx_responder \<Rightarrow> xx_responder" where
  "NoiseXxResponder_zeroize_keys s = s\<lparr>sy_ck := replicate 32 0, xxr_e_priv := None, xxr_s_priv := replicate 32 0, sy_k := None\<rparr>"

section \<open>One exchange\<close>

text \<open>
  A run with negotiation blocks \<open>rneg\<close> (after message 2) and \<open>ineg\<close> (after message 3): the result
  carries what each end learned, the blocks included.
\<close>

definition xx_exchange :: "crypto \<Rightarrow> handshake_params \<Rightarrow> bytes \<Rightarrow> bytes \<Rightarrow>
    ((key_pair \<times> key_pair) \<times> ((bytes \<times> bytes) \<times> bytes) \<times> ((bytes \<times> bytes) \<times> bytes), noise_error) res" where
  "xx_exchange C p rneg ineg =
     bind_res (ecdh_pubkey C (hp_is p)) (\<lambda>is_pub.
     bind_res (NoiseXxInitiator_new C (hp_ie p) (hp_is p)) (\<lambda>(i0, _).
     bind_res (NoiseXxResponder_new C (hp_rs p)) (\<lambda>r0.
     case NoiseXxInitiator_write_message1 C 64 i0 of (q1, i1) \<Rightarrow> bind_res q1 (\<lambda>msg1.
     case NoiseXxResponder_read_message1 C msg1 r0 of (q2, r1) \<Rightarrow> bind_res q2 (\<lambda>_.
     case NoiseXxResponder_write_message2 C (hp_re p) (hp_repoch p) 256 r1 of (q3, r2) \<Rightarrow> bind_res q3 (\<lambda>msg2.
     case NoiseXxResponder_encrypt_payload C rneg 128 r2 of (q4, r3) \<Rightarrow> bind_res q4 (\<lambda>encr.
     case NoiseXxInitiator_read_message2 C msg2 i1 of (q5, i2) \<Rightarrow> bind_res q5 (\<lambda>ilearned.
     case NoiseXxInitiator_decrypt_payload C encr 128 i2 of (q6, i3) \<Rightarrow> bind_res q6 (\<lambda>rneg'.
     case NoiseXxInitiator_write_message3 C is_pub (hp_iepoch p) 128 i3 of (q7, i4) \<Rightarrow> bind_res q7 (\<lambda>msg3.
     case NoiseXxInitiator_encrypt_payload C ineg 128 i4 of (q8, i5) \<Rightarrow> bind_res q8 (\<lambda>enci.
     case NoiseXxResponder_read_message3 C msg3 r3 of (q9, r4) \<Rightarrow> bind_res q9 (\<lambda>rlearned.
     case NoiseXxResponder_decrypt_payload C enci 128 r4 of (q10, r5) \<Rightarrow> bind_res q10 (\<lambda>ineg'.
       let (ik1, ik2) = NoiseXxInitiator_finalize C i5; (rk1, rk2) = NoiseXxResponder_finalize C r5
       in Ok (((ik1, ik2), (rk2, rk1)), (ilearned, rneg'), (rlearned, ineg')))))))))))))))"

definition xx_run :: "crypto \<Rightarrow> handshake_params \<times> bytes \<times> bytes \<Rightarrow> (key_pair \<times> key_pair, noise_error) res" where
  "xx_run C pp = (case pp of (p, rneg, ineg) \<Rightarrow> bind_res (xx_exchange C p rneg ineg) (\<lambda>(keys, _). Ok keys))"

definition xx_valid :: "crypto \<Rightarrow> handshake_params \<times> bytes \<times> bytes \<Rightarrow> bool" where
  "xx_valid C pp = (case pp of (p, rneg, ineg) \<Rightarrow> hp_valid C p \<and> length rneg \<le> 64 \<and> length ineg \<le> 64)"

section \<open>Agreement\<close>

text \<open>The two machines are in step: same hash, chaining key, cipher key and counter.\<close>

definition xx_synced :: "xx_initiator \<Rightarrow> xx_responder \<Rightarrow> bool" where
  "xx_synced i r \<longleftrightarrow> sy_h r = sy_h i \<and> sy_ck r = sy_ck i \<and> sy_k r = sy_k i \<and> sy_n r = sy_n i
     \<and> (\<exists>key. sy_k i = Some key \<and> length key = 32)"

lemma xx_message1:
  assumes C: "crypto_ok C" and keys: "pubkey_prim C ie = Some pie" "pubkey_prim C rs = Some prs" and cap: "33 \<le> cap"
  shows "\<exists>i0 i1 r0 r1. NoiseXxInitiator_new C ie si = Ok (i0, pie) \<and> NoiseXxResponder_new C rs = Ok r0
     \<and> NoiseXxInitiator_write_message1 C cap i0 = (Ok pie, i1) \<and> NoiseXxResponder_read_message1 C pie r0 = (Ok (), r1)
     \<and> sy_h r1 = sy_h i1 \<and> sy_ck r1 = sy_ck i1 \<and> xxr_ei_pub r1 = Some pie \<and> xxr_s_priv r1 = rs \<and> xxr_s_pub r1 = prs
     \<and> xxi_e_priv i1 = ie \<and> xxi_s_priv i1 = si"
  using assms length_pubkey [OF C keys(1)]
  by (simp add: NoiseXxInitiator_new_def NoiseXxResponder_new_def NoiseXxInitiator_write_message1_def
      NoiseXxResponder_read_message1_def ecdh_pubkey_def Let_def step_simps slicem_def mixh_eq)

lemma xx_message2:
  assumes C: "crypto_ok C"
    and keys: "pubkey_prim C ie = Some pie" "pubkey_prim C re = Some pre" "pubkey_prim C rs = Some prs"
    and ep: "length ep = 8" and cap: "106 \<le> cap"
    and st: "sy_h r1 = sy_h i1" "sy_ck r1 = sy_ck i1" "xxr_ei_pub r1 = Some pie" "xxr_s_priv r1 = rs"
      "xxr_s_pub r1 = prs" "xxi_e_priv i1 = ie"
  shows "\<exists>msg2 i2 r2. NoiseXxResponder_write_message2 C re ep cap r1 = (Ok msg2, r2) \<and> length msg2 = 106
     \<and> NoiseXxInitiator_read_message2 C msg2 i1 = (Ok (prs, ep), i2) \<and> xx_synced i2 r2
     \<and> xxi_re_pub i2 = Some pre \<and> xxi_rs_pub i2 = Some prs \<and> xxr_e_priv r2 = Some re \<and> xxi_s_priv i2 = xxi_s_priv i1"
proof -
  let ?ee = "sha256 C (ecdh_prim C re pie)" and ?es = "sha256 C (ecdh_prim C rs pie)"
  have dh [simp]: "x_only_ecdh C re pie = Ok ?ee" "x_only_ecdh C ie pre = Ok ?ee"
    "x_only_ecdh C rs pie = Ok ?es" "x_only_ecdh C ie prs = Ok ?es"
    using x_only_ecdh_own [OF C keys(1)] x_only_ecdh_sym [OF C keys(1)] keys by auto
  have len [simp]: "length pre = 33" "length prs = 33" using length_pubkey [OF C] keys by auto
  show ?thesis
    using C cap ep keys st
    by (simp add: NoiseXxResponder_write_message2_def NoiseXxInitiator_read_message2_def ecdh_pubkey_def
        step_simps slicem_def xx_synced_def)
qed

lemma xx_payload_down:
  assumes C: "crypto_ok C" and s: "xx_synced i r" and pt: "length pt \<le> 65535" "length pt + 16 \<le> cap" "length pt \<le> cap'"
  shows "\<exists>ct i' r'. NoiseXxResponder_encrypt_payload C pt cap r = (Ok ct, r')
     \<and> NoiseXxInitiator_decrypt_payload C ct cap' i = (Ok pt, i') \<and> xx_synced i' r' \<and> length ct = length pt + 16
     \<and> xxi_re_pub i' = xxi_re_pub i \<and> xxi_s_priv i' = xxi_s_priv i \<and> xxr_e_priv r' = xxr_e_priv r"
proof -
  obtain key where "sy_k i = Some key" "sy_k r = Some key" "length key = 32" "sy_n r = sy_n i" "sy_h r = sy_h i" "sy_ck r = sy_ck i"
    using s by (auto simp: xx_synced_def)
  then show ?thesis
    using C pt aead_encrypt_sealed [OF C, of key pt cap "sy_n i"]
    by (simp add: NoiseXxResponder_encrypt_payload_def NoiseXxInitiator_decrypt_payload_def encm_cases step_simps
        xx_synced_def)
qed

lemma xx_payload_up:
  assumes C: "crypto_ok C" and s: "xx_synced i r" and pt: "length pt \<le> 65535" "length pt + 16 \<le> cap" "length pt \<le> cap'"
  shows "\<exists>ct i' r'. NoiseXxInitiator_encrypt_payload C pt cap i = (Ok ct, i')
     \<and> NoiseXxResponder_decrypt_payload C ct cap' r = (Ok pt, r') \<and> xx_synced i' r' \<and> length ct = length pt + 16"
proof -
  obtain key where "sy_k i = Some key" "sy_k r = Some key" "length key = 32" "sy_n r = sy_n i" "sy_h r = sy_h i" "sy_ck r = sy_ck i"
    using s by (auto simp: xx_synced_def)
  then show ?thesis
    using C pt aead_encrypt_sealed [OF C, of key pt cap "sy_n i"]
    by (simp add: NoiseXxInitiator_encrypt_payload_def NoiseXxResponder_decrypt_payload_def encm_cases step_simps
        xx_synced_def)
qed

lemma xx_message3:
  assumes C: "crypto_ok C" and keys: "pubkey_prim C si = Some pis" "pubkey_prim C re = Some pre"
    and ep: "length ep = 8" and cap: "73 \<le> cap"
    and st: "xx_synced i r" "xxi_re_pub i = Some pre" "xxi_s_priv i = si" "xxr_e_priv r = Some re"
  shows "\<exists>msg3 i' r'. NoiseXxInitiator_write_message3 C pis ep cap i = (Ok msg3, i') \<and> length msg3 = 73
     \<and> NoiseXxResponder_read_message3 C msg3 r = (Ok (pis, ep), r') \<and> xx_synced i' r'"
proof -
  let ?se = "sha256 C (ecdh_prim C re pis)"
  have dh [simp]: "x_only_ecdh C re pis = Ok ?se" "x_only_ecdh C si pre = Ok ?se"
    using x_only_ecdh_own [OF C keys] x_only_ecdh_sym [OF C keys] by auto
  have len [simp]: "length pis = 33" using length_pubkey [OF C] keys by auto
  obtain key where "sy_k i = Some key" "sy_k r = Some key" "length key = 32" "sy_n r = sy_n i" "sy_h r = sy_h i" "sy_ck r = sy_ck i"
    using st by (auto simp: xx_synced_def)
  then show ?thesis
    using C cap ep keys st(2-)
    by (simp add: NoiseXxInitiator_write_message3_def NoiseXxResponder_read_message3_def step_simps slicem_def
        xx_synced_def)
qed

lemma xx_exchange_agrees:
  assumes "hp_valid C p" "length rneg \<le> 64" "length ineg \<le> 64"
  shows "\<exists>k1 k2. xx_exchange C p rneg ineg = Ok (((k1, k2), (k2, k1)),
           ((the (pubkey_prim C (hp_rs p)), hp_repoch p), rneg), ((the (pubkey_prim C (hp_is p)), hp_iepoch p), ineg))
         \<and> length k1 = 32 \<and> length k2 = 32"
proof -
  obtain pie pis pre prs where C: "crypto_ok C" and pk: "pubkey_prim C (hp_ie p) = Some pie"
    "pubkey_prim C (hp_is p) = Some pis" "pubkey_prim C (hp_re p) = Some pre" "pubkey_prim C (hp_rs p) = Some prs"
    and ep: "length (hp_iepoch p) = 8" "length (hp_repoch p) = 8"
    using assms by (auto simp: hp_valid_def)
  obtain i0 i1 r0 r1 where 1: "NoiseXxInitiator_new C (hp_ie p) (hp_is p) = Ok (i0, pie)" "NoiseXxResponder_new C (hp_rs p) = Ok r0"
      "NoiseXxInitiator_write_message1 C 64 i0 = (Ok pie, i1)" "NoiseXxResponder_read_message1 C pie r0 = (Ok (), r1)"
      "sy_h r1 = sy_h i1" "sy_ck r1 = sy_ck i1" "xxr_ei_pub r1 = Some pie" "xxr_s_priv r1 = hp_rs p" "xxr_s_pub r1 = prs"
      "xxi_e_priv i1 = hp_ie p" "xxi_s_priv i1 = hp_is p"
    using xx_message1 [OF C pk(1,4), of 64 "hp_is p"] by auto
  obtain msg2 i2 r2 where 2: "NoiseXxResponder_write_message2 C (hp_re p) (hp_repoch p) 256 r1 = (Ok msg2, r2)"
      "NoiseXxInitiator_read_message2 C msg2 i1 = (Ok (prs, hp_repoch p), i2)" "xx_synced i2 r2"
      "xxi_re_pub i2 = Some pre" "xxr_e_priv r2 = Some (hp_re p)" "xxi_s_priv i2 = hp_is p"
    using xx_message2 [OF C pk(1,3,4) ep(2) _ 1(5-10), of 256] 1(11) by auto
  obtain encr i3 r3 where 3: "NoiseXxResponder_encrypt_payload C rneg 128 r2 = (Ok encr, r3)"
      "NoiseXxInitiator_decrypt_payload C encr 128 i2 = (Ok rneg, i3)" "xx_synced i3 r3"
      "xxi_re_pub i3 = Some pre" "xxi_s_priv i3 = hp_is p" "xxr_e_priv r3 = Some (hp_re p)"
    using xx_payload_down [OF C 2(3), of rneg 128 128] assms(2) 2(4-6) by auto
  obtain msg3 i4 r4 where 4: "NoiseXxInitiator_write_message3 C pis (hp_iepoch p) 128 i3 = (Ok msg3, i4)"
      "NoiseXxResponder_read_message3 C msg3 r3 = (Ok (pis, hp_iepoch p), r4)" "xx_synced i4 r4"
    using xx_message3 [OF C pk(2,3) ep(1) _ 3(3-6), of 128] by auto
  obtain enci i5 r5 where 5: "NoiseXxInitiator_encrypt_payload C ineg 128 i4 = (Ok enci, i5)"
      "NoiseXxResponder_decrypt_payload C enci 128 r4 = (Ok ineg, r5)" "xx_synced i5 r5"
    using xx_payload_up [OF C 4(3), of ineg 128 128] assms(3) by auto
  have "xx_exchange C p rneg ineg =
      Ok ((split_keys C (sy_ck i5), (snd (split_keys C (sy_ck i5)), fst (split_keys C (sy_ck i5)))),
        ((prs, hp_repoch p), rneg), ((pis, hp_iepoch p), ineg))"
    using 1(1-4) 2(1,2) 3(1,2) 4(1,2) 5 pk
    by (simp add: xx_exchange_def ecdh_pubkey_def NoiseXxInitiator_finalize_def
        NoiseXxResponder_finalize_def split_beta xx_synced_def)
  then show ?thesis
    using C pk by (intro exI [of _ "fst (split_keys C (sy_ck i5))"] exI [of _ "snd (split_keys C (sy_ck i5))"]) simp
qed

lemma xx_run_agrees:
  "xx_valid C pp \<Longrightarrow> \<exists>k1 k2. xx_run C pp = Ok ((k1, k2), (k2, k1)) \<and> length k1 = 32 \<and> length k2 = 32"
  using xx_exchange_agrees [of C "fst pp" "fst (snd pp)" "snd (snd pp)"]
  by (auto simp: xx_run_def xx_valid_def split_beta)

interpretation xxa: key_agreement C "xx_valid C" "xx_run C" for C
  by unfold_locales (rule xx_run_agrees)

lemma xx_initiator_no_panic: "no_panic (NoiseXxInitiator_read_message2 C payload) i"
  unfolding NoiseXxInitiator_read_message2_def slicem_def
  by (intro no_panic_bindm) (auto simp: step_OkE mixk_eq mixh_eq dest!: decm_keeps_k)

lemma xx_responder_no_panic:
  assumes "sy_k r \<noteq> None" "xxr_e_priv r \<noteq> None"
  shows "no_panic (NoiseXxResponder_read_message3 C payload) r"
proof -
  have e: "xxr_e_priv s' = xxr_e_priv s" if "decm C ct cap s = (Ok pt, s')" for ct cap s s' and pt :: bytes
    using that by (cases "sy_k s") (auto simp: decm_cases decm_def step_simps split: res.splits)
  show ?thesis
    unfolding NoiseXxResponder_read_message3_def slicem_def
    using assms
    by (intro no_panic_bindm) (auto simp: step_OkE mixk_eq dest: decm_keeps_k e)
qed

section \<open>Properties\<close>

text \<open>C14. A complete XX exchange, with a negotiation block in each direction, succeeds for all valid
  secrets and epochs: both ends derive the same two keys in opposite roles, each learns exactly
  the other's static key and epoch, and each negotiation block arrives intact.\<close>

theorem xx_agreement:
  assumes "hp_valid C p" "length rneg \<le> 64" "length ineg \<le> 64"
  shows "\<exists>k1 k2. xx_exchange C p rneg ineg = Ok (((k1, k2), (k2, k1)),
           ((the (pubkey_prim C (hp_rs p)), hp_repoch p), rneg), ((the (pubkey_prim C (hp_is p)), hp_iepoch p), ineg))
         \<and> length k1 = 32 \<and> length k2 = 32"
  by (rule xx_exchange_agrees [OF assms])

theorem xx_agreement_witness:
  "\<exists>k1 k2. xx_exchange sample_crypto sample_hp [1, 2] [3] = Ok (((k1, k2), (k2, k1)),
       ((the (pubkey_prim sample_crypto (hp_rs sample_hp)), hp_repoch sample_hp), [1, 2]),
       ((the (pubkey_prim sample_crypto (hp_is sample_hp)), hp_iepoch sample_hp), [3]))
     \<and> length k1 = 32 \<and> length k2 = 32"
  by (rule xx_agreement [OF sample_hp_valid]) simp_all

text \<open>A negotiation block that fails to decrypt does not consume a nonce: \<^verbatim>\<open>decrypt_payload\<close> returns
  before the increment and leaves the machine as it was, so the counters of the two ends differ by
  one for the third message that follows.\<close>

theorem xx_failed_payload_keeps_nonce:
  assumes "sy_k i = Some key" "aead_decrypt C key (sy_n i) [] ct cap = Err e"
  shows "NoiseXxInitiator_decrypt_payload C ct cap i = (Err e, i)"
  using assms by (simp add: NoiseXxInitiator_decrypt_payload_def decm_cases)

theorem xx_failed_payload_keeps_nonce_witness:
  "let i = \<lparr>sy_h = [], sy_ck = [], sy_k = Some (replicate 32 3), sy_n = 1, xxi_e_priv = [], xxi_e_pub = [],
        xxi_s_priv = [], xxi_re_pub = None, xxi_rs_pub = None\<rparr>
   in NoiseXxInitiator_decrypt_payload sample_crypto (replicate 20 0) 64 i = (Err DecryptionFailed, i)"
  unfolding Let_def
  by (rule xx_failed_payload_keeps_nonce [of _ "replicate 32 3"])
    (simp_all add: aead_decrypt_def sample_crypto_def sample_tag_def)

end
