(* ===== verification/Negotiation.thy ===== *)
theory Negotiation
  imports Fmp
begin

text \<open>
  The FMP protocol-negotiation block, crates/fips-fmp/src/negotiation.rs: the fixed header with
  its version range and feature bits, the TLV region, the rekey marker, and the split of an XX
  handshake payload into the Noise message and the encrypted block.
\<close>

definition NEGOTIATION_HEADER_SIZE :: nat where [simp, wire_defs]: "NEGOTIATION_HEADER_SIZE = 10"
definition NEGOTIATION_FORMAT_V0 :: byte where [simp, wire_defs]: "NEGOTIATION_FORMAT_V0 = 0"
definition NEGOTIATION_MAX_SIZE :: nat where [simp, wire_defs]: "NEGOTIATION_MAX_SIZE = 64"
definition TLV_REKEY_OF :: u16 where [simp, wire_defs]: "TLV_REKEY_OF = 1"

definition FMP_FEAT_PROFILE_MASK :: u64 where [wire_defs]: "FMP_FEAT_PROFILE_MASK = 0x07"
definition FMP_FEAT_PROVIDES_SR :: u64 where [wire_defs]: "FMP_FEAT_PROVIDES_SR = push_bit 3 1"
definition FMP_FEAT_PROVIDES_RR :: u64 where [wire_defs]: "FMP_FEAT_PROVIDES_RR = push_bit 4 1"
definition FMP_FEAT_WANTS_SR :: u64 where [wire_defs]: "FMP_FEAT_WANTS_SR = push_bit 5 1"
definition FMP_FEAT_WANTS_RR :: u64 where [wire_defs]: "FMP_FEAT_WANTS_RR = push_bit 6 1"

datatype node_profile = Full | NonRouting | Leaf

definition profile_byte :: "node_profile \<Rightarrow> byte" where
  "profile_byte p = (case p of Full \<Rightarrow> 0 | NonRouting \<Rightarrow> 1 | Leaf \<Rightarrow> 2)"

definition NodeProfile_from_features :: "u64 \<Rightarrow> node_profile option" where
  "NodeProfile_from_features features =
     (let b = ucast (features AND FMP_FEAT_PROFILE_MASK) :: byte in
      if b = 0 then Some Full else if b = 1 then Some NonRouting
      else if b = 2 then Some Leaf else None)"

definition valid_pairing :: "node_profile \<Rightarrow> node_profile \<Rightarrow> bool" where
  "valid_pairing ours theirs \<longleftrightarrow> ours = Full \<or> theirs = Full"

definition fmp_features :: "node_profile \<Rightarrow> u64" where
  "fmp_features profile =
     (let bits = ucast (profile_byte profile) :: u64 in
      case profile of
        Full \<Rightarrow> bits OR FMP_FEAT_PROVIDES_SR OR FMP_FEAT_PROVIDES_RR OR FMP_FEAT_WANTS_SR OR FMP_FEAT_WANTS_RR
      | NonRouting \<Rightarrow> bits OR FMP_FEAT_PROVIDES_SR OR FMP_FEAT_PROVIDES_RR OR FMP_FEAT_WANTS_RR
      | Leaf \<Rightarrow> bits OR FMP_FEAT_PROVIDES_RR)"

datatype negotiation_error = TooShort | BadFormat | BadVersionRange | TruncatedTlv | BadRekeyMarker

record negotiation_header =
  version_min :: byte
  version_max :: byte
  features :: u64

definition NegotiationHeader_parse :: "bytes \<Rightarrow> (negotiation_header, negotiation_error) res" where
  "NegotiationHeader_parse data =
     reject_if (length data < NEGOTIATION_HEADER_SIZE) TooShort
       (bind_res (idx data 0) (\<lambda>d0.
        reject_if (d0 \<noteq> NEGOTIATION_FORMAT_V0) BadFormat
       (bind_res (idx data 1) (\<lambda>d1.
        let vmin = drop_bit 4 d1; vmax = d1 AND 0x0F in
        reject_if (vmin > vmax) BadVersionRange
       (bind_res (slice data 2 10) (\<lambda>fs.
          Ok \<lparr>version_min = vmin, version_max = vmax, features = from_le fs\<rparr>))))))"

definition agree_version :: "negotiation_header \<Rightarrow> negotiation_header \<Rightarrow> (byte, negotiation_error) res" where
  "agree_version h other =
     (let agreed = min (version_max h) (version_max other) in
      if agreed < version_min h \<or> agreed < version_min other then Err BadVersionRange else Ok agreed)"

definition header_node_profile :: "negotiation_header \<Rightarrow> node_profile option" where
  "header_node_profile h = NodeProfile_from_features (features h)"

definition encode_payload :: "nat \<Rightarrow> byte \<Rightarrow> byte \<Rightarrow> u64 \<Rightarrow> u32 option \<Rightarrow> (bytes, unit) res" where
  "encode_payload cap vmin vmax feats rekey =
     (let needed = NEGOTIATION_HEADER_SIZE + (if rekey \<noteq> None then 4 + 4 else 0) in
      if cap < needed then Err ()
      else Ok ([NEGOTIATION_FORMAT_V0, push_bit 4 vmin OR (vmax AND 0x0F)] @ le64 feats @
               (case rekey of None \<Rightarrow> []
                | Some i \<Rightarrow> le16 TLV_REKEY_OF @ le16 (4 :: u16) @ le32 i)))"

text \<open>The \<^verbatim>\<open>while\<close> loop of \<^verbatim>\<open>find_tlv\<close> on the remaining bytes.\<close>

function find_tlv_loop :: "u16 \<Rightarrow> bytes \<Rightarrow> (bytes option, negotiation_error) res" where
  "find_tlv_loop field_num rest =
     (if rest = [] then Ok None
      else if length rest < 4 then Err TruncatedTlv
      else let num = from_le [rest ! 0, rest ! 1] :: u16;
               len = unat (from_le [rest ! 2, rest ! 3] :: u16) in
        if 4 + len > length rest then Err TruncatedTlv
        else if num = field_num then Ok (Some (take len (drop 4 rest)))
        else find_tlv_loop field_num (drop (4 + len) rest))"
  by pat_completeness auto

termination find_tlv_loop
  by (relation "measure (\<lambda>(_, rest). length rest)") auto

declare find_tlv_loop.simps [simp del]

definition find_tlv :: "bytes \<Rightarrow> u16 \<Rightarrow> (bytes option, negotiation_error) res" where
  "find_tlv data field_num =
     reject_if (length data < NEGOTIATION_HEADER_SIZE) TooShort
       (bind_res (slice_from data NEGOTIATION_HEADER_SIZE) (find_tlv_loop field_num))"

definition rekey_of :: "bytes \<Rightarrow> (u32 option, negotiation_error) res" where
  "rekey_of data = bind_res (find_tlv data TLV_REKEY_OF) (\<lambda>r. case r of
       Some value \<Rightarrow> if length value = 4 then Ok (Some (from_le value)) else Err BadRekeyMarker
     | None \<Rightarrow> Ok None)"

definition split_handshake_noise :: "bytes \<Rightarrow> nat \<Rightarrow> bytes \<times> bytes option" where
  "split_handshake_noise payload base_size =
     (if length payload > base_size then (take base_size payload, Some (drop base_size payload))
      else (payload, None))"

definition split_msg2_noise :: "bytes \<Rightarrow> bytes \<times> bytes option" where
  "split_msg2_noise payload = split_handshake_noise payload XX_HANDSHAKE_MSG2_SIZE"

definition split_msg3_noise :: "bytes \<Rightarrow> bytes \<times> bytes option" where
  "split_msg3_noise payload = split_handshake_noise payload XX_HANDSHAKE_MSG3_SIZE"

section \<open>Specification\<close>

definition encode_tlv :: "u16 \<times> bytes \<Rightarrow> bytes" where
  "encode_tlv e = le16 (fst e) @ le16 (of_nat (length (snd e)) :: u16) @ snd e"

definition encode_tlvs :: "(u16 \<times> bytes) list \<Rightarrow> bytes" where
  "encode_tlvs es = concat (map encode_tlv es)"

definition tlvs_ok :: "(u16 \<times> bytes) list \<Rightarrow> bool" where
  "tlvs_ok es \<longleftrightarrow> (\<forall>e\<in>set es. length (snd e) < 2 ^ 16)"

section \<open>Lemmas\<close>

lemma length_encode_tlv: "length (encode_tlv e) = 4 + length (snd e)"
  by (simp add: encode_tlv_def)

lemma encode_tlv_fields:
  assumes "length v < 2 ^ 16"
  shows "from_le [(encode_tlv (n, v) @ r) ! 0, (encode_tlv (n, v) @ r) ! 1] = n"
    "unat (from_le [(encode_tlv (n, v) @ r) ! 2, (encode_tlv (n, v) @ r) ! 3] :: u16) = length v"
    "drop 4 (encode_tlv (n, v) @ r) = v @ r"
  using assms by (simp_all add: encode_tlv_def le16_bytes unat_of_nat)

lemma encode_tlv_not_Nil [simp]: "encode_tlv e \<noteq> []"
  by (simp add: encode_tlv_def le16_bytes)

lemma find_tlv_loop_Nil [simp]: "find_tlv_loop f [] = Ok None"
  by (simp add: find_tlv_loop.simps)

lemma find_tlv_loop_step:
  assumes "length v < 2 ^ 16"
  shows "find_tlv_loop f (encode_tlv (n, v) @ r) = (if n = f then Ok (Some v) else find_tlv_loop f r)"
  using encode_tlv_fields [OF assms, of n r] assms
  by (subst find_tlv_loop.simps) (auto simp: length_encode_tlv Let_def drop_drop [symmetric] add.commute [of 4] simp del: drop_drop)

lemma find_tlv_loop_skip:
  assumes "tlvs_ok es" "f \<notin> fst ` set es"
  shows "find_tlv_loop f (encode_tlvs es @ r) = find_tlv_loop f r"
  using assms
  by (induction es) (auto simp: encode_tlvs_def tlvs_ok_def find_tlv_loop_step)

lemma find_tlv_loop_not_Panic: "find_tlv_loop f rest \<noteq> Panic"
proof (induction f rest rule: find_tlv_loop.induct)
  case (1 f rest)
  then show ?case by (simp add: find_tlv_loop.simps [of f rest] Let_def)
qed

lemma split_tlv:
  assumes "4 \<le> length rest" "len = unat (from_le [rest ! 2, rest ! 3] :: u16)" "4 + len \<le> length rest"
  shows "rest = encode_tlv (from_le [rest ! 0, rest ! 1], take len (drop 4 rest)) @ drop (4 + len) rest"
    and "len < 2 ^ 16"
proof -
  show len: "len < 2 ^ 16" using assms(2) unsigned_less [of "from_le [rest ! 2, rest ! 3] :: u16", where 'a = nat] by simp
  have "le16 (from_le [a, b] :: u16) = [a, b]" for a b
    using to_le_from_le [of "[a, b]", where ?'a = 16] by (simp add: numeral_2_eq_2)
  moreover have "of_nat len = (from_le [rest ! 2, rest ! 3] :: u16)" by (simp add: assms(2))
  ultimately have "encode_tlv (from_le [rest ! 0, rest ! 1], take len (drop 4 rest)) = [rest ! 0, rest ! 1, rest ! 2, rest ! 3] @ take len (drop 4 rest)"
    using assms(3) by (simp add: encode_tlv_def)
  moreover have "drop 4 rest = take len (drop 4 rest) @ drop (4 + len) rest"
    using append_take_drop_id [of len "drop 4 rest"] by (simp add: add.commute)
  ultimately show "rest = encode_tlv (from_le [rest ! 0, rest ! 1], take len (drop 4 rest)) @ drop (4 + len) rest"
    using list4_split [OF assms(1)] by simp
qed

lemma find_tlv_loop_sound:
  "find_tlv_loop f rest = Ok r \<Longrightarrow>
     \<exists>es. tlvs_ok es \<and> f \<notin> fst ` set es \<and>
       (case r of None \<Rightarrow> rest = encode_tlvs es
        | Some v \<Rightarrow> length v < 2 ^ 16 \<and> (\<exists>rest'. rest = encode_tlvs es @ encode_tlv (f, v) @ rest'))"
proof (induction f rest rule: find_tlv_loop.induct)
  case (1 f rest)
  let ?num = "from_le [rest ! 0, rest ! 1] :: u16" and ?len = "unat (from_le [rest ! 2, rest ! 3] :: u16)"
  show ?case
  proof (cases "rest = []")
    case True
    then show ?thesis using 1(2) by (auto intro!: exI [of _ "[]"] simp: tlvs_ok_def encode_tlvs_def)
  next
    case False
    then have l4: "4 \<le> length rest" and le: "4 + ?len \<le> length rest"
      using 1(2) by (auto simp: find_tlv_loop.simps [of f rest] Let_def split: if_splits)
    note sp = split_tlv [OF l4 refl le]
    show ?thesis
    proof (cases "?num = f")
      case True
      then have "r = Some (take ?len (drop 4 rest))"
        using 1(2) False l4 le by (simp add: find_tlv_loop.simps [of f rest])
      then show ?thesis using sp True le
        by (intro exI [of _ "[]"]) (auto simp: tlvs_ok_def encode_tlvs_def)
    next
      case ne: False
      then have "find_tlv_loop f (drop (4 + ?len) rest) = Ok r"
        using 1(2) False l4 le by (simp add: find_tlv_loop.simps [of f rest])
      then obtain es where es: "tlvs_ok es" "f \<notin> fst ` set es"
        "case r of None \<Rightarrow> drop (4 + ?len) rest = encode_tlvs es
         | Some v \<Rightarrow> length v < 2 ^ 16 \<and> (\<exists>rest'. drop (4 + ?len) rest = encode_tlvs es @ encode_tlv (f, v) @ rest')"
        using 1(1) [OF False _ refl refl _ ne] l4 le by auto
      then show ?thesis using sp ne le
        by (intro exI [of _ "(?num, take ?len (drop 4 rest)) # es"])
           (cases r; auto simp: tlvs_ok_def encode_tlvs_def)
    qed
  qed
qed


lemma profile_of_features [simp]: "NodeProfile_from_features (fmp_features p) = Some p"
  by (cases p) (simp_all add: NodeProfile_from_features_def fmp_features_def profile_byte_def wire_defs)

lemma version_byte:
  assumes "vmin \<le> vmax" "vmax < 16"
  shows "drop_bit 4 (push_bit 4 vmin OR (vmax AND 0x0F)) = (vmin :: byte)"
    "(push_bit 4 vmin OR (vmax AND 0x0F)) AND 0x0F = vmax"
proof -
  have small: "x AND 0x0F = x" if "x < 16" for x :: byte
    using that by (simp add: nibble_mask word_unat_eq_iff unsigned_take_bit_eq take_bit_nat_eq_self
        word_less_nat_alt flip: take_bit_eq_mask)
  have "vmax AND 0x0F = vmax" "vmin AND 0x0F = vmin"
    using assms small by (simp_all add: order.strict_trans1)
  moreover have "drop_bit 4 (push_bit 4 (vmin AND 0x0F) OR (vmax AND 0x0F)) = vmin AND 0x0F"
    unfolding nibble_mask by (rule bit_word_eqI) (auto simp: bit_simps)
  ultimately show "drop_bit 4 (push_bit 4 vmin OR (vmax AND 0x0F)) = vmin"
    "(push_bit 4 vmin OR (vmax AND 0x0F)) AND 0x0F = vmax"
    using low_nibble_prefix [of vmin vmax] by simp_all
qed

lemma header_parse_fields:
  "drop_bit 4 b = vmin \<Longrightarrow> b AND 0x0F = vmax \<Longrightarrow> vmin \<le> vmax \<Longrightarrow>
     NegotiationHeader_parse ([0, b] @ le64 fs @ t) = Ok \<lparr>version_min = vmin, version_max = vmax, features = fs\<rparr>"
  by (auto simp: NegotiationHeader_parse_def reject_if_def Let_def)

lemma encode_payload_Ok:
  "encode_payload cap vmin vmax feats rekey = (if cap < 10 + (if rekey = None then 0 else 8) then Err ()
     else Ok ([0, push_bit 4 vmin OR (vmax AND 0x0F)] @ le64 feats @
        encode_tlvs (case rekey of None \<Rightarrow> [] | Some i \<Rightarrow> [(1, le32 i)])))"
  by (simp add: encode_payload_def encode_tlvs_def encode_tlv_def split: option.split)

lemma rekey_of_payload:
  assumes "length hdr = 10"
  shows "rekey_of (hdr @ encode_tlvs (case rekey of None \<Rightarrow> [] | Some i \<Rightarrow> [(1, le32 i)])) = Ok rekey"
proof (cases rekey)
  case None
  then show ?thesis using assms by (simp add: rekey_of_def find_tlv_def reject_if_def encode_tlvs_def)
next
  case (Some i)
  then show ?thesis
    using assms find_tlv_loop_step [of "le32 i" 1 1 "[]"]
    by (simp add: rekey_of_def find_tlv_def reject_if_def encode_tlvs_def)
qed

section \<open>Properties\<close>

text \<open>\<^verbatim>\<open>find_tlv\<close> terminates without panicking on every payload.  It answers \<open>None\<close> exactly
  when the bytes after the header are a complete sequence of TLV entries none of which has the
  wanted number, and answers a value exactly when the first entry with that number carries it
  after a prefix of complete entries; a structurally broken region before the answer is always an
  error.\<close>

theorem find_tlv_exact:
  "find_tlv data f \<noteq> Panic
   \<and> (find_tlv data f = Ok None \<longleftrightarrow>
        (\<exists>hdr es. data = hdr @ encode_tlvs es \<and> length hdr = 10 \<and> tlvs_ok es \<and> f \<notin> fst ` set es))
   \<and> (find_tlv data f = Ok (Some v) \<longleftrightarrow>
        (\<exists>hdr es rest. data = hdr @ encode_tlvs es @ encode_tlv (f, v) @ rest \<and> length hdr = 10
           \<and> tlvs_ok es \<and> f \<notin> fst ` set es \<and> length v < 2 ^ 16))"
proof -
  have Ok_iff: "find_tlv data f = Ok r \<longleftrightarrow> (\<exists>hdr body. data = hdr @ body \<and> length hdr = 10 \<and> find_tlv_loop f body = Ok r)" for r
  proof
    assume "find_tlv data f = Ok r"
    then have "data = take 10 data @ drop 10 data \<and> length (take 10 data) = 10 \<and> find_tlv_loop f (drop 10 data) = Ok r"
      by (auto simp: find_tlv_def reject_if_def split: if_splits)
    then show "\<exists>hdr body. data = hdr @ body \<and> length hdr = 10 \<and> find_tlv_loop f body = Ok r" by blast
  qed (auto simp: find_tlv_def reject_if_def)
  have "find_tlv data f \<noteq> Panic"
    by (auto simp: find_tlv_def reject_if_def find_tlv_loop_not_Panic)
  moreover have "find_tlv_loop f body = Ok None \<longleftrightarrow> (\<exists>es. body = encode_tlvs es \<and> tlvs_ok es \<and> f \<notin> fst ` set es)" for body
    using find_tlv_loop_sound [of f body None] find_tlv_loop_skip [of _ f "[]"] by auto
  moreover have "find_tlv_loop f body = Ok (Some v) \<longleftrightarrow>
      (\<exists>es rest. body = encode_tlvs es @ encode_tlv (f, v) @ rest \<and> tlvs_ok es \<and> f \<notin> fst ` set es \<and> length v < 2 ^ 16)" for body
    using find_tlv_loop_sound [of f body "Some v"] by (auto simp: find_tlv_loop_skip find_tlv_loop_step)
  ultimately show ?thesis by (auto simp: Ok_iff)
qed

text \<open>C32. A negotiation block written by \<^verbatim>\<open>encode_payload\<close> for a valid version range is read back:
  the header parser returns the range and features, the profile of a profile's own feature word is
  that profile, and \<^verbatim>\<open>rekey_of\<close> returns the rekey marker or its absence.\<close>

theorem negotiation_roundtrip:
  assumes "vmin \<le> vmax" "vmax < 16" "18 \<le> cap"
  shows "\<exists>payload. encode_payload cap vmin vmax (fmp_features p) rekey = Ok payload
     \<and> NegotiationHeader_parse payload = Ok \<lparr>version_min = vmin, version_max = vmax, features = fmp_features p\<rparr>
     \<and> header_node_profile \<lparr>version_min = vmin, version_max = vmax, features = fmp_features p\<rparr> = Some p
     \<and> rekey_of payload = Ok rekey"
proof -
  let ?b = "push_bit 4 vmin OR (vmax AND 0x0F)"
  let ?t = "encode_tlvs (case rekey of None \<Rightarrow> [] | Some i \<Rightarrow> [(1, le32 i)])"
  let ?pl = "[0, ?b] @ le64 (fmp_features p) @ ?t"
  have "encode_payload cap vmin vmax (fmp_features p) rekey = Ok ?pl"
    using assms(3) by (simp add: encode_payload_Ok)
  moreover have "NegotiationHeader_parse ?pl = Ok \<lparr>version_min = vmin, version_max = vmax, features = fmp_features p\<rparr>"
    using header_parse_fields [OF version_byte [OF assms(1,2)] assms(1)] .
  moreover have "rekey_of ?pl = Ok rekey"
    using rekey_of_payload [of "[0, ?b] @ le64 (fmp_features p)" rekey] by simp
  ultimately show ?thesis by (simp add: header_node_profile_def)
qed

theorem negotiation_roundtrip_witness:
  "\<exists>payload. encode_payload 64 1 1 (fmp_features Leaf) (Some 77) = Ok payload
     \<and> NegotiationHeader_parse payload = Ok \<lparr>version_min = 1, version_max = 1, features = fmp_features Leaf\<rparr>
     \<and> header_node_profile \<lparr>version_min = 1, version_max = 1, features = fmp_features Leaf\<rparr> = Some Leaf
     \<and> rekey_of payload = Ok (Some 77)"
  by (rule negotiation_roundtrip) simp_all

text \<open>Version agreement is symmetric and exact: it yields the smaller of the two maxima, which
  lies in both peers' ranges, and fails exactly when the ranges do not meet.\<close>

theorem agree_version_exact:
  assumes "version_min a \<le> version_max a" "version_min b \<le> version_max b"
  shows "agree_version a b = agree_version b a
     \<and> (\<forall>x. agree_version a b = Ok x \<longrightarrow> version_min a \<le> x \<and> x \<le> version_max a \<and> version_min b \<le> x \<and> x \<le> version_max b
           \<and> (\<forall>y. y \<le> version_max a \<and> y \<le> version_max b \<longrightarrow> y \<le> x))
     \<and> (agree_version a b = Err BadVersionRange \<longleftrightarrow>
          version_max a < version_min b \<or> version_max b < version_min a)"
  using assms by (auto simp: agree_version_def Let_def min_def)

theorem agree_version_exact_witness:
  "agree_version \<lparr>version_min = 1, version_max = 3, features = 0\<rparr> \<lparr>version_min = 2, version_max = 5, features = 0\<rparr> = Ok 3
   \<and> agree_version \<lparr>version_min = 2, version_max = 5, features = 0\<rparr> \<lparr>version_min = 1, version_max = 3, features = 0\<rparr> = Ok 3"
  using agree_version_exact [of "\<lparr>version_min = 1, version_max = 3, features = 0\<rparr>" "\<lparr>version_min = 2, version_max = 5, features = 0\<rparr>"]
  by (simp add: agree_version_def)

end
