(* ===== verification/FspWire.thy ===== *)
theory FspWire
  imports NoiseCore
begin

text \<open>
  The wire formats of the session protocol FSP, first half of crates/microfips-core/src/fsp.rs:
  the setup, acknowledgement and third handshake messages, the encrypted data frame with its inner
  header, and the port and IPv6-shim headers; and the node address of
  crates/fips-identity/src/lib.rs.
\<close>

section \<open>Constants and data\<close>

definition FSP_VERSION :: byte where [simp, wire_defs]: "FSP_VERSION = 0"
definition FSP_COMMON_PREFIX_SIZE :: nat where [simp, wire_defs]: "FSP_COMMON_PREFIX_SIZE = 4"
definition FSP_HEADER_SIZE :: nat where [simp, wire_defs]: "FSP_HEADER_SIZE = 12"
definition FSP_INNER_HEADER_SIZE :: nat where [simp, wire_defs]: "FSP_INNER_HEADER_SIZE = 6"
definition FSP_ENCRYPTED_MIN_SIZE :: nat where [simp, wire_defs]: "FSP_ENCRYPTED_MIN_SIZE = 28"
definition FSP_PORT_IPV6_SHIM :: u16 where [simp, wire_defs]: "FSP_PORT_IPV6_SHIM = 256"
definition FSP_PHASE_ESTABLISHED :: byte where [simp, wire_defs]: "FSP_PHASE_ESTABLISHED = 0x00"
definition PHASE_SESSION_SETUP :: byte where [simp, wire_defs]: "PHASE_SESSION_SETUP = 0x01"
definition PHASE_SESSION_ACK :: byte where [simp, wire_defs]: "PHASE_SESSION_ACK = 0x02"
definition PHASE_SESSION_MSG3 :: byte where [simp, wire_defs]: "PHASE_SESSION_MSG3 = 0x03"
definition FSP_MSG_DATA :: byte where [simp, wire_defs]: "FSP_MSG_DATA = 0x10"
definition FLAG_COORDS_PRESENT :: byte where [simp, wire_defs]: "FLAG_COORDS_PRESENT = 0x01"
definition FLAG_UNENCRYPTED :: byte where [simp, wire_defs]: "FLAG_UNENCRYPTED = 0x04"
definition FSP_DATAGRAM_HEADER_SIZE :: nat where [simp, wire_defs]: "FSP_DATAGRAM_HEADER_SIZE = 4"
definition NODE_ADDR_SIZE :: nat where [simp, wire_defs]: "NODE_ADDR_SIZE = 16"
definition SESSION_DATAGRAM_BODY_SIZE :: nat where [simp, wire_defs]: "SESSION_DATAGRAM_BODY_SIZE = 35"

type_synonym node_addr = bytes

definition NodeAddr_from_pubkey_x :: "crypto \<Rightarrow> bytes \<Rightarrow> node_addr" where
  "NodeAddr_from_pubkey_x C x_only = take 16 (sha256_prim C x_only)"

datatype fsp_error = FspBufferTooSmall | FspInvalidFrame | FspInvalidCoords

section \<open>Handshake messages\<close>

definition build_session_datagram_body :: "node_addr \<Rightarrow> node_addr \<Rightarrow> bytes" where
  "build_session_datagram_body src dst = [64] @ le16 (-1 :: u16) @ src @ dst"

definition fsp_prefix_byte :: "byte \<Rightarrow> byte" where
  "fsp_prefix_byte phase = push_bit 4 FSP_VERSION OR (phase AND 0x0F)"

definition fsp_prefix :: "byte \<Rightarrow> byte \<Rightarrow> u16 \<Rightarrow> bytes" where
  "fsp_prefix phase flags payload_len =
     [fsp_prefix_byte phase, flags, ucast payload_len, ucast (drop_bit 8 payload_len)]"

text \<open>The count and the entries of a coordinate list, as the builders write them.\<close>

definition put_coords :: "node_addr list \<Rightarrow> bytes" where
  "put_coords coords = le16 (of_nat (length coords) :: u16) @ concat coords"

definition build_session_setup ::
  "byte \<Rightarrow> node_addr list \<Rightarrow> node_addr list \<Rightarrow> bytes \<Rightarrow> nat \<Rightarrow> (bytes, fsp_error) res" where
  "build_session_setup session_flags src_coords dest_coords handshake cap =
     (if src_coords = [] \<or> dest_coords = [] then Err FspInvalidCoords
      else let body_len = 1 + (2 + length src_coords * NODE_ADDR_SIZE)
                 + (2 + length dest_coords * NODE_ADDR_SIZE) + 2 + length handshake;
               total = FSP_COMMON_PREFIX_SIZE + body_len in
        if cap < total then Err FspBufferTooSmall
        else if body_len > 65535 then Err FspBufferTooSmall
        else Ok (fsp_prefix PHASE_SESSION_SETUP 0x00 (of_nat body_len) @ [session_flags] @
               put_coords src_coords @ put_coords dest_coords @
               le16 (of_nat (length handshake) :: u16) @ handshake))"

text \<open>\<^verbatim>\<open>u16::from_le_bytes([body[pos], body[pos + 1]]) as usize\<close>.\<close>

definition read_u16 :: "bytes \<Rightarrow> nat \<Rightarrow> (nat, 'e) res" where
  "read_u16 body pos = bind_res (idx body pos) (\<lambda>a. bind_res (idx body (pos + 1)) (\<lambda>b.
     Ok (unat (from_le [a, b] :: u16))))"

text \<open>
  The opening of the three handshake parsers: version and phase nibble, then the declared length,
  which must be present; the result is the body cut to it.
\<close>

definition fsp_body :: "byte \<Rightarrow> bytes \<Rightarrow> (bytes, fsp_error) res" where
  "fsp_body phase data =
     reject_if (length data < FSP_COMMON_PREFIX_SIZE) FspInvalidFrame
       (bind_res (idx data 0) (\<lambda>ver_phase.
        reject_if (drop_bit 4 ver_phase \<noteq> FSP_VERSION \<or> ver_phase AND 0x0F \<noteq> phase) FspInvalidFrame
       (bind_res (read_u16 data 2) (\<lambda>payload_len.
        bind_res (slice_from data FSP_COMMON_PREFIX_SIZE) (\<lambda>body.
        reject_if (length body < payload_len) FspInvalidFrame
          (slice body 0 payload_len))))))"

text \<open>The tail shared by the setup and acknowledgement parsers, from the destination count on.\<close>

definition parse_after_src :: "bytes \<Rightarrow> nat \<Rightarrow> (bytes, fsp_error) res" where
  "parse_after_src body pos =
     bind_res (read_u16 body pos) (\<lambda>dst_count.
     let pos2 = pos + 2 + dst_count * NODE_ADDR_SIZE in
     reject_if (length body < pos2) FspInvalidCoords
    (reject_if (length body < pos2 + 2) FspInvalidFrame
    (bind_res (read_u16 body pos2) (\<lambda>hs_len.
     reject_if (length body < pos2 + 2 + hs_len) FspInvalidFrame
       (slice body (pos2 + 2) (pos2 + 2 + hs_len))))))"

definition parse_session_setup_full :: "bytes \<Rightarrow> (byte \<times> node_addr \<times> bytes, fsp_error) res" where
  "parse_session_setup_full data =
     bind_res (fsp_body PHASE_SESSION_SETUP data) (\<lambda>body.
     reject_if (length body < 3 + NODE_ADDR_SIZE) FspInvalidFrame
    (bind_res (idx body 0) (\<lambda>session_flags.
     bind_res (read_u16 body 1) (\<lambda>src_count.
     reject_if (src_count = 0) FspInvalidCoords
    (bind_res (slice body 3 (3 + NODE_ADDR_SIZE)) (\<lambda>src_first.
     let pos = 3 + src_count * NODE_ADDR_SIZE in
     reject_if (length body < pos) FspInvalidCoords
    (bind_res (parse_after_src body pos) (\<lambda>hs. Ok (session_flags, src_first, hs)))))))))"

definition parse_session_setup :: "bytes \<Rightarrow> (byte \<times> bytes, fsp_error) res" where
  "parse_session_setup data =
     bind_res (parse_session_setup_full data) (\<lambda>(session_flags, _, handshake). Ok (session_flags, handshake))"

definition build_session_ack ::
  "node_addr list \<Rightarrow> node_addr list \<Rightarrow> bytes \<Rightarrow> nat \<Rightarrow> (bytes, fsp_error) res" where
  "build_session_ack src_coords dest_coords handshake cap =
     (if src_coords = [] \<or> dest_coords = [] then Err FspInvalidCoords
      else let body_len = 1 + (2 + length src_coords * NODE_ADDR_SIZE)
                 + (2 + length dest_coords * NODE_ADDR_SIZE) + 2 + length handshake;
               total = FSP_COMMON_PREFIX_SIZE + body_len in
        if cap < total then Err FspBufferTooSmall
        else if body_len > 65535 then Err FspBufferTooSmall
        else Ok (fsp_prefix PHASE_SESSION_ACK 0x00 (of_nat body_len) @ [0x00] @
               put_coords src_coords @ put_coords dest_coords @
               le16 (of_nat (length handshake) :: u16) @ handshake))"

definition parse_session_ack :: "bytes \<Rightarrow> (bytes, fsp_error) res" where
  "parse_session_ack data =
     bind_res (fsp_body PHASE_SESSION_ACK data) (\<lambda>body.
     reject_if (body = []) FspInvalidFrame
    (bind_res (read_u16 body 1) (\<lambda>src_count.
     let pos = 3 + src_count * NODE_ADDR_SIZE in
     reject_if (length body < pos) FspInvalidCoords
       (parse_after_src body pos))))"

definition build_session_msg3 :: "bytes \<Rightarrow> nat \<Rightarrow> (bytes, fsp_error) res" where
  "build_session_msg3 handshake cap =
     (let body_len = 1 + 2 + length handshake; total = FSP_COMMON_PREFIX_SIZE + body_len in
      if cap < total then Err FspBufferTooSmall
      else Ok (fsp_prefix PHASE_SESSION_MSG3 0x00 (of_nat body_len) @ [0x00] @
             le16 (of_nat (length handshake) :: u16) @ handshake))"

definition parse_session_msg3 :: "bytes \<Rightarrow> (bytes, fsp_error) res" where
  "parse_session_msg3 data =
     bind_res (fsp_body PHASE_SESSION_MSG3 data) (\<lambda>body.
     reject_if (length body < 3) FspInvalidFrame
    (bind_res (read_u16 body 1) (\<lambda>hs_len.
     reject_if (length body < 3 + hs_len) FspInvalidFrame
       (slice body 3 (3 + hs_len)))))"

section \<open>Data frames\<close>

record fsp_datagram =
  src_port :: u16
  dst_port :: u16
  dg_payload :: bytes

definition FspDatagram_serialize :: "fsp_datagram \<Rightarrow> nat \<Rightarrow> (bytes, unit) res" where
  "FspDatagram_serialize d cap =
     (if cap < FSP_DATAGRAM_HEADER_SIZE + length (dg_payload d) then Panic
      else Ok (le16 (src_port d) @ le16 (dst_port d) @ dg_payload d))"

definition FspDatagram_parse :: "bytes \<Rightarrow> (fsp_datagram, unit) res" where
  "FspDatagram_parse data =
     reject_if (length data < FSP_DATAGRAM_HEADER_SIZE) ()
       (bind_res (slice data 0 2) (\<lambda>s. bind_res (slice data 2 4) (\<lambda>d.
        bind_res (slice_from data FSP_DATAGRAM_HEADER_SIZE) (\<lambda>p.
          Ok \<lparr>src_port = from_le s, dst_port = from_le d, dg_payload = p\<rparr>))))"

record ipv6_shim =
  next_header :: byte
  hop_limit :: byte
  shim_payload :: bytes

definition Ipv6Shim_serialize :: "ipv6_shim \<Rightarrow> nat \<Rightarrow> (bytes, unit) res" where
  "Ipv6Shim_serialize s cap =
     (if cap < 6 + length (shim_payload s) then Panic
      else Ok ([0, 0, 0, 0, next_header s, hop_limit s] @ shim_payload s))"

definition Ipv6Shim_parse :: "bytes \<Rightarrow> (ipv6_shim, unit) res" where
  "Ipv6Shim_parse data =
     reject_if (length data < 6) ()
       (bind_res (idx data 4) (\<lambda>nh. bind_res (idx data 5) (\<lambda>hl. bind_res (slice_from data 6) (\<lambda>p.
          Ok \<lparr>next_header = nh, hop_limit = hl, shim_payload = p\<rparr>))))"

definition build_fsp_header :: "u64 \<Rightarrow> byte \<Rightarrow> u16 \<Rightarrow> bytes" where
  "build_fsp_header counter flags payload_len =
     [fsp_prefix_byte FSP_PHASE_ESTABLISHED, flags] @ le16 payload_len @ le64 counter"

text \<open>A returned length 0 stands for a buffer that is too small and is the empty byte string here.\<close>

definition build_fsp_encrypted :: "bytes \<Rightarrow> bytes \<Rightarrow> nat \<Rightarrow> bytes" where
  "build_fsp_encrypted header ciphertext cap =
     (if cap < FSP_HEADER_SIZE + length ciphertext then [] else header @ ciphertext)"

definition fsp_prepend_inner_header :: "u32 \<Rightarrow> byte \<Rightarrow> byte \<Rightarrow> bytes \<Rightarrow> nat \<Rightarrow> bytes" where
  "fsp_prepend_inner_header timestamp_ms msg_type inner_flags payload cap =
     (if cap < FSP_INNER_HEADER_SIZE + length payload then []
      else le32 timestamp_ms @ [msg_type, inner_flags] @ payload)"

definition build_fsp_data_message ::
  "crypto \<Rightarrow> u64 \<Rightarrow> u32 \<Rightarrow> bytes \<Rightarrow> bytes \<Rightarrow> nat \<Rightarrow> (bytes, noise_error) res" where
  "build_fsp_data_message C counter timestamp_ms payload key cap =
     (let inner = fsp_prepend_inner_header timestamp_ms FSP_MSG_DATA 0x00 payload 512 in
      if length inner = 0 then Err BufferTooSmall
      else let header = build_fsp_header counter 0x00 (of_nat (length inner + TAG_SIZE)) in
        bind_res (aead_encrypt C key counter header inner 512) (\<lambda>ciphertext.
        let msg = build_fsp_encrypted header ciphertext cap in
        if length msg = 0 then Err BufferTooSmall else Ok msg))"

definition fsp_strip_inner_header :: "bytes \<Rightarrow> (u32 \<times> byte \<times> byte \<times> bytes, unit) res" where
  "fsp_strip_inner_header data =
     reject_if (length data < FSP_INNER_HEADER_SIZE) ()
       (bind_res (slice data 0 4) (\<lambda>t. bind_res (idx data 4) (\<lambda>mt. bind_res (idx data 5) (\<lambda>fl.
        bind_res (slice_from data FSP_INNER_HEADER_SIZE) (\<lambda>p. Ok (from_le t, mt, fl, p))))))"

definition parse_fsp_encrypted_header :: "bytes \<Rightarrow> (byte \<times> u64 \<times> bytes \<times> bytes, unit) res" where
  "parse_fsp_encrypted_header data =
     reject_if (length data < FSP_ENCRYPTED_MIN_SIZE) ()
       (bind_res (idx data 0) (\<lambda>d0.
        reject_if (drop_bit 4 d0 \<noteq> FSP_VERSION \<or> d0 AND 0x0F \<noteq> FSP_PHASE_ESTABLISHED) ()
       (bind_res (idx data 1) (\<lambda>flags.
        bind_res (slice data 4 12) (\<lambda>ctr.
        bind_res (slice data 0 FSP_HEADER_SIZE) (\<lambda>header.
        bind_res (slice_from data FSP_HEADER_SIZE) (\<lambda>payload.
        if flags AND FLAG_COORDS_PRESENT \<noteq> 0 then
          reject_if (length payload < 2) ()
            (bind_res (read_u16 payload 0) (\<lambda>src_count.
             let after_src = 2 + src_count * NODE_ADDR_SIZE in
             reject_if (length payload < after_src + 2) ()
            (bind_res (read_u16 payload after_src) (\<lambda>dst_count.
             let after_dst = after_src + 2 + dst_count * NODE_ADDR_SIZE in
             reject_if (length payload < after_dst) ()
            (bind_res (slice_from payload after_dst) (\<lambda>rest.
               Ok (flags, from_le ctr, header, rest)))))))
        else Ok (flags, from_le ctr, header, payload))))))))"

text \<open>The body common to setup and acknowledgement.\<close>

definition coords_body :: "byte \<Rightarrow> node_addr list \<Rightarrow> node_addr list \<Rightarrow> bytes \<Rightarrow> bytes" where
  "coords_body fl src dst hs = [fl] @ put_coords src @ put_coords dst @ le16 (of_nat (length hs) :: u16) @ hs"

section \<open>Lemmas\<close>

lemma read_u16_Ok [simp]: "pos + 1 < length b \<Longrightarrow> read_u16 b pos = Ok (unat (from_le [b ! pos, b ! (pos + 1)] :: u16))"
  by (simp add: read_u16_def)

lemma read_u16_Panic_iff [simp]: "read_u16 b pos = Panic \<longleftrightarrow> length b \<le> pos + 1"
  by (auto simp: read_u16_def idx_def)

lemma read_u16_not_Err [simp]: "read_u16 b pos \<noteq> Err e"
  by (auto simp: read_u16_def idx_def)

lemma read_u16_append: "read_u16 (xs @ le16 w @ ys) (length xs) = Ok (unat w)"
  by (simp add: le16_bytes nth_append)

lemma read_u16_at:
  assumes "b = xs @ le16 (of_nat n :: u16) @ ys" "pos = length xs" "n \<le> 65535"
  shows "read_u16 b pos = Ok n"
  using read_u16_append [of xs "of_nat n" ys] assms by (simp add: unat_of_nat)

lemma length_concat_coords: "\<forall>c\<in>set cs. length c = 16 \<Longrightarrow> length (concat cs) = 16 * length cs"
  by (induction cs) auto

lemma fsp_prefix_byte_nibbles [simp]: "drop_bit 4 (fsp_prefix_byte ph) = 0" "fsp_prefix_byte ph AND 0x0F = ph AND 0x0F"
proof -
  have "(0x0F :: byte) = mask 4" by (simp add: mask_eq_exp_minus_1)
  then show "drop_bit 4 (fsp_prefix_byte ph) = 0" "fsp_prefix_byte ph AND 0x0F = ph AND 0x0F"
    by (auto simp: fsp_prefix_byte_def bit_simps intro!: bit_word_eqI)
qed

lemma length_fsp_prefix [simp]: "length (fsp_prefix ph fl n) = 4"
  by (simp add: fsp_prefix_def)

lemma fsp_body_build:
  assumes "length body \<le> 65535" "ph AND 0x0F = ph"
  shows "fsp_body ph (fsp_prefix ph fl (of_nat (length body)) @ body) = Ok body"
  using assms
  by (simp add: fsp_body_def fsp_prefix_def reject_if_def unat_of_nat)

lemma fsp_body_not_Panic [simp]: "fsp_body ph data \<noteq> Panic"
  by (auto simp: fsp_body_def reject_if_def)

lemma parse_after_src_build:
  assumes "length xs = pos" "\<forall>c\<in>set dst. length c = 16" "length dst \<le> 65535" "length hs \<le> 65535"
  shows "parse_after_src (xs @ put_coords dst @ le16 (of_nat (length hs) :: u16) @ hs) pos = Ok hs"
proof -
  let ?b = "xs @ put_coords dst @ le16 (of_nat (length hs) :: u16) @ hs"
  have l: "length (concat dst) = 16 * length dst" using length_concat_coords assms by blast
  have 1: "read_u16 ?b pos = (Ok (length dst) :: (nat, fsp_error) res)"
    using assms by (intro read_u16_at) (auto simp: put_coords_def)
  have 2: "read_u16 ?b (pos + 2 + length dst * 16) = (Ok (length hs) :: (nat, fsp_error) res)"
    using assms l by (intro read_u16_at [of _ "xs @ put_coords dst" _ hs]) (auto simp: put_coords_def)
  show ?thesis using 1 2 l assms
    by (simp add: parse_after_src_def reject_if_def put_coords_def del: read_u16_Ok)
qed

text \<open>Reading a body back, once its pieces have been located.\<close>

lemma parse_setup_body:
  assumes "length body \<le> 65535" "19 \<le> length body" "body ! 0 = fl" "read_u16 body 1 = (Ok c :: (nat, fsp_error) res)"
    and "0 < c" "slice body 3 19 = (Ok s :: (bytes, fsp_error) res)" "3 + c * 16 \<le> length body"
    and "parse_after_src body (3 + c * 16) = Ok hs"
  shows "parse_session_setup_full (fsp_prefix PHASE_SESSION_SETUP 0 (of_nat (length body)) @ body) = Ok (fl, s, hs)"
proof -
  have "idx body 0 = (Ok fl :: (byte, fsp_error) res)" using assms(2,3) by (cases body) (auto simp: idx_def)
  then show ?thesis
    using assms fsp_body_build [of body 1 0]
    by (simp add: parse_session_setup_full_def reject_if_def del: read_u16_Ok slice_Ok)
qed

lemma parse_ack_body:
  assumes "length body \<le> 65535" "body \<noteq> []" "read_u16 body 1 = (Ok c :: (nat, fsp_error) res)"
    and "3 + c * 16 \<le> length body" "parse_after_src body (3 + c * 16) = Ok hs"
  shows "parse_session_ack (fsp_prefix PHASE_SESSION_ACK 0 (of_nat (length body)) @ body) = Ok hs"
  using assms fsp_body_build [of body 2 0]
  by (simp add: parse_session_ack_def reject_if_def del: read_u16_Ok)

lemma coords_body_facts:
  assumes "\<forall>c\<in>set src \<union> set dst. length c = 16" "7 + 16 * length src + 16 * length dst + length hs \<le> 65535"
  shows "length (coords_body fl src dst hs) = 1 + (2 + length src * 16) + (2 + length dst * 16) + 2 + length hs"
    and "read_u16 (coords_body fl src dst hs) 1 = (Ok (length src) :: (nat, fsp_error) res)"
    and "parse_after_src (coords_body fl src dst hs) (3 + length src * 16) = Ok hs"
proof -
  have l: "length (concat src) = 16 * length src" "length (concat dst) = 16 * length dst"
    using length_concat_coords assms(1) by auto
  show "length (coords_body fl src dst hs) = 1 + (2 + length src * 16) + (2 + length dst * 16) + 2 + length hs"
    using l by (simp add: coords_body_def put_coords_def)
  show "read_u16 (coords_body fl src dst hs) 1 = (Ok (length src) :: (nat, fsp_error) res)"
    using assms by (intro read_u16_at [of _ "[fl]"]) (auto simp: coords_body_def put_coords_def)
  show "parse_after_src (coords_body fl src dst hs) (3 + length src * 16) = Ok hs"
    using parse_after_src_build [of "[fl] @ put_coords src" "3 + length src * 16" dst hs] assms l
    by (simp add: coords_body_def put_coords_def)
qed

lemma session_setup_roundtrip_aux:
  assumes "src \<noteq> []" "dst \<noteq> []" "\<forall>c\<in>set src \<union> set dst. length c = 16"
    and "11 + 16 * length src + 16 * length dst + length hs \<le> cap" "7 + 16 * length src + 16 * length dst + length hs \<le> 65535"
  shows "bind_res (build_session_setup fl src dst hs cap) parse_session_setup_full = Ok (fl, hd src, hs)"
proof -
  note f = coords_body_facts [OF assms(3,5), of fl]
  obtain s ss where s: "src = s # ss" "length s = 16" using assms(1,3) by (cases src) auto
  have "build_session_setup fl src dst hs cap =
      Ok (fsp_prefix PHASE_SESSION_SETUP 0 (of_nat (length (coords_body fl src dst hs))) @ coords_body fl src dst hs)"
    unfolding f(1) using assms by (simp add: build_session_setup_def Let_def coords_body_def)
  moreover have "slice (coords_body fl src dst hs) 3 19 = (Ok s :: (bytes, fsp_error) res)"
    using s by (simp add: coords_body_def put_coords_def)
  moreover have "coords_body fl src dst hs ! 0 = fl" by (simp add: coords_body_def)
  ultimately show ?thesis
    using parse_setup_body [of "coords_body fl src dst hs" fl "length src" s hs] f assms s by simp
qed

lemma session_ack_roundtrip_aux:
  assumes "src \<noteq> []" "dst \<noteq> []" "\<forall>c\<in>set src \<union> set dst. length c = 16"
    and "11 + 16 * length src + 16 * length dst + length hs \<le> cap" "7 + 16 * length src + 16 * length dst + length hs \<le> 65535"
  shows "bind_res (build_session_ack src dst hs cap) parse_session_ack = Ok hs"
proof -
  note f = coords_body_facts [OF assms(3,5), of 0]
  have "build_session_ack src dst hs cap =
      Ok (fsp_prefix PHASE_SESSION_ACK 0 (of_nat (length (coords_body 0 src dst hs))) @ coords_body 0 src dst hs)"
    unfolding f(1) using assms by (simp add: build_session_ack_def Let_def coords_body_def)
  moreover have "coords_body 0 src dst hs \<noteq> []" by (simp add: coords_body_def)
  ultimately show ?thesis
    using parse_ack_body [of "coords_body 0 src dst hs" "length src" hs] f assms by simp
qed

lemma session_msg3_roundtrip_aux:
  assumes "7 + length hs \<le> cap" "3 + length hs \<le> 65535"
  shows "bind_res (build_session_msg3 hs cap) parse_session_msg3 = Ok hs"
proof -
  let ?body = "[0x00] @ le16 (of_nat (length hs) :: u16) @ hs"
  have b: "build_session_msg3 hs cap = Ok (fsp_prefix 3 0 (of_nat (length ?body)) @ ?body)"
    using assms by (simp add: build_session_msg3_def Let_def)
  have 1: "read_u16 ?body 1 = (Ok (length hs) :: (nat, fsp_error) res)"
    using assms by (intro read_u16_at [of _ "[0]"]) auto
  show ?thesis
    using 1 fsp_body_build [of ?body 3 0] assms
    by (simp add: b parse_session_msg3_def reject_if_def del: read_u16_Ok)
qed

lemma parse_after_src_Panic_iff: "parse_after_src body pos = Panic \<longleftrightarrow> length body \<le> pos + 1"
  by (auto simp: parse_after_src_def reject_if_def bind_res_Panic_iff Let_def)

lemma parse_session_msg3_not_Panic: "parse_session_msg3 data \<noteq> Panic"
  by (auto simp: parse_session_msg3_def reject_if_def bind_res_Panic_iff)

lemma parse_fsp_encrypted_header_not_Panic: "parse_fsp_encrypted_header data \<noteq> Panic"
  by (auto simp: parse_fsp_encrypted_header_def reject_if_def bind_res_Panic_iff Let_def)

lemma fsp_strip_inner_header_not_Panic: "fsp_strip_inner_header data \<noteq> Panic"
  by (auto simp: fsp_strip_inner_header_def reject_if_def bind_res_Panic_iff)

lemma read_u16_obtain:
  obtains "length b \<le> pos + 1" "read_u16 b pos = (Panic :: (nat, 'e) res)"
  | c where "pos + 1 < length b" "read_u16 b pos = (Ok c :: (nat, 'e) res)"
  by (cases "pos + 1 < length b") auto

lemma setup_body_Panic_iff:
  assumes "fsp_body PHASE_SESSION_SETUP data = Ok body"
  shows "parse_session_setup_full data = Panic \<longleftrightarrow> 19 \<le> length body \<and>
     (\<exists>c. read_u16 body 1 = (Ok c :: (nat, fsp_error) res) \<and> 0 < c
        \<and> (length body = 3 + 16 * c \<or> length body = 4 + 16 * c))"
proof (cases rule: read_u16_obtain [where b = body and pos = 1 and 'e = fsp_error])
  case 1
  then show ?thesis using assms by (auto simp: parse_session_setup_full_def reject_if_def)
next
  case (2 c)
  then show ?thesis using assms
    by (cases "19 \<le> length body")
      (auto simp: parse_session_setup_full_def reject_if_def bind_res_Panic_iff parse_after_src_Panic_iff Let_def split: if_splits simp del: read_u16_Ok)
qed

lemma ack_body_Panic_iff:
  assumes "fsp_body PHASE_SESSION_ACK data = Ok body"
  shows "parse_session_ack data = Panic \<longleftrightarrow> body \<noteq> [] \<and>
       (length body \<le> 2 \<or> (\<exists>c. read_u16 body 1 = (Ok c :: (nat, fsp_error) res)
          \<and> (length body = 3 + 16 * c \<or> length body = 4 + 16 * c)))"
proof (cases rule: read_u16_obtain [where b = body and pos = 1 and 'e = fsp_error])
  case 1
  then show ?thesis using assms by (auto simp: parse_session_ack_def reject_if_def bind_res_Panic_iff)
next
  case (2 c)
  then show ?thesis using assms
    by (auto simp: parse_session_ack_def reject_if_def parse_after_src_Panic_iff Let_def split: if_splits simp del: read_u16_Ok)
qed

lemma setup_Panic_iff:
  "parse_session_setup_full data = Panic \<longleftrightarrow>
     (\<exists>body c. fsp_body PHASE_SESSION_SETUP data = Ok body \<and> 19 \<le> length body
        \<and> read_u16 body 1 = (Ok c :: (nat, fsp_error) res) \<and> 0 < c
        \<and> (length body = 3 + 16 * c \<or> length body = 4 + 16 * c))"
proof (cases "fsp_body PHASE_SESSION_SETUP data")
  case (Ok body)
  then show ?thesis using setup_body_Panic_iff [OF Ok] by (simp del: read_u16_Ok PHASE_SESSION_SETUP_def)
qed (simp_all add: parse_session_setup_full_def del: PHASE_SESSION_SETUP_def)

lemma ack_Panic_iff:
  "parse_session_ack data = Panic \<longleftrightarrow>
     (\<exists>body. fsp_body PHASE_SESSION_ACK data = Ok body \<and> body \<noteq> [] \<and>
        (length body \<le> 2 \<or> (\<exists>c. read_u16 body 1 = (Ok c :: (nat, fsp_error) res)
           \<and> (length body = 3 + 16 * c \<or> length body = 4 + 16 * c))))"
proof (cases "fsp_body PHASE_SESSION_ACK data")
  case (Ok body)
  then show ?thesis using ack_body_Panic_iff [OF Ok] by (simp del: read_u16_Ok PHASE_SESSION_ACK_def)
qed (simp_all add: parse_session_ack_def del: PHASE_SESSION_ACK_def)

lemma length_fsp_header [simp]: "length (build_fsp_header c fl n) = 12"
  by (simp add: build_fsp_header_def)

lemma fsp_data_message_aux:
  assumes "crypto_ok C" "length key = 32" "length payload \<le> 490" "34 + length payload \<le> cap"
  shows "\<exists>msg hdr ct. build_fsp_data_message C counter ts payload key cap = Ok msg
     \<and> parse_fsp_encrypted_header msg = Ok (0, counter, hdr, ct)
     \<and> bind_res (map_err (\<lambda>_. ()) (aead_decrypt C key counter hdr ct 512)) fsp_strip_inner_header = Ok (ts, FSP_MSG_DATA, 0, payload)"
proof -
  let ?inner = "le32 ts @ [0x10, 0] @ payload"
  let ?hdr = "build_fsp_header counter 0 (of_nat (length ?inner + 16))"
  have inner: "fsp_prepend_inner_header ts 0x10 0 payload 512 = ?inner"
    using assms(3) by (simp add: fsp_prepend_inner_header_def)
  obtain ct where ct: "aead_encrypt C key counter ?hdr ?inner 512 = Ok ct"
    using aead_encrypt_total [OF assms(1,2), of ?inner 512] assms(3) by auto
  have len: "length ct = length payload + 22" using aead_encrypt_length [OF assms(1) ct] by simp
  have dec: "aead_decrypt C key counter ?hdr ct 512 = Ok ?inner"
    using aead_decrypt_encrypt [OF assms(1) ct, of 512] assms(3) by simp
  have "build_fsp_data_message C counter ts payload key cap = Ok (?hdr @ ct)"
    using inner ct len assms(4) by (simp add: build_fsp_data_message_def build_fsp_encrypted_def Let_def flip: length_0_conv)
  moreover have "parse_fsp_encrypted_header (?hdr @ ct) = Ok (0, counter, ?hdr, ct)"
    using len by (simp add: parse_fsp_encrypted_header_def reject_if_def build_fsp_header_def)
  moreover have "fsp_strip_inner_header ?inner = Ok (ts, FSP_MSG_DATA, 0, payload)"
    by (simp add: fsp_strip_inner_header_def reject_if_def nth_append)
  ultimately show ?thesis using dec by (intro exI [of _ "?hdr @ ct"] exI [of _ ?hdr] exI [of _ ct]) simp
qed

lemma datagram_roundtrip:
  "4 + length (dg_payload d) \<le> cap \<Longrightarrow> bind_res (FspDatagram_serialize d cap) FspDatagram_parse = Ok d"
  by (simp add: FspDatagram_serialize_def FspDatagram_parse_def reject_if_def)

lemma shim_roundtrip:
  "6 + length (shim_payload s) \<le> cap \<Longrightarrow> bind_res (Ipv6Shim_serialize s cap) Ipv6Shim_parse = Ok s"
  by (simp add: Ipv6Shim_serialize_def Ipv6Shim_parse_def reject_if_def)

section \<open>Properties\<close>

text \<open>The three session-handshake messages survive the wire: for non-empty lists of 16-byte
  coordinates and any handshake payload that fits the length field and the buffer, the setup,
  acknowledgement and third-message parsers return what the builders were given (flags, first
  source coordinate, Noise payload).\<close>

theorem session_handshake_roundtrip:
  assumes "src \<noteq> []" "dst \<noteq> []" "\<forall>c\<in>set src \<union> set dst. length c = 16"
    and "11 + 16 * length src + 16 * length dst + length hs \<le> cap" "7 + 16 * length src + 16 * length dst + length hs \<le> 65535"
  shows "bind_res (build_session_setup fl src dst hs cap) parse_session_setup_full = Ok (fl, hd src, hs)
       \<and> bind_res (build_session_ack src dst hs cap) parse_session_ack = Ok hs
       \<and> bind_res (build_session_msg3 hs cap) parse_session_msg3 = Ok hs"
  using session_setup_roundtrip_aux [OF assms] session_ack_roundtrip_aux [OF assms]
    session_msg3_roundtrip_aux [of hs cap] assms(4,5) by simp

theorem session_handshake_roundtrip_witness:
  "bind_res (build_session_setup 0 [replicate 16 1] [replicate 16 2, replicate 16 3] [9, 8, 7] 512) parse_session_setup_full
     = Ok (0, replicate 16 1, [9, 8, 7])
   \<and> bind_res (build_session_msg3 [9, 8, 7] 512) parse_session_msg3 = Ok [9, 8, 7]"
  using session_handshake_roundtrip [of "[replicate 16 1]" "[replicate 16 2, replicate 16 3]" "[9, 8, 7]" 512 0] by simp

text \<open>A session data message is opened by its receiver: the header parser recovers counter,
  associated data and ciphertext, and decrypting under the same key yields the inner header
  (timestamp, data type) and the payload, for every payload of up to 490 bytes.\<close>

theorem fsp_data_message_roundtrip:
  assumes "crypto_ok C" "length key = 32" "length payload \<le> 490" "34 + length payload \<le> cap"
  shows "\<exists>msg hdr ct. build_fsp_data_message C counter ts payload key cap = Ok msg
     \<and> parse_fsp_encrypted_header msg = Ok (0, counter, hdr, ct)
     \<and> bind_res (map_err (\<lambda>_. ()) (aead_decrypt C key counter hdr ct 512)) fsp_strip_inner_header
         = Ok (ts, FSP_MSG_DATA, 0, payload)"
  by (rule fsp_data_message_aux [OF assms])

theorem fsp_data_message_roundtrip_witness:
  "\<exists>msg hdr ct. build_fsp_data_message sample_crypto 7 1000 [1, 2, 3] (replicate 32 5) 256 = Ok msg
     \<and> parse_fsp_encrypted_header msg = Ok (0, 7, hdr, ct)
     \<and> bind_res (map_err (\<lambda>_. ()) (aead_decrypt sample_crypto (replicate 32 5) 7 hdr ct 512)) fsp_strip_inner_header
         = Ok (1000, FSP_MSG_DATA, 0, [1, 2, 3])"
  by (rule fsp_data_message_roundtrip) (simp_all add: sample_crypto_ok)

text \<open>Exactly which datagrams panic the session parsers: none for the third message and the
  data frame; for a setup, precisely the bodies that end right after the source coordinates or one
  byte later; for an acknowledgement, those and the bodies of one or two bytes.\<close>

theorem fsp_parser_panics_exactly:
  "parse_session_msg3 data \<noteq> Panic \<and> parse_fsp_encrypted_header data \<noteq> Panic
   \<and> (parse_session_setup_full data = Panic \<longleftrightarrow>
        (\<exists>body c. fsp_body PHASE_SESSION_SETUP data = Ok body \<and> 19 \<le> length body
           \<and> read_u16 body 1 = (Ok c :: (nat, fsp_error) res) \<and> 0 < c
           \<and> (length body = 3 + 16 * c \<or> length body = 4 + 16 * c)))
   \<and> (parse_session_ack data = Panic \<longleftrightarrow>
        (\<exists>body. fsp_body PHASE_SESSION_ACK data = Ok body \<and> body \<noteq> [] \<and>
           (length body \<le> 2 \<or> (\<exists>c. read_u16 body 1 = (Ok c :: (nat, fsp_error) res)
              \<and> (length body = 3 + 16 * c \<or> length body = 4 + 16 * c)))))"
  using setup_Panic_iff ack_Panic_iff parse_session_msg3_not_Panic parse_fsp_encrypted_header_not_Panic
  by (intro conjI)

text \<open>A 23-byte setup datagram with one source coordinate and nothing after it panics the setup
  parser, and a five-byte acknowledgement panics the acknowledgement parser.\<close>

theorem fsp_parsers_panic:
  "parse_session_setup_full ([0x01, 0, 19, 0] @ [0, 1, 0] @ replicate 16 7) = Panic
   \<and> parse_session_ack [0x02, 0, 1, 0, 0] = Panic"
  by (simp add: parse_session_setup_full_def parse_session_ack_def fsp_body_def reject_if_def read_u16_def idx_def
      slice_def slice_from_def parse_after_src_def from_le.simps)

end
