(* ===== verification/Node.thy ===== *)
theory Node
  imports Link NoiseIK NoiseXX Negotiation FspWire
begin

text \<open>
  The node of crates/microfips-protocol/src/node.rs up to the end of the handshake: its timing and
  state, the random draws, the send functions, the FMP negotiation and the two handshakes.

  \<open>env\<close> holds what is fixed for a build and what is not part of the repository: the cryptographic
  primitives, the wire version (feature \<^verbatim>\<open>noise-xx\<close>), the features \<^verbatim>\<open>mmp\<close> and \<^verbatim>\<open>benchmark\<close>, the pointer width,
  the floating-point operations and the application handler.  The record \<open>node\<close> is the struct
  \<^verbatim>\<open>Node\<close> with the state of the handler, except for its receive half.  The receive half is an \<open>rx_side\<close>: the
  receive buffer and a script of what the transport will deliver, one list of events per wait; a wait
  ends at the end of its list as its timer fires, and after the last list the transport stays silent.

  The random number generator is the list of values it will deliver.  \<^verbatim>\<open>fill_bytes\<close> has no error result; an
  exhausted generator panics, as RngCore prescribes.
\<close>

section \<open>Timing\<close>

definition DEFAULT_HEARTBEAT_INTERVAL_SECS :: nat where [simp]: "DEFAULT_HEARTBEAT_INTERVAL_SECS = 10"
definition DEFAULT_HANDSHAKE_RESEND_INTERVAL_MS :: nat where [simp]: "DEFAULT_HANDSHAKE_RESEND_INTERVAL_MS = 3000"
definition DEFAULT_HANDSHAKE_RESEND_BACKOFF :: nat where [simp]: "DEFAULT_HANDSHAKE_RESEND_BACKOFF = 1"
definition DEFAULT_HANDSHAKE_MAX_RESENDS :: nat where [simp]: "DEFAULT_HANDSHAKE_MAX_RESENDS = 10"
definition DEFAULT_CONNECT_DELAY_MS :: nat where [simp]: "DEFAULT_CONNECT_DELAY_MS = 500"
definition DEFAULT_BAD_FRAME_GRACE_SECS :: nat where [simp]: "DEFAULT_BAD_FRAME_GRACE_SECS = 10"
definition DEFAULT_REKEY_ANSWER_MIN_INTERVAL_MS :: nat where [simp]: "DEFAULT_REKEY_ANSWER_MIN_INTERVAL_MS = 500"

record node_timing =
  heartbeat_interval_secs :: nat
  nt_link_dead_timeout_secs :: nat
  rekey_after_secs :: nat
  rekey_after_messages :: nat
  nt_retry_base_interval_secs :: nat
  nt_retry_max_backoff_secs :: nat
  handshake_resend_interval_ms :: nat
  handshake_resend_backoff :: nat
  handshake_max_resends :: nat
  connect_delay_ms :: nat
  bad_frame_grace_secs :: nat
  rekey_answer_min_interval_ms :: nat

definition NodeTiming_default :: node_timing where
  "NodeTiming_default = \<lparr>heartbeat_interval_secs = DEFAULT_HEARTBEAT_INTERVAL_SECS,
     nt_link_dead_timeout_secs = DEFAULT_LINK_DEAD_TIMEOUT_SECS, rekey_after_secs = 0, rekey_after_messages = 0,
     nt_retry_base_interval_secs = DEFAULT_RETRY_BASE_INTERVAL_SECS,
     nt_retry_max_backoff_secs = DEFAULT_RETRY_MAX_BACKOFF_SECS,
     handshake_resend_interval_ms = DEFAULT_HANDSHAKE_RESEND_INTERVAL_MS,
     handshake_resend_backoff = DEFAULT_HANDSHAKE_RESEND_BACKOFF,
     handshake_max_resends = DEFAULT_HANDSHAKE_MAX_RESENDS, connect_delay_ms = DEFAULT_CONNECT_DELAY_MS,
     bad_frame_grace_secs = DEFAULT_BAD_FRAME_GRACE_SECS,
     rekey_answer_min_interval_ms = DEFAULT_REKEY_ANSWER_MIN_INTERVAL_MS\<rparr>"

definition from_secs :: "nat \<Rightarrow> nat" where [simp]: "from_secs s = s * 1000000"
definition from_millis :: "nat \<Rightarrow> nat" where [simp]: "from_millis ms = ms * 1000"

section \<open>The node\<close>

record 'h env =
  ev_crypto :: crypto
  ev_wire :: wire
  ev_mmp :: bool
  ev_bench :: bool
  ev_ptr :: nat
  ev_f64 :: f64_ops
  ev_handler :: "'h handler_ops"

record rng =
  rng_blocks :: "bytes list"
  rng_words :: "u32 list"

text \<open>The fields of \<^verbatim>\<open>Node\<close> under the feature \<^verbatim>\<open>noise-xx\<close>.\<close>

record fmp_state =
  peer_profile :: "node_profile option"
  fmp_version :: "byte option"
  our_profile :: node_profile
  peer_wants_sr :: bool
  peer_wants_rr :: bool

record 'h node =
  nd_tx :: transport
  nd_rng :: rng
  nd_timing :: node_timing
  nd_policy :: peer_policy
  nd_nsec :: bytes
  nd_peer_npub :: bytes
  nd_resp :: bytes
  nd_raw_framing :: bool
  nd_epoch :: u64
  nd_peer_sent_first :: bool
  nd_fmp :: fmp_state
  nd_throughput :: throughput_state
  nd_mmp :: mmp_peer_state
  nd_handler :: 'h

type_synonym ('h, 'z, 'a) nstep = "(('h, 'z) node_scheme, protocol_error, 'a) estep"

definition Node_with_timing ::
  "instant \<Rightarrow> transport \<Rightarrow> rng \<Rightarrow> bytes \<Rightarrow> bytes \<Rightarrow> node_timing \<Rightarrow> 'h \<Rightarrow> 'h node" where
  "Node_with_timing now tx r nsec peer_npub timing h =
     \<lparr>nd_tx = tx, nd_rng = r, nd_timing = timing,
      nd_policy = PeerPolicy_with_timing now
        \<lparr>retry_base_interval_secs = nt_retry_base_interval_secs timing,
         retry_max_backoff_secs = nt_retry_max_backoff_secs timing,
         frame_rate_window_ms = DEFAULT_FRAME_RATE_WINDOW_MS,
         link_dead_timeout_secs = nt_link_dead_timeout_secs timing\<rparr>,
      nd_nsec = nsec, nd_peer_npub = peer_npub, nd_resp = replicate 320 0, nd_raw_framing = False, nd_epoch = 0,
      nd_peer_sent_first = False,
      nd_fmp = \<lparr>peer_profile = None, fmp_version = None, our_profile = Leaf, peer_wants_sr = False,
                peer_wants_rr = False\<rparr>,
      nd_throughput = ThroughputState_default, nd_mmp = MmpPeerState_default, nd_handler = h\<rparr>"

definition Node_new :: "instant \<Rightarrow> transport \<Rightarrow> rng \<Rightarrow> bytes \<Rightarrow> bytes \<Rightarrow> 'h \<Rightarrow> 'h node" where
  "Node_new now tx r nsec peer_npub h = Node_with_timing now tx r nsec peer_npub NodeTiming_default h"

definition set_raw_framing :: "bool \<Rightarrow> 'h node \<Rightarrow> 'h node" where
  "set_raw_framing raw n = n\<lparr>nd_raw_framing := raw\<rparr>"

definition set_peer_sent_first :: "bool \<Rightarrow> 'h node \<Rightarrow> 'h node" where
  "set_peer_sent_first sent n = n\<lparr>nd_peer_sent_first := sent\<rparr>"

definition set_node_profile :: "node_profile \<Rightarrow> 'h node \<Rightarrow> 'h node" where
  "set_node_profile profile n = n\<lparr>nd_fmp := (nd_fmp n)\<lparr>our_profile := profile\<rparr>\<rparr>"

definition mmp_send_sr :: "('h, 'z) node_scheme \<Rightarrow> bool" where
  "mmp_send_sr n \<longleftrightarrow> fmp_features (our_profile (nd_fmp n)) AND FMP_FEAT_PROVIDES_SR \<noteq> 0 \<and> peer_wants_sr (nd_fmp n)"

definition mmp_send_rr :: "('h, 'z) node_scheme \<Rightarrow> bool" where
  "mmp_send_rr n \<longleftrightarrow> fmp_features (our_profile (nd_fmp n)) AND FMP_FEAT_PROVIDES_RR \<noteq> 0 \<and> peer_wants_rr (nd_fmp n)"

section \<open>Random values and counters\<close>

text \<open>The loops that draw until a value is acceptable.\<close>

fun draw_until :: "('a \<Rightarrow> bool) \<Rightarrow> 'a list \<Rightarrow> ('a, protocol_error) res \<times> 'a list" where
  "draw_until good [] = (Panic, [])"
| "draw_until good (x # xs) = (if good x then (Ok x, xs) else draw_until good xs)"

definition eph_valid :: "crypto \<Rightarrow> bytes \<Rightarrow> bool" where
  "eph_valid C eph = (case ecdh_pubkey C eph of Ok _ \<Rightarrow> True | _ \<Rightarrow> False)"

definition draw_eph :: "(bytes \<Rightarrow> bool) \<Rightarrow> ('h, 'z, bytes) nstep" where
  "draw_eph good n = (case draw_until good (rng_blocks (nd_rng n)) of
     (r, rest) \<Rightarrow> (r, n\<lparr>nd_rng := (nd_rng n)\<lparr>rng_blocks := rest\<rparr>\<rparr>))"

definition generate_valid_eph :: "'h env \<Rightarrow> ('h, 'z, bytes) nstep" where
  "generate_valid_eph E = draw_eph (eph_valid (ev_crypto E))"

text \<open>A first draw and the loop that repeats it while it equals \<open>avoid\<close>.\<close>

definition generate_other_eph :: "'h env \<Rightarrow> bytes \<Rightarrow> ('h, 'z, bytes) nstep" where
  "generate_other_eph E avoid = draw_eph (\<lambda>eph. eph_valid (ev_crypto E) eph \<and> eph \<noteq> avoid)"

definition allocate_session_index :: "('h, 'z, session_index) nstep" where
  "allocate_session_index n = (case draw_until (\<lambda>i. i \<noteq> 0) (rng_words (nd_rng n)) of
     (r, rest) \<Rightarrow> (r, n\<lparr>nd_rng := (nd_rng n)\<lparr>rng_words := rest\<rparr>\<rparr>))"

definition advance_epoch :: "('h, 'z, bytes) nstep" where
  "advance_epoch n = (let e = nd_epoch n + 1 in (Ok (le64 e), n\<lparr>nd_epoch := e\<rparr>))"

definition current_handshake_resend_timeout_ms :: "('h, 'z) node_scheme \<Rightarrow> nat \<Rightarrow> nat" where
  "current_handshake_resend_timeout_ms n resend_count =
     (let base = handshake_resend_interval_ms (nd_timing n);
          factor = max (handshake_resend_backoff (nd_timing n)) 1
      in if resend_count = 0 then min base (2 ^ 32 - 1)
         else min (((\<lambda>scaled. sat_mul 64 scaled factor) ^^ min resend_count 15) base) (2 ^ 32 - 1))"

definition next_heartbeat_deadline :: "instant \<Rightarrow> ('h, 'z) node_scheme \<Rightarrow> instant" where
  "next_heartbeat_deadline now n = now + from_secs (heartbeat_interval_secs (nd_timing n))"

section \<open>Sending\<close>

definition node_send_frame :: "bytes \<Rightarrow> ('h, 'z, unit) nstep" where
  "node_send_frame payload n =
     (case send_frame (nd_raw_framing n) payload (nd_tx n) of (r, t) \<Rightarrow> (r, n\<lparr>nd_tx := t\<rparr>))"

definition on_event_node :: "'h env \<Rightarrow> instant \<Rightarrow> node_event \<Rightarrow> ('h, 'z) node_scheme \<Rightarrow> ('h, 'z) node_scheme" where
  "on_event_node E now ev n = n\<lparr>nd_handler := on_event (ev_handler E) now ev (nd_handler n)\<rparr>"

definition upd_policy :: "(peer_policy \<Rightarrow> peer_policy) \<Rightarrow> ('h, 'z) node_scheme \<Rightarrow> ('h, 'z) node_scheme" where
  "upd_policy f n = n\<lparr>nd_policy := f (nd_policy n)\<rparr>"

definition upd_mmp :: "'h env \<Rightarrow> (mmp_peer_state \<Rightarrow> mmp_peer_state) \<Rightarrow> ('h, 'z) node_scheme \<Rightarrow> ('h, 'z) node_scheme" where
  "upd_mmp E f n = (if ev_mmp E then n\<lparr>nd_mmp := f (nd_mmp n)\<rparr> else n)"

text \<open>
  The tail shared by the four send functions: seal, send without looking at the result, count the
  frame.  \<open>data\<close> says whether the function also feeds the silent-peer policy.  The slot is returned
  with its counter advanced.
\<close>

definition send_sealed ::
  "'h env \<Rightarrow> instant \<Rightarrow> bool \<Rightarrow> nat \<Rightarrow> bytes \<Rightarrow> epoch_slot \<Rightarrow> ('h, 'z, epoch_slot) nstep" where
  "send_sealed E now data inner_cap msg slot n =
     (case seal_link (ev_crypto E) (ev_wire E) now inner_cap msg slot of
        (Panic, slot1) \<Rightarrow> (Panic, n)
      | (Err _, slot1) \<Rightarrow> (Ok slot1, n)
      | (Ok frame, slot1) \<Rightarrow>
          (let n1 = snd (node_send_frame frame n);
               n2 = upd_mmp E (\<lambda>m. m\<lparr>mp_sender := SenderState_record_sent (es_send_ctr slot)
                      (of_nat (as_millis now)) (length frame) (mp_sender m)\<rparr>) n1
           in (Ok slot1, if data then upd_policy record_data_frame n2 else n2)))"

text \<open>\<^verbatim>\<open>msg_buf[0] = t; msg_buf[1..1 + len].copy_from_slice(&self.resp_buf[..len])\<close> on 512 bytes.\<close>

definition response_message :: "byte \<Rightarrow> nat \<Rightarrow> bytes \<Rightarrow> (bytes, 'e) res" where
  "response_message t len resp = (if len \<le> length resp \<and> 1 + len \<le> 512 then Ok (t # take len resp) else Panic)"

definition send_session_datagram :: "'h env \<Rightarrow> instant \<Rightarrow> nat \<Rightarrow> epoch_slot \<Rightarrow> ('h, 'z, epoch_slot) nstep" where
  "send_session_datagram E now len slot =
     bindm (getm nd_resp) (\<lambda>resp.
     bindm (liftm (response_message MSG_SESSION_DATAGRAM len resp)) (\<lambda>msg.
       send_sealed E now True 512 msg slot))"

definition send_link_message :: "'h env \<Rightarrow> instant \<Rightarrow> byte \<Rightarrow> nat \<Rightarrow> epoch_slot \<Rightarrow> ('h, 'z, epoch_slot) nstep" where
  "send_link_message E now msg_type len slot =
     bindm (getm nd_resp) (\<lambda>resp.
     bindm (liftm (response_message msg_type len resp)) (\<lambda>msg.
       send_sealed E now True 512 msg slot))"

definition send_heartbeat :: "'h env \<Rightarrow> instant \<Rightarrow> epoch_slot \<Rightarrow> ('h, 'z, epoch_slot \<times> instant) nstep" where
  "send_heartbeat E now slot =
     bindm (send_sealed E now False 32 [MSG_HEARTBEAT] slot) (\<lambda>slot1.
     bindm (getm (next_heartbeat_deadline now)) (\<lambda>t. retm (slot1, t)))"

definition send_disconnect :: "'h env \<Rightarrow> instant \<Rightarrow> byte \<Rightarrow> epoch_slot \<Rightarrow> ('h, 'z, epoch_slot) nstep" where
  "send_disconnect E now reason slot = send_sealed E now False 32 [MSG_DISCONNECT, reason] slot"

section \<open>FMP negotiation\<close>

definition apply_fmp_negotiation :: "'h env \<Rightarrow> bytes \<Rightarrow> ('h, 'z, unit) nstep" where
  "apply_fmp_negotiation E neg_bytes =
     bindm (getm (\<lambda>n. our_profile (nd_fmp n))) (\<lambda>ours_p.
     let ours = \<lparr>version_min = FMP_VERSION (ev_wire E), version_max = FMP_VERSION (ev_wire E), features = fmp_features ours_p\<rparr>
     in bindm (liftm (map_err (\<lambda>_. protocol_error.InvalidMessage) (NegotiationHeader_parse neg_bytes))) (\<lambda>theirs.
        bindm (liftm (map_err (\<lambda>_. protocol_error.InvalidMessage) (agree_version ours theirs))) (\<lambda>version.
        bindm (liftm (ok_or (header_node_profile theirs) protocol_error.InvalidMessage)) (\<lambda>their_profile.
        bindm (guardm (\<not> valid_pairing ours_p their_profile) protocol_error.InvalidMessage) (\<lambda>_.
          modm (\<lambda>n. n\<lparr>nd_fmp := (nd_fmp n)\<lparr>fmp_version := Some version, peer_profile := Some their_profile,
            peer_wants_sr := (features theirs AND FMP_FEAT_WANTS_SR \<noteq> 0),
            peer_wants_rr := (features theirs AND FMP_FEAT_WANTS_RR \<noteq> 0)\<rparr>\<rparr>))))))"

section \<open>Receiving during a handshake\<close>

record rx_side =
  rx_rxbuf :: rx_buf
  rx_script :: "rx_event list list"

definition recv_frame_timeout :: "wire \<Rightarrow> bool \<Rightarrow> rx_side \<Rightarrow> (bytes, protocol_error) res \<times> rx_side" where
  "recv_frame_timeout v raw_framing x =
     (case rx_script x of
        [] \<Rightarrow> (case recv_frame v raw_framing MAX_FRAME_SIZE (rx_rxbuf x) [] of
                 (r, st, _) \<Rightarrow> (r, x\<lparr>rx_rxbuf := st\<rparr>))
      | w # ws \<Rightarrow> (case recv_frame v raw_framing MAX_FRAME_SIZE (rx_rxbuf x) w of
                 (r, st, w') \<Rightarrow> (r, x\<lparr>rx_rxbuf := st, rx_script := (if r = Err Timeout then ws else w' # ws)\<rparr>)))"

definition rx_left :: "rx_side \<Rightarrow> nat" where
  "rx_left x = sum_list (map (\<lambda>w. length w + 1) (rx_script x))"

definition rx_unread :: "rx_side \<Rightarrow> nat" where
  "rx_unread x = rlen (rx_rxbuf x) - rpos (rx_rxbuf x)"

lemma extract_length_prefixed_advances:
  assumes "extract_length_prefixed_frame buf pos len = Ok (frame, new_pos)"
  shows "pos < new_pos \<and> new_pos \<le> len"
  using assms
  by (auto simp: extract_length_prefixed_frame_def Let_def reject_if_def bind_res_Ok_iff slice_def split: if_splits)

lemma fmp_raw_frame_size_pos: "fmp_raw_frame_size v data = Ok tot \<Longrightarrow> 0 < tot"
  by (cases v) (auto simp: wire_defs MSG1_WIRE_SIZE_def fmp_raw_frame_size_def handshake_frame_size_def bind_res_Ok_iff Let_def split: if_splits)

lemma extract_raw_advances:
  assumes "extract_raw_frame v buf pos len = Ok (frame, new_pos)"
  shows "pos < new_pos \<and> new_pos \<le> len"
  using assms fmp_raw_frame_size_pos
  by (auto simp: extract_raw_frame_def Let_def reject_if_def bind_res_Ok_iff slice_def
      split: if_splits res.splits)

lemma compacted_unread: "compacted st = Ok st1 \<Longrightarrow> rlen st1 - rpos st1 = rlen st - rpos st"
  by (auto simp: compacted_def compact_def Let_def bind_res_Ok_iff split: if_splits)

lemma advance_unread: "rpos st < p \<Longrightarrow> p \<le> rlen st \<Longrightarrow> rlen (advance st p) - rpos (advance st p) < rlen st - rpos st"
  by (auto simp: advance_def)

lemma recv_length_prefixed_progress:
  assumes "recv_frame_length_prefixed cap st evs = (r, st', evs')"
  shows "(length evs' < length evs \<or> evs' = evs \<and>
      (if r = Err Timeout then rlen st' - rpos st' \<le> rlen st - rpos st
       else case r of Ok _ \<Rightarrow> rlen st' - rpos st' < rlen st - rpos st | _ \<Rightarrow> True))"
  using assms
proof (induction cap st evs arbitrary: r st' evs' rule: recv_frame_length_prefixed.induct)
  case (1 cap st evs)
  note p = "1.prems" [unfolded recv_frame_length_prefixed.simps [of cap st evs]]
  show ?case
  proof (cases "extract_length_prefixed_frame (rbuf st) (rpos st) (rlen st)")
    case (Ok fp)
    obtain frame p where fp: "fp = (frame, p)" by force
    have adv: "rlen (advance st p) - rpos (advance st p) < rlen st - rpos st"
      using extract_length_prefixed_advances Ok fp advance_unread by blast
    show ?thesis
    proof (cases "frame = []")
      case True
      then have "recv_frame_length_prefixed cap (advance st p) evs = (r, st', evs')"
        using p Ok fp by simp
      from "1.IH"(1) [OF Ok fp [symmetric] True this] show ?thesis using adv by (auto split: res.splits if_splits)
    next
      case False
      then show ?thesis using p Ok fp adv by auto
    qed
  next
    case (Err e)
    show ?thesis
    proof (cases "compacted st :: (rx_buf, protocol_error) res")
      case c: (Ok st1)
      show ?thesis
      proof (cases evs)
        case Nil
        then show ?thesis using p Err c compacted_unread [OF c] by auto
      next
        case (Cons ev evs1)
        have sub: "length evs' \<le> length evs1 \<Longrightarrow> ?thesis" using Cons by simp
        have le: "length evs' \<le> length evs1"
        proof (cases ev)
          case (Rx d)
          then show ?thesis
            using p Err c Cons "1.IH"(2,3) [OF Err c Cons Rx] by (force split: if_splits)
        next
          case RxErr
          then show ?thesis using p Err c Cons by auto
        qed
        then show ?thesis by (rule sub)
      qed
    qed (use p Err in \<open>auto simp: compacted_def compact_def Let_def bind_res_Panic_iff split: if_splits res.splits\<close>)
  next
    case Panic
    then show ?thesis using p by auto
  qed
qed

lemma recv_raw_progress:
  assumes "recv_frame_raw v cap st evs = (r, st', evs')"
  shows "length evs' < length evs \<or> evs' = evs \<and>
      (if r = Err Timeout then rlen st' - rpos st' \<le> rlen st - rpos st
       else case r of Ok _ \<Rightarrow> rlen st' - rpos st' < rlen st - rpos st | _ \<Rightarrow> True)"
  using assms
proof (induction v cap st evs arbitrary: r st' evs' rule: recv_frame_raw.induct)
  case (1 v cap st evs)
  note p = "1.prems" [unfolded recv_frame_raw.simps [of v cap st evs]]
  show ?case
  proof (cases "extract_raw_frame v (rbuf st) (rpos st) (rlen st)")
    case (Ok fp)
    obtain frame q where fp: "fp = (frame, q)" by force
    have "rlen (advance st q) - rpos (advance st q) < rlen st - rpos st"
      using extract_raw_advances Ok fp advance_unread by blast
    then show ?thesis using p Ok fp by auto
  next
    case (Err e)
    show ?thesis
    proof (cases "compacted st :: (rx_buf, protocol_error) res")
      case c: (Ok st1)
      show ?thesis
      proof (cases evs)
        case Nil
        then show ?thesis using p Err c compacted_unread [OF c] by auto
      next
        case (Cons ev evs1)
        then have "length evs' \<le> length evs1"
        proof (cases ev)
          case (Rx d)
          then show ?thesis using p Err c Cons "1.IH" [OF Err c Cons Rx] by (force split: if_splits)
        qed (use p Err c Cons in auto)
        then show ?thesis using Cons by simp
      qed
    qed (use p Err in \<open>auto simp: compacted_def compact_def Let_def bind_res_Panic_iff split: if_splits res.splits\<close>)
  qed (use p in auto)
qed

lemma recv_frame_progress:
  assumes "recv_frame v raw cap st evs = (r, st', evs')"
  shows "length evs' < length evs \<or> evs' = evs \<and>
      (if r = Err Timeout then rlen st' - rpos st' \<le> rlen st - rpos st
       else case r of Ok _ \<Rightarrow> rlen st' - rpos st' < rlen st - rpos st | _ \<Rightarrow> True)"
  using assms recv_raw_progress recv_length_prefixed_progress unfolding recv_frame_def by (metis (full_types))

lemma recv_timeout_Ok:
  assumes "recv_frame_timeout v raw x = (Ok mb, x')"
  shows "rx_left x' < rx_left x \<or> rx_left x' = rx_left x \<and> rx_unread x' < rx_unread x"
proof (cases "rx_script x")
  case Nil
  then show ?thesis using assms recv_frame_progress [of v raw MAX_FRAME_SIZE "rx_rxbuf x" "[]"]
    by (auto simp: recv_frame_timeout_def rx_left_def rx_unread_def split: prod.splits)
next
  case (Cons w ws)
  obtain r st w' where "recv_frame v raw MAX_FRAME_SIZE (rx_rxbuf x) w = (r, st, w')" by (metis prod.exhaust)
  then show ?thesis using assms Cons recv_frame_progress [of v raw MAX_FRAME_SIZE "rx_rxbuf x" w]
    by (auto simp: recv_frame_timeout_def rx_left_def rx_unread_def)
qed

lemma recv_timeout_Timeout:
  assumes "recv_frame_timeout v raw x = (Err Timeout, x')"
  shows "rx_left x' < rx_left x \<or> rx_left x' = rx_left x \<and> rx_unread x' \<le> rx_unread x"
proof (cases "rx_script x")
  case Nil
  then show ?thesis using assms recv_frame_progress [of v raw MAX_FRAME_SIZE "rx_rxbuf x" "[]"]
    by (auto simp: recv_frame_timeout_def rx_left_def rx_unread_def split: prod.splits)
next
  case (Cons w ws)
  then show ?thesis using assms by (auto simp: recv_frame_timeout_def rx_left_def split: prod.splits)
qed

text \<open>
  The receive loop of the handshakes: \<open>on_frame\<close> handles a frame and yields \<open>None\<close> to go on; a timer that
  fires calls \<open>resend\<close> until \<open>max_resends\<close> is exceeded.  \<open>reset\<close> says whether a frame clears the count.
\<close>

function frame_loop ::
  "wire \<Rightarrow> bool \<Rightarrow> nat \<Rightarrow> bool \<Rightarrow> (bytes \<Rightarrow> ('n, protocol_error, 'a option) estep) \<Rightarrow> ('n, protocol_error, unit) estep
     \<Rightarrow> nat \<Rightarrow> rx_side \<Rightarrow> 'n \<Rightarrow> ('a, protocol_error) res \<times> rx_side \<times> 'n" where
  "frame_loop v raw max_resends reset on_frame resend resend_count x n =
     (case recv_frame_timeout v raw x of
        (Panic, x1) \<Rightarrow> (Panic, x1, n)
      | (Ok mb, x1) \<Rightarrow>
          (case on_frame mb n of
             (Ok (Some res), n1) \<Rightarrow> (Ok res, x1, n1)
           | (Ok None, n1) \<Rightarrow>
               frame_loop v raw max_resends reset on_frame resend (if reset then 0 else resend_count) x1 n1
           | (Err e, n1) \<Rightarrow> (Err e, x1, n1)
           | (Panic, n1) \<Rightarrow> (Panic, x1, n1))
      | (Err e, x1) \<Rightarrow>
          (if e = Timeout
           then if max_resends < resend_count + 1 then (Err Timeout, x1, n)
                else (case resend n of
                        (Ok _, n1) \<Rightarrow> frame_loop v raw max_resends reset on_frame resend (resend_count + 1) x1 n1
                      | (Err e', n1) \<Rightarrow> (Err e', x1, n1)
                      | (Panic, n1) \<Rightarrow> (Panic, x1, n1))
           else (Err e, x1, n)))"
  by pat_completeness auto

termination
  by (relation "measures [\<lambda>(v, raw, m, reset, f, g, c, x, n). rx_left x, \<lambda>(v, raw, m, reset, f, g, c, x, n). rx_unread x,
      \<lambda>(v, raw, m, reset, f, g, c, x, n). m + 1 - c]")
    (auto dest!: recv_timeout_Ok [OF sym] recv_timeout_Timeout [OF sym])

declare frame_loop.simps [simp del]

section \<open>The handshakes\<close>

text \<open>The order of two address arrays.\<close>

fun bytes_less :: "bytes \<Rightarrow> bytes \<Rightarrow> bool" where
  "bytes_less (a # as) (b # bs) = (a < b \<or> a = b \<and> bytes_less as bs)"
| "bytes_less [] (b # bs) = True"
| "bytes_less _ [] = False"

type_synonym link_keys = "bytes \<times> bytes \<times> session_index"

definition noise_err :: "('a, noise_error) res \<Rightarrow> ('a, protocol_error) res" where
  "noise_err r = map_err protocol_error_of_noise r"

text \<open>What a handshake has computed before its first wait.\<close>

record 'm hs_ctx =
  hc_epoch :: bytes
  hc_my_pub :: bytes
  hc_my_addr :: node_addr
  hc_peer_addr :: node_addr
  hc_eph :: bytes
  hc_noise :: 'm
  hc_index :: session_index
  hc_f1 :: bytes

definition my_address :: "'h env \<Rightarrow> bytes \<Rightarrow> (node_addr, protocol_error) res" where
  "my_address E pub = bind_res (slice pub 1 33) (\<lambda>x. Ok (NodeAddr_from_pubkey_x (ev_crypto E) x))"

text \<open>The start of both handshakes; \<open>new\<close> and \<open>write1\<close> are those of the pattern.\<close>

definition handshake_start ::
  "'h env \<Rightarrow> instant \<Rightarrow> bytes \<Rightarrow> (bytes \<Rightarrow> bytes \<Rightarrow> bytes \<Rightarrow> ('m \<times> bytes, noise_error) res) \<Rightarrow> (bytes \<Rightarrow> ('m, noise_error, bytes) estep)
     \<Rightarrow> ('h, 'z, 'm hs_ctx) nstep" where
  "handshake_start E now epoch new write1 =
     bindm (getm nd_nsec) (\<lambda>nsec. bindm (getm nd_peer_npub) (\<lambda>peer_npub.
     bindm (liftm (noise_err (ecdh_pubkey (ev_crypto E) nsec))) (\<lambda>my_pub.
     bindm (liftm (my_address E my_pub)) (\<lambda>my_addr.
     bindm (liftm (my_address E peer_npub)) (\<lambda>peer_addr.
     bindm (generate_valid_eph E) (\<lambda>initiator_eph.
     bindm (liftm (noise_err (new initiator_eph nsec peer_npub))) (\<lambda>(st0, _).
     case write1 my_pub st0 of (r, st1) \<Rightarrow>
     bindm (liftm (noise_err r)) (\<lambda>n1.
     bindm allocate_session_index (\<lambda>our_index.
     bindm (liftm (map_err (\<lambda>_. InvalidFrame) (build_msg1 (ev_wire E) our_index n1 256))) (\<lambda>f1.
     bindm (getm nd_peer_sent_first) (\<lambda>peer_sent_first.
     bindm (if peer_sent_first then retm ()
            else bindm (node_send_frame f1) (\<lambda>_. modm (on_event_node E now Msg1Sent))) (\<lambda>_.
       retm \<lparr>hc_epoch = epoch, hc_my_pub = my_pub, hc_my_addr = my_addr, hc_peer_addr = peer_addr,
             hc_eph = initiator_eph, hc_noise = st1, hc_index = our_index, hc_f1 = f1\<rparr>))))))))))))"

text \<open>The timer branch of both outer loops.\<close>

definition resend_msg1 :: "'m hs_ctx \<Rightarrow> ('h, 'z, unit) nstep" where
  "resend_msg1 c = bindm (getm nd_peer_sent_first) (\<lambda>psf. if psf then retm () else node_send_frame (hc_f1 c))"

text \<open>
  The Msg1 branch up to the pattern-specific part \<open>answer\<close>: a node that dialled itself gives up, the
  node with the lower address ignores the peer's Msg1.
\<close>

definition competing_msg1 :: "'m hs_ctx \<Rightarrow> ('h, 'z, 'a option) nstep \<Rightarrow> ('h, 'z, 'a option) nstep" where
  "competing_msg1 c answer =
     bindm (guardm (hc_my_addr c = hc_peer_addr c) protocol_error.InvalidMessage) (\<lambda>_.
     bindm (getm nd_peer_sent_first) (\<lambda>peer_sent_first.
       if \<not> peer_sent_first \<and> bytes_less (hc_my_addr c) (hc_peer_addr c) then retm None else answer))"

definition ik_answer :: "'h env \<Rightarrow> ik_initiator hs_ctx \<Rightarrow> session_index \<Rightarrow> bytes \<Rightarrow> ('h, 'z, link_keys option) nstep" where
  "ik_answer E c peer_sender_idx noise_payload =
     bindm (getm nd_nsec) (\<lambda>nsec. bindm (getm nd_peer_npub) (\<lambda>peer_npub.
     bindm (liftm (slice noise_payload 0 PUBKEY_SIZE)) (\<lambda>e_init_pub.
     bindm (liftm (map_err (\<lambda>_. protocol_error.InvalidMessage) (NoiseIkResponder_new (ev_crypto E) nsec e_init_pub))) (\<lambda>r0.
     case NoiseIkResponder_read_message1 (ev_crypto E) (drop PUBKEY_SIZE noise_payload) r0 of (q1, r1) \<Rightarrow>
     bindm (liftm (map_err (\<lambda>_. protocol_error.InvalidMessage) q1)) (\<lambda>(init_pub, _).
     bindm (guardm (take 32 (drop 1 init_pub) \<noteq> take 32 (drop 1 peer_npub)) protocol_error.InvalidMessage) (\<lambda>_.
     bindm (generate_other_eph E (hc_eph c)) (\<lambda>resp_eph.
     case NoiseIkResponder_write_message2 (ev_crypto E) resp_eph (hc_epoch c) 128 r1 of (q2, r2) \<Rightarrow>
     bindm (liftm (map_err (\<lambda>_. DecryptFailed) q2)) (\<lambda>msg2_noise.
     bindm allocate_session_index (\<lambda>resp_index.
     bindm (liftm (map_err (\<lambda>_. protocol_error.InvalidMessage) (build_msg2 (ev_wire E) resp_index peer_sender_idx msg2_noise 256))) (\<lambda>msg2.
     bindm (node_send_frame msg2) (\<lambda>_.
       case NoiseIkResponder_finalize (ev_crypto E) r2 of (c1, c2) \<Rightarrow> retm (Some (c2, c1, peer_sender_idx)))))))))))))"

definition handshake_ik_frame :: "'h env \<Rightarrow> ik_initiator hs_ctx \<Rightarrow> bytes \<Rightarrow> ('h, 'z, link_keys option) nstep" where
  "handshake_ik_frame E c mb =
     bindm (liftm (map_err (\<lambda>_. protocol_error.InvalidMessage) (parse_message (ev_wire E) mb))) (\<lambda>m.
     case m of
       Msg2 sender_idx _ noise_payload \<Rightarrow>
         (case NoiseIkInitiator_read_message2 (ev_crypto E) noise_payload (hc_noise c) of (r, st) \<Rightarrow>
            bindm (liftm (map_err (\<lambda>_. DecryptFailed) r)) (\<lambda>_.
              case NoiseIkInitiator_finalize (ev_crypto E) st of (c1, c2) \<Rightarrow> retm (Some (c1, c2, sender_idx))))
     | Msg1 peer_sender_idx noise_payload \<Rightarrow> competing_msg1 c (ik_answer E c peer_sender_idx noise_payload)
     | _ \<Rightarrow> retm None)"

definition handshake_ik ::
  "'h env \<Rightarrow> instant \<Rightarrow> bytes \<Rightarrow> rx_side \<Rightarrow> ('h, 'z) node_scheme \<Rightarrow> (link_keys, protocol_error) res \<times> rx_side \<times> ('h, 'z) node_scheme" where
  "handshake_ik E now epoch x n =
     (case handshake_start E now epoch (NoiseIkInitiator_new (ev_crypto E))
             (\<lambda>my_pub. NoiseIkInitiator_write_message1 (ev_crypto E) my_pub epoch 256) n of
        (Ok c, n1) \<Rightarrow> frame_loop (ev_wire E) (nd_raw_framing n1) (handshake_max_resends (nd_timing n1)) True
                        (handshake_ik_frame E c) (resend_msg1 c) 0 x n1
      | (Err e, n1) \<Rightarrow> (Err e, x, n1)
      | (Panic, n1) \<Rightarrow> (Panic, x, n1))"

text \<open>The XX handshake.  The block both ends append to their message, and what the initiator does with Msg2.\<close>

definition our_negotiation :: "'h env \<Rightarrow> protocol_error \<Rightarrow> ('h, 'z, bytes) nstep" where
  "our_negotiation E e =
     bindm (getm (\<lambda>n. our_profile (nd_fmp n))) (\<lambda>p.
       liftm (map_err (\<lambda>_. e) (encode_payload NEGOTIATION_MAX_SIZE (FMP_VERSION (ev_wire E)) (FMP_VERSION (ev_wire E))
         (fmp_features p) None)))"

definition xx_peer_negotiation ::
  "'h env \<Rightarrow> protocol_error \<Rightarrow> (bytes \<Rightarrow> nat \<Rightarrow> ('m, noise_error, bytes) estep) \<Rightarrow> bytes option \<Rightarrow> 'm \<Rightarrow> ('h, 'z, 'm) nstep" where
  "xx_peer_negotiation E e decrypt neg st =
     (case neg of
        None \<Rightarrow> retm st
      | Some encrypted \<Rightarrow>
          (case decrypt encrypted NEGOTIATION_MAX_SIZE st of (r, st1) \<Rightarrow>
             bindm (liftm (map_err (\<lambda>_. e) r)) (\<lambda>plain.
             bindm (apply_fmp_negotiation E plain) (\<lambda>_. retm st1))))"

definition xx_initiator_msg2 ::
  "'h env \<Rightarrow> xx_initiator hs_ctx \<Rightarrow> session_index \<Rightarrow> bytes \<Rightarrow> ('h, 'z, link_keys) nstep" where
  "xx_initiator_msg2 E c sender_idx noise_payload =
     (let C = ev_crypto E; (base2, neg2) = split_msg2_noise noise_payload in
     case NoiseXxInitiator_read_message2 C base2 (hc_noise c) of (q1, s1) \<Rightarrow>
     bindm (liftm (map_err (\<lambda>_. DecryptFailed) q1)) (\<lambda>(resp_pub, _).
     bindm (getm nd_peer_npub) (\<lambda>peer_npub.
     bindm (guardm (take 32 (drop 1 resp_pub) \<noteq> take 32 (drop 1 peer_npub)) PeerKeyMismatch) (\<lambda>_.
     bindm (xx_peer_negotiation E DecryptFailed (NoiseXxInitiator_decrypt_payload C) neg2 s1) (\<lambda>s2.
     let cap = XX_HANDSHAKE_MSG3_SIZE + NEGOTIATION_MAX_SIZE + TAG_SIZE in
     case NoiseXxInitiator_write_message3 C (hc_my_pub c) (hc_epoch c) cap s2 of (q3, s3) \<Rightarrow>
     bindm (liftm (map_err (\<lambda>_. DecryptFailed) q3)) (\<lambda>n3.
     bindm (our_negotiation E InvalidFrame) (\<lambda>neg.
     case NoiseXxInitiator_encrypt_payload C neg (cap - length n3) s3 of (q4, s4) \<Rightarrow>
     bindm (liftm (map_err (\<lambda>_. DecryptFailed) q4)) (\<lambda>neg_enc.
     bindm (liftm (map_err (\<lambda>_. InvalidFrame) (build_msg3 (ev_wire E) (hc_index c) sender_idx (n3 @ neg_enc) 512))) (\<lambda>f3.
     bindm (node_send_frame f3) (\<lambda>_.
       case NoiseXxInitiator_finalize C s4 of (c1, c2) \<Rightarrow> retm (c1, c2, sender_idx)))))))))))"

text \<open>The answer to a competing Msg1: the responder, the index to send to and the Msg2 to resend.\<close>

type_synonym xx_answered = "xx_responder \<times> session_index \<times> bytes"

definition xx_answer :: "'h env \<Rightarrow> xx_initiator hs_ctx \<Rightarrow> session_index \<Rightarrow> bytes \<Rightarrow> ('h, 'z, xx_answered) nstep" where
  "xx_answer E c peer_sender_idx noise_payload =
     (let C = ev_crypto E in
     bindm (getm nd_nsec) (\<lambda>nsec.
     bindm (liftm (map_err (\<lambda>_. protocol_error.InvalidMessage) (NoiseXxResponder_new C nsec))) (\<lambda>r0.
     case NoiseXxResponder_read_message1 C noise_payload r0 of (q1, r1) \<Rightarrow>
     bindm (liftm (map_err (\<lambda>_. protocol_error.InvalidMessage) q1)) (\<lambda>_.
     bindm (generate_other_eph E (hc_eph c)) (\<lambda>resp_eph.
     let cap = XX_HANDSHAKE_MSG2_SIZE + NEGOTIATION_MAX_SIZE + TAG_SIZE in
     case NoiseXxResponder_write_message2 C resp_eph (hc_epoch c) cap r1 of (q2, r2) \<Rightarrow>
     bindm (liftm (map_err (\<lambda>_. DecryptFailed) q2)) (\<lambda>msg2_noise.
     bindm (our_negotiation E protocol_error.InvalidMessage) (\<lambda>neg.
     case NoiseXxResponder_encrypt_payload C neg (cap - length msg2_noise) r2 of (q3, r3) \<Rightarrow>
     bindm (liftm (map_err (\<lambda>_. DecryptFailed) q3)) (\<lambda>neg_enc.
     bindm allocate_session_index (\<lambda>resp_index.
     bindm (liftm (map_err (\<lambda>_. protocol_error.InvalidMessage) (build_msg2 (ev_wire E) resp_index peer_sender_idx (msg2_noise @ neg_enc) 512))) (\<lambda>msg2.
     bindm (node_send_frame msg2) (\<lambda>_. retm (r3, peer_sender_idx, msg2))))))))))))"

definition handshake_xx_frame ::
  "'h env \<Rightarrow> xx_initiator hs_ctx \<Rightarrow> bytes \<Rightarrow> ('h, 'z, (link_keys + xx_answered) option) nstep" where
  "handshake_xx_frame E c mb =
     bindm (liftm (map_err (\<lambda>_. protocol_error.InvalidMessage) (parse_message (ev_wire E) mb))) (\<lambda>m.
     case m of
       Msg2 sender_idx _ noise_payload \<Rightarrow>
         bindm (xx_initiator_msg2 E c sender_idx noise_payload) (\<lambda>keys. retm (Some (Inl keys)))
     | Msg1 peer_sender_idx noise_payload \<Rightarrow>
         competing_msg1 c (bindm (xx_answer E c peer_sender_idx noise_payload) (\<lambda>a. retm (Some (Inr a))))
     | _ \<Rightarrow> retm None)"

definition xx_msg3_frame :: "'h env \<Rightarrow> xx_answered \<Rightarrow> bytes \<Rightarrow> ('h, 'z, link_keys option) nstep" where
  "xx_msg3_frame E a mb =
     (case a of (r3, peer_sender_idx, _) \<Rightarrow>
     bindm (liftm (map_err (\<lambda>_. protocol_error.InvalidMessage) (parse_message (ev_wire E) mb))) (\<lambda>m.
     case m of
       Msg3 _ _ np3 \<Rightarrow>
         (let C = ev_crypto E; (base3, neg3) = split_msg3_noise np3 in
         case NoiseXxResponder_read_message3 C base3 r3 of (q1, r4) \<Rightarrow>
         bindm (liftm (map_err (\<lambda>_. protocol_error.InvalidMessage) q1)) (\<lambda>(init_pub, _).
         bindm (xx_peer_negotiation E protocol_error.InvalidMessage (NoiseXxResponder_decrypt_payload C) neg3 r4) (\<lambda>r5.
         bindm (getm nd_peer_npub) (\<lambda>peer_npub.
         bindm (guardm (take 32 (drop 1 init_pub) \<noteq> take 32 (drop 1 peer_npub)) protocol_error.InvalidMessage) (\<lambda>_.
           case NoiseXxResponder_finalize C r5 of (c1, c2) \<Rightarrow> retm (Some (c2, c1, peer_sender_idx)))))))
     | _ \<Rightarrow> retm None))"

definition resend_msg2 :: "xx_answered \<Rightarrow> ('h, 'z, unit) nstep" where
  "resend_msg2 a = (case a of (_, _, msg2) \<Rightarrow> node_send_frame msg2)"

definition handshake_xx ::
  "'h env \<Rightarrow> instant \<Rightarrow> bytes \<Rightarrow> rx_side \<Rightarrow> ('h, 'z) node_scheme \<Rightarrow> (link_keys, protocol_error) res \<times> rx_side \<times> ('h, 'z) node_scheme" where
  "handshake_xx E now epoch x n =
     (case handshake_start E now epoch (\<lambda>eph nsec _. NoiseXxInitiator_new (ev_crypto E) eph nsec)
             (\<lambda>_. NoiseXxInitiator_write_message1 (ev_crypto E) 256) n of
        (Ok c, n1) \<Rightarrow>
          (case frame_loop (ev_wire E) (nd_raw_framing n1) (handshake_max_resends (nd_timing n1)) True
                  (handshake_xx_frame E c) (resend_msg1 c) 0 x n1 of
             (Ok (Inl keys), x2, n2) \<Rightarrow> (Ok keys, x2, n2)
           | (Ok (Inr a), x2, n2) \<Rightarrow>
               frame_loop (ev_wire E) (nd_raw_framing n2) (handshake_max_resends (nd_timing n2)) False
                 (xx_msg3_frame E a) (resend_msg2 a) 0 x2 n2
           | (Err e, x2, n2) \<Rightarrow> (Err e, x2, n2)
           | (Panic, x2, n2) \<Rightarrow> (Panic, x2, n2))
      | (Err e, n1) \<Rightarrow> (Err e, x, n1)
      | (Panic, n1) \<Rightarrow> (Panic, x, n1))"

definition handshake ::
  "'h env \<Rightarrow> instant \<Rightarrow> bytes \<Rightarrow> rx_side \<Rightarrow> ('h, 'z) node_scheme \<Rightarrow> (link_keys, protocol_error) res \<times> rx_side \<times> ('h, 'z) node_scheme" where
  "handshake E now epoch x n = (case ev_wire E of Wire_XX \<Rightarrow> handshake_xx E now epoch x n | Wire_IK \<Rightarrow> handshake_ik E now epoch x n)"

section \<open>Specification\<close>

text \<open>
  What a receive half holds, and what a node must be able to do: \<open>holds_rx\<close> says that the script will
  yield exactly the frames \<open>fs\<close>, \<open>wire_data\<close> is what \<^verbatim>\<open>send_frame\<close> hands to the transport for one frame, and
  \<open>can_draw\<close> that the generator still delivers \<open>k\<close> different valid secrets and \<open>k\<close> nonzero words.
\<close>

definition holds_rx :: "wire \<Rightarrow> bool \<Rightarrow> rx_side \<Rightarrow> bytes list \<Rightarrow> bool" where
  "holds_rx v raw x fs \<longleftrightarrow> (\<exists>w. (rx_script x = [w] \<or> rx_script x = [] \<and> w = []) \<and>
     (if raw then holds_raw v (rx_rxbuf x, w) fs else holds_lp (rx_rxbuf x, w) fs))"

definition wire_data :: "bool \<Rightarrow> bytes \<Rightarrow> bytes list" where
  "wire_data raw f = (if raw then [f] else [le16 (of_nat (length f)), f])"

definition fresh_rx :: "rx_event list \<Rightarrow> rx_side" where
  "fresh_rx w = \<lparr>rx_rxbuf = empty_rx, rx_script = [w]\<rparr>"

definition can_draw :: "'h env \<Rightarrow> nat \<Rightarrow> ('h, 'z) node_scheme \<Rightarrow> bool" where
  "can_draw E k n \<longleftrightarrow> k \<le> card (set (filter (eph_valid (ev_crypto E)) (rng_blocks (nd_rng n)))) \<and>
     k \<le> length (filter (\<lambda>i. i \<noteq> 0) (rng_words (nd_rng n)))"

definition deliverable :: "wire \<Rightarrow> bool \<Rightarrow> bytes \<Rightarrow> bool" where
  "deliverable v raw f \<longleftrightarrow> f \<noteq> [] \<and> length f \<le> 547 \<and> (raw \<longrightarrow> whole_datagram v f)"

definition same_node :: "('h, 'z) node_scheme \<Rightarrow> ('h, 'y) node_scheme \<Rightarrow> bool" where
  "same_node n n1 \<longleftrightarrow> nd_nsec n1 = nd_nsec n \<and> nd_peer_npub n1 = nd_peer_npub n \<and> nd_raw_framing n1 = nd_raw_framing n \<and>
     nd_timing n1 = nd_timing n \<and> nd_peer_sent_first n1 = nd_peer_sent_first n \<and> tx_up (nd_tx n1) = []"

section \<open>Lemmas\<close>

interpretation nodr: frame_receiver "recv_frame_timeout v raw" "holds_rx v raw" for v raw
proof unfold_locales
  fix x f fs assume "holds_rx v raw x (f # fs)"
  then obtain w where w: "rx_script x = [w] \<or> rx_script x = [] \<and> w = []"
    and h: "if raw then holds_raw v (rx_rxbuf x, w) (f # fs) else holds_lp (rx_rxbuf x, w) (f # fs)"
    by (auto simp: holds_rx_def)
  obtain st w' where r: "recv_frame v raw MAX_FRAME_SIZE (rx_rxbuf x) w = (Ok f, st, w')"
    and h': "if raw then holds_raw v (st, w') fs else holds_lp (st, w') fs"
    using h lpr.recv_next [of "(rx_rxbuf x, w)" f fs 548] rawr.recv_next [of v "(rx_rxbuf x, w)" f fs 548]
    by (cases raw) (auto simp: recv_frame_def)
  have e: "w' = []" if "w = []" using recv_frame_progress [OF r] that by auto
  show "\<exists>x'. recv_frame_timeout v raw x = (Ok f, x') \<and> holds_rx v raw x' fs"
    using w r h' e by (cases raw) (auto simp: recv_frame_timeout_def holds_rx_def)
next
  fix x assume "holds_rx v raw x []"
  then obtain w where w: "rx_script x = [w] \<or> rx_script x = [] \<and> w = []"
    and h: "if raw then holds_raw v (rx_rxbuf x, w) [] else holds_lp (rx_rxbuf x, w) []"
    by (auto simp: holds_rx_def)
  obtain st w' where r: "recv_frame v raw MAX_FRAME_SIZE (rx_rxbuf x) w = (Err Timeout, st, w')"
    and h': "if raw then holds_raw v (st, w') [] else holds_lp (st, w') []"
    using h lpr.recv_none [of "(rx_rxbuf x, w)" 548] rawr.recv_none [of v "(rx_rxbuf x, w)" 548]
    by (cases raw) (auto simp: recv_frame_def)
  have e: "if raw then holds_raw v (st, []) [] else holds_lp (st, []) []"
    using h' by (auto simp: holds_raw_def holds_lp_def)
  show "\<exists>x'. recv_frame_timeout v raw x = (Err Timeout, x') \<and> holds_rx v raw x' []"
    using w r e by (cases raw) (auto simp: recv_frame_timeout_def holds_rx_def)
qed

lemma frame_loop_next:
  assumes "holds_rx v raw x (f # fs)"
  obtains x1 where "holds_rx v raw x1 fs" "frame_loop v raw m reset g h c x n =
    (case g f n of
       (Ok (Some r), n1) \<Rightarrow> (Ok r, x1, n1)
     | (Ok None, n1) \<Rightarrow> frame_loop v raw m reset g h (if reset then 0 else c) x1 n1
     | (Err e, n1) \<Rightarrow> (Err e, x1, n1)
     | (Panic, n1) \<Rightarrow> (Panic, x1, n1))"
proof -
  obtain x1 where "recv_frame_timeout v raw x = (Ok f, x1)" "holds_rx v raw x1 fs"
    using nodr.recv_next [OF assms] by blast
  then show ?thesis using that [of x1] by (simp add: frame_loop.simps [of v raw m reset g h c x n])
qed

lemma frame_loop_silence:
  assumes "holds_rx v raw x []" "\<And>n. I n \<Longrightarrow> h n = (Ok (), step n) \<and> I (step n)" "I n" "c \<le> m"
  shows "\<exists>x'. frame_loop v raw m reset g h c x n = (Err Timeout, x', (step ^^ (m - c)) n)"
  using assms
proof (induction "m - c" arbitrary: c x n)
  case 0
  then obtain x1 where "recv_frame_timeout v raw x = (Err Timeout, x1)" using nodr.recv_none by blast
  then show ?case using 0 unfolding frame_loop.simps [of v raw m reset g h c x n] by simp
next
  case (Suc k)
  then obtain x1 where r: "recv_frame_timeout v raw x = (Err Timeout, x1)" "holds_rx v raw x1 []"
    using nodr.recv_none by blast
  have c: "c < m" "m - Suc c = k" using Suc.hyps(2) by auto
  have h: "h n = (Ok (), step n)" "I (step n)" using Suc.prems(2,3) by auto
  then have "frame_loop v raw m reset g h c x n = frame_loop v raw m reset g h (c + 1) x1 (step n)"
    using r(1) c unfolding frame_loop.simps [of v raw m reset g h c x n] by simp
  moreover have "\<exists>x'. frame_loop v raw m reset g h (c + 1) x1 (step n) = (Err Timeout, x', (step ^^ k) (step n))"
    using Suc.hyps(1) [of "c + 1" x1 "step n"] r(2) c h(2) Suc.prems(2) by auto
  ultimately show ?case using Suc.hyps(2) by (simp add: funpow_swap1 flip: Suc.hyps(2))
qed

lemma draw_until_filter: "draw_until good xs = (Ok x, rest) \<Longrightarrow> filter good xs = x # filter good rest"
  by (induction xs) (auto split: if_splits)

lemma draw_until_Ok: "\<exists>x\<in>set xs. good x \<Longrightarrow> \<exists>x rest. draw_until good xs = (Ok x, rest) \<and> good x"
  by (induction xs) auto

lemma wire_data_holds:
  assumes "\<forall>f\<in>set fs. deliverable v raw f"
  shows "holds_rx v raw (fresh_rx (map Rx (concat (map (wire_data raw) fs)))) fs"
proof (cases raw)
  case True
  then have "concat (map (wire_data raw) fs) = fs" by (induction fs) (simp_all add: wire_data_def)
  moreover have "extract_raw_frame v b 0 0 = Err ()" for b by (simp add: extract_raw_frame_def reject_if_def)
  ultimately show ?thesis using True assms
    by (auto simp: holds_rx_def fresh_rx_def holds_raw_def deliverable_def empty_rx_def intro!: exI [of _ fs]) 
next
  case False
  then have "concat (concat (map (wire_data raw) fs)) = concat (map frame_bytes fs)"
    by (induction fs) (simp_all add: wire_data_def frame_bytes_def)
  moreover have "\<forall>d\<in>set (concat (map (wire_data raw) fs)). length d \<le> 547"
    using False assms by (auto simp: wire_data_def deliverable_def)
  ultimately show ?thesis using False assms
    by (auto simp: holds_rx_def fresh_rx_def holds_lp_def deliverable_def valid_frame_def small_rx_def)
qed

lemma node_send_frame_up:
  "tx_up (nd_tx n) = [] \<Longrightarrow> node_send_frame f n =
     (Ok (), n\<lparr>nd_tx := (nd_tx n)\<lparr>tx_sent := tx_sent (nd_tx n) @ wire_data (nd_raw_framing n) f\<rparr>\<rparr>)"
  by (simp add: node_send_frame_def send_frame_def wire_data_def transport_send_def bindm_def map_errm_def retm_def)

lemma eph_valid_iff: "eph_valid C e \<longleftrightarrow> (\<exists>p. pubkey_prim C e = Some p)"
  by (cases "pubkey_prim C e") (simp_all add: eph_valid_def ecdh_pubkey_def)

lemma can_drawE:
  assumes "can_draw E 2 n"
  obtains e r i ws where "draw_until (eph_valid (ev_crypto E)) (rng_blocks (nd_rng n)) = (Ok e, r)" "eph_valid (ev_crypto E) e"
    "\<exists>e'\<in>set r. eph_valid (ev_crypto E) e' \<and> e' \<noteq> e"
    "draw_until (\<lambda>i. i \<noteq> 0) (rng_words (nd_rng n)) = (Ok i, ws)" "i \<noteq> 0" "\<exists>i'\<in>set ws. i' \<noteq> 0"
proof -
  let ?good = "eph_valid (ev_crypto E)" and ?bs = "rng_blocks (nd_rng n)" and ?ws = "rng_words (nd_rng n)"
  have "2 \<le> card (set (filter ?good ?bs))" "2 \<le> length (filter (\<lambda>i. i \<noteq> 0) ?ws)"
    using assms by (auto simp: can_draw_def)
  then have "filter ?good ?bs \<noteq> []" "filter (\<lambda>i. i \<noteq> 0) ?ws \<noteq> []" by (auto simp del: set_filter)
  then have "\<exists>x\<in>set ?bs. ?good x" "\<exists>x\<in>set ?ws. x \<noteq> 0" by (auto simp: filter_empty_conv)
  then obtain e r i ws where d: "draw_until ?good ?bs = (Ok e, r)" "?good e"
      "draw_until (\<lambda>i. i \<noteq> 0) ?ws = (Ok i, ws)" "i \<noteq> 0"
    using draw_until_Ok [of ?bs ?good] draw_until_Ok [of ?ws "\<lambda>i. i \<noteq> 0"] by auto
  have f: "filter ?good ?bs = e # filter ?good r" "filter (\<lambda>i. i \<noteq> 0) ?ws = i # filter (\<lambda>i. i \<noteq> 0) ws"
    using draw_until_filter [OF d(1)] draw_until_filter [OF d(3)] by simp_all
  have "2 \<le> card (insert e (set (filter ?good r)))" using f(1) \<open>2 \<le> card _\<close> by simp
  then have "\<not> set (filter ?good r) \<subseteq> {e}"
    using card_mono [of "{e}" "insert e (set (filter ?good r))"] by (auto simp del: set_filter)
  then have "\<exists>e'\<in>set r. ?good e' \<and> e' \<noteq> e" by auto
  moreover have "\<exists>i'\<in>set ws. i' \<noteq> 0" using f(2) \<open>2 \<le> length _\<close> by (cases "filter (\<lambda>i. i \<noteq> 0) ws") (auto simp: filter_eq_Cons_iff)
  ultimately show ?thesis using d that by blast
qed

lemma bindm_draw_eph [step_simps]:
  "draw_until good (rng_blocks (nd_rng n)) = (Ok e, r) \<Longrightarrow>
     bindm (draw_eph good) f n = f e (n\<lparr>nd_rng := (nd_rng n)\<lparr>rng_blocks := r\<rparr>\<rparr>)"
  by (simp add: draw_eph_def bindm_def)

lemma bindm_allocate [step_simps]:
  "draw_until (\<lambda>i. i \<noteq> 0) (rng_words (nd_rng n)) = (Ok i, r) \<Longrightarrow>
     bindm allocate_session_index f n = f i (n\<lparr>nd_rng := (nd_rng n)\<lparr>rng_words := r\<rparr>\<rparr>)"
  by (simp add: allocate_session_index_def bindm_def)

lemma bindm_send_up [step_simps]:
  "tx_up (nd_tx n) = [] \<Longrightarrow> bindm (node_send_frame f) g n =
     g () (n\<lparr>nd_tx := (nd_tx n)\<lparr>tx_sent := tx_sent (nd_tx n) @ wire_data (nd_raw_framing n) f\<rparr>\<rparr>)"
  by (simp add: node_send_frame_up bindm_def)

lemma bindm_assoc [step_simps]: "bindm (bindm m f) g = bindm m (\<lambda>x. bindm (f x) g)"
  by (auto simp: bindm_def fun_eq_iff split: prod.splits res.splits)

lemma bindm_retm_left [step_simps]: "bindm (retm x) f = f x"
  by (simp add: bindm_def retm_def)

lemma my_address_eq:
  "length pub = 33 \<Longrightarrow> my_address E (par # tl pub) = Ok (NodeAddr_from_pubkey_x (ev_crypto E) (tl pub))"
  "length pub = 33 \<Longrightarrow> my_address E pub = Ok (NodeAddr_from_pubkey_x (ev_crypto E) (tl pub))"
  by (auto simp: my_address_def drop_Suc)

end
