(* ===== verification/NodeHandshake.thy ===== *)
theory NodeHandshake
  imports Node
begin

text \<open>
  The handshakes of two nodes run against each other: each node is fed with exactly what the other one
  hands to its transport, in either framing.  The frame loops are driven through the contract of a
  \<open>frame_receiver\<close> that Node.thy interprets for the receive half of a node.
\<close>

section \<open>Specification\<close>

text \<open>
  What it means for two nodes to be set up for each other: \<open>paired\<close> (each is configured with the other's
  static key, in either parity), \<open>ready\<close> (the generator and the transport work) and the order of the
  addresses.  \<open>started\<close>, \<open>ik_offer\<close>, \<open>xx_offer\<close>, \<open>xx_reply\<close> and \<open>xx_final\<close> describe the messages on the way by what
  the receiving machine makes of them.
\<close>

definition paired :: "('h, 'z) node_scheme \<Rightarrow> crypto \<Rightarrow> ('k, 'y) node_scheme \<Rightarrow> bool" where
  "paired A C B \<longleftrightarrow> (\<exists>pa pb par. pubkey_prim C (nd_nsec A) = Some pa \<and> pubkey_prim C (nd_nsec B) = Some pb \<and>
     (par = 2 \<or> par = 3) \<and> nd_peer_npub A = par # tl pb)"

definition node_address :: "crypto \<Rightarrow> ('h, 'z) node_scheme \<Rightarrow> node_addr" where
  "node_address C n = (case pubkey_prim C (nd_nsec n) of Some p \<Rightarrow> NodeAddr_from_pubkey_x C (tl p) | None \<Rightarrow> [])"

definition ready :: "'h env \<Rightarrow> ('h, 'z) node_scheme \<Rightarrow> bool" where
  "ready E n \<longleftrightarrow> can_draw E 2 n \<and> tx_up (nd_tx n) = [] \<and> \<not> nd_peer_sent_first n"

definition can_answer :: "'h env \<Rightarrow> bytes \<Rightarrow> ('h, 'z) node_scheme \<Rightarrow> bool" where
  "can_answer E e n \<longleftrightarrow> (\<exists>e'\<in>set (rng_blocks (nd_rng n)). eph_valid (ev_crypto E) e' \<and> e' \<noteq> e) \<and>
     (\<exists>i\<in>set (rng_words (nd_rng n)). i \<noteq> 0)"

definition started :: "'h env \<Rightarrow> bytes \<Rightarrow> ('h, 'z) node_scheme \<Rightarrow> ('k, 'y) node_scheme \<Rightarrow> ('h, 'z) node_scheme \<Rightarrow> 'm hs_ctx \<Rightarrow> bytes \<Rightarrow> bool" where
  "started E epoch n B n1 c m \<longleftrightarrow> same_node n n1 \<and> nd_fmp n1 = nd_fmp n \<and>
     build_msg1 (ev_wire E) (hc_index c) m 256 = Ok (hc_f1 c) \<and>
     tx_sent (nd_tx n1) = tx_sent (nd_tx n) @ wire_data (nd_raw_framing n) (hc_f1 c) \<and>
     can_answer E (hc_eph c) n1 \<and> hc_epoch c = epoch \<and> hc_my_pub c = the (pubkey_prim (ev_crypto E) (nd_nsec n)) \<and>
     hc_my_addr c = node_address (ev_crypto E) n \<and> hc_peer_addr c = node_address (ev_crypto E) B"

definition ik_offer :: "crypto \<Rightarrow> bytes \<Rightarrow> bytes \<Rightarrow> bytes \<Rightarrow> bytes \<Rightarrow> ik_initiator \<Rightarrow> bytes \<Rightarrow> bool" where
  "ik_offer C epoch sa sb e i1 m \<longleftrightarrow> (\<exists>pa pb pe par r0 r1. pubkey_prim C sa = Some pa \<and> pubkey_prim C sb = Some pb \<and>
     pubkey_prim C e = Some pe \<and> par \<in> {2, 3} \<and> length m = 106 \<and> take 33 m = pe \<and> NoiseIkResponder_new C sb pe = Ok r0 \<and>
     NoiseIkResponder_read_message1 C (drop 33 m) r0 = (Ok (pa, epoch), r1) \<and> sy_ck r1 = sy_ck i1 \<and> ikr_s_priv r1 = sb \<and>
     ikr_ei_pub r1 = pe \<and> iki_e_priv i1 = e \<and> iki_rs_pub i1 = par # tl pb)"

definition xx_offer :: "crypto \<Rightarrow> bytes \<Rightarrow> bytes \<Rightarrow> bytes \<Rightarrow> xx_initiator \<Rightarrow> bytes \<Rightarrow> bool" where
  "xx_offer C sa sb e i1 m \<longleftrightarrow> (\<exists>pb r0 r1. pubkey_prim C sb = Some pb \<and> pubkey_prim C e = Some m \<and>
     NoiseXxResponder_new C sb = Ok r0 \<and> NoiseXxResponder_read_message1 C m r0 = (Ok (), r1) \<and>
     sy_h r1 = sy_h i1 \<and> sy_ck r1 = sy_ck i1 \<and> xxr_ei_pub r1 = Some m \<and> xxr_s_priv r1 = sb \<and> xxr_s_pub r1 = pb \<and>
     xxi_e_priv i1 = e \<and> xxi_s_priv i1 = sa)"

definition neg_block :: "wire \<Rightarrow> node_profile \<Rightarrow> bytes" where
  "neg_block v p = [0, push_bit 4 (FMP_VERSION v) OR (FMP_VERSION v AND 0x0F)] @ le64 (fmp_features p)"

definition negotiated :: "wire \<Rightarrow> node_profile \<Rightarrow> fmp_state \<Rightarrow> fmp_state" where
  "negotiated v p f = f\<lparr>fmp_version := Some (FMP_VERSION v), peer_profile := Some p,
     peer_wants_sr := (fmp_features p AND FMP_FEAT_WANTS_SR \<noteq> 0), peer_wants_rr := (fmp_features p AND FMP_FEAT_WANTS_RR \<noteq> 0)\<rparr>"

definition xx_reply :: "crypto \<Rightarrow> bytes \<Rightarrow> bytes \<Rightarrow> bytes \<Rightarrow> bytes \<Rightarrow> xx_initiator \<Rightarrow> xx_responder \<Rightarrow> bytes \<Rightarrow> bytes \<Rightarrow> bool" where
  "xx_reply C epoch neg sa sb i1 r3 m2 ct \<longleftrightarrow> (\<exists>pb i2 i3 re pre. pubkey_prim C sb = Some pb \<and> pubkey_prim C re = Some pre \<and>
     length m2 = 106 \<and> length ct = length neg + 16 \<and> NoiseXxInitiator_read_message2 C m2 i1 = (Ok (pb, epoch), i2) \<and>
     NoiseXxInitiator_decrypt_payload C ct 64 i2 = (Ok neg, i3) \<and> xx_synced i3 r3 \<and> xxi_re_pub i3 = Some pre \<and>
     xxi_s_priv i3 = sa \<and> xxr_e_priv r3 = Some re)"

definition xx_final :: "crypto \<Rightarrow> bytes \<Rightarrow> bytes \<Rightarrow> bytes \<Rightarrow> xx_responder \<Rightarrow> bytes \<Rightarrow> bytes \<Rightarrow> bytes \<Rightarrow> bool" where
  "xx_final C epoch neg sa r3 m3 ct ck \<longleftrightarrow> (\<exists>pa r4 r5. pubkey_prim C sa = Some pa \<and> length m3 = 73 \<and> length ct = length neg + 16 \<and>
     NoiseXxResponder_read_message3 C m3 r3 = (Ok (pa, epoch), r4) \<and>
     NoiseXxResponder_decrypt_payload C ct 64 r4 = (Ok neg, r5) \<and> sy_ck r5 = ck)"

definition sample_env :: "wire \<Rightarrow> unit env" where
  "sample_env v = \<lparr>ev_crypto = sample_crypto, ev_wire = v, ev_mmp = False, ev_bench = False, ev_ptr = 32,
     ev_f64 = \<lparr>f_mean_q8 = (\<lambda>_ _. 0), f_trend = (\<lambda>_. 0), f_srtt_us = (\<lambda>x. x)\<rparr>, ev_handler = NoopHandler\<rparr>"

definition sample_node :: "byte \<Rightarrow> byte \<Rightarrow> node_profile \<Rightarrow> unit node" where
  "sample_node a b p = set_node_profile p (Node_new 0 fresh_transport
     \<lparr>rng_blocks = [[], replicate 32 (a + 10), replicate 32 (a + 20)], rng_words = [0, 7, 9]\<rparr> (replicate 32 a) (3 # replicate 32 b) ())"

definition resent :: "bytes \<Rightarrow> ('h, 'z) node_scheme \<Rightarrow> ('h, 'z) node_scheme" where
  "resent f n = n\<lparr>nd_tx := (nd_tx n)\<lparr>tx_sent := tx_sent (nd_tx n) @ wire_data (nd_raw_framing n) f\<rparr>\<rparr>"

section \<open>Lemmas\<close>

lemma bytes_less_asym: "bytes_less a b \<Longrightarrow> \<not> bytes_less b a \<and> a \<noteq> b"
  by (induction a b rule: bytes_less.induct) auto

lemma handshake_frames:
  "build_msg1 v s m cap = Ok f \<Longrightarrow> parse_message v f = Ok (Msg1 s m) \<and> length f = 8 + length m"
  "build_msg2 v s r m cap = Ok f \<Longrightarrow> parse_message v f = Ok (Msg2 s r m) \<and> length f = 12 + length m"
  "build_msg3 v s r m cap = Ok f \<Longrightarrow> parse_message v f = Ok (Msg3 s r m) \<and> length f = 12 + length m"
  by (auto simp: build_msg_frames split: if_splits) (auto simp: frame_body_def)

lemma handshake_deliverable:
  assumes "crypto_ok C"
  shows "build_msg1 v s m cap = Ok f \<Longrightarrow> length m = HANDSHAKE_MSG1_SIZE v \<Longrightarrow> length m \<le> 500 \<Longrightarrow> deliverable v raw f"
    "build_msg2 v s r m cap = Ok f \<Longrightarrow> HANDSHAKE_MSG2_SIZE v \<le> length m \<Longrightarrow> length m \<le> 500 \<Longrightarrow> deliverable v raw f"
    "build_msg3 v s r m cap = Ok f \<Longrightarrow> HANDSHAKE_MSG3_SIZE v \<le> length m \<Longrightarrow> length m \<le> 500 \<Longrightarrow> deliverable v raw f"
proof -
  have d: "deliverable v raw f" if "link_frame C v f" "8 \<le> length f" "length f \<le> 547"
    using that link_frame_whole [OF assms, of v f] by (auto simp: deliverable_def)
  show "deliverable v raw f" if "build_msg1 v s m cap = Ok f" "length m = HANDSHAKE_MSG1_SIZE v" "length m \<le> 500"
    using that handshake_frames(1) [OF that(1)] by (intro d) (auto simp: link_frame_def)
  show "deliverable v raw f" if "build_msg2 v s r m cap = Ok f" "HANDSHAKE_MSG2_SIZE v \<le> length m" "length m \<le> 500"
    using that handshake_frames(2) [OF that(1)] by (intro d) (auto simp: link_frame_def)
  show "deliverable v raw f" if "build_msg3 v s r m cap = Ok f" "HANDSHAKE_MSG3_SIZE v \<le> length m" "length m \<le> 500"
    using that handshake_frames(3) [OF that(1)] by (intro d) (auto simp: link_frame_def)
qed

lemma handshake_start_Ok:
  assumes C: "crypto_ok (ev_crypto E)" and r: "ready E n" and p: "paired n (ev_crypto E) B"
    and new: "\<And>e pe. pubkey_prim (ev_crypto E) e = Some pe \<Longrightarrow>
      \<exists>i0 i1 m. new e (nd_nsec n) (nd_peer_npub n) = Ok (i0, pe) \<and> write1 (the (pubkey_prim (ev_crypto E) (nd_nsec n))) i0 = (Ok m, i1) \<and>
        length m \<le> 248 \<and> Q e i1 m"
  shows "\<exists>c n1 m. handshake_start E now epoch new write1 n = (Ok c, n1) \<and> started E epoch n B n1 c m \<and> Q (hc_eph c) (hc_noise c) m"
proof -
  obtain pa pb par where k: "pubkey_prim (ev_crypto E) (nd_nsec n) = Some pa" "pubkey_prim (ev_crypto E) (nd_nsec B) = Some pb"
      "nd_peer_npub n = par # tl pb"
    using p by (auto simp: paired_def)
  obtain e rb i rw where d: "draw_until (eph_valid (ev_crypto E)) (rng_blocks (nd_rng n)) = (Ok e, rb)" "eph_valid (ev_crypto E) e"
      "\<exists>e'\<in>set rb. eph_valid (ev_crypto E) e' \<and> e' \<noteq> e"
      "draw_until (\<lambda>i. i \<noteq> 0) (rng_words (nd_rng n)) = (Ok i, rw)" "\<exists>i'\<in>set rw. i' \<noteq> 0"
    using r can_drawE [of E n] unfolding ready_def by metis
  obtain pe where pe: "pubkey_prim (ev_crypto E) e = Some pe" using d(2) by (auto simp: eph_valid_iff)
  obtain i0 i1 m where nw: "new e (nd_nsec n) (nd_peer_npub n) = Ok (i0, pe)" "write1 pa i0 = (Ok m, i1)" "length m \<le> 248" "Q e i1 m"
    using new [OF pe] k(1) by auto
  have len: "length pa = 33" "length pb = 33" using length_pubkey [OF C] k by auto
  obtain f1 where f1: "build_msg1 (ev_wire E) i m 256 = Ok f1" using nw(3) by (simp add: build_msg_frames)
  define n1 where "n1 = on_event_node E now Msg1Sent (n\<lparr>nd_rng := \<lparr>rng_blocks = rb, rng_words = rw\<rparr>,
      nd_tx := (nd_tx n)\<lparr>tx_sent := tx_sent (nd_tx n) @ wire_data (nd_raw_framing n) f1\<rparr>\<rparr>)"
  define c where "c = \<lparr>hc_epoch = epoch, hc_my_pub = pa, hc_my_addr = NodeAddr_from_pubkey_x (ev_crypto E) (tl pa),
      hc_peer_addr = NodeAddr_from_pubkey_x (ev_crypto E) (tl pb), hc_eph = e, hc_noise = i1, hc_index = i, hc_f1 = f1\<rparr>"
  have "handshake_start E now epoch new write1 n = (Ok c, n1)"
    using k d(1,4) nw f1 len r
    by (simp add: handshake_start_def step_simps noise_err_def ecdh_pubkey_def my_address_eq generate_valid_eph_def
        ready_def n1_def c_def on_event_node_def)
  moreover have "started E epoch n B n1 c m" "Q (hc_eph c) (hc_noise c) m"
    using d f1 r k nw by (simp_all add: n1_def c_def on_event_node_def same_node_def started_def can_answer_def ready_def node_address_def)
  ultimately show ?thesis by blast
qed

lemma ik_start:
  assumes C: "crypto_ok (ev_crypto E)" and r: "ready E n" and p: "paired n (ev_crypto E) B" and ep: "length epoch = 8"
  shows "\<exists>c n1 m. handshake_start E now epoch (NoiseIkInitiator_new (ev_crypto E))
        (\<lambda>my_pub. NoiseIkInitiator_write_message1 (ev_crypto E) my_pub epoch 256) n = (Ok c, n1) \<and>
     started E epoch n B n1 c m \<and> ik_offer (ev_crypto E) epoch (nd_nsec n) (nd_nsec B) (hc_eph c) (hc_noise c) m"
proof (rule handshake_start_Ok [OF C r p])
  let ?C = "ev_crypto E"
  fix e pe assume e: "pubkey_prim ?C e = Some pe"
  obtain pa pb par where k: "pubkey_prim ?C (nd_nsec n) = Some pa" "pubkey_prim ?C (nd_nsec B) = Some pb" "par \<in> {2, 3}" "nd_peer_npub n = par # tl pb"
    using p by (auto simp: paired_def)
  show "\<exists>i0 i1 m. NoiseIkInitiator_new ?C e (nd_nsec n) (nd_peer_npub n) = Ok (i0, pe) \<and>
      NoiseIkInitiator_write_message1 ?C (the (pubkey_prim ?C (nd_nsec n))) epoch 256 i0 = (Ok m, i1) \<and> length m \<le> 248 \<and>
      ik_offer ?C epoch (nd_nsec n) (nd_nsec B) e i1 m"
    using ik_message1 [OF C e k(1,2,3) ep, of 256] k e unfolding ik_offer_def by fastforce
qed

lemma ik_answer_Ok:
  assumes C: "crypto_ok (ev_crypto E)" and n: "tx_up (nd_tx n) = []" "nd_peer_npub n = par # tl (the (pubkey_prim (ev_crypto E) sa))"
    and o: "ik_offer (ev_crypto E) ep sa (nd_nsec n) ie i1 m" and draws: "can_answer E (hc_eph c) n" and ep: "length (hc_epoch c) = 8"
  shows "\<exists>m2 i2 f2 idx n2.
    ik_answer E c s m n = (Ok (Some (snd (split_keys (ev_crypto E) (sy_ck i2)), fst (split_keys (ev_crypto E) (sy_ck i2)), s)), n2) \<and>
    NoiseIkInitiator_read_message2 (ev_crypto E) m2 i1 = (Ok (hc_epoch c), i2) \<and> length m2 = 57 \<and>
    build_msg2 (ev_wire E) idx s m2 256 = Ok f2 \<and> tx_sent (nd_tx n2) = tx_sent (nd_tx n) @ wire_data (nd_raw_framing n) f2"
proof -
  let ?C = "ev_crypto E"
  obtain pa pb pe par' r0 r1 where m1: "pubkey_prim ?C sa = Some pa" "pubkey_prim ?C (nd_nsec n) = Some pb" "pubkey_prim ?C ie = Some pe"
      "par' \<in> {2, 3}" "length m = 106" "take 33 m = pe" "NoiseIkResponder_new ?C (nd_nsec n) pe = Ok r0"
      "NoiseIkResponder_read_message1 ?C (drop 33 m) r0 = (Ok (pa, ep), r1)" "sy_ck r1 = sy_ck i1" "ikr_s_priv r1 = nd_nsec n"
      "ikr_ei_pub r1 = pe" "iki_e_priv i1 = ie" "iki_rs_pub i1 = par' # tl pb"
    using o unfolding ik_offer_def by blast
  obtain re rb where re: "draw_until (\<lambda>e. eph_valid ?C e \<and> e \<noteq> hc_eph c) (rng_blocks (nd_rng n)) = (Ok re, rb)" "eph_valid ?C re"
    using draw_until_Ok [of "rng_blocks (nd_rng n)" "\<lambda>e. eph_valid ?C e \<and> e \<noteq> hc_eph c"] draws by (auto simp: can_answer_def)
  obtain pre where pre: "pubkey_prim ?C re = Some pre" using re(2) by (auto simp: eph_valid_iff)
  obtain idx rw where idx: "draw_until (\<lambda>i. i \<noteq> 0) (rng_words (nd_rng n)) = (Ok idx, rw)"
    using draw_until_Ok [of "rng_words (nd_rng n)" "\<lambda>i. i \<noteq> 0"] draws by (auto simp: can_answer_def)
  obtain m2 i2 r2 where m2: "NoiseIkResponder_write_message2 ?C re (hc_epoch c) 128 r1 = (Ok m2, r2)" "length m2 = 57"
      "NoiseIkInitiator_read_message2 ?C m2 i1 = (Ok (hc_epoch c), i2)" "sy_ck r2 = sy_ck i2"
    using ik_message2 [OF C m1(3) pre m1(2,4) ep _ m1(9-13), of 128] by auto
  obtain f2 where f2: "build_msg2 (ev_wire E) idx s m2 256 = Ok f2" using m2(2) by (simp add: build_msg_frames)
  have x: "take 32 (drop (Suc 0) pa) = tl pa" "take 32 (tl pa) = tl pa" using length_pubkey [OF C m1(1)] by (auto simp: drop_Suc)
  have "ik_answer E c s m n = (Ok (Some (snd (split_keys ?C (sy_ck i2)), fst (split_keys ?C (sy_ck i2)), s)),
      n\<lparr>nd_rng := \<lparr>rng_blocks = rb, rng_words = rw\<rparr>, nd_tx := (nd_tx n)\<lparr>tx_sent := tx_sent (nd_tx n) @ wire_data (nd_raw_framing n) f2\<rparr>\<rparr>)"
    using n m1(1,5-8) re(1) idx m2(1,4) f2 x
    by (simp add: ik_answer_def step_simps generate_other_eph_def NoiseIkResponder_finalize_def split_beta)
  then show ?thesis using m2 f2 by auto
qed

lemma competing_ignored:
  assumes "bytes_less (hc_my_addr c) (hc_peer_addr c)" "\<not> nd_peer_sent_first n"
  shows "competing_msg1 c a n = (Ok None, n)"
  using assms bytes_less_asym [OF assms(1)] by (simp add: competing_msg1_def step_simps)

lemma competing_answered:
  assumes "bytes_less (hc_peer_addr c) (hc_my_addr c)"
  shows "competing_msg1 c a n = a n"
  using bytes_less_asym [OF assms(1)] by (auto simp add: competing_msg1_def step_simps)

lemma frame_loop_done:
  assumes "holds_rx v raw x (f # fs)" "g f n = (Ok (Some r), n1)"
  shows "\<exists>x1. holds_rx v raw x1 fs \<and> frame_loop v raw m reset g h c x n = (Ok r, x1, n1)"
  by (rule frame_loop_next [OF assms(1), of m reset g h c n]) (use assms(2) in auto)

lemma frame_loop_skip:
  assumes "holds_rx v raw x (f # fs)" "g f n = (Ok None, n1)"
  obtains x1 where "holds_rx v raw x1 fs"
    "frame_loop v raw m reset g h c x n = frame_loop v raw m reset g h (if reset then 0 else c) x1 n1"
  by (rule frame_loop_next [OF assms(1), of m reset g h c n]) (use assms(2) in auto)

lemma frame_loop_two:
  assumes "holds_rx v raw x [f, f']" "g f n = (Ok None, n1)" "g f' n1 = (Ok (Some r), n2)"
  shows "\<exists>x1. frame_loop v raw m reset g h c x n = (Ok r, x1, n2)"
proof -
  obtain x1 where x1: "holds_rx v raw x1 [f']"
      "frame_loop v raw m reset g h c x n = frame_loop v raw m reset g h (if reset then 0 else c) x1 n1"
    by (rule frame_loop_skip [where g = g and n = n, OF assms(1,2), of m reset h c])
  show ?thesis
    using frame_loop_done [where g = g and n = n1, OF x1(1) assms(3), of m reset h "if reset then 0 else c"] x1(2) by auto
qed

lemma xx_start:
  assumes C: "crypto_ok (ev_crypto E)" and r: "ready E n" and p: "paired n (ev_crypto E) B"
  shows "\<exists>c n1 m. handshake_start E now epoch (\<lambda>eph nsec _. NoiseXxInitiator_new (ev_crypto E) eph nsec)
        (\<lambda>_. NoiseXxInitiator_write_message1 (ev_crypto E) 256) n = (Ok c, n1) \<and>
     started E epoch n B n1 c m \<and> xx_offer (ev_crypto E) (nd_nsec n) (nd_nsec B) (hc_eph c) (hc_noise c) m"
proof (rule handshake_start_Ok [OF C r p])
  let ?C = "ev_crypto E"
  fix e pe assume e: "pubkey_prim ?C e = Some pe"
  obtain pb where k: "pubkey_prim ?C (nd_nsec B) = Some pb" using p by (auto simp: paired_def)
  show "\<exists>i0 i1 m. NoiseXxInitiator_new ?C e (nd_nsec n) = Ok (i0, pe) \<and> NoiseXxInitiator_write_message1 ?C 256 i0 = (Ok m, i1) \<and>
      length m \<le> 248 \<and> xx_offer ?C (nd_nsec n) (nd_nsec B) e i1 m"
    using xx_message1 [OF C e k, of 256 "nd_nsec n"] k e length_pubkey [OF C e] unfolding xx_offer_def by fastforce
qed

lemma length_neg_block [simp]: "length (neg_block v p) = 10"
  by (simp add: neg_block_def)

lemma our_negotiation_Ok: "our_negotiation E e n = (Ok (neg_block (ev_wire E) (our_profile (nd_fmp n))), n)"
  by (simp add: our_negotiation_def step_simps liftm_def encode_payload_Ok neg_block_def encode_tlvs_def)

lemma apply_negotiation_Ok:
  assumes "valid_pairing (our_profile (nd_fmp n)) p"
  shows "apply_fmp_negotiation E (neg_block (ev_wire E) p) n = (Ok (), n\<lparr>nd_fmp := negotiated (ev_wire E) p (nd_fmp n)\<rparr>)"
proof -
  let ?v = "FMP_VERSION (ev_wire E)"
  have "?v < 16" by (cases "ev_wire E") (simp_all add: FMP_VERSION_def)
  then have "NegotiationHeader_parse (neg_block (ev_wire E) p) = Ok \<lparr>version_min = ?v, version_max = ?v, features = fmp_features p\<rparr>"
    using header_parse_fields [OF version_byte [of ?v ?v], of "fmp_features p" "[]"] by (simp add: neg_block_def)
  then show ?thesis using assms
    by (simp add: apply_fmp_negotiation_def step_simps agree_version_def header_node_profile_def negotiated_def modm_def)
qed

lemma bindm_our_negotiation [step_simps]:
  "bindm (our_negotiation E e) f n = f (neg_block (ev_wire E) (our_profile (nd_fmp n))) n"
  by (simp add: bindm_def our_negotiation_Ok)

lemma bindm_apply_negotiation [step_simps]:
  "valid_pairing (our_profile (nd_fmp n)) p \<Longrightarrow> bindm (apply_fmp_negotiation E (neg_block (ev_wire E) p)) f n =
     f () (n\<lparr>nd_fmp := negotiated (ev_wire E) p (nd_fmp n)\<rparr>)"
  by (simp add: bindm_def apply_negotiation_Ok)

lemma xx_answer_Ok:
  assumes C: "crypto_ok (ev_crypto E)" and n: "tx_up (nd_tx n) = []" and o: "xx_offer (ev_crypto E) sa (nd_nsec n) e i1 m"
    and draws: "can_answer E (hc_eph c) n" and ep: "length (hc_epoch c) = 8"
  shows "\<exists>m2 ct r3 f2 idx n2. xx_answer E c s m n = (Ok (r3, s, f2), n2) \<and> same_node n n2 \<and> nd_fmp n2 = nd_fmp n \<and>
     build_msg2 (ev_wire E) idx s (m2 @ ct) 512 = Ok f2 \<and> tx_sent (nd_tx n2) = tx_sent (nd_tx n) @ wire_data (nd_raw_framing n) f2 \<and>
     xx_reply (ev_crypto E) (hc_epoch c) (neg_block (ev_wire E) (our_profile (nd_fmp n))) sa (nd_nsec n) i1 r3 m2 ct"
proof -
  let ?C = "ev_crypto E" and ?neg = "neg_block (ev_wire E) (our_profile (nd_fmp n))"
  obtain pb r0 r1 where m1: "pubkey_prim ?C (nd_nsec n) = Some pb" "pubkey_prim ?C e = Some m"
      "NoiseXxResponder_new ?C (nd_nsec n) = Ok r0" "NoiseXxResponder_read_message1 ?C m r0 = (Ok (), r1)"
      "sy_h r1 = sy_h i1" "sy_ck r1 = sy_ck i1" "xxr_ei_pub r1 = Some m" "xxr_s_priv r1 = nd_nsec n" "xxr_s_pub r1 = pb"
      "xxi_e_priv i1 = e" "xxi_s_priv i1 = sa"
    using o unfolding xx_offer_def by blast
  obtain re rb where re: "draw_until (\<lambda>e. eph_valid ?C e \<and> e \<noteq> hc_eph c) (rng_blocks (nd_rng n)) = (Ok re, rb)" "eph_valid ?C re"
    using draw_until_Ok [of "rng_blocks (nd_rng n)" "\<lambda>e. eph_valid ?C e \<and> e \<noteq> hc_eph c"] draws by (auto simp: can_answer_def)
  obtain pre where pre: "pubkey_prim ?C re = Some pre" using re(2) by (auto simp: eph_valid_iff)
  obtain idx rw where idx: "draw_until (\<lambda>i. i \<noteq> 0) (rng_words (nd_rng n)) = (Ok idx, rw)"
    using draw_until_Ok [of "rng_words (nd_rng n)" "\<lambda>i. i \<noteq> 0"] draws by (auto simp: can_answer_def)
  obtain m2 i2 r2 where 2: "NoiseXxResponder_write_message2 ?C re (hc_epoch c) 186 r1 = (Ok m2, r2)" "length m2 = 106"
      "NoiseXxInitiator_read_message2 ?C m2 i1 = (Ok (pb, hc_epoch c), i2)" "xx_synced i2 r2" "xxi_re_pub i2 = Some pre"
      "xxr_e_priv r2 = Some re" "xxi_s_priv i2 = sa"
    using xx_message2 [OF C m1(2) pre m1(1) ep _ m1(5-10), of 186] m1(11) by auto
  obtain ct i3 r3 where 3: "NoiseXxResponder_encrypt_payload ?C ?neg 80 r2 = (Ok ct, r3)"
      "NoiseXxInitiator_decrypt_payload ?C ct 64 i2 = (Ok ?neg, i3)" "xx_synced i3 r3" "length ct = 26"
      "xxi_re_pub i3 = Some pre" "xxi_s_priv i3 = sa" "xxr_e_priv r3 = Some re"
    using xx_payload_down [OF C 2(4), of ?neg 80 64] 2(5-7) by auto
  obtain f2 where f2: "build_msg2 (ev_wire E) idx s (m2 @ ct) 512 = Ok f2" using 2(2) 3(4) by (simp add: build_msg_frames)
  have "xx_answer E c s m n = (Ok (r3, s, f2),
      n\<lparr>nd_rng := \<lparr>rng_blocks = rb, rng_words = rw\<rparr>, nd_tx := (nd_tx n)\<lparr>tx_sent := tx_sent (nd_tx n) @ wire_data (nd_raw_framing n) f2\<rparr>\<rparr>)"
    using n m1(3,4) re(1) idx 2(1,2) 3(1) f2
    by (simp add: xx_answer_def step_simps Let_def generate_other_eph_def)
  moreover have "xx_reply ?C (hc_epoch c) ?neg sa (nd_nsec n) i1 r3 m2 ct"
    unfolding xx_reply_def using m1(1) pre 2 3 by auto
  ultimately show ?thesis using f2 n by (auto simp: same_node_def)
qed

lemma xx_initiator_msg2_Ok:
  assumes C: "crypto_ok (ev_crypto E)" and n: "tx_up (nd_tx n) = []" "pubkey_prim (ev_crypto E) sa = Some (hc_my_pub c)"
    and peer: "nd_peer_npub n = par # tl (the (pubkey_prim (ev_crypto E) sb))"
    and rep: "xx_reply (ev_crypto E) ep (neg_block (ev_wire E) q) sa sb (hc_noise c) r3 m2 ct"
    and ep: "length (hc_epoch c) = 8" and vp: "valid_pairing (our_profile (nd_fmp n)) q"
  shows "\<exists>ck m3 ct3 f3 n1. xx_initiator_msg2 E c s (m2 @ ct) n =
       (Ok (fst (split_keys (ev_crypto E) ck), snd (split_keys (ev_crypto E) ck), s), n1) \<and> same_node n n1 \<and>
     nd_fmp n1 = negotiated (ev_wire E) q (nd_fmp n) \<and> build_msg3 (ev_wire E) (hc_index c) s (m3 @ ct3) 512 = Ok f3 \<and>
     tx_sent (nd_tx n1) = tx_sent (nd_tx n) @ wire_data (nd_raw_framing n) f3 \<and>
     xx_final (ev_crypto E) (hc_epoch c) (neg_block (ev_wire E) (our_profile (nd_fmp n))) sa r3 m3 ct3 ck"
proof -
  let ?C = "ev_crypto E" and ?neg = "neg_block (ev_wire E) (our_profile (nd_fmp n))"
  obtain pb i2 i3 re pre where 2: "pubkey_prim ?C sb = Some pb" "pubkey_prim ?C re = Some pre" "length m2 = 106" "length ct = 26"
      "NoiseXxInitiator_read_message2 ?C m2 (hc_noise c) = (Ok (pb, ep), i2)"
      "NoiseXxInitiator_decrypt_payload ?C ct 64 i2 = (Ok (neg_block (ev_wire E) q), i3)" "xx_synced i3 r3" "xxi_re_pub i3 = Some pre"
      "xxi_s_priv i3 = sa" "xxr_e_priv r3 = Some re"
    using rep by (auto simp: xx_reply_def)
  obtain m3 i4 r4 where 4: "NoiseXxInitiator_write_message3 ?C (hc_my_pub c) (hc_epoch c) 153 i3 = (Ok m3, i4)" "length m3 = 73"
      "NoiseXxResponder_read_message3 ?C m3 r3 = (Ok (hc_my_pub c, hc_epoch c), r4)" "xx_synced i4 r4"
    using xx_message3 [OF C n(2) 2(2) ep _ 2(7-10), of 153] by auto
  obtain ct3 i5 r5 where 5: "NoiseXxInitiator_encrypt_payload ?C ?neg 80 i4 = (Ok ct3, i5)"
      "NoiseXxResponder_decrypt_payload ?C ct3 64 r4 = (Ok ?neg, r5)" "xx_synced i5 r5" "length ct3 = 26"
    using xx_payload_up [OF C 4(4), of ?neg 80 64] by auto
  obtain f3 where f3: "build_msg3 (ev_wire E) (hc_index c) s (m3 @ ct3) 512 = Ok f3" using 4(2) 5(4) by (simp add: build_msg_frames)
  have x: "take 32 (drop (Suc 0) pb) = tl pb" "take 32 (tl pb) = tl pb" using length_pubkey [OF C 2(1)] by (auto simp: drop_Suc)
  have "xx_initiator_msg2 E c s (m2 @ ct) n = (Ok (fst (split_keys ?C (sy_ck i5)), snd (split_keys ?C (sy_ck i5)), s),
      n\<lparr>nd_fmp := negotiated (ev_wire E) q (nd_fmp n), nd_tx := (nd_tx n)\<lparr>tx_sent := tx_sent (nd_tx n) @ wire_data (nd_raw_framing n) f3\<rparr>\<rparr>)"
    using n peer 2(1,3-6) 4(1,2) 5(1) f3 x vp
    by (simp add: xx_initiator_msg2_def Let_def split_msg2_noise_def split_handshake_noise_def xx_peer_negotiation_def step_simps
        negotiated_def NoiseXxInitiator_finalize_def split_beta)
  moreover have "xx_final ?C (hc_epoch c) ?neg sa r3 m3 ct3 (sy_ck i5)"
    unfolding xx_final_def using n(2) 4 5 by (auto simp: xx_synced_def)
  ultimately show ?thesis using f3 n(1) by (auto simp: same_node_def)
qed

lemma xx_msg3_Ok:
  assumes C: "crypto_ok (ev_crypto E)" and fin: "xx_final (ev_crypto E) ep (neg_block (ev_wire E) q) sa r3 m3 ct3 ck"
    and peer: "nd_peer_npub n = par # tl (the (pubkey_prim (ev_crypto E) sa))"
    and vp: "valid_pairing (our_profile (nd_fmp n)) q" and f3: "build_msg3 (ev_wire E) s' s'' (m3 @ ct3) cap = Ok f3"
  shows "xx_msg3_frame E (r3, s, f2) f3 n = (Ok (Some (snd (split_keys (ev_crypto E) ck), fst (split_keys (ev_crypto E) ck), s)),
     n\<lparr>nd_fmp := negotiated (ev_wire E) q (nd_fmp n)\<rparr>)"
proof -
  let ?C = "ev_crypto E"
  obtain pa r4 r5 where 3: "pubkey_prim ?C sa = Some pa" "length m3 = 73" "length ct3 = 26"
      "NoiseXxResponder_read_message3 ?C m3 r3 = (Ok (pa, ep), r4)"
      "NoiseXxResponder_decrypt_payload ?C ct3 64 r4 = (Ok (neg_block (ev_wire E) q), r5)" "sy_ck r5 = ck"
    using fin by (auto simp: xx_final_def)
  have x: "take 32 (drop (Suc 0) pa) = tl pa" "take 32 (tl pa) = tl pa" using length_pubkey [OF C 3(1)] by (auto simp: drop_Suc)
  show ?thesis
    using handshake_frames(3) [OF f3] 3 x peer vp
    by (simp add: xx_msg3_frame_def Let_def split_msg3_noise_def split_handshake_noise_def xx_peer_negotiation_def step_simps
        NoiseXxResponder_finalize_def split_beta)
qed

lemma xx_pair_frames:
  assumes C: "crypto_ok C" and E: "ev_crypto EA = C" "ev_crypto EB = C" "ev_wire EA = Wire_XX" "ev_wire EB = Wire_XX"
    and r: "ready EA A" "ready EB B" and p: "paired A C B" "paired B C A" and raw: "nd_raw_framing B = nd_raw_framing A"
    and less: "bytes_less (node_address C A) (node_address C B)" and ep: "length ea = 8" "length eb = 8"
    and vp: "valid_pairing (our_profile (nd_fmp A)) (our_profile (nd_fmp B))"
  obtains ca cb A1 B1 A2 B2 B3 a f2 f3 ck ia ib where
     "handshake_start EA ta ea (\<lambda>eph nsec _. NoiseXxInitiator_new C eph nsec) (\<lambda>_. NoiseXxInitiator_write_message1 C 256) A = (Ok ca, A1)"
     "handshake_start EB tb eb (\<lambda>eph nsec _. NoiseXxInitiator_new C eph nsec) (\<lambda>_. NoiseXxInitiator_write_message1 C 256) B = (Ok cb, B1)"
     "same_node A A1" "same_node B B1" "same_node B B2" "\<forall>f\<in>{hc_f1 ca, hc_f1 cb, f2, f3}. deliverable Wire_XX (nd_raw_framing A) f"
     "handshake_xx_frame EA ca (hc_f1 cb) A1 = (Ok None, A1)"
     "handshake_xx_frame EA ca f2 A1 = (Ok (Some (Inl (fst (split_keys C ck), snd (split_keys C ck), ib))), A2)"
     "handshake_xx_frame EB cb (hc_f1 ca) B1 = (Ok (Some (Inr a)), B2)"
     "xx_msg3_frame EB a f3 B2 = (Ok (Some (snd (split_keys C ck), fst (split_keys C ck), ia)), B3)"
     "tx_sent (nd_tx A2) = tx_sent (nd_tx A) @ wire_data (nd_raw_framing A) (hc_f1 ca) @ wire_data (nd_raw_framing A) f3"
     "tx_sent (nd_tx B3) = tx_sent (nd_tx B) @ wire_data (nd_raw_framing A) (hc_f1 cb) @ wire_data (nd_raw_framing A) f2"
     "nd_fmp A2 = negotiated Wire_XX (our_profile (nd_fmp B)) (nd_fmp A)" "nd_fmp B3 = negotiated Wire_XX (our_profile (nd_fmp A)) (nd_fmp B)"
proof -
  let ?raw = "nd_raw_framing A"
  obtain ca A1 ma where a: "handshake_start EA ta ea (\<lambda>eph nsec _. NoiseXxInitiator_new C eph nsec) (\<lambda>_. NoiseXxInitiator_write_message1 C 256) A = (Ok ca, A1)"
      "started EA ea A B A1 ca ma" "xx_offer C (nd_nsec A) (nd_nsec B) (hc_eph ca) (hc_noise ca) ma"
    using xx_start [of EA A B ta ea] C r p E by auto
  obtain cb B1 mb where b: "handshake_start EB tb eb (\<lambda>eph nsec _. NoiseXxInitiator_new C eph nsec) (\<lambda>_. NoiseXxInitiator_write_message1 C 256) B = (Ok cb, B1)"
      "started EB eb B A B1 cb mb" "xx_offer C (nd_nsec B) (nd_nsec A) (hc_eph cb) (hc_noise cb) mb"
    using xx_start [of EB B A tb eb] C r p E by auto
  have len: "length ma = 33" "length mb = 33" using a(3) b(3) length_pubkey [OF C] by (auto simp: xx_offer_def)
  have sa: "same_node A A1" "build_msg1 Wire_XX (hc_index ca) ma 256 = Ok (hc_f1 ca)" "tx_sent (nd_tx A1) = tx_sent (nd_tx A) @ wire_data ?raw (hc_f1 ca)"
      "bytes_less (hc_my_addr ca) (hc_peer_addr ca)" "hc_epoch ca = ea" "pubkey_prim C (nd_nsec A) = Some (hc_my_pub ca)" "nd_fmp A1 = nd_fmp A"
    using a(2) E less p(1) by (auto simp add: started_def paired_def)
  have sb: "same_node B B1" "build_msg1 Wire_XX (hc_index cb) mb 256 = Ok (hc_f1 cb)" "tx_sent (nd_tx B1) = tx_sent (nd_tx B) @ wire_data ?raw (hc_f1 cb)"
      "bytes_less (hc_peer_addr cb) (hc_my_addr cb)" "can_answer EB (hc_eph cb) B1" "hc_epoch cb = eb" "nd_fmp B1 = nd_fmp B"
    using b(2) E less raw by (simp_all add: started_def)
  let ?pA = "our_profile (nd_fmp A)" and ?pB = "our_profile (nd_fmp B)"
  obtain m2 ct r3 f2 idx B2 where ans: "xx_answer EB cb (hc_index ca) ma B1 = (Ok (r3, hc_index ca, f2), B2)" "same_node B1 B2" "nd_fmp B2 = nd_fmp B"
      "build_msg2 Wire_XX idx (hc_index ca) (m2 @ ct) 512 = Ok f2" "tx_sent (nd_tx B2) = tx_sent (nd_tx B1) @ wire_data ?raw f2"
      "xx_reply C eb (neg_block Wire_XX ?pB) (nd_nsec A) (nd_nsec B) (hc_noise ca) r3 m2 ct"
    using xx_answer_Ok [of EB B1 "nd_nsec A" "hc_eph ca" "hc_noise ca" ma cb "hc_index ca"] a(3) sb C E ep raw
    by (auto simp: same_node_def)
  obtain par where pa: "nd_peer_npub A1 = par # tl (the (pubkey_prim C (nd_nsec B)))" using p(1) sa(1) by (auto simp: paired_def same_node_def)
  obtain par' where pb: "nd_peer_npub B2 = par' # tl (the (pubkey_prim C (nd_nsec A)))" using p(2) sb(1) ans(2) by (auto simp: paired_def same_node_def)
  obtain ck m3 ct3 f3 A2 where fin: "xx_initiator_msg2 EA ca idx (m2 @ ct) A1 = (Ok (fst (split_keys C ck), snd (split_keys C ck), idx), A2)"
      "same_node A1 A2" "nd_fmp A2 = negotiated Wire_XX ?pB (nd_fmp A)" "build_msg3 Wire_XX (hc_index ca) idx (m3 @ ct3) 512 = Ok f3"
      "tx_sent (nd_tx A2) = tx_sent (nd_tx A1) @ wire_data ?raw f3" "xx_final C ea (neg_block Wire_XX ?pA) (nd_nsec A) r3 m3 ct3 ck"
    using xx_initiator_msg2_Ok [of EA A1 "nd_nsec A" ca par "nd_nsec B" eb ?pB r3 m2 ct idx] C E sa ans(6) pa vp ep
    by (auto simp: same_node_def)
  have B3: "xx_msg3_frame EB (r3, hc_index ca, f2) f3 B2 = (Ok (Some (snd (split_keys C ck), fst (split_keys C ck), hc_index ca)),
      B2\<lparr>nd_fmp := negotiated Wire_XX ?pA (nd_fmp B)\<rparr>)"
    using xx_msg3_Ok [of EB ea ?pA "nd_nsec A" r3 m3 ct3 ck B2 par' "hc_index ca" idx 512 f3 "hc_index ca" f2] C E fin(4,6) pb ans(3) vp
    by (simp add: valid_pairing_def disj_commute)
  have lens: "length (m2 @ ct) = 132" "length (m3 @ ct3) = 99" using ans(6) fin(6) by (auto simp: xx_reply_def xx_final_def)
  have dl: "deliverable Wire_XX ?raw (hc_f1 ca)" "deliverable Wire_XX ?raw (hc_f1 cb)" "deliverable Wire_XX ?raw f2" "deliverable Wire_XX ?raw f3"
    using handshake_deliverable [OF C] sa(2) sb(2) ans(4) fin(4) len lens
    by (force simp: HANDSHAKE_MSG1_SIZE_def HANDSHAKE_MSG2_SIZE_def HANDSHAKE_MSG3_SIZE_def)+
  have fA: "handshake_xx_frame EA ca (hc_f1 cb) A1 = (Ok None, A1)"
      "handshake_xx_frame EA ca f2 A1 = (Ok (Some (Inl (fst (split_keys C ck), snd (split_keys C ck), idx))), A2)"
    using handshake_frames(1) [OF sb(2)] handshake_frames(2) [OF ans(4)] fin(1) E competing_ignored [OF sa(4), of A1] r(1) sa(1)
    by (simp_all add: handshake_xx_frame_def step_simps ready_def same_node_def)
  have fB: "handshake_xx_frame EB cb (hc_f1 ca) B1 = (Ok (Some (Inr (r3, hc_index ca, f2))), B2)"
    using handshake_frames(1) [OF sa(2)] ans(1) E
      competing_answered [OF sb(4), of "bindm (xx_answer EB cb (hc_index ca) ma) (\<lambda>a. retm (Some (Inr a)))" B1]
    by (simp add: handshake_xx_frame_def step_simps)
  have s2: "same_node B B2" using sb(1) ans(2) by (simp add: same_node_def)
  show ?thesis
    by (rule that [OF a(1) b(1) sa(1) sb(1) s2 _ fA fB B3]) (use dl sa(3) sb(3) ans(5) fin(3,5) in simp_all)
qed

lemma resent_funpow: "tx_sent (nd_tx ((resent f ^^ k) n)) = tx_sent (nd_tx n) @ concat (replicate k (wire_data (nd_raw_framing n) f))
    \<and> nd_raw_framing ((resent f ^^ k) n) = nd_raw_framing n"
proof (induction k)
  case (Suc k)
  have "concat (replicate k w) @ w = concat (replicate (Suc k) w)" for w :: "bytes list"
    by (induction k) simp_all
  then show ?case using Suc by (simp add: resent_def del: replicate_Suc)
qed simp

lemma holds_fresh: "holds_rx v raw (fresh_rx []) []"
  using wire_data_holds [of "[]" v raw] by simp

lemma handshake_silence:
  assumes "started E epoch n B n1 c m" "ready E n"
  shows "\<exists>x' n'. frame_loop v (nd_raw_framing n1) (handshake_max_resends (nd_timing n1)) r g (resend_msg1 c) 0 (fresh_rx []) n1 = (Err Timeout, x', n') \<and>
     tx_sent (nd_tx n') = tx_sent (nd_tx n) @ concat (replicate (handshake_max_resends (nd_timing n) + 1) (wire_data (nd_raw_framing n) (hc_f1 c)))"
proof -
  let ?I = "\<lambda>n. tx_up (nd_tx n) = [] \<and> \<not> nd_peer_sent_first n" and ?k = "handshake_max_resends (nd_timing n)"
  have s: "same_node n n1" "tx_sent (nd_tx n1) = tx_sent (nd_tx n) @ wire_data (nd_raw_framing n) (hc_f1 c)"
    using assms(1) by (simp_all add: started_def)
  have I: "?I n1" using s(1) assms(2) by (simp add: same_node_def ready_def)
  have step: "resend_msg1 c n' = (Ok (), resent (hc_f1 c) n') \<and> ?I (resent (hc_f1 c) n')" if "?I n'" for n' :: "('a, 'b) node_scheme"
    using that by (simp add: resend_msg1_def step_simps node_send_frame_up resent_def)
  obtain x' where "frame_loop v (nd_raw_framing n1) (handshake_max_resends (nd_timing n1)) r g (resend_msg1 c) 0 (fresh_rx []) n1 =
      (Err Timeout, x', (resent (hc_f1 c) ^^ handshake_max_resends (nd_timing n1)) n1)"
    using frame_loop_silence [where I = ?I and h = "resend_msg1 c" and step = "resent (hc_f1 c)" and c = 0 and reset = r and g = g,
        OF holds_fresh step I, of "handshake_max_resends (nd_timing n1)"] by auto
  then show ?thesis using s resent_funpow [of ?k "hc_f1 c" n1] by (simp add: same_node_def)
qed

lemma sample_ready:
  "ready (sample_env v) (sample_node 1 2 p)" "ready (sample_env v) (sample_node 2 1 p)"
  by (simp_all add: ready_def can_draw_def sample_node_def set_node_profile_def Node_new_def Node_with_timing_def eph_valid_iff
      sample_env_def sample_crypto_def fresh_transport_def)

lemma sample_paired:
  "paired (sample_node 1 2 p) sample_crypto (sample_node 2 1 q)" "paired (sample_node 2 1 q) sample_crypto (sample_node 1 2 p)"
  by (simp_all add: paired_def sample_node_def set_node_profile_def Node_new_def Node_with_timing_def sample_crypto_def)

lemma sample_less: "bytes_less (node_address sample_crypto (sample_node 1 2 p)) (node_address sample_crypto (sample_node 2 1 q))"
  by (simp add: node_address_def sample_node_def set_node_profile_def Node_new_def Node_with_timing_def sample_crypto_def
      NodeAddr_from_pubkey_x_def numeral_eq_Suc)

lemma sample_env_simps [simp]: "ev_crypto (sample_env v) = sample_crypto" "ev_wire (sample_env v) = v"
  by (simp_all add: sample_env_def)

lemma sample_node_simps [simp]: "nd_raw_framing (sample_node a b p) = False" "our_profile (nd_fmp (sample_node a b p)) = p"
  by (simp_all add: sample_node_def set_node_profile_def Node_new_def Node_with_timing_def)

section \<open>Properties\<close>

text \<open>C3. Two IK nodes that start at the same time agree.  Each node sends its Msg1 and receives
  everything the other sends, in either framing: the node with the lower address ignores the other's
  Msg1 and completes with the Msg2 it gets, the other one answers; both handshakes return, with the
  same two 32-byte keys in opposite roles.\<close>

theorem ik_nodes_agree:
  assumes C: "crypto_ok C" and E: "ev_crypto EA = C" "ev_crypto EB = C" "ev_wire EA = Wire_IK" "ev_wire EB = Wire_IK"
    and r: "ready EA A" "ready EB B" and p: "paired A C B" "paired B C A" and raw: "nd_raw_framing B = nd_raw_framing A"
    and less: "bytes_less (node_address C A) (node_address C B)" and ep: "length ea = 8" "length eb = 8"
  shows "\<exists>k1 k2 ia ib sa sb xa xb A' B'. length k1 = 32 \<and> length k2 = 32 \<and>
     handshake EA ta ea (fresh_rx (map Rx sb)) A = (Ok (k1, k2, ib), xa, A') \<and> tx_sent (nd_tx A') = tx_sent (nd_tx A) @ sa \<and>
     handshake EB tb eb (fresh_rx (map Rx sa)) B = (Ok (k2, k1, ia), xb, B') \<and> tx_sent (nd_tx B') = tx_sent (nd_tx B) @ sb"
proof -
  let ?raw = "nd_raw_framing A"
  obtain ca A1 ma where a: "handshake_start EA ta ea (NoiseIkInitiator_new C) (\<lambda>my_pub. NoiseIkInitiator_write_message1 C my_pub ea 256) A = (Ok ca, A1)"
      "started EA ea A B A1 ca ma" "ik_offer C ea (nd_nsec A) (nd_nsec B) (hc_eph ca) (hc_noise ca) ma"
    using ik_start [of EA A B ea ta] C r p ep E by auto
  obtain cb B1 mb where b: "handshake_start EB tb eb (NoiseIkInitiator_new C) (\<lambda>my_pub. NoiseIkInitiator_write_message1 C my_pub eb 256) B = (Ok cb, B1)"
      "started EB eb B A B1 cb mb" "length mb = 106"
    using ik_start [of EB B A eb tb] C r p ep E by (auto simp: ik_offer_def)
  have la: "length ma = 106" using a(3) by (auto simp: ik_offer_def)
  have sa: "same_node A A1" "build_msg1 Wire_IK (hc_index ca) ma 256 = Ok (hc_f1 ca)" "tx_sent (nd_tx A1) = tx_sent (nd_tx A) @ wire_data ?raw (hc_f1 ca)"
      "bytes_less (hc_my_addr ca) (hc_peer_addr ca)"
    using a(2) E less by (simp_all add: started_def)
  have sb: "same_node B B1" "build_msg1 Wire_IK (hc_index cb) mb 256 = Ok (hc_f1 cb)" "tx_sent (nd_tx B1) = tx_sent (nd_tx B) @ wire_data ?raw (hc_f1 cb)"
      "bytes_less (hc_peer_addr cb) (hc_my_addr cb)" "can_answer EB (hc_eph cb) B1" "hc_epoch cb = eb"
    using b(2) E less raw by (simp_all add: started_def)
  obtain par where "nd_peer_npub B1 = par # tl (the (pubkey_prim C (nd_nsec A)))" using p(2) sb(1) by (auto simp: paired_def same_node_def)
  then obtain m2 i2 f2 idx B2 where ans: "ik_answer EB cb (hc_index ca) ma B1 =
        (Ok (Some (snd (split_keys C (sy_ck i2)), fst (split_keys C (sy_ck i2)), hc_index ca)), B2)"
      "NoiseIkInitiator_read_message2 C m2 (hc_noise ca) = (Ok eb, i2)" "length m2 = 57" "build_msg2 Wire_IK idx (hc_index ca) m2 256 = Ok f2"
      "tx_sent (nd_tx B2) = tx_sent (nd_tx B1) @ wire_data ?raw f2"
    using ik_answer_Ok [of EB B1 par "nd_nsec A" ea "hc_eph ca" "hc_noise ca" ma cb "hc_index ca"] a(3) sb C E ep raw
    by (auto simp: same_node_def)
  have dl: "deliverable Wire_IK ?raw (hc_f1 ca)" "deliverable Wire_IK ?raw (hc_f1 cb)" "deliverable Wire_IK ?raw f2"
    using handshake_deliverable [OF C] sa(2) sb(2) ans(4) la b(3) ans(3) by (auto simp: HANDSHAKE_MSG1_SIZE_def HANDSHAKE_MSG2_SIZE_def)
  have A_frames: "handshake_ik_frame EA ca (hc_f1 cb) A1 = (Ok None, A1)"
      "handshake_ik_frame EA ca f2 A1 = (Ok (Some (fst (split_keys C (sy_ck i2)), snd (split_keys C (sy_ck i2)), idx)), A1)"
    using handshake_frames(1) [OF sb(2)] handshake_frames(2) [OF ans(4)] ans(2) E competing_ignored [OF sa(4), of A1] r(1) sa(1)
    by (simp_all add: handshake_ik_frame_def step_simps NoiseIkInitiator_finalize_def split_beta ready_def same_node_def)
  have B_frames: "handshake_ik_frame EB cb (hc_f1 ca) B1 = (Ok (Some (snd (split_keys C (sy_ck i2)), fst (split_keys C (sy_ck i2)), hc_index ca)), B2)"
    using handshake_frames(1) [OF sa(2)] ans(1) E competing_answered [OF sb(4), of "ik_answer EB cb (hc_index ca) ma" B1]
    by (simp add: handshake_ik_frame_def step_simps)
  define sA where "sA = concat (map (wire_data ?raw) [hc_f1 ca])"
  define sB where "sB = concat (map (wire_data ?raw) [hc_f1 cb, f2])"
  have h: "holds_rx Wire_IK ?raw (fresh_rx (map Rx sB)) [hc_f1 cb, f2]" "holds_rx Wire_IK ?raw (fresh_rx (map Rx sA)) [hc_f1 ca]"
    unfolding sA_def sB_def by (rule wire_data_holds, use dl in simp)+
  obtain xa where "handshake EA ta ea (fresh_rx (map Rx sB)) A = (Ok (fst (split_keys C (sy_ck i2)), snd (split_keys C (sy_ck i2)), idx), xa, A1)"
    using frame_loop_two [where g = "handshake_ik_frame EA ca" and n = A1 and ?n1.0 = A1, OF h(1) A_frames,
        of "handshake_max_resends (nd_timing A1)" True "resend_msg1 ca" 0] a(1) sa(1) E
    by (auto simp: handshake_def handshake_ik_def same_node_def)
  moreover obtain xb where "handshake EB tb eb (fresh_rx (map Rx sA)) B = (Ok (snd (split_keys C (sy_ck i2)), fst (split_keys C (sy_ck i2)), hc_index ca), xb, B2)"
    using frame_loop_done [where g = "handshake_ik_frame EB cb" and n = B1, OF h(2) B_frames,
        of "handshake_max_resends (nd_timing B1)" True "resend_msg1 cb" 0] b(1) sb(1) E raw
    by (auto simp: handshake_def handshake_ik_def same_node_def)
  moreover have "tx_sent (nd_tx A1) = tx_sent (nd_tx A) @ sA" "tx_sent (nd_tx B2) = tx_sent (nd_tx B) @ sB"
    using sa(3) sb(3) ans(5) by (simp_all add: sA_def sB_def)
  moreover have "length (fst (split_keys C (sy_ck i2))) = 32" "length (snd (split_keys C (sy_ck i2))) = 32" using C by simp_all
  ultimately show ?thesis by blast
qed

text \<open>C10. Two XX nodes that start at the same time agree, with the negotiation in both directions: if
  one of the profiles is Full, both handshakes return the same two keys in opposite roles, and each
  node has recorded the profile the other one advertises.\<close>

theorem xx_nodes_agree:
  assumes C: "crypto_ok C" and E: "ev_crypto EA = C" "ev_crypto EB = C" "ev_wire EA = Wire_XX" "ev_wire EB = Wire_XX"
    and r: "ready EA A" "ready EB B" and p: "paired A C B" "paired B C A" and raw: "nd_raw_framing B = nd_raw_framing A"
    and less: "bytes_less (node_address C A) (node_address C B)" and ep: "length ea = 8" "length eb = 8"
    and vp: "valid_pairing (our_profile (nd_fmp A)) (our_profile (nd_fmp B))"
  shows "\<exists>k1 k2 ia ib sa sb xa xb A' B'. length k1 = 32 \<and> length k2 = 32 \<and>
     handshake EA ta ea (fresh_rx (map Rx sb)) A = (Ok (k1, k2, ib), xa, A') \<and> tx_sent (nd_tx A') = tx_sent (nd_tx A) @ sa \<and>
     handshake EB tb eb (fresh_rx (map Rx sa)) B = (Ok (k2, k1, ia), xb, B') \<and> tx_sent (nd_tx B') = tx_sent (nd_tx B) @ sb \<and>
     peer_profile (nd_fmp A') = Some (our_profile (nd_fmp B)) \<and> peer_profile (nd_fmp B') = Some (our_profile (nd_fmp A))"
proof -
  let ?raw = "nd_raw_framing A" and ?k1 = "\<lambda>ck. fst (split_keys C ck)" and ?k2 = "\<lambda>ck. snd (split_keys C ck)"
  obtain ca cb A1 B1 A2 B2 B3 a f2 f3 ck ia ib where x:
     "handshake_start EA ta ea (\<lambda>eph nsec _. NoiseXxInitiator_new C eph nsec) (\<lambda>_. NoiseXxInitiator_write_message1 C 256) A = (Ok ca, A1)"
     "handshake_start EB tb eb (\<lambda>eph nsec _. NoiseXxInitiator_new C eph nsec) (\<lambda>_. NoiseXxInitiator_write_message1 C 256) B = (Ok cb, B1)"
     "same_node A A1" "same_node B B1" "same_node B B2" "\<forall>f\<in>{hc_f1 ca, hc_f1 cb, f2, f3}. deliverable Wire_XX ?raw f"
     "handshake_xx_frame EA ca (hc_f1 cb) A1 = (Ok None, A1)"
     "handshake_xx_frame EA ca f2 A1 = (Ok (Some (Inl (?k1 ck, ?k2 ck, ib))), A2)"
     "handshake_xx_frame EB cb (hc_f1 ca) B1 = (Ok (Some (Inr a)), B2)" "xx_msg3_frame EB a f3 B2 = (Ok (Some (?k2 ck, ?k1 ck, ia)), B3)"
     "tx_sent (nd_tx A2) = tx_sent (nd_tx A) @ wire_data ?raw (hc_f1 ca) @ wire_data ?raw f3"
     "tx_sent (nd_tx B3) = tx_sent (nd_tx B) @ wire_data ?raw (hc_f1 cb) @ wire_data ?raw f2"
     "nd_fmp A2 = negotiated Wire_XX (our_profile (nd_fmp B)) (nd_fmp A)" "nd_fmp B3 = negotiated Wire_XX (our_profile (nd_fmp A)) (nd_fmp B)"
    by (rule xx_pair_frames [OF assms])
  define sA where "sA = concat (map (wire_data ?raw) [hc_f1 ca, f3])"
  define sB where "sB = concat (map (wire_data ?raw) [hc_f1 cb, f2])"
  have h: "holds_rx Wire_XX ?raw (fresh_rx (map Rx sB)) [hc_f1 cb, f2]" "holds_rx Wire_XX ?raw (fresh_rx (map Rx sA)) [hc_f1 ca, f3]"
    unfolding sA_def sB_def by (rule wire_data_holds, use x(6) in simp)+
  obtain xa where "handshake EA ta ea (fresh_rx (map Rx sB)) A = (Ok (?k1 ck, ?k2 ck, ib), xa, A2)"
    using frame_loop_two [where g = "handshake_xx_frame EA ca" and n = A1 and ?n1.0 = A1, OF h(1) x(7,8),
        of "handshake_max_resends (nd_timing A1)" True "resend_msg1 ca" 0] x(1,3) E
    by (auto simp: handshake_def handshake_xx_def same_node_def)
  moreover obtain x1 where x1: "holds_rx Wire_XX ?raw x1 [f3]"
      "frame_loop Wire_XX ?raw (handshake_max_resends (nd_timing B1)) True (handshake_xx_frame EB cb) (resend_msg1 cb) 0 (fresh_rx (map Rx sA)) B1
        = (Ok (Inr a), x1, B2)"
    using frame_loop_done [where g = "handshake_xx_frame EB cb" and n = B1, OF h(2) x(9),
        of "handshake_max_resends (nd_timing B1)" True "resend_msg1 cb" 0] by blast
  obtain xb where "handshake EB tb eb (fresh_rx (map Rx sA)) B = (Ok (?k2 ck, ?k1 ck, ia), xb, B3)"
    using frame_loop_done [where g = "xx_msg3_frame EB a" and n = B2, OF x1(1) x(10),
        of "handshake_max_resends (nd_timing B2)" False "resend_msg2 a" 0] x1(2) x(2,4,5) E raw
    by (auto simp: handshake_def handshake_xx_def same_node_def)
  moreover have "tx_sent (nd_tx A2) = tx_sent (nd_tx A) @ sA" "tx_sent (nd_tx B3) = tx_sent (nd_tx B) @ sB"
    using x(11,12) by (simp_all add: sA_def sB_def)
  moreover have "length (?k1 ck) = 32" "length (?k2 ck) = 32" using C by simp_all
  moreover have "peer_profile (nd_fmp A2) = Some (our_profile (nd_fmp B))" "peer_profile (nd_fmp B3) = Some (our_profile (nd_fmp A))"
    using x(13,14) by (simp_all add: negotiated_def)
  ultimately show ?thesis by blast
qed

text \<open>C21. On a silent transport a handshake of either pattern ends: it returns the timeout error after
  it has sent the same Msg1 frame once and then once more for each of the configured resends.\<close>

theorem handshake_gives_up:
  assumes "crypto_ok (ev_crypto E)" "ready E n" "paired n (ev_crypto E) B" "length epoch = 8"
  shows "\<exists>f i m x' n'. handshake E now epoch (fresh_rx []) n = (Err Timeout, x', n') \<and> parse_message (ev_wire E) f = Ok (Msg1 i m) \<and>
     tx_sent (nd_tx n') = tx_sent (nd_tx n) @
       concat (replicate (handshake_max_resends (nd_timing n) + 1) (wire_data (nd_raw_framing n) f))"
proof (cases "ev_wire E")
  case Wire_IK
  obtain c n1 m where s: "handshake_start E now epoch (NoiseIkInitiator_new (ev_crypto E))
      (\<lambda>my_pub. NoiseIkInitiator_write_message1 (ev_crypto E) my_pub epoch 256) n = (Ok c, n1)" "started E epoch n B n1 c m"
    using ik_start [OF assms] by blast
  then have "parse_message (ev_wire E) (hc_f1 c) = Ok (Msg1 (hc_index c) m)" using handshake_frames(1) by (fastforce simp: started_def)
  then show ?thesis using handshake_silence [OF s(2) assms(2), of Wire_IK True "handshake_ik_frame E c"] s(1) Wire_IK
    by (fastforce simp: handshake_def handshake_ik_def)
next
  case Wire_XX
  obtain c n1 m where s: "handshake_start E now epoch (\<lambda>eph nsec _. NoiseXxInitiator_new (ev_crypto E) eph nsec)
      (\<lambda>_. NoiseXxInitiator_write_message1 (ev_crypto E) 256) n = (Ok c, n1)" "started E epoch n B n1 c m"
    using xx_start [OF assms(1-3)] by blast
  then have "parse_message (ev_wire E) (hc_f1 c) = Ok (Msg1 (hc_index c) m)" using handshake_frames(1) by (fastforce simp: started_def)
  then show ?thesis using handshake_silence [OF s(2) assms(2), of Wire_XX True "handshake_xx_frame E c"] s(1) Wire_XX
    by (fastforce simp: handshake_def handshake_xx_def)
qed

text \<open>C37. A Msg1 frame whose Noise part is shorter than a public key panics an IK node that is the one
  to answer: the slice of the ephemeral key is taken before any length check.  The frame needs no key
  and arrives in the length-prefixed framing.\<close>

theorem ik_short_msg1_panics:
  assumes "crypto_ok (ev_crypto E)" "ev_wire E = Wire_IK" "ready E n" "paired n (ev_crypto E) B" "length epoch = 8" "\<not> nd_raw_framing n"
    "bytes_less (node_address (ev_crypto E) B) (node_address (ev_crypto E) n)" "length np < 33" "build_msg1 Wire_IK s np 64 = Ok f"
  shows "\<exists>x' n'. handshake E now epoch (fresh_rx [Rx (le16 (of_nat (length f))), Rx f]) n = (Panic, x', n')"
proof -
  obtain c n1 m where s: "handshake_start E now epoch (NoiseIkInitiator_new (ev_crypto E))
      (\<lambda>my_pub. NoiseIkInitiator_write_message1 (ev_crypto E) my_pub epoch 256) n = (Ok c, n1)" "started E epoch n B n1 c m"
    using ik_start [OF assms(1,3-5)] by blast
  have f: "parse_message Wire_IK f = Ok (Msg1 s np)" "length f = 8 + length np" using handshake_frames(1) [OF assms(9)] by auto
  have "ik_answer E c s np n1 = (Panic, n1)" using assms(8) by (simp add: ik_answer_def step_simps slice_def)
  moreover have "bytes_less (hc_peer_addr c) (hc_my_addr c)" using s(2) assms(7) by (simp add: started_def)
  ultimately have p: "handshake_ik_frame E c f n1 = (Panic, n1)"
    using f(1) assms(2) competing_answered [of c "ik_answer E c s np" n1] by (simp add: handshake_ik_frame_def step_simps)
  have "deliverable Wire_IK False f" using f(2) assms(8) by (auto simp: deliverable_def)
  then have h: "holds_rx Wire_IK False (fresh_rx [Rx (le16 (of_nat (length f))), Rx f]) [f]"
    using wire_data_holds [of "[f]" Wire_IK False] by (simp add: wire_data_def)
  have raw: "\<not> nd_raw_framing n1" using s(2) assms(6) by (simp add: started_def same_node_def)
  show ?thesis
    by (rule frame_loop_next [OF h, of "handshake_max_resends (nd_timing n1)" True "handshake_ik_frame E c" "resend_msg1 c" 0 n1])
      (use p s(1) raw assms(2) in \<open>simp add: handshake_def handshake_ik_def\<close>)
qed

theorem ik_nodes_agree_witness:
  "\<exists>k1 k2 ia ib sa sb xa xb A' B'. length k1 = 32 \<and> length k2 = 32 \<and>
     handshake (sample_env Wire_IK) 0 (replicate 8 1) (fresh_rx (map Rx sb)) (sample_node 1 2 Leaf) = (Ok (k1, k2, ib), xa, A') \<and>
     tx_sent (nd_tx A') = tx_sent (nd_tx (sample_node 1 2 Leaf)) @ sa \<and>
     handshake (sample_env Wire_IK) 0 (replicate 8 2) (fresh_rx (map Rx sa)) (sample_node 2 1 Leaf) = (Ok (k2, k1, ia), xb, B') \<and>
     tx_sent (nd_tx B') = tx_sent (nd_tx (sample_node 2 1 Leaf)) @ sb"
  by (rule ik_nodes_agree [OF sample_crypto_ok _ _ _ _ sample_ready sample_paired _ sample_less]) simp_all

theorem xx_nodes_agree_witness:
  "\<exists>k1 k2 ia ib sa sb xa xb A' B'. length k1 = 32 \<and> length k2 = 32 \<and>
     handshake (sample_env Wire_XX) 0 (replicate 8 1) (fresh_rx (map Rx sb)) (sample_node 1 2 Leaf) = (Ok (k1, k2, ib), xa, A') \<and>
     tx_sent (nd_tx A') = tx_sent (nd_tx (sample_node 1 2 Leaf)) @ sa \<and>
     handshake (sample_env Wire_XX) 0 (replicate 8 2) (fresh_rx (map Rx sa)) (sample_node 2 1 Full) = (Ok (k2, k1, ia), xb, B') \<and>
     tx_sent (nd_tx B') = tx_sent (nd_tx (sample_node 2 1 Full)) @ sb \<and>
     peer_profile (nd_fmp A') = Some (our_profile (nd_fmp (sample_node 2 1 Full))) \<and>
     peer_profile (nd_fmp B') = Some (our_profile (nd_fmp (sample_node 1 2 Leaf)))"
  by (rule xx_nodes_agree [OF sample_crypto_ok _ _ _ _ sample_ready sample_paired _ sample_less]) (simp_all add: valid_pairing_def)

theorem handshake_gives_up_witness:
  "\<exists>f i m x' n'. handshake (sample_env Wire_XX) 0 (replicate 8 1) (fresh_rx []) (sample_node 1 2 Leaf) = (Err Timeout, x', n') \<and>
     parse_message Wire_XX f = Ok (Msg1 i m) \<and>
     tx_sent (nd_tx n') = tx_sent (nd_tx (sample_node 1 2 Leaf)) @
       concat (replicate (handshake_max_resends (nd_timing (sample_node 1 2 Leaf)) + 1) (wire_data (nd_raw_framing (sample_node 1 2 Leaf)) f))"
  using handshake_gives_up [of "sample_env Wire_XX" "sample_node 1 2 Leaf" "sample_node 2 1 Leaf" "replicate 8 1" 0]
    sample_ready(1) sample_paired(1) [of Leaf Leaf] by (simp add: sample_crypto_ok)

theorem ik_short_msg1_panics_witness:
  "\<exists>x' n'. handshake (sample_env Wire_IK) 0 (replicate 8 1)
     (fresh_rx [Rx (le16 (of_nat (length (build_prefix Wire_IK 1 0 7 @ le32 5 @ [1, 2, 3])))), Rx (build_prefix Wire_IK 1 0 7 @ le32 5 @ [1, 2, 3])])
     (sample_node 2 1 Leaf) = (Panic, x', n')"
proof -
  have "build_msg1 Wire_IK 5 [1, 2, 3] 64 = Ok (build_prefix Wire_IK 1 0 7 @ le32 5 @ [1, 2, 3])" by (simp add: build_msg1_def)
  then show ?thesis
    using ik_short_msg1_panics [of "sample_env Wire_IK" "sample_node 2 1 Leaf" "sample_node 1 2 Leaf" "replicate 8 1" "[1, 2, 3]" 5 _ 0]
      sample_ready(2) sample_paired(2) [of Leaf Leaf] sample_less [of Leaf Leaf] by (simp add: sample_crypto_ok)
qed

end
