(* ===== verification/NoiseXK.thy ===== *)
theory NoiseXK
  imports NoiseCore
begin

text \<open>
  The session handshake \<^verbatim>\<open>Noise_XK\<close>: \<^verbatim>\<open>NoiseXkInitiator\<close> and \<^verbatim>\<open>NoiseXkResponder\<close> of
  crates/fips-noise/src/lib.rs, and the agreement of one exchange.
\<close>

record xk_initiator = sym_state +
  xki_e_priv :: bytes
  xki_e_pub :: bytes
  xki_s_priv :: bytes
  xki_rs_pub :: bytes
  xki_re_pub :: "bytes option"

definition NoiseXkInitiator_new :: "crypto \<Rightarrow> bytes \<Rightarrow> bytes \<Rightarrow> bytes \<Rightarrow> (xk_initiator \<times> bytes, noise_error) res" where
  "NoiseXkInitiator_new C my_ephemeral_secret my_static_secret responder_static_pub =
     bind_res (ecdh_pubkey C my_ephemeral_secret) (\<lambda>e_pub.
     let h0 = hash_one C PROTOCOL_NAME_XK;
         normalized_rs = parity_normalize responder_static_pub;
         h1 = mix_hash C h0 normalized_rs
     in Ok (\<lparr>sy_h = h1, sy_ck = h0, sy_k = None, sy_n = 0, xki_e_priv = my_ephemeral_secret,
             xki_e_pub = e_pub, xki_s_priv = my_static_secret, xki_rs_pub = responder_static_pub,
             xki_re_pub = None\<rparr>, e_pub))"

definition NoiseXkInitiator_write_message1 :: "crypto \<Rightarrow> nat \<Rightarrow> (xk_initiator, bytes) step" where
  "NoiseXkInitiator_write_message1 C cap =
     bindm (guardm (cap < PUBKEY_SIZE) BufferTooSmall) (\<lambda>_.
     bindm (getm xki_e_pub) (\<lambda>e_pub.
     bindm (mixh C e_pub) (\<lambda>_.
     bindm (getm xki_e_priv) (\<lambda>e_priv. bindm (getm xki_rs_pub) (\<lambda>rs_pub.
     bindm (liftm (x_only_ecdh C e_priv rs_pub)) (\<lambda>dh.
     bindm (mixk C dh) (\<lambda>_.
       retm e_pub)))))))"

definition NoiseXkInitiator_read_message2 :: "crypto \<Rightarrow> bytes \<Rightarrow> (xk_initiator, bytes) step" where
  "NoiseXkInitiator_read_message2 C payload =
     bindm (guardm (length payload \<noteq> PUBKEY_SIZE + EPOCH_SIZE + TAG_SIZE) InvalidMessage) (\<lambda>_.
     bindm (slicem payload 0 PUBKEY_SIZE) (\<lambda>re_pub.
     bindm (modm (\<lambda>s. s\<lparr>xki_re_pub := Some re_pub\<rparr>)) (\<lambda>_.
     bindm (mixh C re_pub) (\<lambda>_.
     bindm (getm xki_e_priv) (\<lambda>e_priv.
     bindm (liftm (x_only_ecdh C e_priv re_pub)) (\<lambda>ee.
     bindm (mixk C ee) (\<lambda>_.
     bindm (liftm (slice_from payload PUBKEY_SIZE)) (\<lambda>enc_epoch.
       decm C enc_epoch EPOCH_SIZE))))))))"

definition NoiseXkInitiator_write_message3 :: "crypto \<Rightarrow> bytes \<Rightarrow> bytes \<Rightarrow> nat \<Rightarrow> (xk_initiator, bytes) step" where
  "NoiseXkInitiator_write_message3 C my_static_pub epoch cap =
     bindm (guardm (cap < (PUBKEY_SIZE + TAG_SIZE) + (EPOCH_SIZE + TAG_SIZE)) BufferTooSmall) (\<lambda>_.
     bindm (encm C my_static_pub cap) (\<lambda>enc_s.
     bindm (getm xki_re_pub) (\<lambda>re. bindm (liftm (unwrap re)) (\<lambda>re_pub.
     bindm (getm xki_s_priv) (\<lambda>s_priv.
     bindm (liftm (x_only_ecdh C s_priv re_pub)) (\<lambda>se.
     bindm (mixk C se) (\<lambda>_.
     bindm (encm C epoch (cap - length enc_s)) (\<lambda>enc_epoch.
       retm (enc_s @ enc_epoch)))))))))"

definition NoiseXkInitiator_finalize :: "crypto \<Rightarrow> xk_initiator \<Rightarrow> key_pair" where
  "NoiseXkInitiator_finalize C s = split_keys C (sy_ck s)"

record xk_responder = sym_state +
  xkr_ei_pub :: bytes
  xkr_e_priv :: "bytes option"

definition NoiseXkResponder_new :: "crypto \<Rightarrow> bytes \<Rightarrow> bytes \<Rightarrow> (xk_responder, noise_error) res" where
  "NoiseXkResponder_new C responder_static_secret initiator_ephemeral_pub =
     (let h0 = hash_one C PROTOCOL_NAME_XK in
      bind_res (ecdh_pubkey C responder_static_secret) (\<lambda>s_pub.
      let normalized_s = parity_normalize s_pub;
          h1 = mix_hash C h0 normalized_s;
          h2 = mix_hash C h1 initiator_ephemeral_pub
      in bind_res (x_only_ecdh C responder_static_secret initiator_ephemeral_pub) (\<lambda>es.
         let (ck, k) = mix_key C h0 es
         in Ok \<lparr>sy_h = h2, sy_ck = ck, sy_k = Some k, sy_n = 0,
                xkr_ei_pub = initiator_ephemeral_pub, xkr_e_priv = None\<rparr>)))"

definition NoiseXkResponder_write_message2 :: "crypto \<Rightarrow> bytes \<Rightarrow> bytes \<Rightarrow> nat \<Rightarrow> (xk_responder, bytes) step" where
  "NoiseXkResponder_write_message2 C responder_ephemeral_secret epoch cap =
     bindm (guardm (cap < PUBKEY_SIZE + EPOCH_SIZE + TAG_SIZE) BufferTooSmall) (\<lambda>_.
     bindm (modm (\<lambda>s. s\<lparr>xkr_e_priv := Some responder_ephemeral_secret\<rparr>)) (\<lambda>_.
     bindm (liftm (ecdh_pubkey C responder_ephemeral_secret)) (\<lambda>e_pub.
     bindm (mixh C e_pub) (\<lambda>_.
     bindm (getm xkr_ei_pub) (\<lambda>ei_pub.
     bindm (liftm (x_only_ecdh C responder_ephemeral_secret ei_pub)) (\<lambda>ee.
     bindm (mixk C ee) (\<lambda>_.
     bindm (encm C epoch (cap - PUBKEY_SIZE)) (\<lambda>enc_epoch.
       retm (e_pub @ enc_epoch)))))))))"

definition NoiseXkResponder_read_message3 :: "crypto \<Rightarrow> bytes \<Rightarrow> (xk_responder, bytes \<times> bytes) step" where
  "NoiseXkResponder_read_message3 C payload =
     bindm (guardm (length payload \<noteq> (PUBKEY_SIZE + TAG_SIZE) + (EPOCH_SIZE + TAG_SIZE)) InvalidMessage) (\<lambda>_.
     bindm (slicem payload 0 (PUBKEY_SIZE + TAG_SIZE)) (\<lambda>enc_static.
     bindm (decm C enc_static PUBKEY_SIZE) (\<lambda>static_buf.
     bindm (getm xkr_e_priv) (\<lambda>ep. bindm (liftm (ok_or ep InvalidState)) (\<lambda>e_priv.
     bindm (liftm (x_only_ecdh C e_priv static_buf)) (\<lambda>se.
     bindm (mixk C se) (\<lambda>_.
     bindm (liftm (slice_from payload (PUBKEY_SIZE + TAG_SIZE))) (\<lambda>enc_epoch.
     bindm (decm C enc_epoch EPOCH_SIZE) (\<lambda>epoch_buf.
       retm (static_buf, epoch_buf))))))))))"

definition NoiseXkResponder_finalize :: "crypto \<Rightarrow> xk_responder \<Rightarrow> key_pair" where
  "NoiseXkResponder_finalize C s = split_keys C (sy_ck s)"

text \<open>What dropping a machine does to its secrets.\<close>

definition NoiseXkInitiator_zeroize_keys :: "xk_initiator \<Rightarrow> xk_initiator" where
  "NoiseXkInitiator_zeroize_keys s = s\<lparr>sy_ck := replicate 32 0, xki_e_priv := replicate 32 0, xki_s_priv := replicate 32 0, sy_k := None\<rparr>"

definition NoiseXkResponder_zeroize_keys :: "xk_responder \<Rightarrow> xk_responder" where
  "NoiseXkResponder_zeroize_keys s = s\<lparr>sy_ck := replicate 32 0, xkr_e_priv := None, sy_k := None\<rparr>"

section \<open>One exchange\<close>

definition xk_exchange ::
  "crypto \<Rightarrow> handshake_params \<Rightarrow> ((key_pair \<times> key_pair) \<times> (bytes \<times> bytes) \<times> bytes, noise_error) res" where
  "xk_exchange C p =
     bind_res (ecdh_pubkey C (hp_rs p)) (\<lambda>rs_pub.
     bind_res (ecdh_pubkey C (hp_is p)) (\<lambda>is_pub.
     bind_res (NoiseXkInitiator_new C (hp_ie p) (hp_is p) (hp_parity p # tl rs_pub)) (\<lambda>(i0, _).
     case NoiseXkInitiator_write_message1 C 64 i0 of (q1, i1) \<Rightarrow>
     bind_res q1 (\<lambda>msg1.
     bind_res (NoiseXkResponder_new C (hp_rs p) msg1) (\<lambda>r0.
     case NoiseXkResponder_write_message2 C (hp_re p) (hp_repoch p) 128 r0 of (q2, r1) \<Rightarrow>
     bind_res q2 (\<lambda>msg2.
     case NoiseXkInitiator_read_message2 C msg2 i1 of (q3, i2) \<Rightarrow>
     bind_res q3 (\<lambda>repoch.
     case NoiseXkInitiator_write_message3 C is_pub (hp_iepoch p) 128 i2 of (q4, i3) \<Rightarrow>
     bind_res q4 (\<lambda>msg3.
     case NoiseXkResponder_read_message3 C msg3 r1 of (q5, r2) \<Rightarrow>
     bind_res q5 (\<lambda>learned.
       let (ik1, ik2) = NoiseXkInitiator_finalize C i3; (rk1, rk2) = NoiseXkResponder_finalize C r2
       in Ok (((ik1, ik2), (rk2, rk1)), learned, repoch))))))))))"

definition xk_run :: "crypto \<Rightarrow> handshake_params \<Rightarrow> (key_pair \<times> key_pair, noise_error) res" where
  "xk_run C p = bind_res (xk_exchange C p) (\<lambda>(keys, _). Ok keys)"

section \<open>Agreement\<close>

lemma xk_message1:
  assumes C: "crypto_ok C" and keys: "pubkey_prim C ie = Some pie" "pubkey_prim C rs = Some prs"
    and par: "par \<in> {2, 3}" and cap: "33 \<le> cap"
  shows "\<exists>i0 i1 r0. NoiseXkInitiator_new C ie si (par # tl prs) = Ok (i0, pie)
     \<and> NoiseXkInitiator_write_message1 C cap i0 = (Ok pie, i1) \<and> NoiseXkResponder_new C rs pie = Ok r0
     \<and> sy_ck r0 = sy_ck i1 \<and> sy_h r0 = sy_h i1 \<and> xkr_ei_pub r0 = pie
     \<and> xki_e_priv i1 = ie \<and> xki_s_priv i1 = si"
proof -
  let ?es = "sha256 C (ecdh_prim C rs pie)"
  have dh [simp]: "x_only_ecdh C ie (par # tl prs) = Ok ?es" "x_only_ecdh C rs pie = Ok ?es"
    using x_only_ecdh_agree [OF C keys par] x_only_ecdh_own [OF C keys] by auto
  have pn [simp]: "parity_normalize prs = 2 # tl prs"
    using pubkey_Cons [OF C keys(2)] by (metis parity_normalize_parity)
  show ?thesis
    using C cap keys
    by (simp add: NoiseXkInitiator_new_def NoiseXkInitiator_write_message1_def NoiseXkResponder_new_def
        ecdh_pubkey_def Let_def split_beta step_simps)
qed

lemma xk_message2:
  assumes C: "crypto_ok C" and keys: "pubkey_prim C ie = Some pie" "pubkey_prim C re = Some pre"
    and ep: "length ep = 8" and cap: "57 \<le> cap"
    and st: "sy_ck r0 = sy_ck i1" "sy_h r0 = sy_h i1" "xkr_ei_pub r0 = pie" "xki_e_priv i1 = ie"
  shows "\<exists>msg2 i2 r1 key. NoiseXkResponder_write_message2 C re ep cap r0 = (Ok msg2, r1) \<and> length msg2 = 57
     \<and> NoiseXkInitiator_read_message2 C msg2 i1 = (Ok ep, i2)
     \<and> sy_ck r1 = sy_ck i2 \<and> sy_h r1 = sy_h i2 \<and> sy_k r1 = Some key \<and> sy_k i2 = Some key \<and> length key = 32
     \<and> sy_n r1 = sy_n i2 \<and> xki_re_pub i2 = Some pre \<and> xkr_e_priv r1 = Some re \<and> xki_s_priv i2 = xki_s_priv i1"
proof -
  let ?ee = "sha256 C (ecdh_prim C re pie)"
  have dh [simp]: "x_only_ecdh C re pie = Ok ?ee" "x_only_ecdh C ie pre = Ok ?ee"
    using x_only_ecdh_own [OF C keys] x_only_ecdh_sym [OF C keys] by auto
  have len [simp]: "length pre = 33" using length_pubkey [OF C] keys by auto
  show ?thesis
    using C cap ep keys st
    by (simp add: NoiseXkResponder_write_message2_def NoiseXkInitiator_read_message2_def ecdh_pubkey_def
        step_simps slicem_def)
qed

lemma xk_message3:
  assumes C: "crypto_ok C" and keys: "pubkey_prim C si = Some pis" "pubkey_prim C re = Some pre"
    and ep: "length ep = 8" and cap: "73 \<le> cap"
    and st: "sy_ck r1 = sy_ck i2" "sy_h r1 = sy_h i2" "sy_k r1 = Some key" "sy_k i2 = Some key" "length key = 32"
      "sy_n r1 = sy_n i2" "xki_re_pub i2 = Some pre" "xkr_e_priv r1 = Some re" "xki_s_priv i2 = si"
  shows "\<exists>msg3 i3 r2. NoiseXkInitiator_write_message3 C pis ep cap i2 = (Ok msg3, i3) \<and> length msg3 = 73
     \<and> NoiseXkResponder_read_message3 C msg3 r1 = (Ok (pis, ep), r2)
     \<and> sy_ck r2 = sy_ck i3 \<and> sy_h r2 = sy_h i3"
proof -
  let ?se = "sha256 C (ecdh_prim C re pis)"
  have dh [simp]: "x_only_ecdh C re pis = Ok ?se" "x_only_ecdh C si pre = Ok ?se"
    using x_only_ecdh_own [OF C keys] x_only_ecdh_sym [OF C keys] by auto
  have len [simp]: "length pis = 33" using length_pubkey [OF C] keys by auto
  show ?thesis
    using C cap ep keys st
    by (simp add: NoiseXkInitiator_write_message3_def NoiseXkResponder_read_message3_def step_simps slicem_def)
qed

lemma xk_exchange_agrees:
  assumes "hp_valid C p"
  shows "\<exists>k1 k2. xk_exchange C p =
           Ok (((k1, k2), (k2, k1)), (the (pubkey_prim C (hp_is p)), hp_iepoch p), hp_repoch p)
         \<and> length k1 = 32 \<and> length k2 = 32"
proof -
  obtain pie pis pre prs where C: "crypto_ok C" and pk: "pubkey_prim C (hp_ie p) = Some pie"
    "pubkey_prim C (hp_is p) = Some pis" "pubkey_prim C (hp_re p) = Some pre" "pubkey_prim C (hp_rs p) = Some prs"
    and par: "hp_parity p \<in> {2, 3}" and ep: "length (hp_iepoch p) = 8" "length (hp_repoch p) = 8"
    using assms by (auto simp: hp_valid_def)
  obtain i0 i1 r0 where 1: "NoiseXkInitiator_new C (hp_ie p) (hp_is p) (hp_parity p # tl prs) = Ok (i0, pie)"
      "NoiseXkInitiator_write_message1 C 64 i0 = (Ok pie, i1)" "NoiseXkResponder_new C (hp_rs p) pie = Ok r0"
      "sy_ck r0 = sy_ck i1" "sy_h r0 = sy_h i1" "xkr_ei_pub r0 = pie"
      "xki_e_priv i1 = hp_ie p" "xki_s_priv i1 = hp_is p"
    using xk_message1 [OF C pk(1,4) par, of 64 "hp_is p"] by auto
  obtain msg2 i2 r1 key where 2: "NoiseXkResponder_write_message2 C (hp_re p) (hp_repoch p) 128 r0 = (Ok msg2, r1)"
      "NoiseXkInitiator_read_message2 C msg2 i1 = (Ok (hp_repoch p), i2)"
      "sy_ck r1 = sy_ck i2" "sy_h r1 = sy_h i2" "sy_k r1 = Some key" "sy_k i2 = Some key" "length key = 32"
      "sy_n r1 = sy_n i2" "xki_re_pub i2 = Some pre" "xkr_e_priv r1 = Some (hp_re p)" "xki_s_priv i2 = hp_is p"
    using xk_message2 [OF C pk(1,3) ep(2) _ 1(4-7), of 128] 1(8) by auto
  obtain msg3 i3 r2 where 3: "NoiseXkInitiator_write_message3 C pis (hp_iepoch p) 128 i2 = (Ok msg3, i3)"
      "NoiseXkResponder_read_message3 C msg3 r1 = (Ok (pis, hp_iepoch p), r2)" "sy_ck r2 = sy_ck i3"
    using xk_message3 [OF C pk(2,3) ep(1) _ 2(3-11), of 128] by auto
  have "xk_exchange C p = Ok ((split_keys C (sy_ck i3), (snd (split_keys C (sy_ck i3)), fst (split_keys C (sy_ck i3)))),
      (pis, hp_iepoch p), hp_repoch p)"
    using 1 2 3 pk by (simp add: xk_exchange_def ecdh_pubkey_def NoiseXkInitiator_finalize_def
        NoiseXkResponder_finalize_def split_beta)
  then show ?thesis
    using C pk(2) by (intro exI [of _ "fst (split_keys C (sy_ck i3))"] exI [of _ "snd (split_keys C (sy_ck i3))"]) simp
qed

interpretation xka: key_agreement C "hp_valid C" "xk_run C" for C
  by unfold_locales (auto simp: xk_run_def dest!: xk_exchange_agrees)

lemma xk_initiator_no_panic: "no_panic (NoiseXkInitiator_read_message2 C payload) i"
  unfolding NoiseXkInitiator_read_message2_def slicem_def
  by (intro no_panic_bindm) (auto simp: step_OkE mixk_eq mixh_eq)

lemma xk_responder_no_panic:
  assumes "sy_k r \<noteq> None"
  shows "no_panic (NoiseXkResponder_read_message3 C payload) r"
  unfolding NoiseXkResponder_read_message3_def slicem_def
  using assms
  by (intro no_panic_bindm) (auto simp: step_OkE mixk_eq ok_or_def split: option.splits dest!: decm_keeps_k)

lemma xk_write_message2_k:
  "NoiseXkResponder_write_message2 C e ep cap r = (Ok msg, r') \<Longrightarrow> sy_k r' \<noteq> None"
  by (auto simp: NoiseXkResponder_write_message2_def step_OkE mixk_eq dest!: encm_keeps_k)

section \<open>Properties\<close>

text \<open>C13. A complete XK exchange succeeds for all valid secrets and epochs and either parity of the
  responder's key: both ends derive the same two keys in opposite roles, the responder learns
  exactly the initiator's static key and epoch, the initiator the responder's epoch.\<close>

theorem xk_agreement:
  assumes "hp_valid C p"
  shows "\<exists>k1 k2. xk_exchange C p =
           Ok (((k1, k2), (k2, k1)), (the (pubkey_prim C (hp_is p)), hp_iepoch p), hp_repoch p)
         \<and> length k1 = 32 \<and> length k2 = 32"
  by (rule xk_exchange_agrees [OF assms])

theorem xk_agreement_witness:
  "\<exists>k1 k2. xk_exchange sample_crypto sample_hp =
           Ok (((k1, k2), (k2, k1)), (the (pubkey_prim sample_crypto (hp_is sample_hp)), hp_iepoch sample_hp), hp_repoch sample_hp)
         \<and> length k1 = 32 \<and> length k2 = 32"
  by (rule xk_agreement [OF sample_hp_valid])

text \<open>Reading a second message whose ephemeral key parses but whose tag does not verify fails,
  but the initiator's chaining key, cipher key and remembered ephemeral have already been replaced
  by values derived from that message: the method is not atomic, and a machine that has seen one
  forged second message no longer matches the genuine responder.\<close>

theorem xk_failed_read_overwrites_state:
  assumes "length payload = 57" "x_only_ecdh C (xki_e_priv i) (take 33 payload) = Ok ee"
    and "aead_decrypt C (snd (mix_key C (sy_ck i) ee)) 0 [] (drop 33 payload) 8 = Err e"
  shows "\<exists>i'. NoiseXkInitiator_read_message2 C payload i = (Err e, i')
     \<and> sy_ck i' = fst (mix_key C (sy_ck i) ee) \<and> sy_k i' = Some (snd (mix_key C (sy_ck i) ee))
     \<and> xki_re_pub i' = Some (take 33 payload)"
  using assms
  by (simp add: NoiseXkInitiator_read_message2_def slicem_def bindm_guardm bindm_liftm bindm_modm bindm_getm
      bindm_mixh bindm_mixk decm_cases)

theorem xk_failed_read_overwrites_state_witness:
  "let i = \<lparr>sy_h = [], sy_ck = replicate 32 9, sy_k = None, sy_n = 0, xki_e_priv = replicate 32 1,
         xki_e_pub = [], xki_s_priv = [], xki_rs_pub = [], xki_re_pub = None\<rparr>;
       payload = 2 # replicate 32 5 @ replicate 24 0;
       ee = sha256 sample_crypto (ecdh_prim sample_crypto (replicate 32 1) (take 33 payload))
   in \<exists>i'. NoiseXkInitiator_read_message2 sample_crypto payload i = (Err DecryptionFailed, i')
     \<and> sy_ck i' = fst (mix_key sample_crypto (sy_ck i) ee) \<and> sy_k i' = Some (snd (mix_key sample_crypto (sy_ck i) ee))
     \<and> xki_re_pub i' = Some (take 33 payload)"
  unfolding Let_def
  by (rule xk_failed_read_overwrites_state)
    (simp_all add: x_only_ecdh_def sample_crypto_def sha256_def mix_key_def aead_decrypt_def sample_tag_def)

end
