(* ===== verification/FspSession.thy ===== *)
theory FspSession
  imports FspWire Negotiation NoiseXK NoiseXX
begin

text \<open>
  The session layer, second half of crates/microfips-core/src/fsp.rs: the responder session, the
  initiator session and the datagram handler.  The wire version selects the Noise pattern
  (\<^verbatim>\<open>SessionInitiator\<close>/\<^verbatim>\<open>SessionResponder\<close> are XK or XX machines).
\<close>

section \<open>Responder session\<close>

datatype session_responder = XkResp xk_responder | XxResp xx_responder
datatype session_initiator = XkInit xk_initiator | XxInit xx_initiator

definition SESSION_MSG2_BUF :: nat where [simp]:
  "SESSION_MSG2_BUF = XX_HANDSHAKE_MSG2_SIZE + NEGOTIATION_MAX_SIZE + TAG_SIZE"
definition SESSION_MSG3_BUF :: nat where [simp]:
  "SESSION_MSG3_BUF = XX_HANDSHAKE_MSG3_SIZE + NEGOTIATION_MAX_SIZE + TAG_SIZE"

datatype fsp_session_state = SIdle | SAwaitingMsg3 | SEstablished

datatype fsp_session_error = SInvalidState | SInvalidMessage | SCryptoError | SBufferTooSmall

definition session_error_of_fsp :: "fsp_error \<Rightarrow> fsp_session_error" where
  "session_error_of_fsp e = (case e of FspBufferTooSmall \<Rightarrow> SBufferTooSmall
     | FspInvalidFrame \<Rightarrow> SInvalidMessage | FspInvalidCoords \<Rightarrow> SInvalidMessage)"

definition session_error_of_noise :: "noise_error \<Rightarrow> fsp_session_error" where
  "session_error_of_noise e = (if e = BufferTooSmall then SBufferTooSmall
     else if e = InvalidMessage \<or> e = InvalidState then SInvalidMessage else SCryptoError)"

record fsp_session =
  fs_state :: fsp_session_state
  fs_responder :: "session_responder option"
  fs_k_recv :: "bytes option"
  fs_k_send :: "bytes option"
  fs_initiator_pub :: "bytes option"
  fs_send_counter :: u64

definition FspSession_new :: fsp_session where
  "FspSession_new = \<lparr>fs_state = SIdle, fs_responder = None, fs_k_recv = None, fs_k_send = None,
     fs_initiator_pub = None, fs_send_counter = 0\<rparr>"

definition FspSession_session_keys :: "fsp_session \<Rightarrow> (bytes \<times> bytes) option" where
  "FspSession_session_keys s = (case (fs_k_recv s, fs_k_send s) of (Some r, Some t) \<Rightarrow> Some (r, t) | _ \<Rightarrow> None)"

definition FspSession_next_send_counter :: "fsp_session \<Rightarrow> u64 \<times> fsp_session" where
  "FspSession_next_send_counter s = (fs_send_counter s, s\<lparr>fs_send_counter := fs_send_counter s + 1\<rparr>)"

text \<open>
  The Noise part of \<^verbatim>\<open>handle_setup\<close>: create the responder from message 1 and write message 2.
  \<open>session_msg2\<close> is the XK branch and the XX branch with its appended negotiation block.
\<close>

definition session_msg2 ::
  "wire \<Rightarrow> crypto \<Rightarrow> bytes \<Rightarrow> bytes \<Rightarrow> bytes \<Rightarrow> bytes \<Rightarrow> (bytes \<times> session_responder, fsp_session_error) res" where
  "session_msg2 v C my_secret my_ephemeral my_epoch handshake_payload =
     (case v of
        Wire_IK \<Rightarrow>
          bind_res (slice handshake_payload 0 PUBKEY_SIZE) (\<lambda>ei_pub.
          bind_res (map_err session_error_of_noise (NoiseXkResponder_new C my_secret ei_pub)) (\<lambda>r0.
          case NoiseXkResponder_write_message2 C my_ephemeral my_epoch 128 r0 of (q, r1) \<Rightarrow>
          bind_res (map_err session_error_of_noise q) (\<lambda>msg2. Ok (msg2, XkResp r1))))
      | Wire_XX \<Rightarrow>
          bind_res (map_err session_error_of_noise (NoiseXxResponder_new C my_secret)) (\<lambda>r0.
          case NoiseXxResponder_read_message1 C handshake_payload r0 of (q0, r1) \<Rightarrow>
          bind_res (map_err session_error_of_noise q0) (\<lambda>_.
          case NoiseXxResponder_write_message2 C my_ephemeral my_epoch SESSION_MSG2_BUF r1 of (q1, r2) \<Rightarrow>
          bind_res (map_err session_error_of_noise q1) (\<lambda>msg2.
          bind_res (map_err (\<lambda>_. SBufferTooSmall) (encode_payload NEGOTIATION_MAX_SIZE 0 0 0 None)) (\<lambda>neg.
          case NoiseXxResponder_encrypt_payload C neg (SESSION_MSG2_BUF - length msg2) r2 of (q2, r3) \<Rightarrow>
          bind_res (map_err session_error_of_noise q2) (\<lambda>enc. Ok (msg2 @ enc, XxResp r3)))))))"

definition FspSession_handle_setup ::
  "wire \<Rightarrow> crypto \<Rightarrow> bytes \<Rightarrow> bytes \<Rightarrow> bytes \<Rightarrow> bytes \<Rightarrow> nat \<Rightarrow> (fsp_session, fsp_session_error, bytes) estep" where
  "FspSession_handle_setup v C my_secret my_ephemeral my_epoch setup_data ack_cap =
     bindm (getm fs_state) (\<lambda>st.
     bindm (guardm (st \<noteq> SIdle) SInvalidState) (\<lambda>_.
     bindm (liftm (map_err session_error_of_fsp (parse_session_setup_full setup_data))) (\<lambda>(_, setup_src, handshake_payload).
     bindm (guardm (length handshake_payload \<noteq> XK_HANDSHAKE_MSG1_SIZE) SInvalidMessage) (\<lambda>_.
     bindm (liftm (session_msg2 v C my_secret my_ephemeral my_epoch handshake_payload)) (\<lambda>(msg2, responder).
     bindm (liftm (map_err session_error_of_noise (ecdh_pubkey C my_secret))) (\<lambda>my_pub.
     let my_addr = NodeAddr_from_pubkey_x C (drop 1 (parity_normalize my_pub));
         dst = (case v of Wire_IK \<Rightarrow> NodeAddr_from_pubkey_x C (take 32 (drop 1 handshake_payload))
                | Wire_XX \<Rightarrow> setup_src) in
     bindm (liftm (map_err session_error_of_fsp (build_session_ack [my_addr] [dst] msg2 ack_cap))) (\<lambda>ack.
     bindm (modm (\<lambda>s. s\<lparr>fs_responder := Some responder, fs_state := SAwaitingMsg3\<rparr>)) (\<lambda>_.
       retm ack))))))))"

text \<open>
  \<^verbatim>\<open>read_message3\<close> on the stored machine, which it advances in place, also when it fails; on the XX
  wire the optional negotiation block is decrypted and its outcome ignored.
\<close>

definition session_read3 ::
  "crypto \<Rightarrow> bytes \<Rightarrow> session_responder \<Rightarrow> (bytes \<times> bytes, noise_error) res \<times> session_responder" where
  "session_read3 C handshake_payload r = (case r of
      XkResp m \<Rightarrow> (case NoiseXkResponder_read_message3 C handshake_payload m of (q, m') \<Rightarrow> (q, XkResp m'))
    | XxResp m \<Rightarrow> (case split_msg3_noise handshake_payload of (base3, extra3) \<Rightarrow>
        case NoiseXxResponder_read_message3 C base3 m of (q, m') \<Rightarrow>
          (case (q, extra3) of
             (Ok parsed, Some enc) \<Rightarrow> (case NoiseXxResponder_decrypt_payload C enc NEGOTIATION_MAX_SIZE m' of
                (Panic, m'') \<Rightarrow> (Panic, XxResp m'') | (_, m'') \<Rightarrow> (Ok parsed, XxResp m''))
           | _ \<Rightarrow> (q, XxResp m'))))"

definition session_finalize :: "crypto \<Rightarrow> session_responder \<Rightarrow> key_pair" where
  "session_finalize C r = (case r of XkResp m \<Rightarrow> NoiseXkResponder_finalize C m | XxResp m \<Rightarrow> NoiseXxResponder_finalize C m)"

definition FspSession_handle_msg3 :: "wire \<Rightarrow> crypto \<Rightarrow> bytes \<Rightarrow> (fsp_session, fsp_session_error, unit) estep" where
  "FspSession_handle_msg3 v C msg3_data =
     bindm (getm fs_state) (\<lambda>st.
     bindm (guardm (st \<noteq> SAwaitingMsg3) SInvalidState) (\<lambda>_.
     bindm (liftm (map_err session_error_of_fsp (parse_session_msg3 msg3_data))) (\<lambda>handshake_payload.
     bindm (guardm (case v of Wire_IK \<Rightarrow> length handshake_payload \<noteq> XK_HANDSHAKE_MSG3_SIZE
                    | Wire_XX \<Rightarrow> length handshake_payload < XX_HANDSHAKE_MSG3_SIZE) SInvalidMessage) (\<lambda>_.
     bindm (getm fs_responder) (\<lambda>ro.
     bindm (liftm (ok_or ro SInvalidState)) (\<lambda>r.
     case session_read3 C handshake_payload r of (q, r') \<Rightarrow>
     bindm (modm (\<lambda>s. s\<lparr>fs_responder := Some r'\<rparr>)) (\<lambda>_.
     bindm (liftm (map_err session_error_of_noise q)) (\<lambda>(initiator_static_pub, _).
     let (k_recv, k_send) = session_finalize C r' in
     modm (\<lambda>s. s\<lparr>fs_k_recv := Some k_recv, fs_k_send := Some k_send,
         fs_initiator_pub := Some initiator_static_pub, fs_responder := None, fs_state := SEstablished\<rparr>)))))))))"

definition FspSession_reset :: "fsp_session \<Rightarrow> fsp_session" where
  "FspSession_reset s = s\<lparr>fs_state := SIdle, fs_responder := None, fs_k_recv := None, fs_k_send := None,
     fs_initiator_pub := None, fs_send_counter := 0\<rparr>"

section \<open>Initiator session\<close>

datatype fsp_initiator_state = IIdle | IAwaitingAck | IAwaitingEstablished | IEstablished

datatype fsp_initiator_error =
    IInvalidState | IInvalidMessage | IPeerKeyMismatch | IDecryptFailed | IBufferTooSmall | INoise noise_error

definition initiator_error_of_fsp :: "fsp_error \<Rightarrow> fsp_initiator_error" where
  "initiator_error_of_fsp e = (case e of FspBufferTooSmall \<Rightarrow> IBufferTooSmall
     | FspInvalidFrame \<Rightarrow> IInvalidMessage | FspInvalidCoords \<Rightarrow> IInvalidMessage)"

record fsp_initiator_session =
  fi_state :: fsp_initiator_state
  fi_initiator :: "session_initiator option"
  fi_k_recv :: "bytes option"
  fi_k_send :: "bytes option"
  fi_my_pub :: bytes
  fi_pinned_responder_pub :: bytes
  fi_send_counter :: u64

definition FspInitiatorSession_new ::
  "wire \<Rightarrow> crypto \<Rightarrow> bytes \<Rightarrow> bytes \<Rightarrow> bytes \<Rightarrow> (fsp_initiator_session, fsp_initiator_error) res" where
  "FspInitiatorSession_new v C my_static_secret my_ephemeral_secret responder_static_pub =
     bind_res (map_err INoise (case v of
         Wire_IK \<Rightarrow> bind_res (NoiseXkInitiator_new C my_ephemeral_secret my_static_secret responder_static_pub) (\<lambda>(i, _). Ok (XkInit i))
       | Wire_XX \<Rightarrow> bind_res (NoiseXxInitiator_new C my_ephemeral_secret my_static_secret) (\<lambda>(i, _). Ok (XxInit i)))) (\<lambda>initiator.
     bind_res (map_err INoise (ecdh_pubkey C my_static_secret)) (\<lambda>my_pub.
       Ok \<lparr>fi_state = IIdle, fi_initiator = Some initiator, fi_k_recv = None, fi_k_send = None, fi_my_pub = my_pub,
           fi_pinned_responder_pub = responder_static_pub, fi_send_counter = 0\<rparr>))"

definition FspInitiatorSession_session_keys :: "fsp_initiator_session \<Rightarrow> (bytes \<times> bytes) option" where
  "FspInitiatorSession_session_keys s =
     (case (fi_k_recv s, fi_k_send s) of (Some r, Some t) \<Rightarrow> Some (r, t) | _ \<Rightarrow> None)"

definition FspInitiatorSession_next_send_counter :: "fsp_initiator_session \<Rightarrow> u64 \<times> fsp_initiator_session" where
  "FspInitiatorSession_next_send_counter s = (fi_send_counter s, s\<lparr>fi_send_counter := fi_send_counter s + 1\<rparr>)"

definition session_write1 :: "crypto \<Rightarrow> nat \<Rightarrow> session_initiator \<Rightarrow> (bytes, noise_error) res \<times> session_initiator" where
  "session_write1 C cap i = (case i of
      XkInit m \<Rightarrow> (case NoiseXkInitiator_write_message1 C cap m of (q, m') \<Rightarrow> (q, XkInit m'))
    | XxInit m \<Rightarrow> (case NoiseXxInitiator_write_message1 C cap m of (q, m') \<Rightarrow> (q, XxInit m')))"

definition FspInitiatorSession_build_setup ::
  "crypto \<Rightarrow> node_addr \<Rightarrow> node_addr \<Rightarrow> nat \<Rightarrow> (fsp_initiator_session, fsp_initiator_error, bytes) estep" where
  "FspInitiatorSession_build_setup C src_addr dst_addr cap =
     bindm (getm fi_state) (\<lambda>st.
     bindm (guardm (st \<noteq> IIdle) IInvalidState) (\<lambda>_.
     bindm (getm fi_initiator) (\<lambda>io.
     bindm (liftm (ok_or io IInvalidState)) (\<lambda>i.
     case session_write1 C 64 i of (q, i') \<Rightarrow>
     bindm (modm (\<lambda>s. s\<lparr>fi_initiator := Some i'\<rparr>)) (\<lambda>_.
     bindm (liftm (map_err INoise q)) (\<lambda>xk_msg1.
     bindm (liftm (map_err initiator_error_of_fsp (build_session_setup 0x00 [src_addr] [dst_addr] xk_msg1 cap))) (\<lambda>setup_msg.
     bindm (modm (\<lambda>s. s\<lparr>fi_state := IAwaitingAck\<rparr>)) (\<lambda>_.
       retm setup_msg))))))))"

text \<open>
  The Noise part of \<^verbatim>\<open>handle_ack\<close>; on the XX wire with the pin comparison and the optional
  negotiation block, whose decryption outcome is ignored.
\<close>

definition session_read2 ::
  "crypto \<Rightarrow> bytes \<Rightarrow> bytes \<Rightarrow> session_initiator \<Rightarrow> (unit, fsp_initiator_error) res \<times> session_initiator" where
  "session_read2 C pinned msg2_payload i = (case i of
      XkInit m \<Rightarrow> (case NoiseXkInitiator_read_message2 C msg2_payload m of
          (q, m') \<Rightarrow> (bind_res (map_err INoise q) (\<lambda>_. Ok ()), XkInit m'))
    | XxInit m \<Rightarrow> (case split_msg2_noise msg2_payload of (base2, extra2) \<Rightarrow>
        case NoiseXxInitiator_read_message2 C base2 m of
          (Ok (resp_pub, _), m') \<Rightarrow>
            if take 32 (drop 1 resp_pub) \<noteq> take 32 (drop 1 pinned) then (Err IPeerKeyMismatch, XxInit m')
            else (case extra2 of
                None \<Rightarrow> (Ok (), XxInit m')
              | Some enc \<Rightarrow> (case NoiseXxInitiator_decrypt_payload C enc NEGOTIATION_MAX_SIZE m' of
                   (Panic, m'') \<Rightarrow> (Panic, XxInit m'') | (_, m'') \<Rightarrow> (Ok (), XxInit m'')))
        | (Err e, m') \<Rightarrow> (Err (INoise e), XxInit m')
        | (Panic, m') \<Rightarrow> (Panic, XxInit m')))"

definition FspInitiatorSession_handle_ack ::
  "crypto \<Rightarrow> bytes \<Rightarrow> (fsp_initiator_session, fsp_initiator_error, unit) estep" where
  "FspInitiatorSession_handle_ack C ack_data =
     bindm (getm fi_state) (\<lambda>st.
     bindm (guardm (st \<noteq> IAwaitingAck) IInvalidState) (\<lambda>_.
     bindm (liftm (map_err (\<lambda>_. IInvalidMessage) (parse_session_ack ack_data))) (\<lambda>msg2_payload.
     bindm (getm fi_initiator) (\<lambda>io.
     bindm (liftm (ok_or io IInvalidState)) (\<lambda>i.
     bindm (getm fi_pinned_responder_pub) (\<lambda>pinned.
     case session_read2 C pinned msg2_payload i of (q, i') \<Rightarrow>
     bindm (modm (\<lambda>s. s\<lparr>fi_initiator := Some i'\<rparr>)) (\<lambda>_.
     bindm (liftm q) (\<lambda>_.
       modm (\<lambda>s. s\<lparr>fi_state := IAwaitingEstablished\<rparr>)))))))))"

definition session_write3 ::
  "crypto \<Rightarrow> bytes \<Rightarrow> bytes \<Rightarrow> session_initiator \<Rightarrow> (bytes, fsp_initiator_error) res \<times> session_initiator" where
  "session_write3 C my_pub epoch i = (case i of
      XkInit m \<Rightarrow> (case NoiseXkInitiator_write_message3 C my_pub epoch 128 m of (q, m') \<Rightarrow> (map_err INoise q, XkInit m'))
    | XxInit m \<Rightarrow> (case NoiseXxInitiator_write_message3 C my_pub epoch SESSION_MSG3_BUF m of
          (Ok msg3, m') \<Rightarrow>
            (case encode_payload NEGOTIATION_MAX_SIZE 0 0 0 None of
               Ok neg \<Rightarrow> (case NoiseXxInitiator_encrypt_payload C neg (SESSION_MSG3_BUF - length msg3) m' of
                   (q, m'') \<Rightarrow> (bind_res (map_err INoise q) (\<lambda>enc. Ok (msg3 @ enc)), XxInit m''))
             | _ \<Rightarrow> (Err IBufferTooSmall, XxInit m'))
        | (Err e, m') \<Rightarrow> (Err (INoise e), XxInit m')
        | (Panic, m') \<Rightarrow> (Panic, XxInit m')))"

definition initiator_finalize :: "crypto \<Rightarrow> session_initiator \<Rightarrow> key_pair" where
  "initiator_finalize C i = (case i of XkInit m \<Rightarrow> NoiseXkInitiator_finalize C m | XxInit m \<Rightarrow> NoiseXxInitiator_finalize C m)"

definition FspInitiatorSession_build_msg3 ::
  "crypto \<Rightarrow> bytes \<Rightarrow> nat \<Rightarrow> (fsp_initiator_session, fsp_initiator_error, bytes) estep" where
  "FspInitiatorSession_build_msg3 C epoch cap =
     bindm (getm fi_state) (\<lambda>st.
     bindm (guardm (st \<noteq> IAwaitingEstablished) IInvalidState) (\<lambda>_.
     bindm (getm fi_initiator) (\<lambda>io.
     bindm (liftm (ok_or io IInvalidState)) (\<lambda>i.
     bindm (getm fi_my_pub) (\<lambda>my_pub.
     case session_write3 C my_pub epoch i of (q, i') \<Rightarrow>
     bindm (modm (\<lambda>s. s\<lparr>fi_initiator := Some i'\<rparr>)) (\<lambda>_.
     bindm (liftm q) (\<lambda>msg3_noise.
     bindm (liftm (map_err initiator_error_of_fsp (build_session_msg3 msg3_noise cap))) (\<lambda>msg3.
     let (k_send, k_recv) = initiator_finalize C i' in
     bindm (modm (\<lambda>s. s\<lparr>fi_state := IEstablished, fi_k_send := Some k_send, fi_k_recv := Some k_recv\<rparr>)) (\<lambda>_.
       retm msg3)))))))))"

definition FspInitiatorSession_reset :: "fsp_initiator_session \<Rightarrow> fsp_initiator_session" where
  "FspInitiatorSession_reset s = s\<lparr>fi_state := IIdle, fi_initiator := None, fi_k_recv := None, fi_k_send := None,
     fi_send_counter := 0\<rparr>"

section \<open>The datagram handler\<close>

datatype fsp_handler_result = HNone | HSendDatagram bytes

datatype fsp_handler_error =
    HSetup fsp_session_error | HMsg3 fsp_session_error | HDecryptFailed | HInnerHeaderTooShort
  | HBufferTooSmall | HUnknownPhase

text \<open>The three arms of the \<^verbatim>\<open>match\<close> on the phase nibble.\<close>

definition handle_setup_phase ::
  "wire \<Rightarrow> crypto \<Rightarrow> bytes \<Rightarrow> bytes \<Rightarrow> bytes \<Rightarrow> bytes \<Rightarrow> bytes \<Rightarrow> nat \<Rightarrow> (fsp_session, fsp_handler_error, fsp_handler_result) estep" where
  "handle_setup_phase v C secret ephemeral epoch reply_body fsp_data resp_cap = (\<lambda>session.
     bindm (map_errm HSetup (\<lambda>s. case FspSession_handle_setup v C secret ephemeral epoch fsp_data 512 s of
          (Err e, s') \<Rightarrow> if e = SInvalidState
             then FspSession_handle_setup v C secret ephemeral epoch fsp_data 512 (FspSession_reset s')
             else (Err e, s')
        | r \<Rightarrow> r)) (\<lambda>ack.
     bindm (guardm (resp_cap < SESSION_DATAGRAM_BODY_SIZE + length ack) HBufferTooSmall) (\<lambda>_.
       retm (HSendDatagram (reply_body @ ack)))) session)"

definition handle_established_phase ::
  "crypto \<Rightarrow> bytes \<Rightarrow> (fsp_session, fsp_handler_error, fsp_handler_result) estep" where
  "handle_established_phase C fsp_data =
     bindm (getm fs_state) (\<lambda>st.
     if st \<noteq> SEstablished then retm HNone else
     bindm (getm FspSession_session_keys) (\<lambda>keys. case keys of None \<Rightarrow> retm HNone | Some (k_recv, _) \<Rightarrow>
     case parse_fsp_encrypted_header fsp_data of
       Err _ \<Rightarrow> retm HNone
     | Panic \<Rightarrow> liftm Panic
     | Ok (flags, counter, header, encrypted) \<Rightarrow>
         if flags AND FLAG_UNENCRYPTED \<noteq> 0 then retm HNone
         else bindm (liftm (map_err (\<lambda>_. HDecryptFailed) (aead_decrypt C k_recv counter header encrypted 512))) (\<lambda>dec.
              bindm (liftm (map_err (\<lambda>_. HInnerHeaderTooShort) (fsp_strip_inner_header dec))) (\<lambda>_.
                retm HNone))))"

definition handle_fsp_datagram ::
  "wire \<Rightarrow> crypto \<Rightarrow> bytes \<Rightarrow> bytes \<Rightarrow> bytes \<Rightarrow> bytes \<Rightarrow> nat \<Rightarrow> (fsp_session, fsp_handler_error, fsp_handler_result) estep" where
  "handle_fsp_datagram v C secret ephemeral epoch payload resp_cap =
     (if length payload < SESSION_DATAGRAM_BODY_SIZE then retm HNone
      else bindm (liftm (slice payload 3 19)) (\<lambda>src_addr.
           bindm (liftm (slice payload 19 35)) (\<lambda>dst_addr.
           let reply_body = build_session_datagram_body dst_addr src_addr in
           bindm (liftm (slice_from payload SESSION_DATAGRAM_BODY_SIZE)) (\<lambda>fsp_data.
           if fsp_data = [] then retm HNone
           else let fsp_phase = hd fsp_data AND 0x0F in
             if fsp_phase = PHASE_SESSION_SETUP then
               handle_setup_phase v C secret ephemeral epoch reply_body fsp_data resp_cap
             else if fsp_phase = PHASE_SESSION_MSG3 then
               bindm (map_errm HMsg3 (FspSession_handle_msg3 v C fsp_data)) (\<lambda>_. retm HNone)
             else if fsp_phase = FSP_PHASE_ESTABLISHED then handle_established_phase C fsp_data
             else liftm (Err HUnknownPhase)))))"

section \<open>Invariant of the responder session\<close>

fun resp_ready :: "wire \<Rightarrow> session_responder \<Rightarrow> bool" where
  "resp_ready Wire_IK (XkResp m) \<longleftrightarrow> sy_k m \<noteq> None"
| "resp_ready Wire_XX (XxResp m) \<longleftrightarrow> sy_k m \<noteq> None \<and> xxr_e_priv m \<noteq> None"
| "resp_ready _ _ \<longleftrightarrow> False"

definition fsp_session_inv :: "wire \<Rightarrow> fsp_session \<Rightarrow> bool" where
  "fsp_session_inv v s \<longleftrightarrow> (case fs_state s of
      SIdle \<Rightarrow> fs_responder s = None \<and> fs_k_recv s = None \<and> fs_k_send s = None
    | SAwaitingMsg3 \<Rightarrow> (\<exists>r. fs_responder s = Some r \<and> resp_ready v r) \<and> fs_k_recv s = None \<and> fs_k_send s = None
    | SEstablished \<Rightarrow> fs_responder s = None \<and> fs_k_recv s \<noteq> None \<and> fs_k_send s \<noteq> None \<and> fs_initiator_pub s \<noteq> None)"

lemma keeps_mixh: "keeps (\<lambda>m. sy_k m \<noteq> None) (mixh C d)" "keeps (\<lambda>m. sy_k m \<noteq> None) (mixk C d)"
  by (auto simp: keeps_def mixh_eq mixk_eq)

lemma keeps_decm: "keeps (\<lambda>m. sy_k m \<noteq> None) (decm C ct cap)"
  by (auto simp: keeps_def decm_cases split: res.split)

lemma xk_read3_keeps: "keeps (\<lambda>m. sy_k m \<noteq> None) (NoiseXkResponder_read_message3 C payload)"
  unfolding NoiseXkResponder_read_message3_def slicem_def
  by (intro keeps_bindm) (simp_all add: keeps_mixh keeps_decm del: not_None_eq)

abbreviation xx_live :: "xx_responder \<Rightarrow> bool" where
  "xx_live m \<equiv> sy_k m \<noteq> None \<and> xxr_e_priv m \<noteq> None"

lemma keeps_xx_live: "keeps xx_live (mixk C d)" "keeps xx_live (decm C ct cap)"
  by (auto simp: keeps_def mixk_eq decm_cases split: res.split)

lemma xx_read3_keeps: "keeps xx_live (NoiseXxResponder_read_message3 C payload)"
  unfolding NoiseXxResponder_read_message3_def slicem_def
  by (intro keeps_bindm keeps_modm) (simp_all add: keeps_xx_live del: not_None_eq)

lemma session_read3_keeps:
  assumes "resp_ready v r" "session_read3 C payload r = (q, r')"
  shows "resp_ready v r' \<and> q \<noteq> Panic"
proof (cases r)
  case (XkResp m)
  then have v: "v = Wire_IK" and k: "sy_k m \<noteq> None" using assms(1) by (cases v; simp)+
  obtain q1 m1 where 1: "NoiseXkResponder_read_message3 C payload m = (q1, m1)" by fastforce
  have "sy_k m1 \<noteq> None" using keepsD [OF xk_read3_keeps k 1] .
  moreover have "q1 \<noteq> Panic" using xk_responder_no_panic [OF k, of C payload] 1 by (simp add: no_panic_def)
  ultimately show ?thesis using assms(2) XkResp v 1 by (auto simp: session_read3_def)
next
  case (XxResp m)
  then have v: "v = Wire_XX" and k: "sy_k m \<noteq> None" "xxr_e_priv m \<noteq> None" using assms(1) by (cases v; simp)+
  obtain base extra where sp: "split_msg3_noise payload = (base, extra)" by fastforce
  obtain q1 m1 where 1: "NoiseXxResponder_read_message3 C base m = (q1, m1)" by fastforce
  have k1: "xx_live m1" using keepsD [OF xx_read3_keeps _ 1] k by blast
  have q1: "q1 \<noteq> Panic" using xx_responder_no_panic [OF k, of C base] 1 by (simp add: no_panic_def)
  have dec: "q2 \<noteq> Panic \<and> xx_live m2" if "NoiseXxResponder_decrypt_payload C enc cap m1 = (q2, m2)" for enc cap q2 m2
    using that keepsD [OF keeps_xx_live(2) k1] no_panic_decm [of m1 C enc cap] k1
    by (auto simp: NoiseXxResponder_decrypt_payload_def no_panic_def)
  show ?thesis
    using assms(2) XxResp v sp 1 k1 q1 dec
    by (auto simp: session_read3_def split: res.splits option.splits prod.splits)
qed

lemma handle_msg3_inv:
  assumes "fsp_session_inv v s" "FspSession_handle_msg3 v C data s = (q, s')"
  shows "fsp_session_inv v s' \<and> q \<noteq> Panic"
proof (cases "fs_state s = SAwaitingMsg3")
  case False
  then show ?thesis using assms by (auto simp: FspSession_handle_msg3_def step_simps)
next
  case True
  then obtain r where r: "fs_responder s = Some r" "resp_ready v r"
    and k: "fs_k_recv s = None" "fs_k_send s = None"
    using assms(1) by (auto simp: fsp_session_inv_def)
  show ?thesis
  proof (cases "parse_session_msg3 data")
    case (Ok hs)
    obtain q1 r1 where 1: "session_read3 C hs r = (q1, r1)" by fastforce
    have r1: "resp_ready v r1" "q1 \<noteq> Panic" using session_read3_keeps [OF r(2) 1] by auto
    show ?thesis
      using assms(2) True r k Ok 1 r1
      by (cases q1) (auto simp: FspSession_handle_msg3_def step_simps fsp_session_inv_def split_beta Let_def modm_def
          split: if_splits)
  next
    case (Err e)
    then show ?thesis using assms True by (auto simp: FspSession_handle_msg3_def step_simps)
  next
    case Panic
    then show ?thesis using parse_session_msg3_not_Panic by blast
  qed
qed

lemma xk_new_k: "NoiseXkResponder_new C s e = Ok r \<Longrightarrow> sy_k r \<noteq> None"
  by (auto simp: NoiseXkResponder_new_def Let_def bind_res_Ok_iff split_beta)

lemma xk_write2_no_panic: "no_panic (NoiseXkResponder_write_message2 C e ep cap) r"
  unfolding NoiseXkResponder_write_message2_def
  by (intro no_panic_bindm) (auto simp: step_OkE mixk_eq mixh_eq)

lemma xx_write2_no_panic: "no_panic (NoiseXxResponder_write_message2 C e ep cap) r"
  unfolding NoiseXxResponder_write_message2_def
  by (intro no_panic_bindm) (auto simp: step_OkE mixk_eq mixh_eq ok_or_def split: option.splits dest!: encm_keeps_k)

lemma xx_write2_ready:
  "NoiseXxResponder_write_message2 C e ep cap r = (Ok msg, r') \<Longrightarrow> xx_live r'"
  by (auto simp: NoiseXxResponder_write_message2_def step_OkE mixk_eq mixh_eq dest!: encm_OkD)

lemma write2_ready:
  "fst (NoiseXkResponder_write_message2 C e ep cap r) = Ok msg \<Longrightarrow> sy_k (snd (NoiseXkResponder_write_message2 C e ep cap r)) \<noteq> None"
  "fst (NoiseXxResponder_write_message2 C e ep cap x) = Ok msg \<Longrightarrow> xx_live (snd (NoiseXxResponder_write_message2 C e ep cap x))"
  "fst (NoiseXxResponder_encrypt_payload C neg cap x) = Ok msg \<Longrightarrow> xx_live x \<Longrightarrow> xx_live (snd (NoiseXxResponder_encrypt_payload C neg cap x))"
  using xk_write_message2_k [of C e ep cap r] xx_write2_ready [of C e ep cap x] encm_OkD [of C neg cap x]
  by (auto simp: NoiseXxResponder_encrypt_payload_def prod_eq_iff)

lemma session_msg2_ready:
  assumes "session_msg2 v C sec eph ep hs = Ok (msg2, r)"
  shows "resp_ready v r"
  using assms
  by (cases v) (auto simp: session_msg2_def bind_res_Ok_iff prod.case_eq_if dest: write2_ready)

lemma session_msg2_no_panic:
  assumes "length hs = 33"
  shows "session_msg2 v C sec eph ep hs \<noteq> Panic"
proof -
  have new: "NoiseXkResponder_new C sec e \<noteq> Panic" "NoiseXxResponder_new C sec \<noteq> Panic" for e
    by (auto simp: NoiseXkResponder_new_def NoiseXxResponder_new_def Let_def bind_res_Panic_iff split_beta)
  have e: "encode_payload 64 0 0 0 None \<noteq> Panic" by (simp add: encode_payload_def)
  have r1: "fst (NoiseXxResponder_read_message1 C hs r) \<noteq> Panic" for r
    using assms by (simp add: NoiseXxResponder_read_message1_def slicem_def step_simps mixh_eq)
  have en: "fst (NoiseXxResponder_encrypt_payload C neg cap r) \<noteq> Panic" if "xx_live r" for neg cap r
    using no_panic_encm [of r C neg cap] that by (simp add: NoiseXxResponder_encrypt_payload_def no_panic_def)
  show ?thesis
    using assms new e r1 en xk_write2_no_panic [of C eph ep] xx_write2_no_panic [of C eph ep] write2_ready(2) [of C eph ep]
    by (cases v) (auto simp: session_msg2_def bind_res_Panic_iff no_panic_def prod.case_eq_if)
qed

lemma handle_setup_inv:
  assumes "fsp_session_inv v s" "FspSession_handle_setup v C sec eph ep data cap s = (q, s')"
  shows "fsp_session_inv v s' \<and> (q = Panic \<longleftrightarrow> fs_state s = SIdle \<and> parse_session_setup_full data = Panic)"
proof (cases "fs_state s = SIdle")
  case False
  then show ?thesis using assms by (auto simp: FspSession_handle_setup_def step_simps)
next
  case True
  show ?thesis
  proof (cases "parse_session_setup_full data")
    case (Ok x)
    then obtain fl src hs where x: "x = (fl, src, hs)" by (metis prod_cases3)
    have np: "length hs = 33 \<Longrightarrow> session_msg2 v C sec eph ep hs \<noteq> Panic" by (rule session_msg2_no_panic)
    have b: "build_session_ack a b c d \<noteq> Panic" for a b c d by (simp add: build_session_ack_def Let_def)
    show ?thesis
      using assms True Ok x np b session_msg2_ready [of v C sec eph ep hs]
      by (auto simp: FspSession_handle_setup_def step_simps fsp_session_inv_def Let_def split: res.splits if_splits)
  qed (use assms True in \<open>auto simp: FspSession_handle_setup_def step_simps\<close>)
qed

lemma reset_inv: "fsp_session_inv v (FspSession_reset s)"
  by (simp add: fsp_session_inv_def FspSession_reset_def)

lemma reset_state [simp]: "fs_state (FspSession_reset s) = SIdle"
  by (simp add: FspSession_reset_def)

lemma handle_setup_phase_inv:
  assumes "fsp_session_inv v s" "handle_setup_phase v C sec eph ep rb data cap s = (q, s')"
  shows "fsp_session_inv v s' \<and> (q = Panic \<longleftrightarrow> parse_session_setup_full data = Panic)"
proof -
  obtain q1 s1 where 1: "FspSession_handle_setup v C sec eph ep data 512 s = (q1, s1)" by fastforce
  obtain q2 s2 where 2: "FspSession_handle_setup v C sec eph ep data 512 (FspSession_reset s1) = (q2, s2)" by fastforce
  have i1: "fsp_session_inv v s1" "q1 = Panic \<longleftrightarrow> fs_state s = SIdle \<and> parse_session_setup_full data = Panic"
    using handle_setup_inv [OF assms(1) 1] by auto
  have i2: "fsp_session_inv v s2" "q2 = Panic \<longleftrightarrow> parse_session_setup_full data = Panic"
    using handle_setup_inv [OF reset_inv 2] by auto
  have st: "fs_state s \<noteq> SIdle \<Longrightarrow> q1 = Err SInvalidState"
    using 1 by (auto simp: FspSession_handle_setup_def step_simps)
  show ?thesis
    using assms(2) 1 2 i1 i2 st
    by (cases q1; cases q2) (auto simp: handle_setup_phase_def bindm_def map_errm_def guardm_def retm_def split: if_splits)
qed

lemma handle_established_inv:
  assumes "handle_established_phase C data s = (q, s')"
  shows "s' = s \<and> q \<noteq> Panic"
proof -
  have "aead_decrypt C k c h e cap \<noteq> Panic" for k c h e cap by simp
  then show ?thesis
  using assms parse_fsp_encrypted_header_not_Panic [of data] fsp_strip_inner_header_not_Panic
  by (auto simp: handle_established_phase_def step_simps split: if_splits option.splits res.splits prod.splits)
qed

lemma handle_fsp_datagram_inv:
  assumes "fsp_session_inv v s" "handle_fsp_datagram v C sec eph ep payload cap s = (q, s')"
  shows "fsp_session_inv v s' \<and> (q = Panic \<longleftrightarrow> 36 \<le> length payload \<and> payload ! 35 AND 0x0F = PHASE_SESSION_SETUP
            \<and> parse_session_setup_full (drop 35 payload) = Panic)"
proof (cases "36 \<le> length payload")
  case False
  then show ?thesis using assms by (auto simp: handle_fsp_datagram_def step_simps Let_def split: if_splits)
next
  case True
  then have h: "hd (drop 35 payload) = payload ! 35" by (simp add: hd_drop_conv_nth)
  obtain qa sa where a: "handle_setup_phase v C sec eph ep (build_session_datagram_body (take 16 (drop 19 payload)) (take 16 (drop 3 payload)))
      (drop 35 payload) cap s = (qa, sa)" by fastforce
  obtain qb sb where b: "FspSession_handle_msg3 v C (drop 35 payload) s = (qb, sb)" by fastforce
  obtain qc sc where c: "handle_established_phase C (drop 35 payload) s = (qc, sc)" by fastforce
  show ?thesis
    using assms True h a b c handle_setup_phase_inv [OF assms(1) a] handle_msg3_inv [OF assms(1) b] handle_established_inv [OF c]
    by (cases qb) (auto simp: handle_fsp_datagram_def step_simps Let_def map_errm_def bindm_def [of "\<lambda>s. case FspSession_handle_msg3 v C (drop 35 payload) s of _ \<Rightarrow> _"] liftm_def split: if_splits)
qed

section \<open>Reachable responder sessions\<close>

inductive fsp_reachable :: "wire \<Rightarrow> crypto \<Rightarrow> fsp_session \<Rightarrow> bool" for v C where
  new: "fsp_reachable v C FspSession_new"
| datagram: "fsp_reachable v C s \<Longrightarrow> handle_fsp_datagram v C sec eph ep payload cap s = (q, s') \<Longrightarrow> fsp_reachable v C s'"
| reset: "fsp_reachable v C s \<Longrightarrow> fsp_reachable v C (FspSession_reset s)"
| send: "fsp_reachable v C s \<Longrightarrow> fsp_reachable v C (snd (FspSession_next_send_counter s))"

lemma fsp_reachable_inv: "fsp_reachable v C s \<Longrightarrow> fsp_session_inv v s"
proof (induction rule: fsp_reachable.induct)
  case new
  show ?case by (simp add: fsp_session_inv_def FspSession_new_def)
next
  case (datagram s sec eph ep payload cap q s')
  then show ?case using handle_fsp_datagram_inv by blast
next
  case (reset s)
  show ?case by (rule reset_inv)
next
  case (send s)
  then show ?case by (cases "fs_state s") (simp_all add: fsp_session_inv_def FspSession_next_send_counter_def)
qed

lemma setup_leaves_unestablished:
  assumes "FspSession_handle_setup v C sec eph ep data cap s = (q, s')" "fs_state s = SIdle" "fs_k_recv s = None" "fs_k_send s = None"
  shows "fs_state s' \<noteq> SEstablished \<and> fs_k_recv s' = None \<and> fs_k_send s' = None"
  using assms by (auto simp: FspSession_handle_setup_def step_simps Let_def split: res.splits prod.splits if_splits)

lemma setup_phase_drops_session:
  assumes "fs_state s \<noteq> SIdle" "handle_setup_phase v C sec eph ep rb data cap s = (q, s')"
  shows "fs_state s' \<noteq> SEstablished \<and> fs_k_recv s' = None \<and> fs_k_send s' = None"
proof -
  have 1: "FspSession_handle_setup v C sec eph ep data 512 s = (Err SInvalidState, s)"
    using assms(1) by (simp add: FspSession_handle_setup_def step_simps)
  obtain q2 s2 where 2: "FspSession_handle_setup v C sec eph ep data 512 (FspSession_reset s) = (q2, s2)" by fastforce
  have "fs_state s2 \<noteq> SEstablished \<and> fs_k_recv s2 = None \<and> fs_k_send s2 = None"
    using setup_leaves_unestablished [OF 2] by (simp add: FspSession_reset_def)
  then show ?thesis
    using assms(2) 1 2
    by (cases q2) (auto simp: handle_setup_phase_def bindm_def map_errm_def guardm_def retm_def split: if_splits)
qed

section \<open>Establishing a session\<close>

definition fsp_establish ::
  "wire \<Rightarrow> crypto \<Rightarrow> node_addr \<Rightarrow> node_addr \<Rightarrow> handshake_params \<Rightarrow> (fsp_initiator_session \<times> fsp_session, unit) res" where
  "fsp_establish v C saddr daddr p =
     bind_res (map_err (\<lambda>_. ()) (ecdh_pubkey C (hp_rs p))) (\<lambda>rs_pub.
     bind_res (map_err (\<lambda>_. ()) (FspInitiatorSession_new v C (hp_is p) (hp_ie p) (hp_parity p # tl rs_pub))) (\<lambda>i0.
     case FspInitiatorSession_build_setup C saddr daddr 512 i0 of (q1, i1) \<Rightarrow>
     bind_res (map_err (\<lambda>_. ()) q1) (\<lambda>setup_msg.
     case FspSession_handle_setup v C (hp_rs p) (hp_re p) (hp_repoch p) setup_msg 512 FspSession_new of (q2, r1) \<Rightarrow>
     bind_res (map_err (\<lambda>_. ()) q2) (\<lambda>ack.
     case FspInitiatorSession_handle_ack C ack i1 of (q3, i2) \<Rightarrow>
     bind_res (map_err (\<lambda>_. ()) q3) (\<lambda>_.
     case FspInitiatorSession_build_msg3 C (hp_iepoch p) 512 i2 of (q4, i3) \<Rightarrow>
     bind_res (map_err (\<lambda>_. ()) q4) (\<lambda>msg3.
     case FspSession_handle_msg3 v C msg3 r1 of (q5, r2) \<Rightarrow>
     bind_res (map_err (\<lambda>_. ()) q5) (\<lambda>_. Ok (i3, r2))))))))"

lemma setup_wire:
  assumes "length saddr = 16" "length daddr = 16" "length hs = 33"
  shows "\<exists>setup_msg. build_session_setup 0 [saddr] [daddr] hs 512 = Ok setup_msg \<and> parse_session_setup_full setup_msg = Ok (0, saddr, hs)"
  using session_setup_roundtrip_aux [of "[saddr]" "[daddr]" hs 512 0] assms by (auto simp: bind_res_Ok_iff)

lemma ack_wire:
  assumes "length a = 16" "length b = 16" "length hs \<le> 300"
  shows "\<exists>ack. build_session_ack [a] [b] hs 512 = Ok ack \<and> parse_session_ack ack = Ok hs"
  using session_ack_roundtrip_aux [of "[a]" "[b]" hs 512] assms by (auto simp: bind_res_Ok_iff)

lemma msg3_wire:
  assumes "length hs \<le> 300"
  shows "\<exists>m. build_session_msg3 hs 512 = Ok m \<and> parse_session_msg3 m = Ok hs"
  using session_msg3_roundtrip_aux [of hs 512] assms by (auto simp: bind_res_Ok_iff)

lemma length_node_addr [simp]: "crypto_ok C \<Longrightarrow> length (NodeAddr_from_pubkey_x C x) = 16"
  by (simp add: NodeAddr_from_pubkey_x_def length_sha)

lemma fsp_establish_xk:
  assumes "hp_valid C p" "length saddr = 16" "length daddr = 16"
  shows "\<exists>i r k1 k2. fsp_establish Wire_IK C saddr daddr p = Ok (i, r) \<and> fi_state i = IEstablished \<and> fs_state r = SEstablished
     \<and> FspInitiatorSession_session_keys i = Some (k2, k1) \<and> FspSession_session_keys r = Some (k1, k2)
     \<and> length k1 = 32 \<and> length k2 = 32 \<and> fs_initiator_pub r = pubkey_prim C (hp_is p)"
proof -
  obtain pie pis pre prs where C: "crypto_ok C" and pk: "pubkey_prim C (hp_ie p) = Some pie"
    "pubkey_prim C (hp_is p) = Some pis" "pubkey_prim C (hp_re p) = Some pre" "pubkey_prim C (hp_rs p) = Some prs"
    and par: "hp_parity p \<in> {2, 3}" and ep: "length (hp_iepoch p) = 8" "length (hp_repoch p) = 8"
    using assms by (auto simp: hp_valid_def)
  have lie: "length pie = 33" using length_pubkey [OF C pk(1)] .
  obtain i0 i1 r0 where 1: "NoiseXkInitiator_new C (hp_ie p) (hp_is p) (hp_parity p # tl prs) = Ok (i0, pie)"
      "NoiseXkInitiator_write_message1 C 64 i0 = (Ok pie, i1)" "NoiseXkResponder_new C (hp_rs p) pie = Ok r0"
      "sy_ck r0 = sy_ck i1" "sy_h r0 = sy_h i1" "xkr_ei_pub r0 = pie"
      "xki_e_priv i1 = hp_ie p" "xki_s_priv i1 = hp_is p"
    using xk_message1 [OF C pk(1,4) par, of 64 "hp_is p"] by auto
  obtain msg2 i2 r1 key where 2: "NoiseXkResponder_write_message2 C (hp_re p) (hp_repoch p) 128 r0 = (Ok msg2, r1)" "length msg2 = 57"
      "NoiseXkInitiator_read_message2 C msg2 i1 = (Ok (hp_repoch p), i2)"
      "sy_ck r1 = sy_ck i2" "sy_h r1 = sy_h i2" "sy_k r1 = Some key" "sy_k i2 = Some key" "length key = 32"
      "sy_n r1 = sy_n i2" "xki_re_pub i2 = Some pre" "xkr_e_priv r1 = Some (hp_re p)" "xki_s_priv i2 = hp_is p"
    using xk_message2 [OF C pk(1,3) ep(2) _ 1(4-7), of 128] 1(8) by auto
  obtain msg3 i3 r2 where 3: "NoiseXkInitiator_write_message3 C pis (hp_iepoch p) 128 i2 = (Ok msg3, i3)" "length msg3 = 73"
      "NoiseXkResponder_read_message3 C msg3 r1 = (Ok (pis, hp_iepoch p), r2)" "sy_ck r2 = sy_ck i3"
    using xk_message3 [OF C pk(2,3) ep(1) _ 2(4-12), of 128] by auto
  obtain setup_msg where w1: "build_session_setup 0 [saddr] [daddr] pie 512 = Ok setup_msg" "parse_session_setup_full setup_msg = Ok (0, saddr, pie)"
    using setup_wire [OF assms(2,3) lie] by blast
  obtain ack where w2: "build_session_ack [NodeAddr_from_pubkey_x C (drop 1 (parity_normalize prs))]
      [NodeAddr_from_pubkey_x C (take 32 (drop 1 pie))] msg2 512 = Ok ack" "parse_session_ack ack = Ok msg2"
    using ack_wire [of "NodeAddr_from_pubkey_x C (drop 1 (parity_normalize prs))"
        "NodeAddr_from_pubkey_x C (take 32 (drop 1 pie))" msg2] 2(2) C by auto
  obtain m3 where w3: "build_session_msg3 msg3 512 = Ok m3" "parse_session_msg3 m3 = Ok msg3"
    using msg3_wire [of msg3] 3(2) by auto
  show ?thesis
    using 1(1-3) 2(1-3) 3(1-4) w1 w2 w3 pk lie C
    by (simp add: fsp_establish_def ecdh_pubkey_def FspInitiatorSession_new_def FspInitiatorSession_build_setup_def
        FspSession_handle_setup_def FspInitiatorSession_handle_ack_def FspInitiatorSession_build_msg3_def
        FspSession_handle_msg3_def session_write1_def session_msg2_def session_read2_def session_write3_def
        session_read3_def FspSession_new_def step_simps split_beta Let_def modm_def initiator_finalize_def
        session_finalize_def NoiseXkInitiator_finalize_def NoiseXkResponder_finalize_def
        FspInitiatorSession_session_keys_def FspSession_session_keys_def)
qed

lemma fsp_neg: "\<exists>neg. encode_payload 64 0 0 0 None = Ok neg \<and> length neg = 10"
  by (simp add: encode_payload_def)

lemma fsp_establish_xx:
  assumes "hp_valid C p" "length saddr = 16" "length daddr = 16"
  shows "\<exists>i r k1 k2. fsp_establish Wire_XX C saddr daddr p = Ok (i, r) \<and> fi_state i = IEstablished \<and> fs_state r = SEstablished
     \<and> FspInitiatorSession_session_keys i = Some (k2, k1) \<and> FspSession_session_keys r = Some (k1, k2)
     \<and> length k1 = 32 \<and> length k2 = 32 \<and> fs_initiator_pub r = pubkey_prim C (hp_is p)"
proof -
  obtain pie pis pre prs where C: "crypto_ok C" and pk: "pubkey_prim C (hp_ie p) = Some pie"
    "pubkey_prim C (hp_is p) = Some pis" "pubkey_prim C (hp_re p) = Some pre" "pubkey_prim C (hp_rs p) = Some prs"
    and ep: "length (hp_iepoch p) = 8" "length (hp_repoch p) = 8"
    using assms by (auto simp: hp_valid_def)
  have lie: "length pie = 33" and lrs: "length prs = 33" using length_pubkey [OF C] pk by auto
  have pin: "drop (Suc 0) prs = tl prs" by (simp add: drop_Suc)
  obtain neg where neg: "encode_payload 64 0 0 0 None = Ok neg" "length neg = 10" using fsp_neg by blast
  obtain i0 i1 r0 r1 where 1: "NoiseXxInitiator_new C (hp_ie p) (hp_is p) = Ok (i0, pie)" "NoiseXxResponder_new C (hp_rs p) = Ok r0"
      "NoiseXxInitiator_write_message1 C 64 i0 = (Ok pie, i1)" "NoiseXxResponder_read_message1 C pie r0 = (Ok (), r1)"
      "sy_h r1 = sy_h i1" "sy_ck r1 = sy_ck i1" "xxr_ei_pub r1 = Some pie" "xxr_s_priv r1 = hp_rs p" "xxr_s_pub r1 = prs"
      "xxi_e_priv i1 = hp_ie p" "xxi_s_priv i1 = hp_is p"
    using xx_message1 [OF C pk(1,4), of 64 "hp_is p"] by auto
  obtain msg2 i2 r2 where 2: "NoiseXxResponder_write_message2 C (hp_re p) (hp_repoch p) 186 r1 = (Ok msg2, r2)" "length msg2 = 106"
      "NoiseXxInitiator_read_message2 C msg2 i1 = (Ok (prs, hp_repoch p), i2)" "xx_synced i2 r2"
      "xxi_re_pub i2 = Some pre" "xxr_e_priv r2 = Some (hp_re p)" "xxi_s_priv i2 = hp_is p"
    using xx_message2 [OF C pk(1,3,4) ep(2) _ 1(5-10), of 186] 1(11) by auto
  obtain encr i3 r3 where 3: "NoiseXxResponder_encrypt_payload C neg 80 r2 = (Ok encr, r3)" "length encr = 26"
      "NoiseXxInitiator_decrypt_payload C encr 64 i2 = (Ok neg, i3)" "xx_synced i3 r3"
      "xxi_re_pub i3 = Some pre" "xxi_s_priv i3 = hp_is p" "xxr_e_priv r3 = Some (hp_re p)"
    using xx_payload_down [OF C 2(4), of neg 80 64] neg 2(5-7) by auto
  obtain msg3 i4 r4 where 4: "NoiseXxInitiator_write_message3 C pis (hp_iepoch p) 153 i3 = (Ok msg3, i4)" "length msg3 = 73"
      "NoiseXxResponder_read_message3 C msg3 r3 = (Ok (pis, hp_iepoch p), r4)" "xx_synced i4 r4"
    using xx_message3 [OF C pk(2,3) ep(1) _ 3(4-7), of 153] by auto
  obtain enci i5 r5 where 5: "NoiseXxInitiator_encrypt_payload C neg 80 i4 = (Ok enci, i5)" "length enci = 26"
      "NoiseXxResponder_decrypt_payload C enci 64 r4 = (Ok neg, r5)" "sy_ck r5 = sy_ck i5"
    using xx_payload_up [OF C 4(4), of neg 80 64] neg by (auto simp: xx_synced_def)
  obtain setup_msg where w1: "build_session_setup 0 [saddr] [daddr] pie 512 = Ok setup_msg" "parse_session_setup_full setup_msg = Ok (0, saddr, pie)"
    using setup_wire [OF assms(2,3) lie] by blast
  obtain ack where w2: "build_session_ack [NodeAddr_from_pubkey_x C (drop 1 (parity_normalize prs))] [saddr] (msg2 @ encr) 512 = Ok ack"
      "parse_session_ack ack = Ok (msg2 @ encr)"
    using ack_wire [of "NodeAddr_from_pubkey_x C (drop 1 (parity_normalize prs))" saddr "msg2 @ encr"] 2(2) 3(2) C assms by auto
  obtain m3 where w3: "build_session_msg3 (msg3 @ enci) 512 = Ok m3" "parse_session_msg3 m3 = Ok (msg3 @ enci)"
    using msg3_wire [of "msg3 @ enci"] 4(2) 5(2) by auto
  show ?thesis
    using 1(1-4) 2(1-3) 3(1-3) 4(1-3) 5 neg w1 w2 w3 pk lie C pin
    by (simp add: fsp_establish_def ecdh_pubkey_def FspInitiatorSession_new_def FspInitiatorSession_build_setup_def
        FspSession_handle_setup_def FspInitiatorSession_handle_ack_def FspInitiatorSession_build_msg3_def
        FspSession_handle_msg3_def session_write1_def session_msg2_def session_read2_def session_write3_def
        session_read3_def FspSession_new_def step_simps split_beta Let_def modm_def initiator_finalize_def
        session_finalize_def NoiseXxInitiator_finalize_def NoiseXxResponder_finalize_def
        FspInitiatorSession_session_keys_def FspSession_session_keys_def split_msg2_noise_def split_msg3_noise_def
        split_handshake_noise_def)
qed

definition fsp_valid :: "crypto \<Rightarrow> node_addr \<times> node_addr \<times> handshake_params \<Rightarrow> bool" where
  "fsp_valid C x = (case x of (saddr, daddr, p) \<Rightarrow> hp_valid C p \<and> length saddr = 16 \<and> length daddr = 16)"

definition fsp_run :: "wire \<Rightarrow> crypto \<Rightarrow> node_addr \<times> node_addr \<times> handshake_params \<Rightarrow> (key_pair \<times> key_pair, noise_error) res" where
  "fsp_run v C x = (case x of (saddr, daddr, p) \<Rightarrow>
     bind_res (map_err (\<lambda>_. InvalidState) (fsp_establish v C saddr daddr p)) (\<lambda>(i, r).
     bind_res (ok_or (FspInitiatorSession_session_keys i) InvalidState) (\<lambda>(ir, isd).
     bind_res (ok_or (FspSession_session_keys r) InvalidState) (\<lambda>(rr, rs). Ok ((isd, ir), (rs, rr))))))"

lemma fsp_establishes:
  assumes "hp_valid C p" "length saddr = 16" "length daddr = 16"
  shows "\<exists>i r k1 k2. fsp_establish v C saddr daddr p = Ok (i, r) \<and> fi_state i = IEstablished \<and> fs_state r = SEstablished
     \<and> FspInitiatorSession_session_keys i = Some (k2, k1) \<and> FspSession_session_keys r = Some (k1, k2)
     \<and> length k1 = 32 \<and> length k2 = 32 \<and> fs_initiator_pub r = pubkey_prim C (hp_is p)"
  by (cases v) (simp_all only: fsp_establish_xk [OF assms] fsp_establish_xx [OF assms])

lemma fsp_run_agrees:
  assumes "fsp_valid C x"
  shows "\<exists>k1 k2. fsp_run v C x = Ok ((k1, k2), (k2, k1)) \<and> length k1 = 32 \<and> length k2 = 32"
proof -
  obtain saddr daddr p where x: "x = (saddr, daddr, p)" by (metis prod_cases3)
  then show ?thesis
    using assms fsp_establishes [of C p saddr daddr v] by (auto simp: fsp_valid_def fsp_run_def)
qed

interpretation fspa: key_agreement C "fsp_valid C" "fsp_run v C" for v C
  by unfold_locales (rule fsp_run_agrees)

lemma established_accepts_data:
  assumes "crypto_ok C" "fs_state r = SEstablished" "FspSession_session_keys r = Some (k1, k2)" "length k1 = 32"
    "length payload \<le> 490" "length a = 16" "length b = 16"
  shows "\<exists>msg. build_fsp_data_message C counter ts payload k1 1024 = Ok msg
     \<and> handle_fsp_datagram v C sec eph ep (build_session_datagram_body a b @ msg) cap r = (Ok HNone, r)"
proof -
  obtain msg hdr ct where m: "build_fsp_data_message C counter ts payload k1 1024 = Ok msg"
    "parse_fsp_encrypted_header msg = Ok (0, counter, hdr, ct)"
    "bind_res (map_err (\<lambda>_. ()) (aead_decrypt C k1 counter hdr ct 512)) fsp_strip_inner_header = Ok (ts, FSP_MSG_DATA, 0, payload)"
    using fsp_data_message_aux [OF assms(1,4,5), of 1024 counter ts] assms(5) by auto
  have ph: "28 \<le> length msg" "msg ! 0 AND 0x0F = 0"
    using m(2) by (auto simp: parse_fsp_encrypted_header_def reject_if_def split: if_splits)
  then have hd: "msg \<noteq> []" "hd msg AND 0x0F = 0" by (cases msg; simp)+
  obtain pt where pt: "aead_decrypt C k1 counter hdr ct 512 = Ok pt" "fsp_strip_inner_header pt = Ok (ts, FSP_MSG_DATA, 0, payload)"
    using m(3) by (cases "aead_decrypt C k1 counter hdr ct 512") auto
  have body: "length (build_session_datagram_body a b) = 35" using assms(6,7) by (simp add: build_session_datagram_body_def)
  have "handle_established_phase C msg r = (Ok HNone, r)"
    using assms(2,3) m(2) pt by (simp add: handle_established_phase_def step_simps)
  then show ?thesis
    using m(1) hd body by (simp add: handle_fsp_datagram_def step_simps Let_def)
qed

lemma xx_read2_learns:
  "NoiseXxInitiator_read_message2 C payload m = (Ok (pub, ep), m') \<Longrightarrow> xxi_rs_pub m' = Some pub"
  by (auto simp: NoiseXxInitiator_read_message2_def slicem_def step_OkE mixk_eq mixh_eq dest!: decm_OkD)

lemma build_setup_keeps_xx:
  assumes "FspInitiatorSession_build_setup C a b cap i = (Ok x, i')" "fi_initiator i = Some (XxInit m)"
  shows "\<exists>m'. fi_initiator i' = Some (XxInit m')"
  using assms by (auto simp: FspInitiatorSession_build_setup_def session_write1_def step_OkE split: prod.splits)

lemma ack_accepted:
  assumes "hp_valid C p"
  shows "\<exists>s m ack s'. fi_initiator s = Some (XxInit m) \<and> FspInitiatorSession_handle_ack C ack s = (Ok (), s')"
proof -
  obtain i r where "fsp_establish Wire_XX C (replicate 16 0) (replicate 16 0) p = Ok (i, r)"
    using fsp_establish_xx [OF assms, of "replicate 16 0" "replicate 16 0"] by auto
  then obtain rs_pub i0 setup_msg ack where
      new: "FspInitiatorSession_new Wire_XX C (hp_is p) (hp_ie p) (hp_parity p # tl rs_pub) = Ok i0"
      and b: "fst (FspInitiatorSession_build_setup C (replicate 16 0) (replicate 16 0) 512 i0) = Ok setup_msg"
      and a: "fst (FspInitiatorSession_handle_ack C ack (snd (FspInitiatorSession_build_setup C (replicate 16 0) (replicate 16 0) 512 i0))) = Ok ()"
    unfolding fsp_establish_def bind_res_Ok_iff prod.case_eq_if by auto
  from new obtain m0 where "fi_initiator i0 = Some (XxInit m0)"
    by (auto simp: FspInitiatorSession_new_def bind_res_Ok_iff)
  with build_setup_keeps_xx b a show ?thesis by (metis prod.collapse)
qed

section \<open>Properties\<close>

text \<open>C9. The session handshake works end to end over its own wire formats, on both wire versions:
  after setup, acknowledgement and third message both sessions are established, hold the same two
  32-byte keys with send and receive exchanged, and the responder has recorded exactly the
  initiator's static key.  A data message built with the initiator's send key is then accepted by
  the responder's datagram handler.\<close>

theorem fsp_session_end_to_end:
  assumes "hp_valid C p" "length saddr = 16" "length daddr = 16" "length payload \<le> 490"
  shows "\<exists>i r k1 k2 msg. fsp_establish v C saddr daddr p = Ok (i, r) \<and> fi_state i = IEstablished \<and> fs_state r = SEstablished
     \<and> FspInitiatorSession_session_keys i = Some (k2, k1) \<and> FspSession_session_keys r = Some (k1, k2)
     \<and> fs_initiator_pub r = pubkey_prim C (hp_is p)
     \<and> build_fsp_data_message C counter ts payload k1 1024 = Ok msg
     \<and> handle_fsp_datagram v C sec eph ep (build_session_datagram_body saddr daddr @ msg) cap r = (Ok HNone, r)"
proof -
  have "crypto_ok C" using assms(1) by (simp add: hp_valid_def)
  then show ?thesis
    using fsp_establishes [OF assms(1-3), of v] established_accepts_data [of C _ _ _ payload saddr daddr counter ts v sec eph ep cap]
      assms by metis
qed

theorem fsp_session_end_to_end_witness:
  "\<exists>i r k1 k2 msg. fsp_establish Wire_XX sample_crypto (replicate 16 1) (replicate 16 2) sample_hp = Ok (i, r)
     \<and> fi_state i = IEstablished \<and> fs_state r = SEstablished
     \<and> FspInitiatorSession_session_keys i = Some (k2, k1) \<and> FspSession_session_keys r = Some (k1, k2)
     \<and> fs_initiator_pub r = pubkey_prim sample_crypto (hp_is sample_hp)
     \<and> build_fsp_data_message sample_crypto 0 5 [1, 2, 3] k1 1024 = Ok msg
     \<and> handle_fsp_datagram Wire_XX sample_crypto [] [] [] (build_session_datagram_body (replicate 16 1) (replicate 16 2) @ msg) 256 r = (Ok HNone, r)"
  by (rule fsp_session_end_to_end [OF sample_hp_valid]) simp_all

text \<open>Whatever datagrams a responder session has processed, it is well formed (keys exactly when
  established, a machine ready for the third message exactly while it waits for it), and the
  datagram handler can panic in no other way than through the setup parser.\<close>

theorem fsp_reachable_safe:
  assumes "fsp_reachable v C s"
  shows "fsp_session_inv v s
     \<and> (fst (handle_fsp_datagram v C sec eph ep payload cap s) = Panic \<longleftrightarrow>
          36 \<le> length payload \<and> payload ! 35 AND 0x0F = PHASE_SESSION_SETUP
          \<and> parse_session_setup_full (drop 35 payload) = Panic)"
  using fsp_reachable_inv [OF assms] handle_fsp_datagram_inv [of v s C sec eph ep payload cap] by (metis prod.collapse)

theorem fsp_reachable_safe_witness:
  "fsp_session_inv Wire_IK FspSession_new
     \<and> (fst (handle_fsp_datagram Wire_IK sample_crypto [] [] [] [1, 2] 64 FspSession_new) = Panic \<longleftrightarrow>
          36 \<le> length [1 :: byte, 2] \<and> [1 :: byte, 2] ! 35 AND 0x0F = PHASE_SESSION_SETUP
          \<and> parse_session_setup_full (drop 35 [1, 2]) = Panic)"
  by (rule fsp_reachable_safe [OF fsp_reachable.new])

text \<open>Any datagram with the setup phase nibble, authentic or not and well formed or not, ends a
  session in progress: afterwards the session is not established and holds no keys.\<close>

theorem fsp_setup_drops_session:
  assumes "fs_state s \<noteq> SIdle" "36 \<le> length payload" "payload ! 35 AND 0x0F = PHASE_SESSION_SETUP"
  shows "\<exists>s'. snd (handle_fsp_datagram v C sec eph ep payload cap s) = s'
     \<and> fs_state s' \<noteq> SEstablished \<and> fs_k_recv s' = None \<and> fs_k_send s' = None"
proof -
  have h: "drop 35 payload \<noteq> []" "hd (drop 35 payload) AND 0x0F = PHASE_SESSION_SETUP"
    using assms(2,3) by (simp_all add: hd_drop_conv_nth)
  obtain q s' where a: "handle_setup_phase v C sec eph ep (build_session_datagram_body (take 16 (drop 19 payload)) (take 16 (drop 3 payload)))
      (drop 35 payload) cap s = (q, s')" by fastforce
  show ?thesis
    using assms(2) h a setup_phase_drops_session [OF assms(1) a]
    by (simp add: handle_fsp_datagram_def step_simps Let_def)
qed

theorem fsp_setup_drops_session_witness:
  "\<exists>s'. snd (handle_fsp_datagram Wire_IK sample_crypto [] [] [] (replicate 35 0 @ [1])  64
        \<lparr>fs_state = SEstablished, fs_responder = None, fs_k_recv = Some (replicate 32 1), fs_k_send = Some (replicate 32 2),
         fs_initiator_pub = Some [], fs_send_counter = 4\<rparr>) = s'
     \<and> fs_state s' \<noteq> SEstablished \<and> fs_k_recv s' = None \<and> fs_k_send s' = None"
  by (rule fsp_setup_drops_session) (simp_all add: nth_append)

text \<open>C33. On the XX wire an initiator session accepts an acknowledgement only from the responder it was
  opened for: whenever \<^verbatim>\<open>handle_ack\<close> succeeds, the static key learned in message 2 has the pinned
  x-coordinate.\<close>

theorem fsp_ack_pins_responder:
  assumes "FspInitiatorSession_handle_ack C ack s = (Ok (), s')" "fi_initiator s = Some (XxInit m)"
  shows "fi_state s' = IAwaitingEstablished \<and> (\<exists>m' pub. fi_initiator s' = Some (XxInit m') \<and> xxi_rs_pub m' = Some pub
     \<and> take 32 (drop 1 pub) = take 32 (drop 1 (fi_pinned_responder_pub s)))"
proof -
  have rs: "xxi_rs_pub m2 = xxi_rs_pub m1" if "NoiseXxInitiator_decrypt_payload C enc cap m1 = (q, m2)" for enc cap m1 m2 q
    using that by (cases "sy_k m1")
      (auto simp: NoiseXxInitiator_decrypt_payload_def decm_cases decm_def step_simps split: res.splits)
  show ?thesis
    using assms
    by (auto simp: FspInitiatorSession_handle_ack_def step_OkE session_read2_def xx_read2_learns
        split: prod.splits res.splits if_splits option.splits dest: rs xx_read2_learns)
qed

theorem fsp_ack_pins_responder_witness:
  "\<exists>s m ack s'. fi_initiator s = Some (XxInit m) \<and> FspInitiatorSession_handle_ack sample_crypto ack s = (Ok (), s')
     \<and> fi_state s' = IAwaitingEstablished \<and> (\<exists>m' pub. fi_initiator s' = Some (XxInit m') \<and> xxi_rs_pub m' = Some pub
     \<and> take 32 (drop 1 pub) = take 32 (drop 1 (fi_pinned_responder_pub s)))"
proof -
  obtain s m ack s' where h: "fi_initiator s = Some (XxInit m)" "FspInitiatorSession_handle_ack sample_crypto ack s = (Ok (), s')"
    using ack_accepted [OF sample_hp_valid] by blast
  show ?thesis using fsp_ack_pins_responder [OF h(2,1)] h by blast
qed

end
