(* ===== verification/Steady.thy ===== *)
theory Steady
  imports NodeHandshake FspSession
begin

text \<open>
  The established link of crates/microfips-protocol/src/node.rs: process\_frame\_action,
  maybe\_handle\_mmp\_control, the rekey functions, the loop steady with its receive and timer branches,
  and session and run around it.

  The locals of \<^verbatim>\<open>steady\<close> are the record \<open>steady\<close>, which extends the node.  Each round of the loop is one
  \<open>steady_step\<close>: the idle check at the top, with the instant at which the previous round ended, then
  the outcome of the \<^verbatim>\<open>select\<close>, which the environment chooses together with the instant \<open>now\<close> that every
  clock reading of that round yields.  A step ends the loop by an error of type \<open>steady_exit\<close>, the two
  ways \<^verbatim>\<open>steady\<close> returns.  Wiping of retired keys and the display counters (snapshot\_stats) are left out.
\<close>

section \<open>State\<close>

definition DRAIN_WINDOW_SECS :: nat where [simp]: "DRAIN_WINDOW_SECS = 10"
definition REKEY_DAMPENING_SECS :: nat where [simp]: "REKEY_DAMPENING_SECS = 30"

text \<open>The handshake state of \<^verbatim>\<open>RekeyInit\<close> is that of the pattern compiled in.\<close>

datatype rekey_machine = RK_IK ik_initiator | RK_XX xx_initiator

record rekey_init_state =
  ri_hs :: rekey_machine
  ri_our_index :: session_index
  ri_msg1 :: bytes
  ri_resends :: nat
  ri_next_resend_at :: instant

record 'h steady = "'h node" +
  st_now :: instant
  st_rx :: rx_buf
  st_epoch :: bytes
  st_slots :: slots
  next_hb :: instant
  next_sr :: instant
  next_rr :: instant
  sr_start_ctr :: u64
  sr_start_ts :: u32
  prev_drain_base :: instant
  bad_frame_grace_until :: instant
  session_started :: instant
  rekey_init :: "rekey_init_state option"
  pend_self :: bool
  last_peer_rekey_at :: "instant option"
  last_rekey_msg1 :: "bytes option"
  last_rekey_msg2 :: "bytes option"
  last_fresh_answer_at :: "instant option"
  rekey_hs :: "(xx_responder \<times> session_index \<times> session_index) option"
  last_rx :: instant

datatype steady_exit = Exit_ok | Exit_err protocol_error

type_synonym ('h, 'a) sstep = "('h steady, steady_exit, 'a) estep"

text \<open>A step whose error is an absent value, seen from the outside.\<close>

definition optm :: "('s, unit, 'a) estep \<Rightarrow> ('s, 'e, 'a option) estep" where
  "optm m s = (case m s of (Ok x, s') \<Rightarrow> (Ok (Some x), s') | (Err _, s') \<Rightarrow> (Ok None, s') | (Panic, s') \<Rightarrow> (Panic, s'))"

text \<open>\<^verbatim>\<open>let _ = self.send_frame(..)\<close>.\<close>

definition send_ignored :: "bytes \<Rightarrow> (('h, 'z) node_scheme, 'e, unit) estep" where
  "send_ignored f n = (Ok (), snd (node_send_frame f n))"

text \<open>A node operation on the current slot.\<close>

definition with_cur :: "(epoch_slot \<Rightarrow> ('h steady, protocol_error, 'a \<times> epoch_slot) estep) \<Rightarrow> ('h, 'a) sstep" where
  "with_cur f =
     bindm (getm (\<lambda>s. sl_cur (st_slots s))) (\<lambda>slot.
     bindm (map_errm Exit_err (f slot)) (\<lambda>(x, slot1).
     bindm (modm (\<lambda>s. s\<lparr>st_slots := (st_slots s)\<lparr>sl_cur := slot1\<rparr>\<rparr>)) (\<lambda>_. retm x)))"

text \<open>\<^verbatim>\<open>self.resp_buf[..n].copy_from_slice(..)\<close>.\<close>

definition put_resp :: "bytes \<Rightarrow> (('h, 'z) node_scheme, 'e, unit) estep" where
  "put_resp bs n = (if length bs \<le> length (nd_resp n) then (Ok (), n\<lparr>nd_resp := splice (nd_resp n) 0 bs\<rparr>) else (Panic, n))"

section \<open>Actions of opened frames\<close>

definition process_frame_action ::
  "'h env \<Rightarrow> instant \<Rightarrow> frame_action \<Rightarrow> epoch_slot \<Rightarrow> ('h, 'z, bool \<times> epoch_slot) nstep" where
  "process_frame_action E now action slot =
     (case action of
        FA_Continue \<Rightarrow> retm (False, slot)
      | FA_HeartbeatRecv \<Rightarrow>
          bindm (modm (upd_policy record_heartbeat)) (\<lambda>_.
          bindm (modm (on_event_node E now HeartbeatRecvEv)) (\<lambda>_. retm (False, slot)))
      | FA_PeerDC _ \<Rightarrow> retm (True, slot)
      | FA_SelfDC \<Rightarrow> bindm (send_disconnect E now DISC_REASON_SHUTDOWN slot) (\<lambda>slot1. retm (True, slot1))
      | FA_SendDatagram len \<Rightarrow>
          bindm (modm (upd_policy record_data_frame)) (\<lambda>_.
          bindm (send_session_datagram E now len slot) (\<lambda>slot1. retm (False, slot1)))
      | FA_SendLinkMessage msg_type len \<Rightarrow>
          bindm (modm (upd_policy record_data_frame)) (\<lambda>_.
          bindm (send_link_message E now msg_type len slot) (\<lambda>slot1. retm (False, slot1))))"

text \<open>The receiver report that answers a sender report, and what a receiver report updates.\<close>

definition mmp_answer_report :: "'h env \<Rightarrow> instant \<Rightarrow> ('h, 'z, frame_action) nstep" where
  "mmp_answer_report E now =
     bindm (getm (\<lambda>n. mp_receiver (nd_mmp n))) (\<lambda>rcv.
     if \<not> ReceiverState_should_send_report now rcv then retm FA_Continue
     else case ReceiverState_build_report (ev_f64 E) now rcv of (rr, rcv1) \<Rightarrow>
       bindm (modm (upd_mmp E (\<lambda>m. m\<lparr>mp_receiver := rcv1\<rparr>))) (\<lambda>_.
       case rr of
         None \<Rightarrow> retm FA_Continue
       | Some r \<Rightarrow> (let encoded = ReceiverReport_encode (ev_wire E) r
                   in bindm (put_resp encoded) (\<lambda>_. retm (FA_SendLinkMessage MSG_RECEIVER_REPORT (length encoded))))))"

definition mmp_take_report :: "f64_ops \<Rightarrow> instant \<Rightarrow> receiver_report \<Rightarrow> mmp_peer_state \<Rightarrow> mmp_peer_state" where
  "mmp_take_report F now rr m =
     (let m1 = m\<lparr>mp_metrics := snd (process_receiver_report rr (of_nat (as_millis now)) now (mp_metrics m))\<rparr>;
          srtt = mm_srtt (mp_metrics m1);
          m2 = (if srtt_initialized srtt
                then let us = f_srtt_us F (srtt_us srtt)
                     in m1\<lparr>mp_sender := SenderState_update_report_interval us (mp_sender m1),
                           mp_receiver := ReceiverState_update_report_interval us (mp_receiver m1)\<rparr>
                else m1)
      in m2\<lparr>mp_metrics := update_reverse_delivery (rs_cum_packets (mp_receiver m2)) (rs_highest (mp_receiver m2)) (mp_metrics m2)\<rparr>)"

definition maybe_handle_mmp_control :: "'h env \<Rightarrow> instant \<Rightarrow> decrypted_frame \<Rightarrow> ('h, 'z, frame_action option) nstep" where
  "maybe_handle_mmp_control E now frame =
     (if df_msg_type frame = MSG_SENDER_REPORT then
        (case SenderReport_decode (ev_wire E) (df_payload frame) of
           Ok _ \<Rightarrow> bindm (mmp_answer_report E now) (\<lambda>a. retm (Some a))
         | Err _ \<Rightarrow> retm (Some FA_Continue)
         | Panic \<Rightarrow> liftm Panic)
      else if df_msg_type frame = MSG_RECEIVER_REPORT then
        (case ReceiverReport_decode (ev_wire E) (df_payload frame) of
           Ok rr \<Rightarrow> bindm (modm (upd_mmp E (mmp_take_report (ev_f64 E) now rr))) (\<lambda>_. retm (Some FA_Continue))
         | Err _ \<Rightarrow> retm (Some FA_Continue)
         | Panic \<Rightarrow> liftm Panic)
      else retm None)"

section \<open>Rekeying\<close>

text \<open>The parts of \<^verbatim>\<open>initiate_rekey\<close> that depend on the pattern.\<close>

definition rekey_new :: "'h env \<Rightarrow> bytes \<Rightarrow> bytes \<Rightarrow> bytes \<Rightarrow> (rekey_machine, unit) res" where
  "rekey_new E eph nsec peer_npub =
     (case ev_wire E of
        Wire_IK \<Rightarrow> bind_res (map_err (\<lambda>_. ()) (NoiseIkInitiator_new (ev_crypto E) eph nsec peer_npub)) (\<lambda>(hs, _). Ok (RK_IK hs))
      | Wire_XX \<Rightarrow> bind_res (map_err (\<lambda>_. ()) (NoiseXxInitiator_new (ev_crypto E) eph nsec)) (\<lambda>(hs, _). Ok (RK_XX hs)))"

definition rekey_write1 :: "'h env \<Rightarrow> bytes \<Rightarrow> bytes \<Rightarrow> (rekey_machine, unit, bytes) estep" where
  "rekey_write1 E my_pub epoch m =
     (case m of
        RK_IK hs \<Rightarrow> (case NoiseIkInitiator_write_message1 (ev_crypto E) my_pub epoch 256 hs of
                      (r, hs1) \<Rightarrow> (map_err (\<lambda>_. ()) r, RK_IK hs1))
      | RK_XX hs \<Rightarrow> (case NoiseXxInitiator_write_message1 (ev_crypto E) 256 hs of
                      (r, hs1) \<Rightarrow> (map_err (\<lambda>_. ()) r, RK_XX hs1)))"

definition initiate_rekey :: "'h env \<Rightarrow> instant \<Rightarrow> bytes \<Rightarrow> (('h, 'z) node_scheme, unit, rekey_init_state) estep" where
  "initiate_rekey E now epoch =
     bindm (getm nd_nsec) (\<lambda>nsec. bindm (getm nd_peer_npub) (\<lambda>peer_npub.
     bindm (liftm (case ev_wire E of Wire_IK \<Rightarrow> map_err (\<lambda>_. ()) (ecdh_pubkey (ev_crypto E) nsec) | Wire_XX \<Rightarrow> Ok [])) (\<lambda>my_pub.
     bindm (map_errm (\<lambda>_. ()) (generate_valid_eph E)) (\<lambda>eph.
     bindm (liftm (rekey_new E eph nsec peer_npub)) (\<lambda>hs0.
     case rekey_write1 E my_pub epoch hs0 of (r, hs) \<Rightarrow>
     bindm (liftm r) (\<lambda>n1.
     bindm (map_errm (\<lambda>_. ()) allocate_session_index) (\<lambda>our_index.
     bindm (liftm (build_msg1 (ev_wire E) our_index n1 256)) (\<lambda>msg1.
     bindm (map_errm (\<lambda>_. ()) (node_send_frame msg1)) (\<lambda>_.
     bindm (getm (\<lambda>n. handshake_resend_interval_ms (nd_timing n))) (\<lambda>ms.
       retm \<lparr>ri_hs = hs, ri_our_index = our_index, ri_msg1 = msg1, ri_resends = 0,
             ri_next_resend_at = now + from_millis ms\<rparr>))))))))))"

definition answer_rekey_msg1_ik ::
  "'h env \<Rightarrow> session_index \<Rightarrow> bytes \<Rightarrow> bytes \<Rightarrow> bool \<Rightarrow> (('h, 'z) node_scheme, unit, epoch_slot \<times> bytes) estep" where
  "answer_rekey_msg1_ik E peer_sender_idx noise_payload epoch cur_k_bit =
     (let C = ev_crypto E in
     bindm (getm nd_nsec) (\<lambda>nsec. bindm (getm nd_peer_npub) (\<lambda>peer_npub.
     bindm (guardm (length noise_payload < PUBKEY_SIZE) ()) (\<lambda>_.
     bindm (liftm (slice noise_payload 0 PUBKEY_SIZE)) (\<lambda>e_init_pub.
     bindm (liftm (map_err (\<lambda>_. ()) (NoiseIkResponder_new C nsec e_init_pub))) (\<lambda>r0.
     case NoiseIkResponder_read_message1 C (drop PUBKEY_SIZE noise_payload) r0 of (q1, r1) \<Rightarrow>
     bindm (liftm (map_err (\<lambda>_. ()) q1)) (\<lambda>(init_pub, _).
     bindm (guardm (take 32 (drop 1 init_pub) \<noteq> take 32 (drop 1 peer_npub)) ()) (\<lambda>_.
     bindm (map_errm (\<lambda>_. ()) (generate_valid_eph E)) (\<lambda>resp_eph.
     case NoiseIkResponder_write_message2 C resp_eph epoch 128 r1 of (q2, r2) \<Rightarrow>
     bindm (liftm (map_err (\<lambda>_. ()) q2)) (\<lambda>msg2_noise.
     bindm (map_errm (\<lambda>_. ()) allocate_session_index) (\<lambda>resp_index.
     bindm (liftm (build_msg2 (ev_wire E) resp_index peer_sender_idx msg2_noise 256)) (\<lambda>msg2.
       case NoiseIkResponder_finalize C r2 of (c1, c2) \<Rightarrow>
         retm (new_slot c2 c1 peer_sender_idx (\<not> cur_k_bit), msg2)))))))))))))"

definition begin_rekey_xx ::
  "'h env \<Rightarrow> session_index \<Rightarrow> bytes \<Rightarrow> bytes \<Rightarrow> (('h, 'z) node_scheme, unit, xx_responder \<times> session_index \<times> bytes) estep" where
  "begin_rekey_xx E peer_sender_idx noise_payload epoch =
     (let C = ev_crypto E in
     bindm (getm nd_nsec) (\<lambda>nsec.
     bindm (guardm (length noise_payload \<noteq> XX_HANDSHAKE_MSG1_SIZE) ()) (\<lambda>_.
     bindm (liftm (map_err (\<lambda>_. ()) (NoiseXxResponder_new C nsec))) (\<lambda>r0.
     case NoiseXxResponder_read_message1 C noise_payload r0 of (q1, r1) \<Rightarrow>
     bindm (liftm (map_err (\<lambda>_. ()) q1)) (\<lambda>_.
     bindm (map_errm (\<lambda>_. ()) (generate_valid_eph E)) (\<lambda>resp_eph.
     case NoiseXxResponder_write_message2 C resp_eph epoch 128 r1 of (q2, r2) \<Rightarrow>
     bindm (liftm (map_err (\<lambda>_. ()) q2)) (\<lambda>msg2_noise.
     bindm (map_errm (\<lambda>_. ()) allocate_session_index) (\<lambda>resp_index.
     bindm (liftm (build_msg2 (ev_wire E) resp_index peer_sender_idx msg2_noise 256)) (\<lambda>msg2.
       retm (r2, resp_index, msg2))))))))))"

section \<open>Handshake frames on the established link\<close>

text \<open>An authenticated sign of the peer.\<close>

definition heard :: "instant \<Rightarrow> 'h steady \<Rightarrow> 'h steady" where
  "heard now s = upd_policy record_good_frame (s\<lparr>last_rx := now\<rparr>)"

definition set_pend :: "epoch_slot option \<Rightarrow> 'h steady \<Rightarrow> 'h steady" where
  "set_pend p s = s\<lparr>st_slots := (st_slots s)\<lparr>sl_pend := p\<rparr>\<rparr>"

text \<open>Answering a Msg1 that is not the one answered last; the result says whether it was accepted.\<close>

definition answer_fresh_msg1 :: "'h env \<Rightarrow> session_index \<Rightarrow> bytes \<Rightarrow> bytes \<Rightarrow> ('h, bool) sstep" where
  "answer_fresh_msg1 E sender_idx np msg1_wire =
     bindm (getm st_epoch) (\<lambda>epoch.
     bindm (getm (\<lambda>s. es_k_bit (sl_cur (st_slots s)))) (\<lambda>k.
     case ev_wire E of
       Wire_IK \<Rightarrow>
         bindm (optm (answer_rekey_msg1_ik E sender_idx np epoch k)) (\<lambda>r.
         case r of
           None \<Rightarrow> retm False
         | Some (slot, msg2) \<Rightarrow>
             bindm (send_ignored msg2) (\<lambda>_.
             bindm (modm (set_pend (Some slot))) (\<lambda>_.
             bindm (modm (\<lambda>s. s\<lparr>last_rekey_msg1 := Some msg1_wire, last_rekey_msg2 := Some msg2\<rparr>)) (\<lambda>_. retm True))))
     | Wire_XX \<Rightarrow>
         bindm (optm (begin_rekey_xx E sender_idx np epoch)) (\<lambda>r.
         case r of
           None \<Rightarrow> retm False
         | Some (responder, resp_index, msg2) \<Rightarrow>
             bindm (send_ignored msg2) (\<lambda>_.
             bindm (modm (\<lambda>s. s\<lparr>rekey_hs := Some (responder, resp_index, sender_idx), last_rekey_msg1 := Some msg1_wire,
                               last_rekey_msg2 := Some msg2\<rparr>)) (\<lambda>_. retm True)))))"

definition steady_msg1 :: "'h env \<Rightarrow> instant \<Rightarrow> session_index \<Rightarrow> bytes \<Rightarrow> bytes \<Rightarrow> ('h, unit) sstep" where
  "steady_msg1 E now sender_idx noise_payload frame_data =
     (let np = take 128 noise_payload; msg1_wire = take 128 frame_data in
     bindm (getm (\<lambda>s. s)) (\<lambda>s.
     if last_rekey_msg1 s = Some msg1_wire then
       bindm (case last_rekey_msg2 s of Some msg2 \<Rightarrow> send_ignored msg2 | None \<Rightarrow> retm ()) (\<lambda>_.
         modm (\<lambda>s. heard now (s\<lparr>last_peer_rekey_at := Some now\<rparr>)))
     else if case last_fresh_answer_at s of None \<Rightarrow> True
             | Some t \<Rightarrow> from_millis (rekey_answer_min_interval_ms (nd_timing s)) \<le> now - t then
       bindm (modm (\<lambda>s. s\<lparr>last_fresh_answer_at := Some now\<rparr>)) (\<lambda>_.
       bindm (answer_fresh_msg1 E sender_idx np msg1_wire) (\<lambda>answered.
         if answered then modm (\<lambda>s. heard now (s\<lparr>last_peer_rekey_at := Some now\<rparr>)) else retm ()))
     else retm ()))"

definition steady_msg3 :: "'h env \<Rightarrow> instant \<Rightarrow> xx_responder \<times> session_index \<times> session_index \<Rightarrow> bytes \<Rightarrow> ('h, unit) sstep" where
  "steady_msg3 E now hs noise_payload =
     (case hs of (responder, _, their_idx) \<Rightarrow>
     bindm (modm (\<lambda>s. s\<lparr>rekey_hs := None\<rparr>)) (\<lambda>_.
     bindm (getm (\<lambda>s. s)) (\<lambda>s.
     case NoiseXxResponder_read_message3 (ev_crypto E) noise_payload responder of
       (Panic, _) \<Rightarrow> liftm Panic
     | (Err _, _) \<Rightarrow> modm (heard now)
     | (Ok (init_pub, _), r1) \<Rightarrow>
         (if take 32 (drop 1 init_pub) = take 32 (drop 1 (nd_peer_npub s)) then
            (case NoiseXxResponder_finalize (ev_crypto E) r1 of (c1, c2) \<Rightarrow>
               bindm (modm (set_pend (Some (new_slot c2 c1 their_idx (\<not> es_k_bit (sl_cur (st_slots s))))))) (\<lambda>_.
                 modm (heard now)))
          else modm (heard now)))))"

text \<open>What the Msg2 for the rekey in flight makes of it.\<close>

datatype rekey_outcome = RK_done bytes bytes | RK_failed | RK_impostor

definition xx_rekey_msg3 ::
  "'h env \<Rightarrow> session_index \<Rightarrow> xx_initiator \<Rightarrow> session_index \<Rightarrow> bytes \<Rightarrow> (('h, 'z) node_scheme, unit, key_pair) estep" where
  "xx_rekey_msg3 E our_index hs1 sender_idx epoch =
     (let C = ev_crypto E in
     bindm (getm nd_nsec) (\<lambda>nsec.
     bindm (liftm (map_err (\<lambda>_. ()) (ecdh_pubkey C nsec))) (\<lambda>my_pub.
     case NoiseXxInitiator_write_message3 C my_pub epoch 128 hs1 of (q, hs2) \<Rightarrow>
     bindm (liftm (map_err (\<lambda>_. ()) q)) (\<lambda>n3.
     bindm (liftm (build_msg3 (ev_wire E) our_index sender_idx n3 256)) (\<lambda>msg3.
     bindm (map_errm (\<lambda>_. ()) (node_send_frame msg3)) (\<lambda>_.
       retm (NoiseXxInitiator_finalize C hs2)))))))"

definition rekey_complete ::
  "'h env \<Rightarrow> rekey_init_state \<Rightarrow> session_index \<Rightarrow> bytes \<Rightarrow> ('h, rekey_outcome) sstep" where
  "rekey_complete E ri sender_idx np2 =
     (let C = ev_crypto E in
     case ri_hs ri of
       RK_IK hs \<Rightarrow>
         (case NoiseIkInitiator_read_message2 C np2 hs of
            (Ok _, hs1) \<Rightarrow> (case NoiseIkInitiator_finalize C hs1 of (c1, c2) \<Rightarrow> retm (RK_done c1 c2))
          | (Err _, _) \<Rightarrow> retm RK_failed
          | (Panic, _) \<Rightarrow> liftm Panic)
     | RK_XX hs \<Rightarrow>
         (case NoiseXxInitiator_read_message2 C np2 hs of
            (Err _, _) \<Rightarrow> retm RK_failed
          | (Panic, _) \<Rightarrow> liftm Panic
          | (Ok (resp_pub, _), hs1) \<Rightarrow>
              bindm (getm (\<lambda>s. s)) (\<lambda>s.
              if take 32 (drop 1 resp_pub) \<noteq> take 32 (drop 1 (nd_peer_npub s)) then retm RK_impostor
              else bindm (optm (xx_rekey_msg3 E (ri_our_index ri) hs1 sender_idx (st_epoch s))) (\<lambda>r.
                retm (case r of Some (c1, c2) \<Rightarrow> RK_done c1 c2 | None \<Rightarrow> RK_failed)))))"

definition steady_msg2 ::
  "'h env \<Rightarrow> instant \<Rightarrow> rekey_init_state \<Rightarrow> session_index \<Rightarrow> session_index \<Rightarrow> bytes \<Rightarrow> ('h, unit) sstep" where
  "steady_msg2 E now ri sender_idx receiver_idx noise_payload =
     (if receiver_idx \<noteq> ri_our_index ri then modm (heard now)
      else
        bindm (modm (\<lambda>s. s\<lparr>rekey_init := None\<rparr>)) (\<lambda>_.
        bindm (rekey_complete E ri sender_idx (take 128 noise_payload)) (\<lambda>completed.
        case completed of
          RK_impostor \<Rightarrow> retm ()
        | RK_failed \<Rightarrow> modm (heard now)
        | RK_done c1 c2 \<Rightarrow>
            bindm (modm (\<lambda>s. set_pend (Some (new_slot c1 c2 sender_idx (\<not> es_k_bit (sl_cur (st_slots s))))) s)) (\<lambda>_.
            bindm (modm (\<lambda>s. s\<lparr>pend_self := True\<rparr>)) (\<lambda>_.
              modm (heard now))))))"

section \<open>Established frames\<close>

text \<open>\<open>promote\<close> makes the pending epoch the current one and keeps the old one for stragglers.\<close>

definition promote :: "'h env \<Rightarrow> instant \<Rightarrow> epoch_slot \<Rightarrow> 'h steady \<Rightarrow> 'h steady" where
  "promote E now new_cur s =
     upd_mmp E (MmpPeerState_reset_for_rekey now)
       (s\<lparr>st_slots := \<lparr>sl_cur = new_cur, sl_pend = None, sl_prev = Some (sl_cur (st_slots s))\<rparr>,
          prev_drain_base := now, session_started := now,
          bad_frame_grace_until := now + from_secs (bad_frame_grace_secs (nd_timing s))\<rparr>)"

definition dispatch_node :: "'h env \<Rightarrow> instant \<Rightarrow> decrypted_frame \<Rightarrow> ('h, 'z, frame_action) nstep" where
  "dispatch_node E now frame n =
     (case dispatch_link_message (ev_bench E) (ev_wire E) (ev_handler E) now frame (nd_throughput n) (nd_resp n) (nd_handler n) of
        (a, tp, resp, h) \<Rightarrow> (case a of Some x \<Rightarrow> Ok x | None \<Rightarrow> Panic, n\<lparr>nd_throughput := tp, nd_resp := resp, nd_handler := h\<rparr>))"

text \<open>From the accounting of an opened frame to its action.\<close>

definition run_action :: "'h env \<Rightarrow> instant \<Rightarrow> frame_action \<Rightarrow> ('h, unit) sstep" where
  "run_action E now action =
     bindm (with_cur (process_frame_action E now action)) (\<lambda>done. guardm done Exit_ok)"

definition handle_opened :: "'h env \<Rightarrow> instant \<Rightarrow> decrypted_frame \<Rightarrow> ('h, unit) sstep" where
  "handle_opened E now frame =
     bindm (modm (upd_mmp E (\<lambda>m. m\<lparr>mp_receiver := ReceiverState_record_recv (df_counter frame) (df_timestamp frame)
       (df_frame_bytes frame) False now (mp_receiver m)\<rparr>))) (\<lambda>_.
     bindm (if ev_mmp E then map_errm Exit_err (maybe_handle_mmp_control E now frame) else retm None) (\<lambda>ctl.
     case ctl of
       Some action \<Rightarrow> run_action E now action
     | None \<Rightarrow> bindm (map_errm Exit_err (dispatch_node E now frame)) (run_action E now)))"

definition disconnect_exit :: "'h env \<Rightarrow> instant \<Rightarrow> byte \<Rightarrow> protocol_error \<Rightarrow> ('h, unit) sstep" where
  "disconnect_exit E now reason e =
     bindm (with_cur (\<lambda>slot. bindm (send_disconnect E now reason slot) (\<lambda>slot1. retm ((), slot1)))) (\<lambda>_.
       liftm (Err (Exit_err e)))"

definition reject_frame :: "'h env \<Rightarrow> instant \<Rightarrow> ('h, unit) sstep" where
  "reject_frame E now =
     bindm (getm bad_frame_grace_until) (\<lambda>grace.
     if now < grace then retm ()
     else
       bindm (modm (upd_policy record_bad_frame)) (\<lambda>_.
       bindm (getm nd_policy) (\<lambda>p.
       if check_bad_frame_limit p = Reject \<or> check_total_bad_frame_limit p = Reject then
         disconnect_exit E now DISC_REASON_SECURITY_VIOLATION Disconnected
       else retm ())))"

definition steady_established :: "'h env \<Rightarrow> instant \<Rightarrow> bytes \<Rightarrow> ('h, unit) sstep" where
  "steady_established E now frame_data =
     bindm (getm st_slots) (\<lambda>slots0.
     case trial_decrypt (ev_ptr E) (ev_crypto E) (ev_wire E) frame_data slots0 of (w, slots1) \<Rightarrow>
     bindm (modm (\<lambda>s. s\<lparr>st_slots := slots1\<rparr>)) (\<lambda>_.
     case w of
       Winner_panic \<Rightarrow> liftm Panic
     | No_slot \<Rightarrow> reject_frame E now
     | From_cur f \<Rightarrow> bindm (modm (heard now)) (\<lambda>_. handle_opened E now f)
     | From_pend f \<Rightarrow>
         bindm (modm (heard now)) (\<lambda>_.
         bindm (liftm (unwrap (sl_pend slots1))) (\<lambda>new_cur.
         bindm (modm (promote E now new_cur)) (\<lambda>_. handle_opened E now f)))
     | From_prev f \<Rightarrow>
         bindm (modm (heard now)) (\<lambda>_.
         bindm (modm (\<lambda>s. s\<lparr>prev_drain_base := now\<rparr>)) (\<lambda>_. handle_opened E now f))))"

section \<open>The receive branch\<close>

definition route_frame :: "'h env \<Rightarrow> instant \<Rightarrow> bytes \<Rightarrow> ('h, unit) sstep" where
  "route_frame E now frame_data =
     bindm (getm (\<lambda>s. s)) (\<lambda>s.
     case parse_message (ev_wire E) frame_data of
       Ok (Msg1 sender_idx noise_payload) \<Rightarrow> steady_msg1 E now sender_idx noise_payload frame_data
     | Ok (Msg3 _ _ noise_payload) \<Rightarrow>
         (case (ev_wire E, rekey_hs s) of
            (Wire_XX, Some hs) \<Rightarrow> steady_msg3 E now hs noise_payload
          | _ \<Rightarrow> steady_established E now frame_data)
     | Ok (Msg2 sender_idx receiver_idx noise_payload) \<Rightarrow>
         (case rekey_init s of
            Some ri \<Rightarrow> steady_msg2 E now ri sender_idx receiver_idx noise_payload
          | None \<Rightarrow> steady_established E now frame_data)
     | Panic \<Rightarrow> liftm Panic
     | _ \<Rightarrow> steady_established E now frame_data)"

definition steady_frame :: "'h env \<Rightarrow> instant \<Rightarrow> bytes \<Rightarrow> ('h, unit) sstep" where
  "steady_frame E now frame_data =
     bindm (getm (\<lambda>s. check_frame_rate now (nd_policy s))) (\<lambda>(verdict, p).
     bindm (modm (upd_policy (\<lambda>_. p))) (\<lambda>_.
     if verdict = Reject then retm () else route_frame E now frame_data))"

text \<open>The loop over the frames in the receive buffer; no handler touches the buffer.\<close>

definition extract_frame :: "wire \<Rightarrow> bool \<Rightarrow> rx_buf \<Rightarrow> (bytes \<times> nat, unit) res" where
  "extract_frame v raw x =
     (if raw then extract_raw_frame v (rbuf x) (rpos x) (rlen x)
      else extract_length_prefixed_frame (rbuf x) (rpos x) (rlen x))"

lemma extract_frame_advances: "extract_frame v raw x = Ok (f, p) \<Longrightarrow> rpos x < p \<and> p \<le> rlen x"
  by (auto simp: extract_frame_def split: if_splits dest: extract_raw_advances extract_length_prefixed_advances)

function steady_frames ::
  "'h env \<Rightarrow> instant \<Rightarrow> rx_buf \<Rightarrow> 'h steady \<Rightarrow> (unit, steady_exit) res \<times> rx_buf \<times> 'h steady" where
  "steady_frames E now x s =
     (if rpos x < rlen x then
        (case extract_frame (ev_wire E) (nd_raw_framing s) x of
           Panic \<Rightarrow> (Panic, x, s)
         | Err _ \<Rightarrow> (Ok (), x, s)
         | Ok (frame_data, new_pos) \<Rightarrow>
             (let x1 = x\<lparr>rpos := new_pos\<rparr>
              in if frame_data = [] then steady_frames E now x1 s
                 else case steady_frame E now frame_data s of
                        (Ok _, s1) \<Rightarrow> steady_frames E now x1 s1
                      | (Err e, s1) \<Rightarrow> (Err e, x1, s1)
                      | (Panic, s1) \<Rightarrow> (Panic, x1, s1)))
      else (Ok (), x, s))"
  by pat_completeness auto
termination
  by (relation "measure (\<lambda>(E, now, x, s). rlen x - rpos x)") (auto dest: extract_frame_advances)

declare steady_frames.simps [simp del]

text \<open>
  Taking received data into the buffer: \<open>Ok None\<close> is the overflow of the stream, which drops the
  buffer and goes back to the top of the loop.
\<close>

definition load_rx :: "bool \<Rightarrow> bytes \<Rightarrow> rx_buf \<Rightarrow> (rx_buf option, steady_exit) res" where
  "load_rx raw d x =
     (if raw then
        (if length (rbuf x) < length d \<or> RECV_BUF_SIZE < length d then Panic
         else Ok (Some (x\<lparr>rbuf := splice (rbuf x) 0 d, rpos := 0, rlen := length d\<rparr>)))
      else if length (rbuf x) < rlen x + length d then Ok None
      else if RECV_BUF_SIZE < length d then Panic
      else Ok (Some (x\<lparr>rbuf := splice (rbuf x) (rlen x) d, rlen := rlen x + length d\<rparr>)))"

definition drained :: "rx_buf \<Rightarrow> rx_buf" where
  "drained x = (if rlen x \<le> rpos x then x\<lparr>rpos := 0, rlen := 0\<rparr> else x)"

definition heartbeat_due :: "'h env \<Rightarrow> instant \<Rightarrow> ('h, unit) sstep" where
  "heartbeat_due E now =
     bindm (with_cur (\<lambda>slot. bindm (send_heartbeat E now slot) (\<lambda>(slot1, t). retm (t, slot1)))) (\<lambda>t.
     bindm (modm (\<lambda>s. s\<lparr>next_hb := t\<rparr>)) (\<lambda>_.
       modm (on_event_node E now HeartbeatSent)))"

text \<open>Sending the report held in the response buffer.\<close>

definition send_report :: "'h env \<Rightarrow> instant \<Rightarrow> byte \<Rightarrow> bytes \<Rightarrow> ('h, unit) sstep" where
  "send_report E now msg_type body =
     bindm (put_resp body) (\<lambda>_.
       with_cur (\<lambda>slot. bindm (send_link_message E now msg_type (length body) slot) (\<lambda>slot1. retm ((), slot1))))"

definition send_sender_report :: "'h env \<Rightarrow> instant \<Rightarrow> ('h, unit) sstep" where
  "send_sender_report E now =
     bindm (getm (\<lambda>s. SenderState_build_report now (mp_sender (nd_mmp s)))) (\<lambda>(sr, snd1).
     bindm (modm (upd_mmp E (\<lambda>m. m\<lparr>mp_sender := snd1\<rparr>))) (\<lambda>_.
     case sr of
       None \<Rightarrow> retm ()
     | Some r \<Rightarrow> send_report E now MSG_SENDER_REPORT (SenderReport_encode (ev_wire E) r)))"

definition send_receiver_report :: "'h env \<Rightarrow> instant \<Rightarrow> ('h, unit) sstep" where
  "send_receiver_report E now =
     bindm (getm (\<lambda>s. ReceiverState_build_report (ev_f64 E) now (mp_receiver (nd_mmp s)))) (\<lambda>(rr, rcv1).
     bindm (modm (upd_mmp E (\<lambda>m. m\<lparr>mp_receiver := rcv1\<rparr>))) (\<lambda>_.
     case rr of
       None \<Rightarrow> retm ()
     | Some r \<Rightarrow> send_report E now MSG_RECEIVER_REPORT (ReceiverReport_encode (ev_wire E) r)))"

text \<open>The report an IK build without the feature \<^verbatim>\<open>mmp\<close> assembles by hand.\<close>

definition plain_sender_report :: "wire \<Rightarrow> u64 \<Rightarrow> u64 \<Rightarrow> u32 \<Rightarrow> u32 \<Rightarrow> bytes" where
  "plain_sender_report v start_ctr send_ctr start_ts end_ts =
     splice (splice (splice (splice (replicate (SENDER_REPORT_BODY_SIZE v) 0) 3 (le64 start_ctr)) 11 (le64 send_ctr))
       19 (le32 start_ts)) 23 (le32 end_ts)"

definition sender_report_due :: "'h env \<Rightarrow> instant \<Rightarrow> ('h, unit) sstep" where
  "sender_report_due E now =
     (if ev_mmp E then
        bindm (getm (\<lambda>s. ev_wire E = Wire_IK \<or> mmp_send_sr s)) (\<lambda>wanted.
        bindm (if wanted then send_sender_report E now else retm ()) (\<lambda>_.
          modm (\<lambda>s. s\<lparr>next_sr := now + from_millis (ss_report_interval_ms (mp_sender (nd_mmp s)))\<rparr>)))
      else
        bindm (modm (\<lambda>s. s\<lparr>next_sr := now + from_secs (heartbeat_interval_secs (nd_timing s))\<rparr>)) (\<lambda>_.
        case ev_wire E of
          Wire_XX \<Rightarrow> retm ()
        | Wire_IK \<Rightarrow>
            (let sr_end_ts = of_nat (as_millis now) in
            bindm (getm (\<lambda>s. plain_sender_report (ev_wire E) (sr_start_ctr s) (es_send_ctr (sl_cur (st_slots s))) (sr_start_ts s) sr_end_ts)) (\<lambda>sr.
            bindm (send_report E now MSG_SENDER_REPORT sr) (\<lambda>_.
              modm (\<lambda>s. s\<lparr>sr_start_ctr := es_send_ctr (sl_cur (st_slots s)), sr_start_ts := sr_end_ts\<rparr>))))))"

definition receiver_report_due :: "'h env \<Rightarrow> instant \<Rightarrow> ('h, unit) sstep" where
  "receiver_report_due E now =
     bindm (send_receiver_report E now) (\<lambda>_.
       modm (\<lambda>s. s\<lparr>next_rr := now + from_millis (rs_report_interval_ms (mp_receiver (nd_mmp s)))\<rparr>))"

text \<open>\<open>whenm\<close> is an \<^verbatim>\<open>if\<close> without \<^verbatim>\<open>else\<close> whose condition reads the state.\<close>

definition whenm :: "('s \<Rightarrow> bool) \<Rightarrow> ('s, 'e, unit) estep \<Rightarrow> ('s, 'e, unit) estep" where
  "whenm c m s = (if c s then m s else (Ok (), s))"

definition reports_due :: "'h env \<Rightarrow> instant \<Rightarrow> ('h, unit) sstep" where
  "reports_due E now =
     bindm (whenm (\<lambda>s. next_sr s \<le> now) (sender_report_due E now)) (\<lambda>_.
       whenm (\<lambda>s. ev_wire E = Wire_XX \<and> ev_mmp E \<and> next_rr s \<le> now \<and> mmp_send_rr s) (receiver_report_due E now))"

definition tick_due :: "'h env \<Rightarrow> instant \<Rightarrow> instant option \<Rightarrow> ('h, unit) sstep" where
  "tick_due E now tick =
     (case tick of
        None \<Rightarrow> retm ()
      | Some t \<Rightarrow>
          if now < t then retm ()
          else
            bindm (getm (\<lambda>s. on_tick (ev_handler E) now (nd_resp s) (nd_handler s))) (\<lambda>(r, resp, h).
            bindm (modm (\<lambda>s. s\<lparr>nd_resp := resp, nd_handler := h\<rparr>)) (\<lambda>_.
            case r of
              None \<Rightarrow> liftm Panic
            | Some (HR_SendDatagram len) \<Rightarrow>
                with_cur (\<lambda>slot. bindm (send_session_datagram E now len slot) (\<lambda>slot1. retm ((), slot1)))
            | Some _ \<Rightarrow> retm ())))"

definition run_frames :: "'h env \<Rightarrow> instant \<Rightarrow> rx_buf \<Rightarrow> ('h, unit) sstep" where
  "run_frames E now x s =
     (case steady_frames E now x s of 
        (Ok u, x1, s1) \<Rightarrow> (Ok u, s1\<lparr>st_rx := drained x1\<rparr>)
      | (r, x1, s1) \<Rightarrow> (r, s1\<lparr>st_rx := x1\<rparr>))"

definition steady_recv :: "'h env \<Rightarrow> instant \<Rightarrow> instant option \<Rightarrow> bytes \<Rightarrow> ('h, unit) sstep" where
  "steady_recv E now tick d =
     bindm (getm (\<lambda>s. load_rx (nd_raw_framing s) d (st_rx s))) (\<lambda>loaded.
     bindm (liftm loaded) (\<lambda>x.
     case x of
       None \<Rightarrow> modm (\<lambda>s. s\<lparr>st_rx := (st_rx s)\<lparr>rpos := 0, rlen := 0\<rparr>\<rparr>)
     | Some x1 \<Rightarrow>
         bindm (run_frames E now x1) (\<lambda>_.
         bindm (whenm (\<lambda>s. next_hb s \<le> now) (heartbeat_due E now)) (\<lambda>_.
         bindm (reports_due E now) (\<lambda>_.
           tick_due E now tick)))))"

section \<open>The timer branch\<close>

definition promote_own :: "'h env \<Rightarrow> instant \<Rightarrow> ('h, unit) sstep" where
  "promote_own E now =
     modm (\<lambda>s. case sl_pend (st_slots s) of
       Some new_cur \<Rightarrow> if pend_self s then (promote E now new_cur s)\<lparr>pend_self := False\<rparr> else s
     | None \<Rightarrow> s)"

definition rekey_due :: "instant \<Rightarrow> 'h steady \<Rightarrow> bool" where
  "rekey_due now s \<longleftrightarrow> rekey_init s = None \<and> sl_pend (st_slots s) = None \<and>
     \<not> (case last_peer_rekey_at s of Some t \<Rightarrow> as_secs (now - t) < REKEY_DAMPENING_SECS | None \<Rightarrow> False) \<and>
     (0 < rekey_after_secs (nd_timing s) \<and> rekey_after_secs (nd_timing s) \<le> as_secs (now - session_started s) \<or>
      0 < rekey_after_messages (nd_timing s) \<and> rekey_after_messages (nd_timing s) \<le> unat (es_send_ctr (sl_cur (st_slots s))))"

definition start_rekey :: "'h env \<Rightarrow> instant \<Rightarrow> ('h, unit) sstep" where
  "start_rekey E now =
     bindm (getm st_epoch) (\<lambda>epoch.
     bindm (optm (initiate_rekey E now epoch)) (\<lambda>r.
     case r of Some ri \<Rightarrow> modm (\<lambda>s. s\<lparr>rekey_init := Some ri\<rparr>) | None \<Rightarrow> retm ()))"

definition resend_rekey :: "'h env \<Rightarrow> instant \<Rightarrow> ('h, unit) sstep" where
  "resend_rekey E now =
     bindm (getm (\<lambda>s. s)) (\<lambda>s.
     case rekey_init s of
       None \<Rightarrow> retm ()
     | Some ri \<Rightarrow>
         if now < ri_next_resend_at ri then retm ()
         else if handshake_max_resends (nd_timing s) \<le> ri_resends ri then modm (\<lambda>s. s\<lparr>rekey_init := None\<rparr>)
         else
           bindm (send_ignored (ri_msg1 ri)) (\<lambda>_.
             modm (\<lambda>s. s\<lparr>rekey_init := Some (ri\<lparr>ri_resends := ri_resends ri + 1,
               ri_next_resend_at := now + from_millis (current_handshake_resend_timeout_ms s (ri_resends ri + 1))\<rparr>)\<rparr>)))"

definition drain_prev :: "instant \<Rightarrow> ('h, unit) sstep" where
  "drain_prev now =
     modm (\<lambda>s. if sl_prev (st_slots s) \<noteq> None \<and> DRAIN_WINDOW_SECS < as_secs (now - prev_drain_base s)
               then s\<lparr>st_slots := (st_slots s)\<lparr>sl_prev := None\<rparr>\<rparr> else s)"

definition silent_peer_check :: "'h env \<Rightarrow> instant \<Rightarrow> ('h, unit) sstep" where
  "silent_peer_check E now =
     whenm (\<lambda>s. check_silent_peer now (nd_policy s) = Reject)
       (disconnect_exit E now DISC_REASON_RESOURCE_EXHAUSTION Disconnected)"

definition steady_timer :: "'h env \<Rightarrow> instant \<Rightarrow> instant option \<Rightarrow> ('h, unit) sstep" where
  "steady_timer E now tick =
     bindm (promote_own E now) (\<lambda>_.
     bindm (whenm (rekey_due now) (start_rekey E now)) (\<lambda>_.
     bindm (resend_rekey E now) (\<lambda>_.
     bindm (drain_prev now) (\<lambda>_.
     bindm (whenm (\<lambda>s. next_hb s \<le> now) (bindm (heartbeat_due E now) (\<lambda>_. silent_peer_check E now))) (\<lambda>_.
     bindm (reports_due E now) (\<lambda>_.
       tick_due E now tick))))))"

section \<open>The loop\<close>

datatype steady_event = RxReady rx_event | TimerFired

definition idle_check :: "'h env \<Rightarrow> ('h, unit) sstep" where
  "idle_check E =
     bindm (getm (\<lambda>s. s)) (\<lambda>s.
     if nt_link_dead_timeout_secs (nd_timing s) < as_secs (st_now s - last_rx s)
     then disconnect_exit E (st_now s) DISC_REASON_TRANSPORT_FAILURE Timeout
     else retm ())"

definition steady_deadline :: "'h env \<Rightarrow> 'h steady \<Rightarrow> instant" where
  "steady_deadline E s =
     (let base = (case ev_wire E of Wire_IK \<Rightarrow> min (next_hb s) (next_sr s)
                                  | Wire_XX \<Rightarrow> min (min (next_hb s) (next_sr s)) (next_rr s))
      in case poll_at (ev_handler E) (nd_handler s) of None \<Rightarrow> base | Some t \<Rightarrow> min t base)"

definition steady_step :: "'h env \<Rightarrow> instant \<Rightarrow> steady_event \<Rightarrow> ('h, unit) sstep" where
  "steady_step E now ev =
     bindm (idle_check E) (\<lambda>_.
     bindm (getm (\<lambda>s. poll_at (ev_handler E) (nd_handler s))) (\<lambda>tick.
     bindm (modm (\<lambda>s. s\<lparr>st_now := now\<rparr>)) (\<lambda>_.
     case ev of
       RxReady (Rx d) \<Rightarrow> steady_recv E now tick d
     | RxReady RxErr \<Rightarrow> disconnect_exit E now DISC_REASON_TRANSPORT_FAILURE Disconnected
     | TimerFired \<Rightarrow> steady_timer E now tick)))"

text \<open>The loop on a finite history; \<open>Ok ()\<close> means that it is still running at its end.\<close>

fun steady_loop :: "'h env \<Rightarrow> (instant \<times> steady_event) list \<Rightarrow> ('h, unit) sstep" where
  "steady_loop E [] = retm ()"
| "steady_loop E ((now, ev) # evs) = bindm (steady_step E now ev) (\<lambda>_. steady_loop E evs)"

definition steady_init ::
  "instant \<Rightarrow> bytes \<Rightarrow> bytes \<Rightarrow> bytes \<Rightarrow> session_index \<Rightarrow> rx_buf \<Rightarrow> 'h node \<Rightarrow> 'h steady" where
  "steady_init now epoch ks kr them x n =
     (let half = from_secs (heartbeat_interval_secs (nd_timing n) div 2) in
     node.extend n (steady.fields now x epoch \<lparr>sl_cur = new_slot ks kr them False, sl_pend = None, sl_prev = None\<rparr>
       (now + from_secs 1) (now + half) (now + half) 0 (of_nat (as_millis now)) now
       (now + from_secs (bad_frame_grace_secs (nd_timing n))) now None False None None None None None now))"

section \<open>Sessions\<close>

text \<open>
  What the environment contributes to one session: whether the transport becomes ready, when the session starts, what it delivers
  during the handshake, when the handshake returns, and the history of the established link.
\<close>

record session_world =
  sw_ready :: bool
  sw_start :: instant
  sw_rx :: "rx_event list list"
  sw_done :: instant
  sw_events :: "(instant \<times> steady_event) list"

datatype session_end = Running | Ended "(unit, protocol_error) res"

definition empty_buf :: "rx_buf \<Rightarrow> rx_buf" where
  "empty_buf x = x\<lparr>rpos := 0, rlen := 0\<rparr>"

definition exit_result :: "steady_exit \<Rightarrow> (unit, protocol_error) res" where
  "exit_result x = (case x of Exit_ok \<Rightarrow> Ok () | Exit_err e \<Rightarrow> Err e)"

definition established_session ::
  "'h env \<Rightarrow> session_world \<Rightarrow> bytes \<Rightarrow> link_keys \<Rightarrow> rx_buf \<Rightarrow> 'h node \<Rightarrow> session_end \<times> rx_buf \<times> 'h node" where
  "established_session E w epoch keys x n =
     (case keys of (ks, kr, them) \<Rightarrow>
      let n1 = on_event_node E (sw_done w) HandshakeOk (upd_policy (record_handshake_ok (sw_done w)) n)
      in case steady_loop E (sw_events w) (steady_init (sw_done w) epoch ks kr them (empty_buf x) n1) of
           (Ok _, s) \<Rightarrow> (Running, st_rx s, node.truncate s)
         | (Panic, s) \<Rightarrow> (Ended Panic, st_rx s, node.truncate s)
         | (Err e, s) \<Rightarrow>
             (Ended (exit_result e), st_rx s, on_event_node E (st_now s) DisconnectedEv (upd_policy reset_session (node.truncate s))))"

definition session :: "'h env \<Rightarrow> session_world \<Rightarrow> rx_buf \<Rightarrow> 'h node \<Rightarrow> session_end \<times> rx_buf \<times> 'h node" where
  "session E w x n =
     (if \<not> sw_ready w then (Ended (Err Disconnected), x, n)
      else case advance_epoch n of
        (Ok epoch, n1) \<Rightarrow>
          (let n2 = on_event_node E (sw_start w) Connected n1;
               n3 = (if ev_bench E then n2\<lparr>nd_throughput := ThroughputState_default\<rparr> else n2)
           in case handshake E (sw_start w) epoch \<lparr>rx_rxbuf = empty_buf x, rx_script = sw_rx w\<rparr> n3 of
                (Ok keys, x1, n4) \<Rightarrow> established_session E w epoch keys (rx_rxbuf x1) n4
              | (Err e, x1, n4) \<Rightarrow>
                  (Ended (Err e), rx_rxbuf x1,
                   on_event_node E (sw_done w) ErrorEv (upd_policy (\<lambda>p. reset_session (record_handshake_failure (sw_done w) p)) n4))
              | (Panic, x1, n4) \<Rightarrow> (Ended Panic, rx_rxbuf x1, n4))
      | (r, n1) \<Rightarrow> (Ended Panic, x, n1))"

text \<open>One round of \<^verbatim>\<open>run\<close>; \<open>None\<close> when the policy rejects it.\<close>

record round_world =
  rw_check :: instant
  rw_connect :: instant
  rw_session :: session_world

definition run_round :: "'h env \<Rightarrow> round_world \<Rightarrow> rx_buf \<Rightarrow> 'h node \<Rightarrow> session_end option \<times> rx_buf \<times> 'h node" where
  "run_round E w x n =
     (case check_reconnect (rw_check w) (nd_policy n) of (verdict, p) \<Rightarrow>
      let n1 = n\<lparr>nd_policy := p\<rparr>
      in if verdict = Reject then (None, x, n1)
         else case session E (rw_session w) x (upd_policy (record_connect_attempt (rw_connect w)) n1) of
                (r, x1, n2) \<Rightarrow> (Some r, x1, n2))"

text \<open>The rounds of \<^verbatim>\<open>run\<close> on a finite history; a session that still runs or panics is the last one.\<close>

fun run :: "'h env \<Rightarrow> round_world list \<Rightarrow> rx_buf \<Rightarrow> 'h node \<Rightarrow> session_end option list \<times> rx_buf \<times> 'h node" where
  "run E [] x n = ([], x, n)"
| "run E (w # ws) x n =
     (case run_round E w x n of (r, x1, n1) \<Rightarrow>
        if r = Some Running \<or> r = Some (Ended Panic) then ([r], x1, n1)
        else case run E ws x1 n1 of (rs, x2, n2) \<Rightarrow> (r # rs, x2, n2))"

end
