(* ===== verification/SteadySafety.thy ===== *)
theory SteadySafety
  imports Steady
begin

text \<open>
  Safety of the established link.  The contract a node relies on from its application is the locale
  \<open>buffer_handler\<close>: a handler does not panic, writes only into the 320 bytes it is given and asks to
  send at most as many.
  Under it every branch of the loop keeps the invariant \<open>steady_inv\<close> and cannot panic, whatever the
  peer or anybody else sends; the only way to a panic in the model is that the random generator stops
  delivering (\<open>drawn_out\<close>), where the code would loop.
\<close>

section \<open>Specification\<close>

text \<open>
  \<open>ok_at\<close> is the triple the proofs compose: from this state the step keeps the invariant \<open>I\<close> and panics only
  into \<open>X\<close>.  \<open>slots_ok\<close> is the invariant of the key epochs: well-formed replay windows, and a pending or
  previous epoch always carries the opposite key-epoch bit of the current one.
\<close>

definition ok_at :: "('s \<Rightarrow> bool) \<Rightarrow> ('s \<Rightarrow> bool) \<Rightarrow> ('s, 'e, 'a) estep \<Rightarrow> 's \<Rightarrow> bool" where
  "ok_at I X m s \<longleftrightarrow> (case m s of (r, s') \<Rightarrow> I s' \<and> (r = Panic \<longrightarrow> X s'))"

definition drawn_out :: "('h, 'z) node_scheme \<Rightarrow> bool" where
  "drawn_out n \<longleftrightarrow> rng_blocks (nd_rng n) = [] \<or> rng_words (nd_rng n) = []"

definition slot_ok :: "epoch_slot \<Rightarrow> bool" where
  "slot_ok x \<longleftrightarrow> length (bitmap (es_replay x)) = 32"

definition slots_ok :: "slots \<Rightarrow> bool" where
  "slots_ok sl \<longleftrightarrow> slot_ok (sl_cur sl) \<and>
     (\<forall>p. sl_pend sl = Some p \<longrightarrow> slot_ok p \<and> es_k_bit p \<noteq> es_k_bit (sl_cur sl)) \<and>
     (\<forall>p. sl_prev sl = Some p \<longrightarrow> slot_ok p \<and> es_k_bit p \<noteq> es_k_bit (sl_cur sl))"

definition rekey_ok :: "(xx_responder \<times> session_index \<times> session_index) option \<Rightarrow> bool" where
  "rekey_ok hs = (case hs of None \<Rightarrow> True | Some (r, _, _) \<Rightarrow> sy_k r \<noteq> None \<and> xxr_e_priv r \<noteq> None)"

definition rx_fits :: "rx_buf \<Rightarrow> bool" where
  "rx_fits x \<longleftrightarrow> length (rbuf x) = MAX_FRAME_SIZE \<and> rpos x \<le> rlen x \<and> rlen x \<le> MAX_FRAME_SIZE"

definition steady_inv :: "('h \<Rightarrow> bool) \<Rightarrow> 'h steady \<Rightarrow> bool" where
  "steady_inv hinv s \<longleftrightarrow> slots_ok (st_slots s) \<and> rekey_ok (rekey_hs s) \<and> rx_fits (st_rx s) \<and>
     length (nd_resp s) = 320 \<and> hinv (nd_handler s)"

locale buffer_handler =
  fixes H :: "'h handler_ops" and hinv :: "'h \<Rightarrow> bool"
  assumes on_event_inv: "hinv h \<Longrightarrow> hinv (on_event H now ev h)"
    and on_message_inv: "hinv h \<Longrightarrow> length resp = 320 \<Longrightarrow> on_message H now t p resp h = (r, resp', h') \<Longrightarrow>
      hinv h' \<and> length resp' = 320 \<and> r \<noteq> None \<and> (\<forall>len. r = Some (HR_SendDatagram len) \<longrightarrow> len \<le> 320)"
    and on_tick_inv: "hinv h \<Longrightarrow> length resp = 320 \<Longrightarrow> on_tick H now resp h = (r, resp', h') \<Longrightarrow>
      hinv h' \<and> length resp' = 320 \<and> r \<noteq> None \<and> (\<forall>len. r = Some (HR_SendDatagram len) \<longrightarrow> len \<le> 320)"

definition slot_sends :: "('h \<Rightarrow> bool) \<Rightarrow> (epoch_slot \<Rightarrow> ('h steady, 'e, 'a \<times> epoch_slot) estep) \<Rightarrow> bool" where
  "slot_sends hinv f \<longleftrightarrow> (\<forall>slot s. steady_inv hinv s \<longrightarrow> (\<exists>x c s'. f slot s = (Ok (x, slot\<lparr>es_send_ctr := c\<rparr>), s') \<and>
     steady_inv hinv s' \<and> st_slots s' = st_slots s))"

definition win_ok :: "winner \<times> slots \<Rightarrow> bool" where
  "win_ok ws \<longleftrightarrow> slots_ok (snd ws) \<and> fst ws \<noteq> Winner_panic \<and> (fst ws \<in> range From_pend \<longrightarrow> sl_pend (snd ws) \<noteq> None)"

locale steady_link = buffer_handler "ev_handler E" hinv for E :: "'h env" and hinv :: "'h \<Rightarrow> bool"

definition short_event :: "steady_event \<Rightarrow> bool" where
  "short_event ev = (case ev of RxReady (Rx d) \<Rightarrow> length d \<le> RECV_BUF_SIZE | _ \<Rightarrow> True)"

definition action_ok :: "frame_action \<Rightarrow> bool" where
  "action_ok a = (case a of FA_SendDatagram len \<Rightarrow> len \<le> 320 | FA_SendLinkMessage _ len \<Rightarrow> len \<le> 320 | _ \<Rightarrow> True)"

section \<open>Lemmas\<close>

interpretation noop: buffer_handler NoopHandler "\<lambda>_. True"
  by unfold_locales (auto simp: NoopHandler_def)

interpretation noop_link: steady_link "E\<lparr>ev_handler := NoopHandler\<rparr>" "\<lambda>_. True" for E :: "unit env"
  by (simp add: steady_link_def noop.buffer_handler_axioms)

lemma ok_at_simps:
  "ok_at I X (retm x) s \<longleftrightarrow> I s" "ok_at I X (getm g) s \<longleftrightarrow> I s" "ok_at I X (modm u) s \<longleftrightarrow> I (u s)"
  "ok_at I X (guardm c e) s \<longleftrightarrow> I s" "ok_at I X (liftm r) s \<longleftrightarrow> I s \<and> (r = Panic \<longrightarrow> X s)"
  "ok_at I X (map_errm eg m) s \<longleftrightarrow> ok_at I X m s" "ok_at I X (optm m') s \<longleftrightarrow> ok_at I X m' s"
  "ok_at I X (whenm cw w) s \<longleftrightarrow> (if cw s then ok_at I X w s else I s)"
  by (auto simp: ok_at_def retm_def getm_def modm_def guardm_def liftm_def map_errm_def optm_def whenm_def
      split: prod.splits res.splits)

lemma ok_at_bindm:
  "ok_at I X m s \<Longrightarrow> (\<And>x s'. m s = (Ok x, s') \<Longrightarrow> I s' \<Longrightarrow> ok_at I X (f x) s') \<Longrightarrow> ok_at I X (bindm m f) s"
  by (auto simp: ok_at_def bindm_def split: prod.splits res.splits)

lemma ok_at_getm: "ok_at I X (f (g s)) s \<Longrightarrow> ok_at I X (bindm (getm g) f) s"
  by (simp add: ok_at_def step_simps)

lemma ok_at_modm: "ok_at I X (f ()) (u s) \<Longrightarrow> ok_at I X (bindm (modm u) f) s"
  by (simp add: ok_at_def step_simps)

lemma ok_at_liftm:
  "I s \<Longrightarrow> (r = Panic \<Longrightarrow> X s) \<Longrightarrow> (\<And>x. r = Ok x \<Longrightarrow> ok_at I X (f x) s) \<Longrightarrow> ok_at I X (bindm (liftm r) f) s"
  by (auto simp: ok_at_def step_simps split: res.splits)

lemma ok_at_guardm: "I s \<Longrightarrow> (\<not> c \<Longrightarrow> ok_at I X (f ()) s) \<Longrightarrow> ok_at I X (bindm (guardm c e) f) s"
  by (auto simp: ok_at_def step_simps)

lemmas ok_at_intros = ok_at_getm ok_at_modm ok_at_liftm ok_at_guardm

lemma steady_inv_upd [simp]:
  "steady_inv hinv (s\<lparr>nd_tx := a\<rparr>) = steady_inv hinv s"
  "steady_inv hinv (s\<lparr>nd_rng := b\<rparr>) = steady_inv hinv s"
  "steady_inv hinv (s\<lparr>nd_policy := c\<rparr>) = steady_inv hinv s"
  "steady_inv hinv (s\<lparr>nd_mmp := d\<rparr>) = steady_inv hinv s"
  "steady_inv hinv (s\<lparr>nd_throughput := d1\<rparr>) = steady_inv hinv s"
  "steady_inv hinv (s\<lparr>st_now := e\<rparr>) = steady_inv hinv s"
  "steady_inv hinv (s\<lparr>next_hb := e\<rparr>) = steady_inv hinv s"
  "steady_inv hinv (s\<lparr>next_sr := e\<rparr>) = steady_inv hinv s"
  "steady_inv hinv (s\<lparr>next_rr := e\<rparr>) = steady_inv hinv s"
  "steady_inv hinv (s\<lparr>sr_start_ctr := f\<rparr>) = steady_inv hinv s"
  "steady_inv hinv (s\<lparr>sr_start_ts := g\<rparr>) = steady_inv hinv s"
  "steady_inv hinv (s\<lparr>prev_drain_base := e\<rparr>) = steady_inv hinv s"
  "steady_inv hinv (s\<lparr>bad_frame_grace_until := e\<rparr>) = steady_inv hinv s"
  "steady_inv hinv (s\<lparr>session_started := e\<rparr>) = steady_inv hinv s"
  "steady_inv hinv (s\<lparr>rekey_init := ri\<rparr>) = steady_inv hinv s"
  "steady_inv hinv (s\<lparr>pend_self := b1\<rparr>) = steady_inv hinv s"
  "steady_inv hinv (s\<lparr>last_peer_rekey_at := o1\<rparr>) = steady_inv hinv s"
  "steady_inv hinv (s\<lparr>last_rekey_msg1 := o2\<rparr>) = steady_inv hinv s"
  "steady_inv hinv (s\<lparr>last_rekey_msg2 := o2\<rparr>) = steady_inv hinv s"
  "steady_inv hinv (s\<lparr>last_fresh_answer_at := o1\<rparr>) = steady_inv hinv s"
  "steady_inv hinv (s\<lparr>last_rx := e\<rparr>) = steady_inv hinv s"
  by (simp_all add: steady_inv_def)

lemma steady_inv_ops [simp]:
  "steady_inv hinv (upd_policy f s) = steady_inv hinv s"
  "steady_inv hinv (upd_mmp E g s) = steady_inv hinv s"
  "steady_inv hinv (heard now s) = steady_inv hinv s"
  by (simp_all add: upd_policy_def upd_mmp_def heard_def)

lemma draw_until_Panic: "draw_until good xs = (r, rest) \<Longrightarrow> r = Panic \<Longrightarrow> rest = []"
  by (induction good xs rule: draw_until.induct) (auto split: if_splits)

lemma ok_draw [intro]:
  "steady_inv hinv s \<Longrightarrow> ok_at (steady_inv hinv) drawn_out (draw_eph good) s"
  "steady_inv hinv s \<Longrightarrow> ok_at (steady_inv hinv) drawn_out (generate_valid_eph E) s"
  "steady_inv hinv s \<Longrightarrow> ok_at (steady_inv hinv) drawn_out allocate_session_index s"
  by (auto simp: ok_at_def draw_eph_def generate_valid_eph_def allocate_session_index_def drawn_out_def
      split: prod.splits dest: draw_until_Panic)

lemma ok_send [intro]:
  assumes "steady_inv hinv s"
  shows "ok_at (steady_inv hinv) X (node_send_frame f) s" "ok_at (steady_inv hinv) X (send_ignored f) s"
proof -
  have "fst (send_frame raw f t) \<noteq> Panic" for raw t
    by (auto simp: send_frame_def bindm_def map_errm_def transport_send_def retm_def split: list.splits bool.splits)
  then show "ok_at (steady_inv hinv) X (node_send_frame f) s" "ok_at (steady_inv hinv) X (send_ignored f) s"
    using assms by (auto simp: ok_at_def node_send_frame_def send_ignored_def split: prod.splits) (metis fst_conv)
qed

lemma seal_link_not_Panic: "fst (seal_link C v now cap msg slot) \<noteq> Panic"
  by (auto simp: seal_link_def Let_def bind_res_Panic_iff prepend_inner_header_def encrypt_and_assemble_def)

lemma seal_link_slot: "snd (seal_link C v now cap msg slot) = slot\<lparr>es_send_ctr := es_send_ctr slot + 1\<rparr>"
  by (simp add: seal_link_def Let_def)

lemma send_sealed_Ok:
  assumes "steady_inv hinv s"
  obtains s' where "send_sealed E now data cap msg slot s = (Ok (slot\<lparr>es_send_ctr := es_send_ctr slot + 1\<rparr>), s')"
    "steady_inv hinv s'" "st_slots s' = st_slots s"
proof -
  obtain r slot1 where r: "seal_link (ev_crypto E) (ev_wire E) now cap msg slot = (r, slot1)" by (metis prod.exhaust)
  then have "r \<noteq> Panic" "slot1 = slot\<lparr>es_send_ctr := es_send_ctr slot + 1\<rparr>"
    using seal_link_not_Panic [of "ev_crypto E" "ev_wire E" now cap msg slot]
      seal_link_slot [of "ev_crypto E" "ev_wire E" now cap msg slot] by auto
  then show ?thesis
    using assms r
    by (cases r) (auto intro!: that simp: send_sealed_def Let_def node_send_frame_def upd_policy_def upd_mmp_def split: prod.splits)
qed

lemma sends_bindm:
  "(\<And>slot s. steady_inv hinv s \<Longrightarrow> \<exists>c s'. m slot s = (Ok (slot\<lparr>es_send_ctr := c\<rparr>), s') \<and> steady_inv hinv s' \<and> st_slots s' = st_slots s) \<Longrightarrow>
     slot_sends hinv (\<lambda>slot. bindm (m slot) (\<lambda>slot1. retm (x, slot1)))"
  unfolding slot_sends_def
proof (intro allI impI)
  fix slot s
  assume m: "\<And>slot s. steady_inv hinv s \<Longrightarrow> \<exists>c s'. m slot s = (Ok (slot\<lparr>es_send_ctr := c\<rparr>), s') \<and> steady_inv hinv s' \<and> st_slots s' = st_slots s"
    and "steady_inv hinv s"
  then obtain c s' where "m slot s = (Ok (slot\<lparr>es_send_ctr := c\<rparr>), s')" "steady_inv hinv s'" "st_slots s' = st_slots s"
    by blast
  then show "\<exists>y c s'. bindm (m slot) (\<lambda>slot1. retm (x, slot1)) s = (Ok (y, slot\<lparr>es_send_ctr := c\<rparr>), s') \<and>
      steady_inv hinv s' \<and> st_slots s' = st_slots s"
    by (auto simp: step_simps)
qed

lemma sends_sealed: "slot_sends hinv (\<lambda>slot. bindm (send_sealed E now data cap msg slot) (\<lambda>slot1. retm (x, slot1)))"
  by (rule sends_bindm) (metis send_sealed_Ok)

lemma sends_disconnect: "slot_sends hinv (\<lambda>slot. bindm (send_disconnect E now reason slot) (\<lambda>slot1. retm (x, slot1)))"
  by (simp add: send_disconnect_def sends_sealed)

lemma sends_heartbeat: "slot_sends hinv (\<lambda>slot. bindm (send_heartbeat E now slot) (\<lambda>(slot1, t). retm (t, slot1)))"
proof (unfold slot_sends_def, intro allI impI)
  fix slot s assume "steady_inv hinv s"
  then obtain s' where "send_sealed E now False 32 [MSG_HEARTBEAT] slot s = (Ok (slot\<lparr>es_send_ctr := es_send_ctr slot + 1\<rparr>), s')"
    "steady_inv hinv s'" "st_slots s' = st_slots s" by (rule send_sealed_Ok)
  then show "\<exists>x c s'. bindm (send_heartbeat E now slot) (\<lambda>(slot1, t). retm (t, slot1)) s = (Ok (x, slot\<lparr>es_send_ctr := c\<rparr>), s') \<and>
     steady_inv hinv s' \<and> st_slots s' = st_slots s"
    by (auto simp: send_heartbeat_def step_simps)
qed

lemma response_sends:
  assumes "len \<le> 320"
  shows "slot_sends hinv (\<lambda>slot. bindm (bindm (getm nd_resp) (\<lambda>resp. bindm (liftm (response_message t len resp)) (\<lambda>msg.
     send_sealed E now data 512 msg slot))) (\<lambda>slot1. retm (x, slot1)))"
proof (rule sends_bindm)
  fix slot s assume s: "steady_inv hinv s"
  then have "length (nd_resp s) = 320" by (simp add: steady_inv_def)
  moreover obtain s' where "send_sealed E now data 512 (t # take len (nd_resp s)) slot s = (Ok (slot\<lparr>es_send_ctr := es_send_ctr slot + 1\<rparr>), s')"
    "steady_inv hinv s'" "st_slots s' = st_slots s" by (rule send_sealed_Ok [OF s])
  ultimately show "\<exists>c s'. bindm (getm nd_resp) (\<lambda>resp. bindm (liftm (response_message t len resp)) (\<lambda>msg.
     send_sealed E now data 512 msg slot)) s = (Ok (slot\<lparr>es_send_ctr := c\<rparr>), s') \<and> steady_inv hinv s' \<and> st_slots s' = st_slots s"
    using assms by (auto simp: step_simps response_message_def)
qed

lemma sends_response:
  assumes "len \<le> 320"
  shows "slot_sends hinv (\<lambda>slot. bindm (send_session_datagram E now len slot) (\<lambda>slot1. retm (x, slot1)))"
    "slot_sends hinv (\<lambda>slot. bindm (send_link_message E now t len slot) (\<lambda>slot1. retm (x, slot1)))"
  unfolding send_session_datagram_def send_link_message_def by (rule response_sends [OF assms])+

lemma slots_ok_cur: "slots_ok sl \<Longrightarrow> slots_ok (sl\<lparr>sl_cur := (sl_cur sl)\<lparr>es_send_ctr := c\<rparr>\<rparr>)"
  by (simp add: slots_ok_def slot_ok_def)

lemma with_cur_Ok:
  assumes "slot_sends hinv f" "steady_inv hinv s"
  obtains x s' where "with_cur f s = (Ok x, s')" "steady_inv hinv s'"
proof -
  obtain x c s' where f: "f (sl_cur (st_slots s)) s = (Ok (x, (sl_cur (st_slots s))\<lparr>es_send_ctr := c\<rparr>), s')"
    and i: "steady_inv hinv s'" and sl: "st_slots s' = st_slots s"
    using assms unfolding slot_sends_def by blast
  have "with_cur f s = (Ok x, s'\<lparr>st_slots := (st_slots s)\<lparr>sl_cur := (sl_cur (st_slots s))\<lparr>es_send_ctr := c\<rparr>\<rparr>\<rparr>)"
    using f sl by (simp add: with_cur_def step_simps map_errm_def)
  moreover have "steady_inv hinv (s'\<lparr>st_slots := (st_slots s)\<lparr>sl_cur := (sl_cur (st_slots s))\<lparr>es_send_ctr := c\<rparr>\<rparr>\<rparr>)"
    using i sl slots_ok_cur [of "st_slots s" c] by (simp add: steady_inv_def)
  ultimately show ?thesis by (rule that)
qed

lemma ok_with_cur:
  assumes "slot_sends hinv f" "steady_inv hinv s"
  shows "ok_at (steady_inv hinv) X (with_cur f) s"
  using with_cur_Ok [OF assms] by (metis (mono_tags, lifting) case_prod_conv ok_at_def res.distinct(3))

lemma ok_put_resp: "steady_inv hinv s \<Longrightarrow> length bs \<le> 320 \<Longrightarrow> ok_at (steady_inv hinv) X (put_resp bs) s"
  by (simp add: ok_at_def put_resp_def steady_inv_def)

lemma ok_disconnect_exit: "steady_inv hinv s \<Longrightarrow> ok_at (steady_inv hinv) X (disconnect_exit E now reason e) s"
  unfolding disconnect_exit_def by (rule ok_at_bindm) (simp_all add: ok_with_cur sends_disconnect ok_at_simps)

lemma ok_send_report: "steady_inv hinv s \<Longrightarrow> length body \<le> 320 \<Longrightarrow> ok_at (steady_inv hinv) X (send_report E now t body) s"
  unfolding send_report_def by (rule ok_at_bindm) (auto intro: ok_put_resp ok_with_cur sends_response)

lemma window_check_ok: "length (bitmap w) = 32 \<Longrightarrow> ReplayWindow_check ptr w c \<noteq> Panic"
  by (auto simp: ReplayWindow_check_def Let_def bind_res_Panic_iff idx_def)

lemma window_accept_ok:
  assumes "length (bitmap w) = 32" "ReplayWindow_check ptr w c = Ok True"
  shows "\<exists>w'. ReplayWindow_accept ptr w c = Ok w' \<and> length (bitmap w') = 32"
proof (cases "highest w < c")
  case True
  let ?bm = "if REPLAY_WINDOW_SIZE \<le> as_usize ptr (c - highest w) then empty_bitmap
    else shift_bitmap (as_usize ptr (c - highest w)) (bitmap w)"
  have "length ?bm = 32" using assms(1) by simp
  then show ?thesis using True by (simp add: ReplayWindow_accept_def Let_def)
next
  case False
  then show ?thesis using assms by (auto simp: ReplayWindow_check_def ReplayWindow_accept_def Let_def idx_def split: if_splits)
qed

lemma opening_not_Panic [simp]:
  "EncryptedHeader_parse v data \<noteq> Panic" "strip_inner_header p \<noteq> Panic" "split_first q \<noteq> Panic"
  by (auto simp: EncryptedHeader_parse_def strip_inner_header_def split_first_def Let_def bind_res_Panic_iff reject_if_def
      slice_def slice_from_def idx_def split: list.splits)

lemma EncryptedHeader_parse_length: "EncryptedHeader_parse v data = Ok e \<Longrightarrow> 16 \<le> length data"
  by (simp add: EncryptedHeader_parse_def reject_if_def split: if_splits)

lemma decrypt_established_ok:
  assumes "length (bitmap w) = 32"
  shows "ok_at (\<lambda>w. length (bitmap w) = 32) (\<lambda>_. False) (decrypt_established_frame ptr C v kr data) w"
proof -
  have acc: "ok_at (\<lambda>w. length (bitmap w) = 32) (\<lambda>_. False) (\<lambda>replay. case ReplayWindow_accept ptr replay c of
      Ok replay' \<Rightarrow> (Ok (), replay') | Err e \<Rightarrow> (Err e, replay) | Panic \<Rightarrow> (Panic, replay)) w"
    if "ReplayWindow_check ptr w c = Ok True" for c
    using window_accept_ok [OF assms that] by (auto simp: ok_at_def)
  show ?thesis
    unfolding decrypt_established_frame_def
    using assms parse_message_not_Panic [of v data] window_check_ok [OF assms]
    by (intro ok_at_intros ok_at_bindm [OF acc])
      (auto simp: ok_at_simps acc slice_from_def dest: EncryptedHeader_parse_length split: fmp_message.splits
        intro!: ok_at_intros ok_at_bindm [OF acc])
qed

lemma open_slot_ok:
  assumes "slot_ok x" "open_slot ptr C v data x = (r, x')"
  shows "r \<noteq> Panic \<and> slot_ok x' \<and> es_k_bit x' = es_k_bit x"
  using assms decrypt_established_ok [of "es_replay x" ptr C v "es_kr x" data]
  by (auto simp: open_slot_def ok_at_def slot_ok_def split: prod.splits)

lemma try_ok:
  assumes "slots_ok sl"
  shows "win_ok (No_slot, sl)" "win_ok (try_cur ptr C v data sl)" "win_ok (try_pend ptr C v data sl)" "win_ok (try_prev ptr C v data sl)"
proof -
  have cur: "slot_ok (sl_cur sl)" using assms by (simp add: slots_ok_def)
  obtain r x where o: "open_slot ptr C v data (sl_cur sl) = (r, x)" by (metis prod.exhaust)
  then show "win_ok (try_cur ptr C v data sl)"
    using assms open_slot_ok [OF cur o] by (cases r) (auto simp: win_ok_def try_cur_def slots_ok_def)
next
  show "win_ok (try_pend ptr C v data sl)"
  proof (cases "sl_pend sl")
    case (Some p)
    then have p: "slot_ok p" using assms by (simp add: slots_ok_def)
    obtain r x where o: "open_slot ptr C v data p = (r, x)" by (metis prod.exhaust)
    then show ?thesis
      using assms Some open_slot_ok [OF p o] by (cases r) (auto simp: win_ok_def try_pend_def slots_ok_def)
  qed (use assms in \<open>auto simp: win_ok_def try_pend_def\<close>)
next
  show "win_ok (try_prev ptr C v data sl)"
  proof (cases "sl_prev sl")
    case (Some p)
    then have p: "slot_ok p" using assms by (simp add: slots_ok_def)
    obtain r x where o: "open_slot ptr C v data p = (r, x)" by (metis prod.exhaust)
    then show ?thesis
      using assms Some open_slot_ok [OF p o] by (cases r) (auto simp: win_ok_def try_prev_def slots_ok_def)
  qed (use assms in \<open>auto simp: win_ok_def try_prev_def\<close>)
qed (use assms in \<open>auto simp: win_ok_def\<close>)

lemma or_try_ok: "win_ok ws \<Longrightarrow> (\<And>sl. slots_ok sl \<Longrightarrow> win_ok (nxt sl)) \<Longrightarrow> win_ok (or_try ws nxt)"
  by (cases ws; cases "fst ws") (auto simp: or_try_def win_ok_def)

lemma trial_decrypt_ok: "slots_ok sl \<Longrightarrow> win_ok (trial_decrypt ptr C v data sl)"
  unfolding trial_decrypt_def Let_def by (intro or_try_ok) (simp_all add: try_ok)

lemma ik_write1_no_panic: "no_panic (NoiseIkInitiator_write_message1 C my_pub epoch cap) i"
  unfolding NoiseIkInitiator_write_message1_def
  by (intro no_panic_bindm) (auto simp: step_OkE mixk_eq mixh_eq dest!: encm_keeps_k)

lemma xx_write1_no_panic: "no_panic (NoiseXxInitiator_write_message1 C cap) xi"
  unfolding NoiseXxInitiator_write_message1_def
  by (intro no_panic_bindm) (auto simp: step_OkE mixk_eq mixh_eq)

lemma ik_write2_no_panic: "no_panic (NoiseIkResponder_write_message2 C e epoch cap) r"
  unfolding NoiseIkResponder_write_message2_def Let_def
  by (intro no_panic_bindm) (auto simp: step_OkE mixk_eq mixh_eq)

lemma xx_read1_no_panic: "no_panic (NoiseXxResponder_read_message1 C msg) xr"
  unfolding NoiseXxResponder_read_message1_def slicem_def
  by (intro no_panic_bindm) (auto simp: step_OkE mixk_eq mixh_eq)

lemma xx_write3_no_panic: "sy_k xi \<noteq> None \<Longrightarrow> no_panic (NoiseXxInitiator_write_message3 C my_pub epoch cap) xi"
  unfolding NoiseXxInitiator_write_message3_def
  by (intro no_panic_bindm) (auto simp: step_OkE mixk_eq mixh_eq ok_or_def split: option.splits dest!: encm_keeps_k)

lemma xx_read2_k: "NoiseXxInitiator_read_message2 C msg i = (Ok x, i') \<Longrightarrow> sy_k i' \<noteq> None"
  by (auto simp: NoiseXxInitiator_read_message2_def step_OkE mixk_eq mixh_eq slicem_def dest!: decm_OkD)

lemma noise_new_not_Panic:
  "NoiseIkInitiator_new C e st p \<noteq> Panic" "NoiseXxInitiator_new C e st \<noteq> Panic"
  "NoiseIkResponder_new C st e \<noteq> Panic" "NoiseXxResponder_new C st \<noteq> Panic"
  by (auto simp: NoiseIkInitiator_new_def NoiseXxInitiator_new_def NoiseIkResponder_new_def NoiseXxResponder_new_def
      Let_def bind_res_Panic_iff split: prod.splits)

lemma build_not_Panic: "build_msg1 v i n cap \<noteq> Panic" "build_msg2 v i j n cap \<noteq> Panic" "build_msg3 v i j n cap \<noteq> Panic"
  by (auto simp: build_msg1_def build_msg2_def build_msg3_def Let_def)

lemma action_ok_simps [simp]:
  "action_ok FA_Continue" "action_ok FA_HeartbeatRecv" "action_ok (FA_PeerDC r)" "action_ok FA_SelfDC"
  "action_ok (FA_SendDatagram len) \<longleftrightarrow> len \<le> 320" "action_ok (FA_SendLinkMessage t len) \<longleftrightarrow> len \<le> 320"
  "action_ok (action_of_result hr) \<longleftrightarrow> (\<forall>len. hr = HR_SendDatagram len \<longrightarrow> len \<le> 320)"
  by (auto simp: action_ok_def action_of_result_def split: handle_result.split)

lemma slot_sends_modm:
  assumes "slot_sends hinv f"
  shows "slot_sends hinv (\<lambda>slot. bindm (modm (upd_policy g)) (\<lambda>_. f slot))"
  unfolding slot_sends_def
proof (intro allI impI)
  fix slot s assume "steady_inv hinv s"
  then have "steady_inv hinv (upd_policy g s)" by simp
  then obtain x c s' where "f slot (upd_policy g s) = (Ok (x, slot\<lparr>es_send_ctr := c\<rparr>), s')" "steady_inv hinv s'"
    "st_slots s' = st_slots (upd_policy g s)" using assms unfolding slot_sends_def by blast
  then show "\<exists>x c s'. bindm (modm (upd_policy g)) (\<lambda>_. f slot) s = (Ok (x, slot\<lparr>es_send_ctr := c\<rparr>), s') \<and>
      steady_inv hinv s' \<and> st_slots s' = st_slots s"
    by (auto simp: step_simps upd_policy_def)
qed

lemma slot_sends_retm: "slot_sends hinv (\<lambda>slot. retm (x, slot))"
  unfolding slot_sends_def
proof (intro allI impI)
  fix slot s assume "steady_inv hinv s"
  moreover have "slot\<lparr>es_send_ctr := es_send_ctr slot\<rparr> = slot" by simp
  ultimately show "\<exists>y c s'. retm (x, slot) s = (Ok (y, slot\<lparr>es_send_ctr := c\<rparr>), s') \<and> steady_inv hinv s' \<and> st_slots s' = st_slots s"
    unfolding retm_simps by metis
qed

lemma report_lengths [simp]:
  "length (SenderReport_encode v r) \<le> 320" "length (ReceiverReport_encode v q) \<le> 320" "length (plain_sender_report v a b c d) \<le> 320"
  by (cases v; simp add: SenderReport_encode_def ReceiverReport_encode_def plain_sender_report_def splice_def
      SENDER_REPORT_BODY_SIZE_def RECEIVER_REPORT_BODY_SIZE_def Let_def SENDER_REPORT_SIZE_def RECEIVER_REPORT_SIZE_def)+

lemma ok_send_reports:
  "steady_inv hinv s \<Longrightarrow> ok_at (steady_inv hinv) X (send_sender_report E now) s"
  "steady_inv hinv s \<Longrightarrow> ok_at (steady_inv hinv) X (send_receiver_report E now) s"
  unfolding send_sender_report_def send_receiver_report_def
  by (rule ok_at_getm, clarsimp split: prod.split, intro ok_at_modm, auto simp: ok_at_simps split: option.split intro!: ok_send_report)+

lemma ok_reports_due:
  assumes "steady_inv hinv s"
  shows "ok_at (steady_inv hinv) X (reports_due E now) s"
proof -
  have "ok_at (steady_inv hinv) X (sender_report_due E now) s" if "steady_inv hinv s" for s
    unfolding sender_report_due_def Let_def using that
    by (auto intro!: ok_at_getm ok_at_modm ok_at_bindm [of _ _ "send_sender_report E now"] ok_at_bindm [of _ _ "retm ()"]
        ok_at_bindm [of _ _ "send_report E now t b" for t b] ok_send_reports ok_send_report
        simp: ok_at_simps split: wire.split)
  moreover have "ok_at (steady_inv hinv) X (receiver_report_due E now) s" if "steady_inv hinv s" for s
    unfolding receiver_report_due_def using that
    by (auto intro!: ok_at_bindm [of _ _ "send_receiver_report E now"] ok_send_reports simp: ok_at_simps)
  ultimately show ?thesis
    unfolding reports_due_def using assms by (intro ok_at_bindm) (auto simp: ok_at_simps)
qed

lemma rr_response_ok:
  "length resp = 320 \<Longrightarrow> build_receiver_report_response v p resp = (a, resp') \<Longrightarrow> action_ok a \<and> length resp' = 320"
  by (cases v) (auto simp: build_receiver_report_response_def Let_def action_ok_def RECEIVER_REPORT_BODY_SIZE_def RECEIVER_REPORT_SIZE_def
      split: if_splits)

lemma echo_response_ok: "build_echo_response a b c p n = Ok out \<Longrightarrow> length out \<le> n"
  by (auto simp: build_echo_response_def Let_def wire_defs split: if_splits)

lemma throughput_report_ok: "build_throughput_report a b c d e f n = Ok out \<Longrightarrow> length out \<le> n"
  by (auto simp: build_throughput_report_def wire_defs split: if_splits)

lemma stream_ok:
  "length resp = 320 \<Longrightarrow> handle_throughput_stream now f tp resp = (a, tp', resp') \<Longrightarrow> action_ok a \<and> length resp' = 320"
  by (auto simp: handle_throughput_stream_def Let_def action_ok_def
      split: if_splits res.splits option.splits dest!: throughput_report_ok)

lemma CommonPrefix_parse_not_Panic: "CommonPrefix_parse d \<noteq> Panic"
  by (auto simp: CommonPrefix_parse_def reject_if_def bind_res_Panic_iff idx_def)

lemma fmp_raw_frame_size_not_Panic: "fmp_raw_frame_size v d \<noteq> Panic"
  by (auto simp: fmp_raw_frame_size_def handshake_frame_size_def Let_def bind_res_Panic_iff CommonPrefix_parse_not_Panic split: if_splits)

lemma fmp_raw_frame_size_le: "fmp_raw_frame_size v d = Ok n \<Longrightarrow> n \<le> length d"
  by (auto simp: fmp_raw_frame_size_def handshake_frame_size_def Let_def bind_res_Ok_iff split: if_splits)

lemma extract_raw_ok:
  assumes "pos \<le> len" "len \<le> length buf"
  shows "extract_raw_frame v buf pos len \<noteq> Panic"
proof -
  let ?d = "take (len - pos) (drop pos buf)"
  show ?thesis
  proof (cases "fmp_raw_frame_size v ?d")
    case Panic
    then show ?thesis by (simp add: fmp_raw_frame_size_not_Panic)
  qed (use assms in \<open>auto simp: extract_raw_frame_def Let_def reject_if_def bind_res_Panic_iff CommonPrefix_parse_not_Panic slice_def\<close>)
qed

lemma extract_frame_ok: "rx_fits x \<Longrightarrow> extract_frame v raw x \<noteq> Panic"
  using extract_raw_ok [of "rpos x" "rlen x" "rbuf x" v]
  by (auto simp: extract_frame_def rx_fits_def extract_length_prefixed_frame_def Let_def reject_if_def bind_res_Panic_iff slice_def idx_def)

lemma steady_frames_stop:
  "\<not> rpos x < rlen x \<or> extract_frame (ev_wire E) (nd_raw_framing s) x = Err () \<Longrightarrow> steady_frames E now x s = (Ok (), x, s)"
  by (subst steady_frames.simps) auto

lemma steady_frames_next:
  "rpos x < rlen x \<Longrightarrow> extract_frame (ev_wire E) (nd_raw_framing s) x = Ok (f, p) \<Longrightarrow>
   steady_frames E now x s =
     (if f = [] then steady_frames E now (x\<lparr>rpos := p\<rparr>) s
      else case steady_frame E now f s of
        (Ok _, s1) \<Rightarrow> steady_frames E now (x\<lparr>rpos := p\<rparr>) s1
      | (Err e, s1) \<Rightarrow> (Err e, x\<lparr>rpos := p\<rparr>, s1)
      | (Panic, s1) \<Rightarrow> (Panic, x\<lparr>rpos := p\<rparr>, s1))"
  by (subst steady_frames.simps) (simp add: Let_def)

context steady_link
begin

lemma steady_inv_event [simp]: "steady_inv hinv s \<Longrightarrow> steady_inv hinv (on_event_node E now ev s)"
  by (simp add: steady_inv_def on_event_node_def on_event_inv)

lemma sends_action:
  assumes "action_ok a"
  shows "slot_sends hinv (process_frame_action E now a)"
proof (cases a)
  case FA_HeartbeatRecv
  show ?thesis unfolding slot_sends_def
  proof (intro allI impI)
    fix slot s assume s: "steady_inv hinv s"
    then have "steady_inv hinv (on_event_node E now HeartbeatRecvEv (upd_policy record_heartbeat s))" by simp
    then show "\<exists>x c s'. process_frame_action E now a slot s = (Ok (x, slot\<lparr>es_send_ctr := c\<rparr>), s') \<and> steady_inv hinv s' \<and> st_slots s' = st_slots s"
      using FA_HeartbeatRecv
      by (auto simp: process_frame_action_def step_simps on_event_node_def upd_policy_def intro!: exI [of _ "es_send_ctr slot"])
  qed
next
  case FA_SelfDC
  then show ?thesis using sends_disconnect [of hinv E now DISC_REASON_SHUTDOWN True]
    by (simp add: process_frame_action_def slot_sends_def)
next
  case (FA_SendDatagram len)
  then have "slot_sends hinv (\<lambda>slot. bindm (send_session_datagram E now len slot) (\<lambda>slot1. retm (False, slot1)))"
    using assms by (intro sends_response) (simp add: action_ok_def)
  from slot_sends_modm [OF this, of record_data_frame] FA_SendDatagram show ?thesis
    by (simp add: process_frame_action_def slot_sends_def)
next
  case (FA_SendLinkMessage t len)
  then have "slot_sends hinv (\<lambda>slot. bindm (send_link_message E now t len slot) (\<lambda>slot1. retm (False, slot1)))"
    using assms by (intro sends_response) (simp add: action_ok_def)
  from slot_sends_modm [OF this, of record_data_frame] FA_SendLinkMessage show ?thesis
    by (simp add: process_frame_action_def slot_sends_def)
next
  case FA_Continue
  then show ?thesis using slot_sends_retm [of hinv False] by (simp add: process_frame_action_def slot_sends_def)
next
  case (FA_PeerDC r)
  then show ?thesis using slot_sends_retm [of hinv True] by (simp add: process_frame_action_def slot_sends_def)
qed

lemma ok_run_action: "steady_inv hinv s \<Longrightarrow> action_ok a \<Longrightarrow> ok_at (steady_inv hinv) X (run_action E now a) s"
  unfolding run_action_def by (rule ok_at_bindm) (auto intro: ok_with_cur sends_action simp: ok_at_simps)

lemma mmp_answer_ok:
  assumes "steady_inv hinv s"
  shows "ok_at (steady_inv hinv) X (mmp_answer_report E now) s"
    "mmp_answer_report E now s = (Ok a, s') \<Longrightarrow> action_ok a"
  using assms
  by (auto simp: mmp_answer_report_def ok_at_simps action_ok_def step_OkE put_resp_def step_simps Let_def
      split: prod.splits option.splits if_splits intro!: ok_at_intros ok_at_bindm [OF ok_put_resp])

lemma decode_not_Panic [simp]: "SenderReport_decode v p \<noteq> Panic" "ReceiverReport_decode v p \<noteq> Panic"
  by (cases v; auto simp: SenderReport_decode_def ReceiverReport_decode_def reject_if_def Let_def bind_res_Panic_iff
      le_at_def slice_def slice_from_def)+

lemma mmp_control_ok:
  assumes "steady_inv hinv s"
  shows "ok_at (steady_inv hinv) X (maybe_handle_mmp_control E now f) s"
    "maybe_handle_mmp_control E now f s = (Ok (Some a), s') \<Longrightarrow> action_ok a"
  using assms mmp_answer_ok
  by (auto simp: maybe_handle_mmp_control_def ok_at_simps step_OkE action_ok_def split: res.splits if_splits
      intro!: ok_at_intros ok_at_bindm [of _ _ "mmp_answer_report E now"])

lemma dispatch_ok:
  assumes "steady_inv hinv s" "dispatch_node E now f s = (r, s')"
  shows "\<exists>a. r = Ok a \<and> action_ok a \<and> steady_inv hinv s'"
proof -
  obtain ao tp resp h where d: "dispatch_link_message (ev_bench E) (ev_wire E) (ev_handler E) now f (nd_throughput s) (nd_resp s) (nd_handler s) = (ao, tp, resp, h)"
    by (metis prod.exhaust)
  have s: "length (nd_resp s) = 320" "hinv (nd_handler s)" using assms(1) by (simp_all add: steady_inv_def)
  have "(\<exists>a. ao = Some a \<and> action_ok a) \<and> length resp = 320 \<and> hinv h"
    using d s
    by (auto simp: dispatch_link_message_def Let_def split: if_splits prod.splits res.splits list.splits
        dest!: rr_response_ok [OF s(1)] stream_ok [OF s(1)] echo_response_ok on_message_inv [OF s(2,1)])
  then show ?thesis
    using assms d by (auto simp: dispatch_node_def steady_inv_def)
qed

lemma ok_handle_opened:
  assumes "steady_inv hinv s"
  shows "ok_at (steady_inv hinv) X (handle_opened E now f) s"
proof -
  have disp: "ok_at (steady_inv hinv) X (bindm (map_errm Exit_err (dispatch_node E now f)) (run_action E now)) s1"
    if s1: "steady_inv hinv s1" for s1
  proof -
    obtain r s2 where d: "dispatch_node E now f s1 = (r, s2)" by (metis prod.exhaust)
    from dispatch_ok [OF s1 d] obtain a where "r = Ok a" "action_ok a" "steady_inv hinv s2" by blast
    then show ?thesis using d ok_run_action [of s2 a X now] by (simp add: ok_at_def step_simps map_errm_def)
  qed
  show ?thesis
    unfolding handle_opened_def
  proof (rule ok_at_modm, rule ok_at_bindm)
    fix ctl s1 assume "steady_inv hinv s1"
      and "(if ev_mmp E then map_errm Exit_err (maybe_handle_mmp_control E now f) else retm None)
        (upd_mmp E (\<lambda>m. m\<lparr>mp_receiver := ReceiverState_record_recv (df_counter f) (df_timestamp f) (df_frame_bytes f) False now (mp_receiver m)\<rparr>) s) =
        (Ok ctl, s1)"
    then show "ok_at (steady_inv hinv) X (case ctl of None \<Rightarrow> bindm (map_errm Exit_err (dispatch_node E now f)) (run_action E now)
      | Some action \<Rightarrow> run_action E now action) s1"
      using disp mmp_control_ok(2) [of "upd_mmp E _ s"] assms
      by (auto split: option.split if_splits simp: step_OkE intro!: ok_run_action)
  qed (use assms in \<open>auto simp: ok_at_simps intro!: mmp_control_ok\<close>)
qed

lemma ok_reject_frame: "steady_inv hinv s \<Longrightarrow> ok_at (steady_inv hinv) X (reject_frame E now) s"
  unfolding reject_frame_def by (auto intro!: ok_at_getm ok_at_modm ok_disconnect_exit simp: ok_at_simps)

lemma promote_inv:
  assumes "steady_inv hinv s" "sl_pend (st_slots s) = Some p"
  shows "steady_inv hinv (promote E now p s)"
  using assms by (simp add: steady_inv_def promote_def slots_ok_def upd_mmp_def)

lemma ok_established:
  assumes "steady_inv hinv s"
  shows "ok_at (steady_inv hinv) X (steady_established E now data) s"
proof -
  obtain w sl where t: "trial_decrypt (ev_ptr E) (ev_crypto E) (ev_wire E) data (st_slots s) = (w, sl)" by (metis prod.exhaust)
  have w: "win_ok (w, sl)" using trial_decrypt_ok [of "st_slots s" "ev_ptr E" "ev_crypto E" "ev_wire E" data] assms t
    by (simp add: steady_inv_def)
  then have inv: "steady_inv hinv (s\<lparr>st_slots := sl\<rparr>)" using assms by (simp add: steady_inv_def win_ok_def)
  show ?thesis
  proof (cases w)
    case (From_pend f)
    then obtain p where p: "sl_pend sl = Some p" using w by (auto simp: win_ok_def)
    then have "steady_inv hinv (promote E now p (heard now (s\<lparr>st_slots := sl\<rparr>)))"
      using inv by (intro promote_inv) (simp_all add: heard_def upd_policy_def)
    then show ?thesis unfolding steady_established_def using t From_pend p inv
      by (intro ok_at_getm) (auto intro!: ok_at_modm ok_at_liftm ok_handle_opened)
  qed (use inv w t in \<open>auto simp: steady_established_def win_ok_def intro!: ok_at_getm ok_at_modm ok_reject_frame ok_handle_opened\<close>)
qed

end

lemma set_pend_inv:
  "steady_inv hinv s \<Longrightarrow> slot_ok p \<Longrightarrow> es_k_bit p \<noteq> es_k_bit (sl_cur (st_slots s)) \<Longrightarrow> steady_inv hinv (set_pend (Some p) s)"
  by (simp add: steady_inv_def set_pend_def slots_ok_def)

lemma new_slot_ok [simp]: "slot_ok (new_slot a b c k)" "es_k_bit (new_slot a b c k) = k"
  by (simp_all add: slot_ok_def new_slot_def ReplayWindow_new_def)

lemma no_panicD: "no_panic m s \<Longrightarrow> m s = (r, s') \<Longrightarrow> r \<noteq> Panic"
  by (simp add: no_panic_def)

lemma ok_at_case: "(\<And>a b. x = (a, b) \<Longrightarrow> ok_at I X (f a b) s) \<Longrightarrow> ok_at I X (case x of (a, b) \<Rightarrow> f a b) s"
  by (cases x) simp

lemma ok_at_draw:
  "steady_inv hinv s \<Longrightarrow> (\<And>x s'. steady_inv hinv s' \<Longrightarrow> ok_at (steady_inv hinv) drawn_out (f x) s') \<Longrightarrow>
     ok_at (steady_inv hinv) drawn_out (bindm (map_errm g (generate_valid_eph E)) f) s"
  by (rule ok_at_bindm) (auto simp: ok_at_simps)

lemma ok_at_allocate:
  "steady_inv hinv s \<Longrightarrow> (\<And>x s'. steady_inv hinv s' \<Longrightarrow> ok_at (steady_inv hinv) drawn_out (f x) s') \<Longrightarrow>
     ok_at (steady_inv hinv) drawn_out (bindm (map_errm g allocate_session_index) f) s"
  by (rule ok_at_bindm) (auto simp: ok_at_simps)

lemma ok_at_send:
  "steady_inv hinv s \<Longrightarrow> (\<And>x s'. steady_inv hinv s' \<Longrightarrow> ok_at (steady_inv hinv) X (f x) s') \<Longrightarrow>
     ok_at (steady_inv hinv) X (bindm (map_errm g (node_send_frame m)) f) s"
  "steady_inv hinv s \<Longrightarrow> (\<And>x s'. steady_inv hinv s' \<Longrightarrow> ok_at (steady_inv hinv) X (h x) s') \<Longrightarrow>
     ok_at (steady_inv hinv) X (bindm (send_ignored m) h) s"
  by (rule ok_at_bindm; auto simp: ok_at_simps)+

lemma slots_kept:
  "generate_valid_eph E s = (r, s') \<Longrightarrow> st_slots s' = st_slots s"
  "allocate_session_index s = (r', s') \<Longrightarrow> st_slots s' = st_slots s"
  "node_send_frame m s = (q, s') \<Longrightarrow> st_slots s' = st_slots s"
  by (auto simp: generate_valid_eph_def draw_eph_def allocate_session_index_def node_send_frame_def split: prod.splits)

lemma slots_send [simp]: "st_slots (snd (node_send_frame m s)) = st_slots s"
  by (simp add: node_send_frame_def split_beta)

lemma ok_answer_ik:
  assumes "steady_inv hinv s"
  shows "ok_at (steady_inv hinv) drawn_out (answer_rekey_msg1_ik E i np epoch k) s"
  unfolding answer_rekey_msg1_ik_def Let_def
  by (intro ok_at_intros ok_at_case ok_at_draw ok_at_allocate)
    (auto simp: ok_at_simps assms noise_new_not_Panic build_not_Panic
      dest: no_panicD [OF ik_responder_no_panic [OF NoiseIkResponder_new_k]] no_panicD [OF ik_write2_no_panic])

lemma answer_ik_slot:
  "answer_rekey_msg1_ik E i np epoch k s = (Ok (slot, msg2), s') \<Longrightarrow> slot_ok slot \<and> es_k_bit slot \<noteq> k \<and> st_slots s' = st_slots s"
  unfolding answer_rekey_msg1_ik_def Let_def
  by (auto simp: step_OkE split_beta dest!: slots_kept)

lemma ok_begin_xx:
  assumes "steady_inv hinv s"
  shows "ok_at (steady_inv hinv) drawn_out (begin_rekey_xx E i np epoch) s"
  unfolding begin_rekey_xx_def Let_def
  by (intro ok_at_intros ok_at_case ok_at_draw ok_at_allocate)
    (auto simp: ok_at_simps assms noise_new_not_Panic build_not_Panic
      dest: no_panicD [OF xx_read1_no_panic] no_panicD [OF xx_write2_no_panic])

lemma begin_xx_ready:
  "begin_rekey_xx E i np epoch s = (Ok (r, j, msg2), s') \<Longrightarrow> sy_k r \<noteq> None \<and> xxr_e_priv r \<noteq> None"
  unfolding begin_rekey_xx_def Let_def
  by (auto simp: step_OkE split_beta dest!: write2_ready(2))

lemma ok_initiate:
  assumes "steady_inv hinv s"
  shows "ok_at (steady_inv hinv) drawn_out (initiate_rekey E now epoch) s"
proof -
  have w: "rekey_write1 E my_pub epoch hs0 = (r, hs) \<Longrightarrow> r \<noteq> Panic" for my_pub hs0 r hs
    by (auto simp: rekey_write1_def split: rekey_machine.splits prod.splits
        dest: no_panicD [OF ik_write1_no_panic] no_panicD [OF xx_write1_no_panic])
  show ?thesis
    unfolding initiate_rekey_def
    by (intro ok_at_intros ok_at_case ok_at_draw ok_at_allocate ok_at_send)
      (auto simp: ok_at_simps assms noise_new_not_Panic build_not_Panic rekey_new_def bind_res_Panic_iff split: wire.splits
        dest: w)
qed

lemma ok_xx_rekey_msg3:
  assumes "steady_inv hinv s" "sy_k hs \<noteq> None"
  shows "ok_at (steady_inv hinv) X (xx_rekey_msg3 E i hs j epoch) s"
  unfolding xx_rekey_msg3_def Let_def
  by (intro ok_at_intros ok_at_case ok_at_send)
    (auto simp: ok_at_simps assms build_not_Panic dest: no_panicD [OF xx_write3_no_panic [OF assms(2)]])

lemma xx_rekey_msg3_slots: "xx_rekey_msg3 E i hs j epoch s = (r, s') \<Longrightarrow> st_slots s' = st_slots s"
  by (auto simp: xx_rekey_msg3_def Let_def bindm_def liftm_def getm_def map_errm_def retm_def split_beta
      split: res.splits)

lemma ok_rekey_complete:
  assumes "steady_inv hinv s"
  shows "ok_at (steady_inv hinv) X (rekey_complete E ri i np) s"
  unfolding rekey_complete_def Let_def using assms
  by (auto split: rekey_machine.split res.split prod.split simp: ok_at_simps
      dest: no_panicD [OF ik_initiator_no_panic] no_panicD [OF xx_initiator_no_panic]
      dest!: xx_read2_k intro!: ok_at_getm ok_at_bindm [of _ _ "optm _"] ok_xx_rekey_msg3)

lemma rekey_complete_slots: "rekey_complete E ri i np s = (Ok r, s') \<Longrightarrow> st_slots s' = st_slots s"
  unfolding rekey_complete_def Let_def
  by (auto split: rekey_machine.splits res.splits prod.splits if_splits simp: step_OkE optm_def dest!: xx_rekey_msg3_slots)

lemma ok_at_optm:
  assumes "ok_at I X m s" "\<And>x s'. m s = (Ok x, s') \<Longrightarrow> I s' \<Longrightarrow> ok_at I X (f (Some x)) s'" "\<And>s'. I s' \<Longrightarrow> ok_at I X (f None) s'"
  shows "ok_at I X (bindm (optm m) f) s"
proof (cases "m s")
  case (Pair r s1)
  then have "I s1" using assms(1) by (simp add: ok_at_def)
  then show ?thesis using Pair assms(1) assms(2) [of _ s1] assms(3) [of s1]
    by (cases r) (simp_all add: ok_at_def optm_def bindm_def)
qed

lemma steady_inv_clear [simp]: "steady_inv hinv s \<Longrightarrow> steady_inv hinv (s\<lparr>rekey_hs := None\<rparr>)"
  by (simp add: steady_inv_def rekey_ok_def)

lemma ok_at_send_ignored:
  assumes "steady_inv hinv s" "\<And>s'. steady_inv hinv s' \<Longrightarrow> st_slots s' = st_slots s \<Longrightarrow> ok_at (steady_inv hinv) X (h ()) s'"
  shows "ok_at (steady_inv hinv) X (bindm (send_ignored m) h) s"
proof -
  have "steady_inv hinv (snd (node_send_frame m s))" using assms(1) by (simp add: node_send_frame_def split_beta)
  from assms(2) [OF this] show ?thesis by (simp add: ok_at_def bindm_def send_ignored_def)
qed

context steady_link
begin

lemma ok_answer_fresh:
  assumes "steady_inv hinv s"
  shows "ok_at (steady_inv hinv) drawn_out (answer_fresh_msg1 E i np m1) s"
proof (cases "ev_wire E")
  case Wire_IK
  then show ?thesis
    unfolding answer_fresh_msg1_def using assms
    by (auto intro!: ok_at_getm ok_at_optm ok_answer_ik ok_at_send_ignored ok_at_modm set_pend_inv simp: ok_at_simps dest!: answer_ik_slot)
next
  case Wire_XX
  then show ?thesis
    unfolding answer_fresh_msg1_def using assms
    by (auto intro!: ok_at_getm ok_at_optm ok_begin_xx ok_at_send_ignored ok_at_modm simp: ok_at_simps steady_inv_def rekey_ok_def
        dest!: begin_xx_ready)
qed

lemma ok_msg1:
  assumes "steady_inv hinv s"
  shows "ok_at (steady_inv hinv) drawn_out (steady_msg1 E now i np data) s"
  unfolding steady_msg1_def Let_def using assms
  by (auto intro!: ok_at_getm ok_at_modm ok_at_send_ignored ok_at_bindm [of _ _ "answer_fresh_msg1 E i n m" for n m] ok_answer_fresh
      ok_at_bindm [of _ _ "retm ()"] simp: ok_at_simps split: option.split)

lemma ok_msg3:
  assumes "steady_inv hinv s" "rekey_ok (Some hs)"
  shows "ok_at (steady_inv hinv) X (steady_msg3 E now hs np) s"
proof -
  obtain r a b where hs: "hs = (r, a, b)" by (cases hs)
  then have "no_panic (NoiseXxResponder_read_message3 (ev_crypto E) np) r"
    using assms(2) by (intro xx_responder_no_panic) (simp_all add: rekey_ok_def)
  then show ?thesis
    unfolding steady_msg3_def using assms(1) hs
    by (auto intro!: ok_at_getm ok_at_modm set_pend_inv simp: ok_at_simps no_panic_def split: prod.split res.split)
qed

lemma ok_msg2:
  assumes "steady_inv hinv s"
  shows "ok_at (steady_inv hinv) X (steady_msg2 E now ri i j np) s"
  unfolding steady_msg2_def using assms
  by (auto intro!: ok_at_modm ok_at_bindm [of _ _ "rekey_complete E ri i np'" for np'] ok_rekey_complete set_pend_inv simp: ok_at_simps
      split: rekey_outcome.split dest: rekey_complete_slots)

lemma ok_frame:
  assumes "steady_inv hinv s"
  shows "ok_at (steady_inv hinv) drawn_out (steady_frame E now data) s"
proof -
  have "rekey_ok (rekey_hs s)" using assms by (simp add: steady_inv_def)
  then show ?thesis
    unfolding steady_frame_def route_frame_def using assms parse_message_not_Panic [of "ev_wire E" data]
    by (auto intro!: ok_at_getm ok_at_modm ok_msg1 ok_msg2 ok_msg3 ok_established simp: ok_at_simps upd_policy_def
        split: prod.split res.split fmp_message.split option.split wire.split)
qed

lemma ok_frames:
  assumes "steady_inv hinv s" "rx_fits x" "steady_frames E now x s = (r, x', s')"
  shows "steady_inv hinv s' \<and> rx_fits x' \<and> (r = Panic \<longrightarrow> drawn_out s')"
  using assms
proof (induction "rlen x - rpos x" arbitrary: x s rule: less_induct)
  case less
  show ?case
  proof (cases "rpos x < rlen x \<and> (\<exists>f p. extract_frame (ev_wire E) (nd_raw_framing s) x = Ok (f, p))")
    case True
    then obtain f p where e: "extract_frame (ev_wire E) (nd_raw_framing s) x = Ok (f, p)" and lt: "rpos x < rlen x" by blast
    let ?x = "x\<lparr>rpos := p\<rparr>"
    have adv: "rpos x < p" "p \<le> rlen x" using extract_frame_advances [OF e] by auto
    then have x: "rx_fits ?x" and d: "rlen ?x - rpos ?x < rlen x - rpos x" using less.prems(2) by (auto simp: rx_fits_def)
    obtain q s1 where q: "steady_frame E now f s = (q, s1)" by (metis prod.exhaust)
    then have s1: "steady_inv hinv s1" "q = Panic \<longrightarrow> drawn_out s1"
      using ok_frame [OF less.prems(1), of now f] by (simp_all add: ok_at_def)
    show ?thesis
    proof (cases "f = [] \<or> (\<exists>u. q = Ok u)")
      case True
      then have "steady_frames E now ?x (if f = [] then s else s1) = (r, x', s')"
        using less.prems(3) q unfolding steady_frames_next [OF lt e] by (auto split: if_splits)
      then show ?thesis using less.hyps [OF d _ x] less.prems(1) s1(1) by presburger
    next
      case False
      then show ?thesis using less.prems(3) q s1 x unfolding steady_frames_next [OF lt e] by (cases q) auto
    qed
  next
    case False
    then have "\<not> rpos x < rlen x \<or> extract_frame (ev_wire E) (nd_raw_framing s) x = Err ()"
      using extract_frame_ok [OF less.prems(2), of "ev_wire E" "nd_raw_framing s"]
      by (cases "extract_frame (ev_wire E) (nd_raw_framing s) x") auto
    then show ?thesis using less.prems by (auto simp: steady_frames_stop)
  qed
qed

lemma ok_run_frames:
  assumes "steady_inv hinv s" "rx_fits x"
  shows "ok_at (steady_inv hinv) drawn_out (run_frames E now x) s"
proof -
  obtain r x' s' where f: "steady_frames E now x s = (r, x', s')" by (metis prod.exhaust)
  from ok_frames [OF assms f] show ?thesis
    using f by (cases r) (auto simp: ok_at_def run_frames_def steady_inv_def drained_def rx_fits_def drawn_out_def)
qed

lemma ok_heartbeat: "steady_inv hinv s \<Longrightarrow> ok_at (steady_inv hinv) X (heartbeat_due E now) s"
  unfolding heartbeat_due_def
  by (rule ok_at_bindm) (auto intro: ok_with_cur sends_heartbeat intro!: ok_at_modm simp: ok_at_simps)

lemma ok_tick:
  assumes "steady_inv hinv s"
  shows "ok_at (steady_inv hinv) X (tick_due E now tick) s"
proof -
  have s: "hinv (nd_handler s)" "length (nd_resp s) = 320" using assms by (simp_all add: steady_inv_def)
  show ?thesis
    unfolding tick_due_def using assms
    by (auto intro!: ok_at_getm ok_at_modm ok_with_cur sends_response simp: ok_at_simps steady_inv_def
        split: option.split prod.split handle_result.split dest!: on_tick_inv [OF s])
qed

lemma ok_recv:
  assumes "steady_inv hinv s" "length d \<le> 1500"
  shows "ok_at (steady_inv hinv) drawn_out (steady_recv E now tick d) s"
proof -
  have x: "rx_fits (st_rx s)" using assms(1) by (simp add: steady_inv_def)
  have load: "load_rx raw d (st_rx s) \<noteq> Panic" "load_rx raw d (st_rx s) = Ok (Some x1) \<Longrightarrow> rx_fits x1" for raw x1
    using x assms(2) by (auto simp: load_rx_def rx_fits_def split: if_splits)
  show ?thesis
    unfolding steady_recv_def
  proof (intro ok_at_getm ok_at_liftm)
    fix y assume "load_rx (nd_raw_framing s) d (st_rx s) = Ok y"
    then show "ok_at (steady_inv hinv) drawn_out (case y of None \<Rightarrow> modm (\<lambda>s. s\<lparr>st_rx := (st_rx s)\<lparr>rpos := 0, rlen := 0\<rparr>\<rparr>)
       | Some x1 \<Rightarrow> bindm (run_frames E now x1) (\<lambda>_. bindm (whenm (\<lambda>s. next_hb s \<le> now) (heartbeat_due E now)) (\<lambda>_.
           bindm (reports_due E now) (\<lambda>_. tick_due E now tick)))) s"
      using assms(1) load(2)
      by (cases y) (auto simp: ok_at_simps steady_inv_def [of hinv "s\<lparr>st_rx := _\<rparr>"] steady_inv_def [of hinv s] rx_fits_def
          intro!: ok_at_bindm ok_run_frames ok_heartbeat ok_reports_due ok_tick)
  qed (use assms(1) load(1) in auto)
qed

lemma ok_timer:
  assumes "steady_inv hinv s"
  shows "ok_at (steady_inv hinv) drawn_out (steady_timer E now tick) s"
proof -
  have own: "ok_at (steady_inv hinv) drawn_out (promote_own E now) s"
    using assms promote_inv by (auto simp: promote_own_def ok_at_simps split: option.split)
  have start: "ok_at (steady_inv hinv) drawn_out (start_rekey E now) s" if "steady_inv hinv s" for s
    unfolding start_rekey_def using that by (auto intro!: ok_at_getm ok_at_optm ok_initiate simp: ok_at_simps)
  have resend: "ok_at (steady_inv hinv) drawn_out (resend_rekey E now) s" if "steady_inv hinv s" for s
    unfolding resend_rekey_def using that by (auto intro!: ok_at_getm ok_at_send_ignored simp: ok_at_simps split: option.split)
  have drain: "ok_at (steady_inv hinv) drawn_out (drain_prev now) s" if "steady_inv hinv s" for s
    using that by (auto simp: drain_prev_def ok_at_simps steady_inv_def slots_ok_def)
  have silent: "ok_at (steady_inv hinv) drawn_out (silent_peer_check E now) s" if "steady_inv hinv s" for s
    using that by (auto simp: silent_peer_check_def ok_at_simps intro: ok_disconnect_exit)
  show ?thesis
    unfolding steady_timer_def
    by (intro ok_at_bindm own resend drain ok_reports_due ok_tick)
      (auto simp: ok_at_simps intro!: ok_at_bindm start silent ok_heartbeat)
qed

lemma ok_step:
  assumes "steady_inv hinv s" "short_event ev"
  shows "ok_at (steady_inv hinv) drawn_out (steady_step E now ev) s"
proof -
  have idle: "ok_at (steady_inv hinv) drawn_out (idle_check E) s"
    using assms(1) by (auto simp: idle_check_def ok_at_simps intro!: ok_at_getm ok_disconnect_exit)
  show ?thesis
    unfolding steady_step_def using assms(2)
    by (intro ok_at_bindm [OF idle] ok_at_getm ok_at_modm)
      (auto simp: short_event_def intro!: ok_recv ok_timer ok_disconnect_exit split: steady_event.splits rx_event.splits)
qed

lemma ok_loop:
  "steady_inv hinv s \<Longrightarrow> list_all (\<lambda>(t, ev). short_event ev) evs \<Longrightarrow> ok_at (steady_inv hinv) drawn_out (steady_loop E evs) s"
  by (induction evs arbitrary: s) (auto simp: ok_at_simps intro!: ok_at_bindm ok_step)

end

lemma steady_init_fields:
  "st_slots (steady_init now epoch ks kr them x n) = \<lparr>sl_cur = new_slot ks kr them False, sl_pend = None, sl_prev = None\<rparr>"
  "st_rx (steady_init now epoch ks kr them x n) = x"
  "rekey_hs (steady_init now epoch ks kr them x n) = None"
  "nd_resp (steady_init now epoch ks kr them x n) = nd_resp n"
  "nd_handler (steady_init now epoch ks kr them x n) = nd_handler n"
  by (simp_all add: steady_init_def Let_def node.defs steady.defs)

lemma steady_init_inv:
  "hinv (nd_handler n) \<Longrightarrow> length (nd_resp n) = 320 \<Longrightarrow> rx_fits x \<Longrightarrow> steady_inv hinv (steady_init now epoch ks kr them x n)"
  by (simp add: steady_inv_def steady_init_fields slots_ok_def rekey_ok_def)

section \<open>Properties\<close>



end
