(* ===== verification/SteadyWatch.thy ===== *)
theory SteadyWatch
  imports SteadySafety
begin

text \<open>
  Timers and watchdogs of the established link: a dead peer is noticed, what feeds the watchdog that
  notices it, and where the timers of the loop do not advance.  What a branch of the loop cannot change
  is proved once, by the frame rules of \<open>kept\<close> over the projection \<open>core\<close> of the state.
\<close>

section \<open>Specification\<close>

text \<open>
  \<open>kept f m\<close>: the step \<open>m\<close> leaves the observation \<open>f\<close> of the state alone.  \<open>prompt\<close> is the scheduling assumption: every
  round of the loop ends no later than \<open>slack\<close> after the deadline of its select.  \<open>opens_live\<close> and
  \<open>msg1_proves_peer\<close> name the two ways a frame proves possession of the keys of the peer.
\<close>

record steady_core =
  k_timing :: node_timing
  k_nsec :: bytes
  k_peer :: bytes
  k_raw :: bool
  k_fmp :: fmp_state
  k_epoch :: bytes
  k_now :: instant
  k_last_rx :: instant
  k_next_hb :: instant
  k_next_rr :: instant

definition core :: "'h steady \<Rightarrow> steady_core" where
  "core s = \<lparr>k_timing = nd_timing s, k_nsec = nd_nsec s, k_peer = nd_peer_npub s, k_raw = nd_raw_framing s, k_fmp = nd_fmp s,
     k_epoch = st_epoch s, k_now = st_now s, k_last_rx = last_rx s, k_next_hb = next_hb s, k_next_rr = next_rr s\<rparr>"

definition kept :: "('s \<Rightarrow> 'c) \<Rightarrow> ('s, 'e, 'a) estep \<Rightarrow> bool" where
  "kept f m \<longleftrightarrow> (\<forall>s. f (snd (m s)) = f s)"

definition sends_rr :: "'h env \<Rightarrow> fmp_state \<Rightarrow> bool" where
  "sends_rr E f \<longleftrightarrow> ev_wire E = Wire_XX \<and> ev_mmp E \<and> fmp_features (our_profile f) AND FMP_FEAT_PROVIDES_RR \<noteq> 0 \<and> peer_wants_rr f"

fun prompt :: "'h env \<Rightarrow> nat \<Rightarrow> (instant \<times> steady_event) list \<Rightarrow> 'h steady \<Rightarrow> bool" where
  "prompt E slack [] s \<longleftrightarrow> True"
| "prompt E slack ((t, ev) # evs) s \<longleftrightarrow>
     st_now s \<le> t \<and> t \<le> max (st_now s) (steady_deadline E s) + slack \<and>
     (case steady_step E t ev s of (Ok _, s1) \<Rightarrow> prompt E slack evs s1 | _ \<Rightarrow> True)"

definition hb_soon :: "'h steady \<Rightarrow> bool" where
  "hb_soon s \<longleftrightarrow> next_hb s \<le> st_now s + from_secs (heartbeat_interval_secs (nd_timing s))"

definition msg1_proves_peer :: "'h env \<Rightarrow> 'h steady \<Rightarrow> bytes \<Rightarrow> bool" where
  "msg1_proves_peer E s np \<longleftrightarrow> (\<exists>r0 init_pub ep. NoiseIkResponder_new (ev_crypto E) (nd_nsec s) (take PUBKEY_SIZE np) = Ok r0 \<and>
     fst (NoiseIkResponder_read_message1 (ev_crypto E) (drop PUBKEY_SIZE np) r0) = Ok (init_pub, ep) \<and>
     take 32 (drop 1 init_pub) = take 32 (drop 1 (nd_peer_npub s)))"

definition opens_live :: "'h env \<Rightarrow> 'h steady \<Rightarrow> bytes \<Rightarrow> bool" where
  "opens_live E s f \<longleftrightarrow> fst (trial_decrypt (ev_ptr E) (ev_crypto E) (ev_wire E) f (st_slots s)) \<noteq> No_slot"

section \<open>Lemmas\<close>

text \<open>What a step leaves alone.\<close>

lemma kept_bindm: "kept f m \<Longrightarrow> (\<And>x. kept f (g x)) \<Longrightarrow> kept f (bindm m g)"
  by (auto simp: kept_def bindm_def split_beta split: res.split)

lemma kept_basic [simp]:
  "kept f (retm x)" "kept f (getm g)" "kept f (liftm r)" "kept f (guardm c e)" "kept f (map_errm eg m) \<longleftrightarrow> kept f m"
  by (auto simp: kept_def retm_def getm_def liftm_def guardm_def map_errm_def split_beta)

lemma snd_optm [simp]: "snd (optm m s) = snd (m s)"
  by (simp add: optm_def split_beta split: res.split)

lemma kept_wrap [simp]: "kept f (optm m) \<longleftrightarrow> kept f m" "kept f w \<Longrightarrow> kept f (whenm c w)"
  by (simp_all add: kept_def whenm_def)

lemma kept_modm: "(\<And>s. f (u s) = f s) \<Longrightarrow> kept f (modm u)"
  by (simp add: kept_def modm_def)

lemma kept_modm_iff: "kept f (modm u) \<longleftrightarrow> (\<forall>s. f (u s) = f s)"
  by (simp add: kept_def modm_def)

lemma kept_case: "(\<And>a b. kept f (g a b)) \<Longrightarrow> kept f (case x of (a, b) \<Rightarrow> g a b)"
  by (cases x) simp

lemmas kept_intros = kept_bindm kept_modm kept_case

lemma core_upd [simp]:
  "core (s\<lparr>nd_tx := a\<rparr>) = core s" "core (s\<lparr>nd_rng := b\<rparr>) = core s" "core (s\<lparr>nd_policy := c\<rparr>) = core s"
  "core (s\<lparr>nd_mmp := d\<rparr>) = core s" "core (s\<lparr>nd_throughput := d1\<rparr>) = core s" "core (s\<lparr>nd_resp := e\<rparr>) = core s"
  "core (s\<lparr>nd_handler := h\<rparr>) = core s" "core (s\<lparr>st_slots := sl\<rparr>) = core s" "core (s\<lparr>st_rx := x\<rparr>) = core s"
  "core (s\<lparr>next_sr := t\<rparr>) = core s" "core (s\<lparr>sr_start_ctr := f\<rparr>) = core s" "core (s\<lparr>sr_start_ts := g\<rparr>) = core s"
  "core (s\<lparr>prev_drain_base := t\<rparr>) = core s" "core (s\<lparr>bad_frame_grace_until := t\<rparr>) = core s" "core (s\<lparr>session_started := t\<rparr>) = core s"
  "core (s\<lparr>rekey_init := ri\<rparr>) = core s" "core (s\<lparr>pend_self := b1\<rparr>) = core s" "core (s\<lparr>last_peer_rekey_at := o1\<rparr>) = core s"
  "core (s\<lparr>last_rekey_msg1 := o2\<rparr>) = core s" "core (s\<lparr>last_rekey_msg2 := o2\<rparr>) = core s" "core (s\<lparr>last_fresh_answer_at := o1\<rparr>) = core s"
  "core (s\<lparr>rekey_hs := o3\<rparr>) = core s"
  by (simp_all add: core_def)

lemma core_ops [simp]:
  "core (upd_policy f s) = core s" "core (upd_mmp E g s) = core s" "core (on_event_node E t ev s) = core s" "core (set_pend p s) = core s"
  "core (promote E now x s) = core s" "core (snd (node_send_frame m s)) = core s" "core (snd (send_ignored m s)) = core s"
  by (simp_all add: upd_policy_def upd_mmp_def on_event_node_def set_pend_def promote_def node_send_frame_def send_ignored_def split_beta)

lemma kept_node [simp]:
  "kept core (node_send_frame m)" "kept core (send_ignored m)" "kept core (draw_eph good)" "kept core (generate_valid_eph E)"
  "kept core allocate_session_index" "kept core (put_resp bs)" "kept core (dispatch_node E now f)"
  by (simp_all add: kept_def draw_eph_def generate_valid_eph_def allocate_session_index_def put_resp_def dispatch_node_def split_beta)

lemma kept_sealed [simp]: "kept core (send_sealed E now data cap msg slot)"
  by (auto simp: kept_def send_sealed_def Let_def split_beta split: res.split prod.split)

lemma kept_sends [simp]:
  "kept core (send_session_datagram E now len slot)" "kept core (send_link_message E now t len slot)"
  "kept core (send_heartbeat E now slot)" "kept core (send_disconnect E now reason slot)"
  by (auto simp: send_session_datagram_def send_link_message_def send_heartbeat_def send_disconnect_def intro!: kept_intros)

lemma kept_with_cur: "(\<And>slot. kept core (f slot)) \<Longrightarrow> kept core (with_cur f)"
  by (auto simp: with_cur_def intro!: kept_intros)

lemma kept_disconnect_exit [simp]: "kept core (disconnect_exit E now reason e)"
  by (auto simp: disconnect_exit_def intro!: kept_intros kept_with_cur)

lemma kept_action [simp]: "kept core (process_frame_action E now a slot)" "kept core (run_action E now a)"
  by (auto simp: process_frame_action_def run_action_def split: frame_action.split intro!: kept_intros kept_with_cur)

lemma kept_mmp [simp]: "kept core (mmp_answer_report E now)" "kept core (maybe_handle_mmp_control E now f)"
  by (auto simp: mmp_answer_report_def maybe_handle_mmp_control_def Let_def split: res.split option.split prod.split intro!: kept_intros)

lemma kept_opened [simp]: "kept core (handle_opened E now f)" "kept core (reject_frame E now)"
  by (auto simp: handle_opened_def reject_frame_def split: option.split intro!: kept_intros)

lemma kept_rekey [simp]:
  "kept core (initiate_rekey E now epoch)" "kept core (answer_rekey_msg1_ik E i np epoch k)" "kept core (begin_rekey_xx E i np epoch)"
  "kept core (xx_rekey_msg3 E i hs j epoch)"
  by (auto simp: initiate_rekey_def answer_rekey_msg1_ik_def begin_rekey_xx_def xx_rekey_msg3_def Let_def
      split: prod.split intro!: kept_intros)

lemma kept_complete [simp]: "kept core (rekey_complete E ri i np)" "kept core (answer_fresh_msg1 E i np m1)"
  by (auto simp: rekey_complete_def answer_fresh_msg1_def Let_def
      split: wire.split rekey_machine.split res.split prod.split option.split intro!: kept_intros)

lemma kept_reports [simp]:
  "kept core (send_report E now t body)"
  by (auto simp: send_report_def intro!: kept_intros kept_with_cur)

lemma kept_timers [simp]:
  "kept core (send_sender_report E now)" "kept core (send_receiver_report E now)"
  "kept core (tick_due E now tick)" "kept core (promote_own E now)" "kept core (start_rekey E now)"
  "kept core (resend_rekey E now)" "kept core (drain_prev now)" "kept core (silent_peer_check E now)"
  by (auto simp: send_sender_report_def send_receiver_report_def tick_due_def promote_own_def
      start_rekey_def resend_rekey_def drain_prev_def silent_peer_check_def Let_def
      split: wire.split prod.split option.split handle_result.split intro!: kept_intros kept_with_cur)

lemma kept_sender_due [simp]: "kept core (sender_report_due E now)"
  by (auto simp: sender_report_due_def Let_def split: wire.split intro!: kept_intros)

lemma kept_keeps: "kept core m \<Longrightarrow> keeps (\<lambda>s. P (core s)) m"
  by (simp add: kept_def keeps_def)

lemma core_changes [simp]:
  "core (s\<lparr>next_hb := t\<rparr>) = (core s)\<lparr>k_next_hb := t\<rparr>" "core (s\<lparr>next_rr := t\<rparr>) = (core s)\<lparr>k_next_rr := t\<rparr>"
  "core (s\<lparr>last_rx := t\<rparr>) = (core s)\<lparr>k_last_rx := t\<rparr>" "core (s\<lparr>st_now := t\<rparr>) = (core s)\<lparr>k_now := t\<rparr>"
  "core (heard t s) = (core s)\<lparr>k_last_rx := t\<rparr>"
  by (simp_all add: core_def heard_def upd_policy_def)

lemma core_sel [simp]:
  "k_timing (core s) = nd_timing s" "k_nsec (core s) = nd_nsec s" "k_peer (core s) = nd_peer_npub s" "k_raw (core s) = nd_raw_framing s"
  "k_fmp (core s) = nd_fmp s" "k_epoch (core s) = st_epoch s" "k_now (core s) = st_now s" "k_last_rx (core s) = last_rx s"
  "k_next_hb (core s) = next_hb s" "k_next_rr (core s) = next_rr s"
  by (simp_all add: core_def)

lemma keptD: "kept f m \<Longrightarrow> m s = (r, s') \<Longrightarrow> f s' = f s"
  by (metis kept_def snd_conv)

lemma core_timing: "core s' = core s \<Longrightarrow> nd_timing s' = nd_timing s"
  by (metis core_sel(1))

lemma heartbeat_due_cases:
  assumes "heartbeat_due E now s = (r, s')"
  shows "core s' = core s \<or> core s' = (core s)\<lparr>k_next_hb := now + from_secs (heartbeat_interval_secs (nd_timing s))\<rparr>"
proof -
  let ?w = "with_cur (\<lambda>slot. bindm (send_heartbeat E now slot) (\<lambda>(slot1, t). retm (t, slot1)))"
  have k: "kept core ?w" by (intro kept_with_cur kept_intros) simp_all
  obtain q s1 where w: "?w s = (q, s1)" by (metis prod.exhaust)
  note c = keptD [OF k w]
  have "t = now + from_secs (heartbeat_interval_secs (nd_timing s))" if q: "q = Ok t" for t
    using w unfolding q with_cur_def
    by (auto simp: step_OkE send_heartbeat_def next_heartbeat_deadline_def dest!: keptD [OF kept_sealed] core_timing)
  then show ?thesis using assms w c by (cases q) (auto simp: heartbeat_due_def bindm_def modm_def)
qed

lemma keeps_heartbeat:
  assumes "\<And>c. P c \<Longrightarrow> P (c\<lparr>k_next_hb := now + from_secs (heartbeat_interval_secs (k_timing c))\<rparr>)"
  shows "keeps (\<lambda>s. P (core s)) (heartbeat_due E now)"
  unfolding keeps_def
proof (intro allI impI)
  fix s :: "'a steady" assume p: "P (core s)"
  then show "P (core (snd (heartbeat_due E now s)))"
    using assms [OF p] heartbeat_due_cases [OF prod.collapse [symmetric], of E now s] by auto
qed

lemma keeps_whenm: "keeps P m \<Longrightarrow> keeps P (whenm c m)"
  by (simp add: keeps_def whenm_def)

lemma keeps_heard: "(\<And>c t. P (c\<lparr>k_last_rx := t\<rparr>) \<longleftrightarrow> P c) \<Longrightarrow> keeps (\<lambda>s. P (core s)) (modm (heard now))"
  "(\<And>c t. P (c\<lparr>k_last_rx := t\<rparr>) \<longleftrightarrow> P c) \<Longrightarrow> keeps (\<lambda>s. P (core s)) (modm (\<lambda>s. heard now (s\<lparr>last_peer_rekey_at := Some now\<rparr>)))"
  by (simp_all add: keeps_def modm_def)

lemma keeps_steady_frame:
  assumes "\<And>c t. P (c\<lparr>k_last_rx := t\<rparr>) \<longleftrightarrow> P c"
  shows "keeps (\<lambda>s. P (core s)) (steady_frame E now f)"
proof -
  note h = keeps_heard [of P, OF assms]
  have m1: "keeps (\<lambda>s. P (core s)) (steady_msg1 E now i np f)" for i np
    unfolding steady_msg1_def Let_def
    by (auto intro!: keeps_bindm simp: h kept_keeps kept_modm_iff split: option.split)
  have m2: "keeps (\<lambda>s. P (core s)) (steady_msg2 E now ri i j np)" for ri i j np
    unfolding steady_msg2_def
    by (auto intro!: keeps_bindm simp: h kept_keeps kept_modm_iff split: rekey_outcome.split)
  have m3: "keeps (\<lambda>s. P (core s)) (steady_msg3 E now hs np)" for hs np
    unfolding steady_msg3_def
    by (auto intro!: keeps_bindm simp: h kept_keeps kept_modm_iff split: prod.split res.split)
  have e: "keeps (\<lambda>s. P (core s)) (steady_established E now f)"
    unfolding steady_established_def
    by (auto intro!: keeps_bindm simp: h kept_keeps kept_modm_iff split: prod.split winner.split)
  show ?thesis
    unfolding steady_frame_def route_frame_def
    by (auto intro!: keeps_bindm m1 m2 m3 e simp: kept_keeps kept_modm_iff split: prod.split res.split fmp_message.split option.split wire.split)
qed

lemma keeps_run_frames:
  assumes "\<And>f. keeps (\<lambda>s. P (core s)) (steady_frame E now f)"
  shows "keeps (\<lambda>s. P (core s)) (run_frames E now x)"
proof -
  have frames: "P (core s) \<Longrightarrow> P (core (snd (snd (steady_frames E now x s))))" for x s
  proof (induction "rlen x - rpos x" arbitrary: x s rule: less_induct)
    case less
    show ?case
    proof (cases "rpos x < rlen x \<and> (\<exists>f p. extract_frame (ev_wire E) (nd_raw_framing s) x = Ok (f, p))")
      case True
      then obtain f p where e: "extract_frame (ev_wire E) (nd_raw_framing s) x = Ok (f, p)" and lt: "rpos x < rlen x" by blast
      then have d: "rlen (x\<lparr>rpos := p\<rparr>) - rpos (x\<lparr>rpos := p\<rparr>) < rlen x - rpos x" using extract_frame_advances [OF e] by auto
      obtain q s1 where q: "steady_frame E now f s = (q, s1)" by (metis prod.exhaust)
      then have "P (core s1)" using assms less.prems by (metis keepsD)
      then show ?thesis
        using less.hyps [OF d] less.prems q lt e by (subst steady_frames.simps) (auto simp: Let_def split: res.split)
    next
      case False
      then show ?thesis using less.prems by (subst steady_frames.simps) (auto split: res.split)
    qed
  qed
  show ?thesis
    using frames by (auto simp: keeps_def run_frames_def split_beta split: res.split)
qed

lemma keeps_reports:
  assumes "\<And>c. P c \<Longrightarrow> (\<forall>t. P (c\<lparr>k_next_rr := t\<rparr>)) \<or> \<not> (ev_wire E = Wire_XX \<and> ev_mmp E \<and>
    fmp_features (our_profile (k_fmp c)) AND FMP_FEAT_PROVIDES_RR \<noteq> 0 \<and> peer_wants_rr (k_fmp c))"
  shows "keeps (\<lambda>s. P (core s)) (reports_due E now)"
proof -
  have "P (core (snd (receiver_report_due E now s)))" if "P (core s)" "ev_wire E = Wire_XX" "ev_mmp E" "mmp_send_rr s" for s
  proof -
    obtain r s1 where r: "send_receiver_report E now s = (r, s1)" by (metis prod.exhaust)
    have c: "core s1 = core s" by (rule keptD [OF kept_timers(2) r])
    have "\<forall>t. P ((core s)\<lparr>k_next_rr := t\<rparr>)" using assms [OF that(1)] that by (auto simp: mmp_send_rr_def)
    then show ?thesis using r c that(1) by (cases r) (auto simp: receiver_report_due_def bindm_def modm_def)
  qed
  then have "keeps (\<lambda>s. P (core s)) (whenm (\<lambda>s. ev_wire E = Wire_XX \<and> ev_mmp E \<and> next_rr s \<le> now \<and> mmp_send_rr s) (receiver_report_due E now))"
    by (auto simp: keeps_def whenm_def)
  then show ?thesis unfolding reports_due_def by (intro keeps_bindm) (simp_all add: kept_keeps)
qed

lemma keeps_branches:
  assumes rx: "\<And>c t. P (c\<lparr>k_last_rx := t\<rparr>) \<longleftrightarrow> P c"
    and hb: "\<And>c. P c \<Longrightarrow> P (c\<lparr>k_next_hb := now + from_secs (heartbeat_interval_secs (k_timing c))\<rparr>)"
    and rr: "\<And>c. P c \<Longrightarrow> (\<forall>t. P (c\<lparr>k_next_rr := t\<rparr>)) \<or> \<not> sends_rr E (k_fmp c)"
  shows "keeps (\<lambda>s. P (core s)) (steady_recv E now tick d)"
  unfolding steady_recv_def
  using keeps_heartbeat [of P, OF hb] keeps_reports [of P E now] rr
  by (auto intro!: keeps_bindm keeps_run_frames keeps_steady_frame keeps_whenm simp: rx kept_keeps kept_modm_iff sends_rr_def
      split: option.split)

lemma keeps_timer:
  assumes hb: "\<And>c. P c \<Longrightarrow> P (c\<lparr>k_next_hb := now + from_secs (heartbeat_interval_secs (k_timing c))\<rparr>)"
    and rr: "\<And>c. P c \<Longrightarrow> (\<forall>t. P (c\<lparr>k_next_rr := t\<rparr>)) \<or> \<not> sends_rr E (k_fmp c)"
  shows "keeps (\<lambda>s. P (core s)) (steady_timer E now tick)"
  unfolding steady_timer_def
  using keeps_heartbeat [of P, OF hb] keeps_reports [of P E now] rr
  by (auto intro!: keeps_bindm keeps_whenm simp: kept_keeps kept_modm_iff sends_rr_def)

lemma kept_idle [simp]: "kept core (idle_check E)"
  unfolding idle_check_def by (auto intro!: kept_intros)

lemma keeps_step:
  assumes rx: "\<And>c t. P (c\<lparr>k_last_rx := t\<rparr>) \<longleftrightarrow> P c" and hb: "\<And>c t. P (c\<lparr>k_next_hb := t\<rparr>) \<longleftrightarrow> P c" and now: "\<And>c t. P (c\<lparr>k_now := t\<rparr>) \<longleftrightarrow> P c"
    and rr: "\<And>c. P c \<Longrightarrow> (\<forall>t. P (c\<lparr>k_next_rr := t\<rparr>)) \<or> \<not> sends_rr E (k_fmp c)"
  shows "keeps (\<lambda>s. P (core s)) (steady_step E t ev)"
  unfolding steady_step_def
  by (auto intro!: keeps_bindm keeps_branches keeps_timer keeps_modm rr simp: rx hb now kept_keeps split: steady_event.split rx_event.split)

lemma keeps_loop:
  "(\<And>t ev. keeps P (steady_step E t ev)) \<Longrightarrow> keeps P (steady_loop E evs)"
  by (induction evs) (auto intro!: keeps_bindm)

lemma steady_init_core:
  "core (steady_init now epoch ks kr them x n) = \<lparr>k_timing = nd_timing n, k_nsec = nd_nsec n, k_peer = nd_peer_npub n, k_raw = nd_raw_framing n,
     k_fmp = nd_fmp n, k_epoch = epoch, k_now = now, k_last_rx = now, k_next_hb = now + from_secs 1,
     k_next_rr = now + from_secs (heartbeat_interval_secs (nd_timing n) div 2)\<rparr>"
  by (simp add: core_def steady_init_def Let_def node.defs steady.defs)

lemma steady_init_sel [simp]:
  "nd_timing (steady_init now epoch ks kr them x n) = nd_timing n" "st_now (steady_init now epoch ks kr them x n) = now"
  "next_hb (steady_init now epoch ks kr them x n) = now + from_secs 1" "last_rx (steady_init now epoch ks kr them x n) = now"
  using arg_cong [OF steady_init_core [of now epoch ks kr them x n], of k_timing] arg_cong [OF steady_init_core [of now epoch ks kr them x n], of k_now]
    arg_cong [OF steady_init_core [of now epoch ks kr them x n], of k_next_hb] arg_cong [OF steady_init_core [of now epoch ks kr them x n], of k_last_rx]
  by simp_all

lemma step_split:
  assumes "steady_step E t ev s = (r, s')"
  obtains (idle) "\<And>u. r \<noteq> Ok u" "core s' = core s"
  | (run) s1 tick where "idle_check E s = (Ok (), s)" "as_secs (st_now s - last_rx s) \<le> nt_link_dead_timeout_secs (nd_timing s)"
      "s1 = s\<lparr>st_now := t\<rparr>" "(case ev of RxReady (Rx d) \<Rightarrow> steady_recv E t tick d
         | RxReady RxErr \<Rightarrow> disconnect_exit E t DISC_REASON_TRANSPORT_FAILURE Disconnected
         | TimerFired \<Rightarrow> steady_timer E t tick) s1 = (r, s')"
proof (cases "as_secs (st_now s - last_rx s) \<le> nt_link_dead_timeout_secs (nd_timing s)")
  case True
  then have "idle_check E s = (Ok (), s)" by (simp add: idle_check_def step_simps)
  then show ?thesis using assms True by (intro run) (auto simp: steady_step_def step_simps)
next
  case False
  obtain q s2 where q: "idle_check E s = (q, s2)" by (metis prod.exhaust)
  then have "q \<noteq> Ok u" for u
    using False by (auto simp: idle_check_def step_simps disconnect_exit_def step_OkE)
  moreover have "core s2 = core s" by (rule keptD [OF kept_idle q])
  ultimately show ?thesis using assms q by (intro idle) (cases q; auto simp: steady_step_def bindm_def)+
qed

lemma hb_soon_step:
  assumes "steady_step E t ev s = (Ok u, s')" "hb_soon s" "st_now s \<le> t"
  shows "hb_soon s' \<and> st_now s' = t"
  using assms(1)
proof (cases rule: step_split)
  case (run s1 tick)
  let ?P = "\<lambda>c. k_now c = t \<and> k_next_hb c \<le> t + from_secs (heartbeat_interval_secs (k_timing c))"
  have "?P (core s1)" using assms(2,3) run(3) by (simp add: hb_soon_def)
  moreover have "keeps (\<lambda>s. ?P (core s)) (steady_recv E t tick d)" for d by (rule keeps_branches) auto
  moreover have "keeps (\<lambda>s. ?P (core s)) (steady_timer E t tick)" by (rule keeps_timer) auto
  ultimately have "?P (core s')"
    using run(4) by (auto split: steady_event.splits rx_event.splits simp: disconnect_exit_def step_OkE dest: keepsD)
  then show ?thesis by (auto simp: hb_soon_def)
qed auto

lemma silent_step:
  assumes "steady_step E t TimerFired s = (Ok u, s')"
  shows "last_rx s' = last_rx s \<and> nd_timing s' = nd_timing s"
  using assms
proof (cases rule: step_split)
  case (run s1 tick)
  let ?P = "\<lambda>c. k_last_rx c = last_rx s \<and> k_timing c = nd_timing s"
  have "keeps (\<lambda>s. ?P (core s)) (steady_timer E t tick)" by (rule keeps_timer) auto
  moreover have "?P (core s1)" using run(3) by simp
  ultimately have "?P (core s')" using run(4) by (auto dest: keepsD)
  then show ?thesis by simp
qed auto

lemma deadline_le_hb: "steady_deadline E s \<le> next_hb s"
  by (auto simp: steady_deadline_def Let_def split: option.split wire.split)

lemma idle_bound: "as_secs (a - b) \<le> d \<Longrightarrow> a < b + from_secs (d + 1)"
  by (simp add: as_secs_def)

lemma silent_run:
  assumes "list_all (\<lambda>(t, ev). ev = TimerFired) evs" "prompt E slack evs s" "hb_soon s" "steady_loop E evs s = (Ok u, s')" "evs \<noteq> []"
  shows "fst (last evs) < last_rx s + from_secs (nt_link_dead_timeout_secs (nd_timing s) + 1 + heartbeat_interval_secs (nd_timing s)) + slack"
  using assms
proof (induction evs arbitrary: s)
  case (Cons e evs)
  then obtain t where e: "e = (t, TimerFired)" by (cases e) auto
  obtain s1 where s1: "steady_step E t TimerFired s = (Ok (), s1)" and rest: "steady_loop E evs s1 = (Ok u, s')"
    using Cons.prems(4) e by (auto simp: step_OkE)
  have t: "st_now s \<le> t" "t \<le> max (st_now s) (steady_deadline E s) + slack" and p: "prompt E slack evs s1"
    using Cons.prems(2) e s1 by auto
  note keep = silent_step [OF s1] and hb = hb_soon_step [OF s1 Cons.prems(3) t(1)]
  show ?case
  proof (cases "evs = []")
    case True
    have "as_secs (st_now s - last_rx s) \<le> nt_link_dead_timeout_secs (nd_timing s)"
      using s1 by (cases rule: step_split) auto
    then have "st_now s < last_rx s + from_secs (nt_link_dead_timeout_secs (nd_timing s) + 1)" by (rule idle_bound)
    moreover have "steady_deadline E s \<le> st_now s + from_secs (heartbeat_interval_secs (nd_timing s))"
      using deadline_le_hb [of E s] Cons.prems(3) by (simp add: hb_soon_def)
    ultimately show ?thesis using True e t by (simp add: algebra_simps)
  next
    case False
    then show ?thesis using Cons.IH [OF _ p conjunct1 [OF hb] rest False] Cons.prems(1) keep by auto
  qed
qed simp

lemma steady_loop_append: "steady_loop E (a @ b) s = bindm (steady_loop E a) (\<lambda>_. steady_loop E b) s"
proof (induction a arbitrary: s)
  case (Cons e a)
  obtain t ev where e: "e = (t, ev)" by (cases e)
  then show ?case using Cons by (simp add: bindm_def split: prod.split res.split)
qed (simp add: step_simps)

lemma prompt_append:
  assumes "prompt E slack (a @ b) s" "steady_loop E a s = (Ok u, s')" "hb_soon s"
  shows "prompt E slack b s' \<and> hb_soon s'"
  using assms
proof (induction a arbitrary: s)
  case (Cons e a)
  obtain t ev where e: "e = (t, ev)" by (cases e)
  obtain s1 where s1: "steady_step E t ev s = (Ok (), s1)" and rest: "steady_loop E a s1 = (Ok u, s')"
    using Cons.prems(2) e by (auto simp: step_OkE)
  have p: "prompt E slack (a @ b) s1" and t: "st_now s \<le> t" using Cons.prems(1) e s1 by auto
  show ?case using Cons.IH [OF p rest] hb_soon_step [OF s1 Cons.prems(3) t] by simp
qed (simp add: retm_def)

lemma loop_timing:
  assumes "steady_loop E evs s = (r, s')"
  shows "nd_timing s' = nd_timing s"
proof -
  have "keeps (\<lambda>t. k_timing (core t) = nd_timing s) (steady_loop E evs)"
    by (rule keeps_loop, rule keeps_step) auto
  from keepsD [OF this _ assms] show ?thesis by simp
qed

text \<open>What the watchdog takes for a sign of the peer.\<close>

lemma answer_ik_proves:
  "answer_rekey_msg1_ik E i np epoch k s = (Ok x, s') \<Longrightarrow> msg1_proves_peer E s np"
  by (auto simp: answer_rekey_msg1_ik_def Let_def step_OkE split_beta msg1_proves_peer_def)

lemma core_last_rx: "core s' = core s \<Longrightarrow> last_rx s' = last_rx s"
  by (metis core_sel(8))

lemma established_quiet:
  assumes "steady_established E now f s = (r, s')" "last_rx s' \<noteq> last_rx s"
  shows "opens_live E s f"
proof (rule ccontr)
  assume "\<not> opens_live E s f"
  then obtain sl where "trial_decrypt (ev_ptr E) (ev_crypto E) (ev_wire E) f (st_slots s) = (No_slot, sl)"
    by (metis opens_live_def prod.collapse)
  then have "reject_frame E now (s\<lparr>st_slots := sl\<rparr>) = (r, s')" using assms(1) by (simp add: steady_established_def step_simps)
  from keptD [OF kept_opened(2) this] show False using assms(2) core_last_rx [of s' s] by simp
qed

lemma answer_fresh_ik:
  assumes "answer_fresh_msg1 E i np m1 s = (Ok True, s')" "ev_wire E = Wire_IK"
  shows "msg1_proves_peer E s np"
  using assms by (auto simp: answer_fresh_msg1_def step_OkE optm_def split: option.splits prod.splits res.splits dest!: answer_ik_proves)

lemma msg1_quiet_ik:
  assumes m: "steady_msg1 E now i np f s = (r, s')" and rx: "last_rx s' \<noteq> last_rx s" and "ev_wire E = Wire_IK"
  shows "last_rekey_msg1 s = Some (take 128 f) \<or> msg1_proves_peer E s (take 128 np)"
proof (rule ccontr)
  assume n: "\<not> ?thesis"
  let ?s = "s\<lparr>last_fresh_answer_at := Some now\<rparr>"
  obtain q s1 where q: "answer_fresh_msg1 E i (take 128 np) (take 128 f) ?s = (q, s1)" by (metis prod.exhaust)
  have c: "core s1 = core s" using keptD [OF kept_complete(2) q] by simp
  have "q \<noteq> Ok True" using n answer_fresh_ik [of E i "take 128 np" "take 128 f" ?s s1] q assms(3) by (auto simp: msg1_proves_peer_def)
  then have "s' = s \<or> s' = s1"
    using m n q
    by (cases q) (auto simp: steady_msg1_def Let_def bindm_getm bindm_modm bindm_Ok [of _ _ _ s1] bindm_Err [of _ _ _ s1] bindm_Panic [of _ _ s1]
        retm_simps split: if_splits option.splits)
  then show False using rx c core_last_rx by auto
qed

lemma frame_split:
  assumes "steady_frame E now f s = (r, s')"
  obtains s1 where "s1 = s\<lparr>nd_policy := snd (check_frame_rate now (nd_policy s))\<rparr>" "s' = s1 \<or> route_frame E now f s1 = (r, s')"
  using assms by (auto simp: steady_frame_def step_simps split_beta upd_policy_def retm_def split: if_splits)

lemma rate_allows:
  assumes "frame_count p < FRAME_RATE_MAX"
  shows "fst (check_frame_rate now p) = Allow" "frame_count (snd (check_frame_rate now p)) \<le> frame_count p + 1"
  using assms by (auto simp: check_frame_rate_def Let_def sat_add_def)

lemma frame_routed:
  assumes "frame_count (nd_policy s) < FRAME_RATE_MAX"
  shows "steady_frame E now f s = route_frame E now f (s\<lparr>nd_policy := snd (check_frame_rate now (nd_policy s))\<rparr>)"
  using rate_allows(1) [OF assms, of now] by (simp add: steady_frame_def step_simps split_beta upd_policy_def)

lemma begin_xx_Ok:
  assumes C: "crypto_ok (ev_crypto E)" and o: "xx_offer (ev_crypto E) sa (nd_nsec s) e i1 m"
    and draws: "can_draw E 1 s" and ep: "length epoch = 8"
  obtains m2 r2 f2 j rb rw pb pre re i2 where "begin_rekey_xx E i m epoch s = (Ok (r2, j, f2), s\<lparr>nd_rng := \<lparr>rng_blocks = rb, rng_words = rw\<rparr>\<rparr>)"
    "build_msg2 (ev_wire E) j i m2 256 = Ok f2" "length m2 = 106" "pubkey_prim (ev_crypto E) (nd_nsec s) = Some pb"
    "NoiseXxInitiator_read_message2 (ev_crypto E) m2 i1 = (Ok (pb, epoch), i2)" "xx_synced i2 r2"
    "pubkey_prim (ev_crypto E) re = Some pre" "xxi_re_pub i2 = Some pre" "xxr_e_priv r2 = Some re" "xxi_s_priv i2 = sa"
proof -
  let ?C = "ev_crypto E"
  obtain pb r0 r1 where m1: "pubkey_prim ?C (nd_nsec s) = Some pb" "pubkey_prim ?C e = Some m"
      "NoiseXxResponder_new ?C (nd_nsec s) = Ok r0" "NoiseXxResponder_read_message1 ?C m r0 = (Ok (), r1)"
      "sy_h r1 = sy_h i1" "sy_ck r1 = sy_ck i1" "xxr_ei_pub r1 = Some m" "xxr_s_priv r1 = nd_nsec s" "xxr_s_pub r1 = pb"
      "xxi_e_priv i1 = e" "xxi_s_priv i1 = sa"
    using o unfolding xx_offer_def by blast
  have ne: "filter (eph_valid ?C) (rng_blocks (nd_rng s)) \<noteq> []" "filter (\<lambda>i. i \<noteq> 0) (rng_words (nd_rng s)) \<noteq> []"
    using draws by (auto simp: can_draw_def simp del: set_filter)
  obtain re rb where re: "draw_until (eph_valid ?C) (rng_blocks (nd_rng s)) = (Ok re, rb)" "eph_valid ?C re"
    using draw_until_Ok [of "rng_blocks (nd_rng s)" "eph_valid ?C"] ne(1) by (auto simp: filter_empty_conv)
  obtain pre where pre: "pubkey_prim ?C re = Some pre" using re(2) by (auto simp: eph_valid_iff)
  obtain j rw where j: "draw_until (\<lambda>i. i \<noteq> 0) (rng_words (nd_rng s)) = (Ok j, rw)"
    using draw_until_Ok [of "rng_words (nd_rng s)" "\<lambda>i. i \<noteq> 0"] ne(2) by (auto simp: filter_empty_conv)
  obtain m2 i2 r2 where 2: "NoiseXxResponder_write_message2 ?C re epoch 128 r1 = (Ok m2, r2)" "length m2 = 106"
      "NoiseXxInitiator_read_message2 ?C m2 i1 = (Ok (pb, epoch), i2)" "xx_synced i2 r2" "xxi_re_pub i2 = Some pre"
      "xxr_e_priv r2 = Some re" "xxi_s_priv i2 = sa"
    using xx_message2 [OF C m1(2) pre m1(1) ep _ m1(5-10), of 128] m1(11) by auto
  obtain f2 where f2: "build_msg2 (ev_wire E) j i m2 256 = Ok f2" using 2(2) by (simp add: build_msg_frames)
  have len: "length m = 33" using length_pubkey [OF C m1(2)] .
  have "begin_rekey_xx E i m epoch s = (Ok (r2, j, f2), s\<lparr>nd_rng := \<lparr>rng_blocks = rb, rng_words = rw\<rparr>\<rparr>)"
    using m1(3,4) re(1) j 2(1) f2 len
    by (simp add: begin_rekey_xx_def step_simps Let_def generate_valid_eph_def draw_eph_def allocate_session_index_def map_errm_def)
  then show ?thesis using that f2 2 m1(1) pre by blast
qed

section \<open>Properties\<close>


text \<open>C5. A link on which nothing arrives any more ends: when every round of the loop ends within the
  scheduling slack of its deadline, then by the time the link-dead timeout, one second, one heartbeat
  interval and the slack have passed since the last sign of the peer the loop has returned an error, unless the
  generator ran dry.\<close>

theorem silent_link_dies:
  assumes handler: "buffer_handler (ev_handler E) hinv" "hinv (nd_handler n)"
    and node: "length (nd_resp n) = 320" "rx_fits x" "1 \<le> heartbeat_interval_secs (nd_timing n)"
    and before: "list_all (\<lambda>(t, ev). short_event ev) evs0" "steady_loop E evs0 (steady_init now epoch ks kr them x n) = (Ok (), s)"
    and silence: "list_all (\<lambda>(t, ev). ev = TimerFired) evs" "evs \<noteq> []" 
      "last_rx s + from_secs (nt_link_dead_timeout_secs (nd_timing n) + 1 + heartbeat_interval_secs (nd_timing n)) + slack \<le> fst (last evs)"
    and prompt: "prompt E slack (evs0 @ evs) (steady_init now epoch ks kr them x n)"
    and run: "steady_loop E evs s = (r, s')"
  shows "(\<exists>e. r = Err e) \<or> drawn_out s'"
proof -
  let ?s0 = "steady_init now epoch ks kr them x n"
  have timing: "nd_timing s = nd_timing n" using loop_timing [OF before(2)] by simp
  have "hb_soon ?s0" using node(3) by (simp add: hb_soon_def)
  from prompt_append [OF prompt before(2) this] have p: "prompt E slack evs s" and h: "hb_soon s" by auto
  have "r \<noteq> Ok u" for u
    using silent_run [OF silence(1) p h _ silence(2), of u s'] silence(3) run timing by auto
  moreover have "r = Panic \<longrightarrow> drawn_out s'"
  proof -
    have "steady_loop E (evs0 @ evs) ?s0 = (r, s')" using before(2) run by (simp add: steady_loop_append bindm_def)
    moreover have "list_all (\<lambda>(t, ev). short_event ev) (evs0 @ evs)"
      using before(1) silence(1) by (auto simp: list_all_iff short_event_def)
    ultimately show ?thesis
      using steady_link.ok_loop [of E hinv ?s0 "evs0 @ evs"] steady_init_inv [of hinv n x now epoch ks kr them] handler node(1,2)
      by (simp add: steady_link_def ok_at_def)
  qed
  ultimately show ?thesis by (cases r) auto
qed

theorem silent_link_dies_witness:
  "(\<exists>e. fst (steady_loop (sample_env Wire_IK) [(51000000, TimerFired), (91000000, TimerFired)]
      (steady_init 0 [] (replicate 32 1) (replicate 32 2) 7 empty_rx (sample_node 5 9 Leaf))) = Err e) \<or>
   drawn_out (snd (steady_loop (sample_env Wire_IK) [(51000000, TimerFired), (91000000, TimerFired)]
      (steady_init 0 [] (replicate 32 1) (replicate 32 2) 7 empty_rx (sample_node 5 9 Leaf))))"
proof -
  let ?E = "sample_env Wire_IK" and ?n = "sample_node 5 9 Leaf" and ?evs = "[(51000000, TimerFired), (91000000, TimerFired)]"
  let ?s = "steady_init 0 [] (replicate 32 1) (replicate 32 2) 7 empty_rx ?n"
  have 1: "buffer_handler (ev_handler ?E) (\<lambda>_. True)" by (simp add: sample_env_def noop.buffer_handler_axioms)
  have n: "length (nd_resp ?n) = 320" "nd_timing ?n = NodeTiming_default"
    by (simp_all add: sample_node_def Node_new_def Node_with_timing_def set_node_profile_def)
  have x: "rx_fits empty_rx" by (simp add: rx_fits_def empty_rx_def)
  have now: "st_now s1 = 51000000" if "steady_step ?E 51000000 TimerFired ?s = (Ok (), s1)" for s1
    using hb_soon_step [OF that] by (simp add: hb_soon_def n(2) NodeTiming_default_def)
  have d: "steady_deadline ?E ?s = 1000000"
    by (simp add: steady_deadline_def sample_env_def NoopHandler_def steady_init_def Let_def node.defs steady.defs n(2) NodeTiming_default_def)
  have p: "prompt ?E 50000000 ([] @ ?evs) ?s"
    using now by (auto simp: d split: prod.split res.split)
  have l: "last_rx ?s + from_secs (nt_link_dead_timeout_secs (nd_timing ?n) + 1 + heartbeat_interval_secs (nd_timing ?n)) + 50000000 \<le> fst (last ?evs)"
    by (simp add: n(2) NodeTiming_default_def)
  show ?thesis
    by (rule silent_link_dies [OF 1 TrueI n(1) x _ _ _ _ _ l p prod.collapse [symmetric]])
      (simp_all add: n(2) NodeTiming_default_def retm_def)
qed

text \<open>C22. On an IK link a received frame restarts the link-dead timer only if it opens under the keys of a
  live epoch, repeats the Msg1 answered last, is a Msg1 that proves the pinned static key of the peer,
  or is a Msg2 while a rekey is in flight.\<close>

theorem watchdog_fed_only_by_peer:
  assumes "ev_wire E = Wire_IK" "steady_frame E now f s = (r, s')" "last_rx s' \<noteq> last_rx s"
  shows "opens_live E s f \<or> last_rekey_msg1 s = Some (take 128 f) \<or>
    (\<exists>i np. parse_message Wire_IK f = Ok (Msg1 i np) \<and> msg1_proves_peer E s (take 128 np)) \<or>
    (\<exists>i j np. parse_message Wire_IK f = Ok (Msg2 i j np) \<and> rekey_init s \<noteq> None)"
proof -
  from assms(2) obtain s1 where s1: "s1 = s\<lparr>nd_policy := snd (check_frame_rate now (nd_policy s))\<rparr>"
    and step: "s' = s1 \<or> route_frame E now f s1 = (r, s')" by (rule frame_split)
  have same: "last_rx s1 = last_rx s" "opens_live E s1 f = opens_live E s f" "last_rekey_msg1 s1 = last_rekey_msg1 s"
    "rekey_init s1 = rekey_init s" "msg1_proves_peer E s1 np = msg1_proves_peer E s np" for np
    by (simp_all add: s1 opens_live_def msg1_proves_peer_def)
  show ?thesis
    using step assms(1,3) same established_quiet [of E now f s1 r s'] msg1_quiet_ik [of E now _ _ f s1 r s']
    by (auto simp: route_frame_def step_simps liftm_def split: res.splits fmp_message.splits option.splits)
qed

end
