(* ===== verification/SteadyRekey.thy ===== *)
theory SteadyRekey
  imports SteadyWatch
begin

text \<open>
  Rekeying an established link, both ends run against each other: the initiation by the timer branch of
  one node, the answer of the other, the completion, and the cutover of both, for IK and for XX.
\<close>

section \<open>Specification\<close>

text \<open>
  \<open>rekey_ready\<close>: the keys are those of each other, the generator and the transport work and the frame-rate
  window has room.  \<open>fresh_ok\<close>: the interval between two fresh answers has passed.  \<open>armed\<close> is the
  state both ends reach: the same pending epoch, with its keys crossed and its key-epoch bit flipped.
\<close>

definition fresh_ok :: "instant \<Rightarrow> 'h steady \<Rightarrow> bool" where
  "fresh_ok now s = (case last_fresh_answer_at s of None \<Rightarrow> True
     | Some t \<Rightarrow> from_millis (rekey_answer_min_interval_ms (nd_timing s)) \<le> now - t)"

definition rekey_offer :: "'h env \<Rightarrow> 'h steady \<Rightarrow> bytes \<Rightarrow> rekey_machine \<Rightarrow> bytes \<Rightarrow> bool" where
  "rekey_offer E s sb hs m = (case hs of
     RK_IK i1 \<Rightarrow> (\<exists>e. ik_offer (ev_crypto E) (st_epoch s) (nd_nsec s) sb e i1 m)
   | RK_XX i1 \<Rightarrow> (\<exists>e. xx_offer (ev_crypto E) (nd_nsec s) sb e i1 m))"

definition armed :: "'h steady \<Rightarrow> 'k steady \<Rightarrow> bool" where
  "armed A B \<longleftrightarrow> (\<exists>ks kr ia ib k. length ks = 32 \<and> length kr = 32 \<and>
     sl_pend (st_slots A) = Some (new_slot ks kr ib (\<not> k)) \<and> es_k_bit (sl_cur (st_slots A)) = k \<and> pend_self A \<and>
     sl_pend (st_slots B) = Some (new_slot kr ks ia (\<not> k)) \<and> es_k_bit (sl_cur (st_slots B)) = k)"

definition rekey_ready :: "'h env \<Rightarrow> 'h steady \<Rightarrow> 'k steady \<Rightarrow> bool" where
  "rekey_ready E s t \<longleftrightarrow> paired s (ev_crypto E) t \<and> length (st_epoch s) = 8 \<and> tx_up (nd_tx s) = [] \<and> can_draw E 1 s \<and>
     frame_count (nd_policy s) + 1 < FRAME_RATE_MAX"

definition sample_link :: "byte \<Rightarrow> byte \<Rightarrow> unit steady" where
  "sample_link a b = steady_init 0 (replicate 8 a) (replicate 32 a) (replicate 32 b) 7 empty_rx (sample_node a b Leaf)"

section \<open>Lemmas\<close>

lemma bindm_optm_Ok: "m s = (Ok x, s') \<Longrightarrow> bindm (optm m) f s = f (Some x) s'"
  by (simp add: bindm_def optm_def)

lemma fresh_ok_policy [simp]: "fresh_ok now (s\<lparr>nd_policy := p\<rparr>) = fresh_ok now s"
  by (cases "last_fresh_answer_at s") (simp_all add: fresh_ok_def)

lemma bindm_send_ignored: "bindm (send_ignored m) f s = f () (snd (node_send_frame m s))"
  by (simp add: bindm_def send_ignored_def)

lemma can_draw_one:
  assumes "can_draw E 1 s"
  obtains e rb j rw where "draw_until (eph_valid (ev_crypto E)) (rng_blocks (nd_rng s)) = (Ok e, rb)" "eph_valid (ev_crypto E) e"
    "draw_until (\<lambda>i. i \<noteq> 0) (rng_words (nd_rng s)) = (Ok j, rw)"
proof -
  have ne: "filter (eph_valid (ev_crypto E)) (rng_blocks (nd_rng s)) \<noteq> []" "filter (\<lambda>i. i \<noteq> 0) (rng_words (nd_rng s)) \<noteq> []"
    using assms by (auto simp: can_draw_def simp del: set_filter)
  show ?thesis
    using draw_until_Ok [of "rng_blocks (nd_rng s)" "eph_valid (ev_crypto E)"] ne draw_until_Ok [of "rng_words (nd_rng s)" "\<lambda>i. i \<noteq> 0"] that
    by (auto simp: filter_empty_conv)
qed

lemma rekey_first_message:
  assumes C: "crypto_ok (ev_crypto E)" and p: "paired s (ev_crypto E) B" and ep: "length (st_epoch s) = 8"
    and e: "pubkey_prim (ev_crypto E) e = Some pe"
  obtains my_pub hs0 hs m where "(case ev_wire E of Wire_IK \<Rightarrow> map_err (\<lambda>_. ()) (ecdh_pubkey (ev_crypto E) (nd_nsec s)) | Wire_XX \<Rightarrow> Ok []) = Ok my_pub"
    "rekey_new E e (nd_nsec s) (nd_peer_npub s) = Ok hs0" "rekey_write1 E my_pub (st_epoch s) hs0 = (Ok m, hs)" "length m \<le> 106"
    "rekey_offer E s (nd_nsec B) hs m" "(case hs of RK_IK _ \<Rightarrow> ev_wire E = Wire_IK | RK_XX _ \<Rightarrow> ev_wire E = Wire_XX)"
proof -
  let ?C = "ev_crypto E"
  obtain pa pb par where k: "pubkey_prim ?C (nd_nsec s) = Some pa" "pubkey_prim ?C (nd_nsec B) = Some pb" "par \<in> {2, 3}"
      "nd_peer_npub s = par # tl pb"
    using p by (auto simp: paired_def)
  show ?thesis
  proof (cases "ev_wire E")
    case Wire_IK
    obtain i0 i1 m where "NoiseIkInitiator_new ?C e (nd_nsec s) (par # tl pb) = Ok (i0, pe)"
        "NoiseIkInitiator_write_message1 ?C pa (st_epoch s) 256 i0 = (Ok m, i1)" "length m = 106"
        "ik_offer ?C (st_epoch s) (nd_nsec s) (nd_nsec B) e i1 m"
      using ik_message1 [OF C e k(1,2,3) ep, of 256] k e unfolding ik_offer_def by fastforce
    then show ?thesis
      using that [of pa "RK_IK i0" m "RK_IK i1"] Wire_IK k by (auto simp: rekey_new_def rekey_write1_def rekey_offer_def ecdh_pubkey_def)
  next
    case Wire_XX
    obtain i0 i1 m where "NoiseXxInitiator_new ?C e (nd_nsec s) = Ok (i0, pe)" "NoiseXxInitiator_write_message1 ?C 256 i0 = (Ok m, i1)"
        "xx_offer ?C (nd_nsec s) (nd_nsec B) e i1 m" "length m = 33"
      using xx_message1 [OF C e k(2), of 256 "nd_nsec s"] k e length_pubkey [OF C e] unfolding xx_offer_def by fastforce
    then show ?thesis
      using that [of "[]" "RK_XX i0" m "RK_XX i1"] Wire_XX k by (auto simp: rekey_new_def rekey_write1_def rekey_offer_def)
  qed
qed

lemma start_rekey_Ok:
  assumes C: "crypto_ok (ev_crypto E)" and p: "paired s (ev_crypto E) B" and ep: "length (st_epoch s) = 8"
    and up: "tx_up (nd_tx s) = []" and draws: "can_draw E 1 s"
  obtains ri m rng where "start_rekey E now s = (Ok (), (resent (ri_msg1 ri) s)\<lparr>nd_rng := rng, rekey_init := Some ri\<rparr>)"
    "build_msg1 (ev_wire E) (ri_our_index ri) m 256 = Ok (ri_msg1 ri)" "rekey_offer E s (nd_nsec B) (ri_hs ri) m"
    "(case ri_hs ri of RK_IK _ \<Rightarrow> ev_wire E = Wire_IK | RK_XX _ \<Rightarrow> ev_wire E = Wire_XX)"
proof -
  obtain e rb j rw where d: "draw_until (eph_valid (ev_crypto E)) (rng_blocks (nd_rng s)) = (Ok e, rb)" "eph_valid (ev_crypto E) e"
    "draw_until (\<lambda>i. i \<noteq> 0) (rng_words (nd_rng s)) = (Ok j, rw)" using can_draw_one [OF draws] .
  obtain pe where pe: "pubkey_prim (ev_crypto E) e = Some pe" using d(2) by (auto simp: eph_valid_iff)
  obtain my_pub hs0 hs m where w: "(case ev_wire E of Wire_IK \<Rightarrow> map_err (\<lambda>_. ()) (ecdh_pubkey (ev_crypto E) (nd_nsec s)) | Wire_XX \<Rightarrow> Ok []) = Ok my_pub"
    "rekey_new E e (nd_nsec s) (nd_peer_npub s) = Ok hs0" "rekey_write1 E my_pub (st_epoch s) hs0 = (Ok m, hs)" "length m \<le> 106"
    "rekey_offer E s (nd_nsec B) hs m" "(case hs of RK_IK _ \<Rightarrow> ev_wire E = Wire_IK | RK_XX _ \<Rightarrow> ev_wire E = Wire_XX)"
    using rekey_first_message [OF C p ep pe] .
  obtain f1 where f1: "build_msg1 (ev_wire E) j m 256 = Ok f1" using w(4) by (simp add: build_msg_frames)
  let ?ri = "\<lparr>ri_hs = hs, ri_our_index = j, ri_msg1 = f1, ri_resends = 0,
      ri_next_resend_at = now + from_millis (handshake_resend_interval_ms (nd_timing s))\<rparr>"
  have i: "initiate_rekey E now (st_epoch s) s = (Ok ?ri, (resent f1 s)\<lparr>nd_rng := \<lparr>rng_blocks = rb, rng_words = rw\<rparr>\<rparr>)"
    using w(1-3) f1 d(1,3) up unfolding initiate_rekey_def
    by (simp add: step_simps generate_valid_eph_def draw_eph_def allocate_session_index_def map_errm_def resent_def node_send_frame_up)
  have "start_rekey E now s = (Ok (), (resent f1 s)\<lparr>nd_rng := \<lparr>rng_blocks = rb, rng_words = rw\<rparr>, rekey_init := Some ?ri\<rparr>)"
    using i by (simp add: start_rekey_def step_simps bindm_optm_Ok modm_def)
  then show ?thesis using that [of ?ri _ m] f1 w(5,6) by simp
qed

lemma answer_ik_Ok:
  assumes C: "crypto_ok (ev_crypto E)" and peer: "nd_peer_npub s = par # tl (the (pubkey_prim (ev_crypto E) sa))"
    and o: "ik_offer (ev_crypto E) ep sa (nd_nsec s) ie i1 m" and draws: "can_draw E 1 s" and ep: "length epoch = 8"
  obtains m2 i2 f2 j rng where
    "answer_rekey_msg1_ik E i m epoch k s =
       (Ok (new_slot (snd (split_keys (ev_crypto E) (sy_ck i2))) (fst (split_keys (ev_crypto E) (sy_ck i2))) i (\<not> k), f2), s\<lparr>nd_rng := rng\<rparr>)"
    "NoiseIkInitiator_read_message2 (ev_crypto E) m2 i1 = (Ok epoch, i2)" "length m2 = 57" "build_msg2 (ev_wire E) j i m2 256 = Ok f2"
proof -
  let ?C = "ev_crypto E"
  obtain pa pb pe par' r0 r1 where m1: "pubkey_prim ?C sa = Some pa" "pubkey_prim ?C (nd_nsec s) = Some pb" "pubkey_prim ?C ie = Some pe"
      "par' \<in> {2, 3}" "length m = 106" "take 33 m = pe" "NoiseIkResponder_new ?C (nd_nsec s) pe = Ok r0"
      "NoiseIkResponder_read_message1 ?C (drop 33 m) r0 = (Ok (pa, ep), r1)" "sy_ck r1 = sy_ck i1" "ikr_s_priv r1 = nd_nsec s"
      "ikr_ei_pub r1 = pe" "iki_e_priv i1 = ie" "iki_rs_pub i1 = par' # tl pb"
    using o unfolding ik_offer_def by blast
  obtain re rb j rw where d: "draw_until (eph_valid ?C) (rng_blocks (nd_rng s)) = (Ok re, rb)" "eph_valid ?C re"
    "draw_until (\<lambda>i. i \<noteq> 0) (rng_words (nd_rng s)) = (Ok j, rw)" using can_draw_one [OF draws] .
  obtain pre where pre: "pubkey_prim ?C re = Some pre" using d(2) by (auto simp: eph_valid_iff)
  obtain m2 i2 r2 where m2: "NoiseIkResponder_write_message2 ?C re epoch 128 r1 = (Ok m2, r2)" "length m2 = 57"
      "NoiseIkInitiator_read_message2 ?C m2 i1 = (Ok epoch, i2)" "sy_ck r2 = sy_ck i2"
    using ik_message2 [OF C m1(3) pre m1(2,4) ep _ m1(9-13), of 128] by auto
  obtain f2 where f2: "build_msg2 (ev_wire E) j i m2 256 = Ok f2" using m2(2) by (simp add: build_msg_frames)
  have x: "take 32 (drop (Suc 0) pa) = tl pa" "take 32 (tl pa) = tl pa" using length_pubkey [OF C m1(1)] by (auto simp: drop_Suc)
  have "answer_rekey_msg1_ik E i m epoch k s =
       (Ok (new_slot (snd (split_keys ?C (sy_ck i2))) (fst (split_keys ?C (sy_ck i2))) i (\<not> k), f2),
        s\<lparr>nd_rng := \<lparr>rng_blocks = rb, rng_words = rw\<rparr>\<rparr>)"
    using peer m1(1,5-8) d(1,3) m2(1,4) f2 x
    by (simp add: answer_rekey_msg1_ik_def Let_def step_simps generate_valid_eph_def draw_eph_def allocate_session_index_def map_errm_def
        NoiseIkResponder_finalize_def split_beta slice_def)
  then show ?thesis using that m2 f2 by blast
qed

lemma route_msg1_fresh:
  assumes "parse_message (ev_wire E) f = Ok (Msg1 i m)" "last_rekey_msg1 s \<noteq> Some (take 128 f)" "fresh_ok now s" "length m \<le> 128"
  shows "route_frame E now f s = bindm (answer_fresh_msg1 E i m (take 128 f))
    (\<lambda>answered. if answered then modm (\<lambda>s. heard now (s\<lparr>last_peer_rekey_at := Some now\<rparr>)) else retm ())
    (s\<lparr>last_fresh_answer_at := Some now\<rparr>)"
  using assms by (cases "last_fresh_answer_at s") (simp_all add: route_frame_def steady_msg1_def Let_def step_simps fresh_ok_def)

text \<open>Both sides hold the same pending epoch, armed by the first of them.\<close>

lemma armedI:
  assumes "crypto_ok C" "sl_pend (st_slots A) = Some (new_slot (fst (split_keys C ck)) (snd (split_keys C ck)) ib (\<not> es_k_bit (sl_cur (st_slots A))))"
    "pend_self A" "sl_pend (st_slots B) = Some (new_slot (snd (split_keys C ck)) (fst (split_keys C ck)) ia (\<not> es_k_bit (sl_cur (st_slots B))))"
    "es_k_bit (sl_cur (st_slots A)) = es_k_bit (sl_cur (st_slots B))"
  shows "armed A B"
  unfolding armed_def
  by (intro exI [of _ "fst (split_keys C ck)"] exI [of _ "snd (split_keys C ck)"] exI [of _ ia] exI [of _ ib] exI [of _ "es_k_bit (sl_cur (st_slots A))"])
    (use assms in simp)

lemma rekey_readyD:
  assumes "rekey_ready E s t"
  shows "paired s (ev_crypto E) t" "length (st_epoch s) = 8" "tx_up (nd_tx s) = []" "can_draw E 1 s" "frame_count (nd_policy s) < FRAME_RATE_MAX"
    "frame_count (snd (check_frame_rate now (nd_policy s))) < FRAME_RATE_MAX"
  using assms rate_allows(2) [of "nd_policy s" now] by (auto simp: rekey_ready_def)

text \<open>The answer of an IK node to the first message of a rekey.\<close>

lemma ik_rekey_answered:
  assumes C: "crypto_ok (ev_crypto E)" and E: "ev_wire E = Wire_IK" and r: "rekey_ready E s t" and fresh: "last_rekey_msg1 s = None" "fresh_ok now s"
    and o: "ik_offer (ev_crypto E) ep (nd_nsec t) (nd_nsec s) e i1 m" and f: "build_msg1 Wire_IK i m 256 = Ok f"
  obtains m2 i2 f2 j s1 where "steady_frame E now f s = (Ok (), s1)"
    "sl_pend (st_slots s1) = Some (new_slot (snd (split_keys (ev_crypto E) (sy_ck i2))) (fst (split_keys (ev_crypto E) (sy_ck i2))) i (\<not> es_k_bit (sl_cur (st_slots s))))"
    "sl_cur (st_slots s1) = sl_cur (st_slots s)" "pend_self s1 = pend_self s" "tx_sent (nd_tx s1) = tx_sent (nd_tx s) @ wire_data (nd_raw_framing s) f2"
    "NoiseIkInitiator_read_message2 (ev_crypto E) m2 i1 = (Ok (st_epoch s), i2)" "length m2 = 57" "build_msg2 Wire_IK j i m2 256 = Ok f2"
proof -
  note r = rekey_readyD [OF r]
  let ?s = "s\<lparr>nd_policy := snd (check_frame_rate now (nd_policy s)), last_fresh_answer_at := Some now\<rparr>"
  have len: "length m = 106" using o by (auto simp: ik_offer_def)
  obtain par where par: "nd_peer_npub s = par # tl (the (pubkey_prim (ev_crypto E) (nd_nsec t)))" using r(1) by (auto simp: paired_def)
  obtain m2 i2 f2 j rng where b: "answer_rekey_msg1_ik E i m (st_epoch s) (es_k_bit (sl_cur (st_slots s))) ?s =
       (Ok (new_slot (snd (split_keys (ev_crypto E) (sy_ck i2))) (fst (split_keys (ev_crypto E) (sy_ck i2))) i (\<not> es_k_bit (sl_cur (st_slots s))), f2), ?s\<lparr>nd_rng := rng\<rparr>)"
      "NoiseIkInitiator_read_message2 (ev_crypto E) m2 i1 = (Ok (st_epoch s), i2)" "length m2 = 57" "build_msg2 (ev_wire E) j i m2 256 = Ok f2"
    by (rule answer_ik_Ok [of E ?s par "nd_nsec t" ep e i1 m "st_epoch s" i]) (use C par o r in \<open>simp_all add: can_draw_def\<close>)
  note p = handshake_frames(1) [OF f]
  define s1 where "s1 = snd (steady_frame E now f s)"
  show ?thesis
    by (rule that [of s1 i2 f2 m2 j])
      (use route_msg1_fresh [of E f i m "s\<lparr>nd_policy := snd (check_frame_rate now (nd_policy s))\<rparr>" now] p fresh len E b r(3) in
       \<open>simp_all add: s1_def frame_routed [OF r(5)] answer_fresh_msg1_def step_simps bindm_optm_Ok bindm_send_ignored node_send_frame_up set_pend_def heard_def modm_def retm_def upd_policy_def\<close>)
qed

lemma ik_rekey_completed:
  assumes E: "ev_wire E = Wire_IK" and rate: "frame_count (nd_policy s) < FRAME_RATE_MAX"
    and ri: "rekey_init s = Some ri" "ri_hs ri = RK_IK i1" and f: "build_msg2 Wire_IK j (ri_our_index ri) m2 256 = Ok f"
    and m2: "NoiseIkInitiator_read_message2 (ev_crypto E) m2 i1 = (Ok ep, i2)" "length m2 = 57"
  obtains s1 where "steady_frame E now f s = (Ok (), s1)"
    "sl_pend (st_slots s1) = Some (new_slot (fst (split_keys (ev_crypto E) (sy_ck i2))) (snd (split_keys (ev_crypto E) (sy_ck i2))) j (\<not> es_k_bit (sl_cur (st_slots s))))"
    "sl_cur (st_slots s1) = sl_cur (st_slots s)" "pend_self s1"
  by (rule that [of "snd (steady_frame E now f s)"])
    (use handshake_frames(2) [OF f] E ri m2 in
     \<open>simp_all add: frame_routed [OF rate] route_frame_def step_simps steady_msg2_def rekey_complete_def Let_def NoiseIkInitiator_finalize_def set_pend_def heard_def modm_def upd_policy_def split_beta\<close>)

lemma xx_rekey_answered:
  assumes C: "crypto_ok (ev_crypto E)" and E: "ev_wire E = Wire_XX" and r: "rekey_ready E s t" and fresh: "last_rekey_msg1 s = None" "fresh_ok now s"
    and o: "xx_offer (ev_crypto E) (nd_nsec t) (nd_nsec s) e i1 m" and f: "build_msg1 Wire_XX i m 256 = Ok f"
  obtains m2 r2 f2 j pb pre re i2 s1 where "steady_frame E now f s = (Ok (), s1)" "rekey_hs s1 = Some (r2, j, i)" "st_slots s1 = st_slots s"
    "frame_count (nd_policy s1) < FRAME_RATE_MAX" "nd_peer_npub s1 = nd_peer_npub s"
    "tx_sent (nd_tx s1) = tx_sent (nd_tx s) @ wire_data (nd_raw_framing s) f2"
    "build_msg2 Wire_XX j i m2 256 = Ok f2" "length m2 = 106" "pubkey_prim (ev_crypto E) (nd_nsec s) = Some pb"
    "NoiseXxInitiator_read_message2 (ev_crypto E) m2 i1 = (Ok (pb, st_epoch s), i2)" "xx_synced i2 r2"
    "pubkey_prim (ev_crypto E) re = Some pre" "xxi_re_pub i2 = Some pre" "xxr_e_priv r2 = Some re" "xxi_s_priv i2 = nd_nsec t"
proof -
  note r = rekey_readyD [OF r]
  let ?s = "s\<lparr>nd_policy := snd (check_frame_rate now (nd_policy s)), last_fresh_answer_at := Some now\<rparr>"
  have len: "length m = 33" using o length_pubkey [OF C] by (auto simp: xx_offer_def)
  obtain m2 r2 f2 j rb rw pb pre re i2 where b: "begin_rekey_xx E i m (st_epoch s) ?s = (Ok (r2, j, f2), ?s\<lparr>nd_rng := \<lparr>rng_blocks = rb, rng_words = rw\<rparr>\<rparr>)"
    "build_msg2 (ev_wire E) j i m2 256 = Ok f2" "length m2 = 106" "pubkey_prim (ev_crypto E) (nd_nsec ?s) = Some pb"
    "NoiseXxInitiator_read_message2 (ev_crypto E) m2 i1 = (Ok (pb, st_epoch s), i2)" "xx_synced i2 r2"
    "pubkey_prim (ev_crypto E) re = Some pre" "xxi_re_pub i2 = Some pre" "xxr_e_priv r2 = Some re" "xxi_s_priv i2 = nd_nsec t"
    by (rule begin_xx_Ok [of E "nd_nsec t" ?s e i1 m "st_epoch s" i]) (use C o r in \<open>simp_all add: can_draw_def\<close>)
  note p = handshake_frames(1) [OF f]
  have nd: "nd_nsec ?s = nd_nsec s" by simp
  define s1 where "s1 = snd (steady_frame E now f s)"
  have s1: "steady_frame E now f s = (Ok (), s1)" "rekey_hs s1 = Some (r2, j, i)" "st_slots s1 = st_slots s" 
    "nd_policy s1 = record_good_frame (snd (check_frame_rate now (nd_policy s)))" "nd_peer_npub s1 = nd_peer_npub s"
    "tx_sent (nd_tx s1) = tx_sent (nd_tx s) @ wire_data (nd_raw_framing s) f2"
    unfolding s1_def frame_routed [OF r(5)]
    using route_msg1_fresh [of E f i m "s\<lparr>nd_policy := snd (check_frame_rate now (nd_policy s))\<rparr>" now] p fresh len E b(1) r(3)
    by (simp_all add: answer_fresh_msg1_def step_simps bindm_optm_Ok bindm_send_ignored node_send_frame_up heard_def modm_def retm_def upd_policy_def)
  have "frame_count (nd_policy s1) < FRAME_RATE_MAX" using r(6) [of now] unfolding s1(4) by (simp add: record_good_frame_def)
  then show ?thesis using that [OF s1(1-3) _ s1(5,6) _ b(3) _ b(5-10)] b(2,4) E nd by simp
qed

lemma xx_rekey_completed:
  assumes C: "crypto_ok (ev_crypto E)" and E: "ev_wire E = Wire_XX" and rate: "frame_count (nd_policy s) < FRAME_RATE_MAX" and up: "tx_up (nd_tx s) = []"
    and ep: "length (st_epoch s) = 8" and p: "paired s (ev_crypto E) t" "pubkey_prim (ev_crypto E) (nd_nsec t) = Some pb"
    and ri: "rekey_init s = Some ri" "ri_hs ri = RK_XX i1" and f: "build_msg2 Wire_XX j (ri_our_index ri) m2 256 = Ok f" "length m2 = 106"
    and m2: "NoiseXxInitiator_read_message2 (ev_crypto E) m2 i1 = (Ok (pb, ep2), i2)" "xx_synced i2 r2"
    "pubkey_prim (ev_crypto E) re = Some pre" "xxi_re_pub i2 = Some pre" "xxr_e_priv r2 = Some re" "xxi_s_priv i2 = nd_nsec s"
  obtains m3 f3 r3 pa ck s1 where "steady_frame E now f s = (Ok (), s1)" "pend_self s1" "sl_cur (st_slots s1) = sl_cur (st_slots s)"
    "sl_pend (st_slots s1) = Some (new_slot (fst (split_keys (ev_crypto E) ck)) (snd (split_keys (ev_crypto E) ck)) j (\<not> es_k_bit (sl_cur (st_slots s))))"
    "tx_sent (nd_tx s1) = tx_sent (nd_tx s) @ wire_data (nd_raw_framing s) f3" "build_msg3 Wire_XX (ri_our_index ri) j m3 256 = Ok f3"
    "pubkey_prim (ev_crypto E) (nd_nsec s) = Some pa" "NoiseXxResponder_read_message3 (ev_crypto E) m3 r2 = (Ok (pa, st_epoch s), r3)" "sy_ck r3 = ck"
proof -
  let ?C = "ev_crypto E"
  obtain pa par where k: "pubkey_prim ?C (nd_nsec s) = Some pa" "nd_peer_npub s = par # tl pb" using p by (auto simp: paired_def)
  obtain m3 i3 r3 where 3: "NoiseXxInitiator_write_message3 ?C pa (st_epoch s) 128 i2 = (Ok m3, i3)" "length m3 = 73"
      "NoiseXxResponder_read_message3 ?C m3 r2 = (Ok (pa, st_epoch s), r3)" "xx_synced i3 r3"
    using xx_message3 [OF C k(1) m2(3) ep _ m2(2,4) m2(6,5), of 128] by auto
  obtain f3 where f3: "build_msg3 Wire_XX (ri_our_index ri) j m3 256 = Ok f3" using 3(2) by (simp add: build_msg_frames)
  have x: "take 32 (drop (Suc 0) pb) = tl pb" "take 32 (tl pb) = tl pb" using length_pubkey [OF C p(2)] by (auto simp: drop_Suc)
  define s0 where "s0 = s\<lparr>nd_policy := snd (check_frame_rate now (nd_policy s)), rekey_init := None\<rparr>"
  have w: "xx_rekey_msg3 E (ri_our_index ri) i2 j (st_epoch s) s0 = (Ok (split_keys ?C (sy_ck i3)), resent f3 s0)"
    using k 3(1) f3 up E unfolding s0_def
    by (simp add: xx_rekey_msg3_def Let_def step_simps ecdh_pubkey_def NoiseXxInitiator_finalize_def resent_def map_errm_def node_send_frame_up retm_def)
  have ck: "sy_ck r3 = sy_ck i3" using 3(4) by (simp add: xx_synced_def)
  show ?thesis
    by (rule that [OF _ _ _ _ _ f3 k(1) 3(3) ck, of "snd (steady_frame E now f s)"])
      (use handshake_frames(2) [OF f(1)] f(2) E ri m2(1) k(2) x w [unfolded s0_def] in
       \<open>simp_all add: frame_routed [OF rate] route_frame_def step_simps steady_msg2_def rekey_complete_def Let_def bindm_optm_Ok set_pend_def heard_def modm_def retm_def upd_policy_def split_beta resent_def\<close>)
qed

lemma xx_rekey_confirmed:
  assumes C: "crypto_ok (ev_crypto E)" and E: "ev_wire E = Wire_XX" and rate: "frame_count (nd_policy s) < FRAME_RATE_MAX"
    and hs: "rekey_hs s = Some (r2, j, i)" and f: "build_msg3 Wire_XX i j m3 256 = Ok f"
    and m3: "NoiseXxResponder_read_message3 (ev_crypto E) m3 r2 = (Ok (pa, ep), r3)" "pubkey_prim (ev_crypto E) sa = Some pa" "nd_peer_npub s = par # tl pa"
  obtains s1 where "steady_frame E now f s = (Ok (), s1)" "sl_cur (st_slots s1) = sl_cur (st_slots s)"
    "sl_pend (st_slots s1) = Some (new_slot (snd (split_keys (ev_crypto E) (sy_ck r3))) (fst (split_keys (ev_crypto E) (sy_ck r3))) i (\<not> es_k_bit (sl_cur (st_slots s))))"
proof -
  have x: "take 32 (drop (Suc 0) pa) = tl pa" "take 32 (tl pa) = tl pa" using length_pubkey [OF C m3(2)] by (auto simp: drop_Suc)
  show ?thesis
    by (rule that [of "snd (steady_frame E now f s)"])
      (use handshake_frames(3) [OF f] E hs m3 x in
       \<open>simp_all add: frame_routed [OF rate] route_frame_def step_simps steady_msg3_def NoiseXxResponder_finalize_def set_pend_def heard_def modm_def upd_policy_def split_beta\<close>)
qed

unbundle bit_operations_syntax

lemma frame_k_bit_header: "frame_k_bit v (build_established_header v r c flags len @ e) \<longleftrightarrow> flags AND FLAG_KEY_EPOCH \<noteq> 0"
proof -
  have "build_established_header v r c flags len ! 1 = flags" by (simp add: build_established_header_def)
  then show ?thesis by (simp add: frame_k_bit_def)
qed

lemma sealed_k_bit:
  assumes "crypto_ok C" "length (es_ks slot) = 32" "seal_link C v now cap (t # p) slot = (Ok f, slot')" "length p \<le> 219" "length p + 5 \<le> cap"
  shows "frame_k_bit v f = es_k_bit slot"
proof -
  obtain f0 ct where "seal_link C v now cap (t # p) slot = (Ok f0, slot\<lparr>es_send_ctr := es_send_ctr slot + 1\<rparr>)"
    "f0 = build_established_header v (es_them slot) (es_send_ctr slot) (if es_k_bit slot then FLAG_KEY_EPOCH else 0) (of_nat (length p + 5)) @ ct"
    using encrypt_and_assemble_Ok [OF assms(1,2), of "le32 (of_nat (as_millis now)) @ t # p" 256 v "es_them slot" "es_send_ctr slot" "if es_k_bit slot then FLAG_KEY_EPOCH else 0"] assms(4,5)
    by (auto simp: seal_link_def prepend_inner_header_def Let_def add.commute)
  then show ?thesis using assms(3) by (simp add: frame_k_bit_header FLAG_KEY_EPOCH_def)
qed

lemma trial_decrypt_cutover:
  assumes C: "crypto_ok C" and f: "seal_link C v now 32 [t] slot = (Ok f, slot')" "length (es_ks slot) = 32" "es_send_ctr slot = 0"
    and s: "sl_pend s = Some p" "es_kr p = es_ks slot" "es_replay p = ReplayWindow_new" "es_k_bit slot \<noteq> es_k_bit (sl_cur s)"
  obtains p' where "trial_decrypt ptr C v f s = (From_pend (opened 0 (now, t, [])), s\<lparr>sl_pend := Some p'\<rparr>)"
    "es_ks p' = es_ks p" "es_kr p' = es_kr p" "es_k_bit p' = es_k_bit p"
proof -
  have k: "frame_k_bit v f = es_k_bit slot" using sealed_k_bit [OF C f(2,1)] by simp
  have sealed: "sealed_frame C v (es_kr p) 0 (now, t, []) f"
    using seal_link_Ok [OF C f(2), of now t "[]" 32 v] f s(2) by (simp add: msg_ok_def)
  obtain w where "open_slot ptr C v f p = (Ok (opened 0 (now, t, [])), p\<lparr>es_replay := w\<rparr>)"
    using open_slot_sealed [OF _ _ sealed, of ptr "{}"] s(3) by (auto simp: window_rel_new admissible_def)
  then show ?thesis
    using that [of "p\<lparr>es_replay := w\<rparr>"] k s by (simp add: trial_decrypt_def or_try_def try_pend_def Let_def)
qed

lemma run_heartbeat:
  "run_action E now FA_HeartbeatRecv s = (Ok (), on_event_node E now HeartbeatRecvEv (upd_policy record_heartbeat s))"
  by (simp add: run_action_def with_cur_def process_frame_action_def bindm_def getm_def map_errm_def modm_def retm_def guardm_def
      upd_policy_def on_event_node_def)

lemma handle_heartbeat:
  "\<exists>s'. handle_opened E now (opened c (t, MSG_HEARTBEAT, [])) s = (Ok (), s') \<and> st_slots s' = st_slots s"
  by (simp add: handle_opened_def opened_def maybe_handle_mmp_control_def dispatch_node_def dispatch_link_message_def bindm_def modm_def map_errm_def retm_def
      run_heartbeat upd_policy_def on_event_node_def upd_mmp_def MSG_HEARTBEAT_def MSG_SENDER_REPORT_def MSG_RECEIVER_REPORT_def)

lemma heartbeat_sent:
  assumes C: "crypto_ok (ev_crypto E)" and up: "tx_up (nd_tx s) = []" and ks: "length (es_ks (sl_cur (st_slots s))) = 32"
  obtains f s1 where "heartbeat_due E now s = (Ok (), s1)" "seal_link (ev_crypto E) (ev_wire E) now 32 [MSG_HEARTBEAT] (sl_cur (st_slots s)) =
      (Ok f, (sl_cur (st_slots s))\<lparr>es_send_ctr := es_send_ctr (sl_cur (st_slots s)) + 1\<rparr>)"
    "tx_sent (nd_tx s1) = tx_sent (nd_tx s) @ wire_data (nd_raw_framing s) f" "pend_self s1 = pend_self s"
    "st_slots s1 = (st_slots s)\<lparr>sl_cur := (sl_cur (st_slots s))\<lparr>es_send_ctr := es_send_ctr (sl_cur (st_slots s)) + 1\<rparr>\<rparr>"
proof -
  obtain f where f: "seal_link (ev_crypto E) (ev_wire E) now 32 [MSG_HEARTBEAT] (sl_cur (st_slots s)) =
      (Ok f, (sl_cur (st_slots s))\<lparr>es_send_ctr := es_send_ctr (sl_cur (st_slots s)) + 1\<rparr>)"
    using seal_link_Ok [OF C ks, of now MSG_HEARTBEAT "[]" 32 "ev_wire E"] by (auto simp: msg_ok_def)
  show ?thesis
    by (rule that [OF _ f, of "snd (heartbeat_due E now s)"])
      (use f up in \<open>simp_all add: heartbeat_due_def with_cur_def send_heartbeat_def send_sealed_def step_simps bindm_def getm_def map_errm_def retm_def
         modm_def node_send_frame_up Let_def upd_mmp_def on_event_node_def\<close>)
qed

lemma promote_sel [simp]:
  "st_slots (promote E now c s) = \<lparr>sl_cur = c, sl_pend = None, sl_prev = Some (sl_cur (st_slots s))\<rparr>"
  "nd_tx (promote E now c s) = nd_tx s" "nd_raw_framing (promote E now c s) = nd_raw_framing s" "pend_self (promote E now c s) = pend_self s"
  by (simp_all add: promote_def upd_mmp_def)

lemma steady_init_more:
  "nd_nsec (steady_init now epoch ks kr them x n) = nd_nsec n" "nd_peer_npub (steady_init now epoch ks kr them x n) = nd_peer_npub n"
  "nd_tx (steady_init now epoch ks kr them x n) = nd_tx n" "nd_rng (steady_init now epoch ks kr them x n) = nd_rng n"
  "nd_policy (steady_init now epoch ks kr them x n) = nd_policy n" "st_epoch (steady_init now epoch ks kr them x n) = epoch"
  "last_rekey_msg1 (steady_init now epoch ks kr them x n) = None" "last_fresh_answer_at (steady_init now epoch ks kr them x n) = None"
  "st_slots (steady_init now epoch ks kr them x n) = \<lparr>sl_cur = new_slot ks kr them False, sl_pend = None, sl_prev = None\<rparr>"
  by (simp_all add: steady_init_def Let_def node.defs steady.defs)

lemma sample_link_simps [simp]:
  "st_epoch (sample_link a b) = replicate 8 a" "last_rekey_msg1 (sample_link a b) = None" "fresh_ok now (sample_link a b)"
  "nd_policy (sample_link a b) = nd_policy (sample_node a b Leaf)" "nd_tx (sample_link a b) = nd_tx (sample_node a b Leaf)"
  "es_k_bit (sl_cur (st_slots (sample_link a b))) = False" "last_rx (sample_link a b) = 0"
  by (simp_all add: sample_link_def steady_init_more fresh_ok_def)

lemma sample_policy [simp]: "frame_count (nd_policy (sample_node a b p)) = 0" "tx_up (nd_tx (sample_node a b p)) = []"
  by (simp_all add: sample_node_def Node_new_def Node_with_timing_def set_node_profile_def PeerPolicy_with_timing_def fresh_transport_def)

lemma link_ready:
  assumes "ready (sample_env v) (sample_node a b Leaf)" "paired (sample_node a b Leaf) sample_crypto (sample_node b a Leaf)"
  shows "rekey_ready (sample_env v) (sample_link a b) (sample_link b a)"
  using assms by (auto simp: rekey_ready_def sample_link_def steady_init_more ready_def paired_def can_draw_def)

lemmas sample_links = link_ready [OF sample_ready(1) sample_paired(1)] link_ready [OF sample_ready(2) sample_paired(2)]

lemma begin_xx_congs: "can_draw E k (s\<lparr>nd_policy := p\<rparr>) = can_draw E k s" "can_draw E k (s\<lparr>last_fresh_answer_at := q\<rparr>) = can_draw E k s"
  by (simp_all add: can_draw_def)

section \<open>Properties\<close>

text \<open>C6. A rekey over IK on an established link succeeds: the Msg1 the initiator sends is
  answered by the peer, the Msg2 it sends back completes it, and both ends then hold the same pending
  epoch with crossed keys and a flipped key-epoch bit, while their current epochs are untouched.\<close>

theorem ik_rekey_agrees:
  assumes C: "crypto_ok C" and E: "ev_crypto EA = C" "ev_crypto EB = C" "ev_wire EA = Wire_IK" "ev_wire EB = Wire_IK"
    and r: "rekey_ready EA A B" "rekey_ready EB B A" and fresh: "last_rekey_msg1 B = None" "fresh_ok tb B"
    and k: "es_k_bit (sl_cur (st_slots A)) = es_k_bit (sl_cur (st_slots B))"
  shows "\<exists>f1 f2 A1 A2 B1. start_rekey EA ta A = (Ok (), A1) \<and> tx_sent (nd_tx A1) = tx_sent (nd_tx A) @ wire_data (nd_raw_framing A) f1 \<and>
    steady_frame EB tb f1 B = (Ok (), B1) \<and> tx_sent (nd_tx B1) = tx_sent (nd_tx B) @ wire_data (nd_raw_framing B) f2 \<and>
    steady_frame EA tc f2 A1 = (Ok (), A2) \<and> armed A2 B1"
proof -
  have CA: "crypto_ok (ev_crypto EA)" "crypto_ok (ev_crypto EB)" using C E by auto
  obtain ri m rng where a: "start_rekey EA ta A = (Ok (), (resent (ri_msg1 ri) A)\<lparr>nd_rng := rng, rekey_init := Some ri\<rparr>)"
    "build_msg1 (ev_wire EA) (ri_our_index ri) m 256 = Ok (ri_msg1 ri)" "rekey_offer EA A (nd_nsec B) (ri_hs ri) m"
    "(case ri_hs ri of RK_IK _ \<Rightarrow> ev_wire EA = Wire_IK | RK_XX _ \<Rightarrow> ev_wire EA = Wire_XX)"
    using start_rekey_Ok [OF CA(1) rekey_readyD(1-4) [OF r(1)]] .
  obtain i1 e where i1: "ri_hs ri = RK_IK i1" "ik_offer (ev_crypto EB) (st_epoch A) (nd_nsec A) (nd_nsec B) e i1 m"
    using a(3,4) E by (auto simp: rekey_offer_def split: rekey_machine.splits)
  let ?A1 = "(resent (ri_msg1 ri) A)\<lparr>nd_rng := rng, rekey_init := Some ri\<rparr>"
  have f1: "build_msg1 Wire_IK (ri_our_index ri) m 256 = Ok (ri_msg1 ri)" using a(2) E(3) by simp
  obtain m2 i2 f2 j B1 where b: "steady_frame EB tb (ri_msg1 ri) B = (Ok (), B1)"
      "sl_pend (st_slots B1) = Some (new_slot (snd (split_keys (ev_crypto EB) (sy_ck i2))) (fst (split_keys (ev_crypto EB) (sy_ck i2))) (ri_our_index ri) (\<not> es_k_bit (sl_cur (st_slots B))))"
      "sl_cur (st_slots B1) = sl_cur (st_slots B)" "pend_self B1 = pend_self B" "tx_sent (nd_tx B1) = tx_sent (nd_tx B) @ wire_data (nd_raw_framing B) f2"
      "NoiseIkInitiator_read_message2 (ev_crypto EB) m2 i1 = (Ok (st_epoch B), i2)" "length m2 = 57" "build_msg2 Wire_IK j (ri_our_index ri) m2 256 = Ok f2"
    using ik_rekey_answered [OF CA(2) E(4) r(2) fresh i1(2) f1] .
  have c: "frame_count (nd_policy ?A1) < FRAME_RATE_MAX" "NoiseIkInitiator_read_message2 (ev_crypto EA) m2 i1 = (Ok (st_epoch B), i2)" "rekey_init ?A1 = Some ri"
    using rekey_readyD(5) [OF r(1)] b(6) E by (simp_all add: resent_def)
  obtain A2 where a2: "steady_frame EA tc f2 ?A1 = (Ok (), A2)"
      "sl_pend (st_slots A2) = Some (new_slot (fst (split_keys (ev_crypto EA) (sy_ck i2))) (snd (split_keys (ev_crypto EA) (sy_ck i2))) j (\<not> es_k_bit (sl_cur (st_slots ?A1))))"
      "sl_cur (st_slots A2) = sl_cur (st_slots ?A1)" "pend_self A2"
    using ik_rekey_completed [OF E(3) c(1,3) i1(1) b(8) c(2) b(7)] .
  have "armed A2 B1" by (rule armedI [OF C, of A2 "sy_ck i2" j B1 "ri_our_index ri"]) (use a2 b(2,3) k E in \<open>simp_all add: resent_def\<close>)
  then show ?thesis using a(1) a2(1) b(1,5) by (auto simp: resent_def)
qed

text \<open>C11. A rekey over XX on an established link succeeds: Msg1, Msg2 and Msg3, each taken as
  the sender hands it to its transport, leave both ends with the same pending epoch.\<close>

theorem xx_rekey_agrees:
  assumes C: "crypto_ok C" and E: "ev_crypto EA = C" "ev_crypto EB = C" "ev_wire EA = Wire_XX" "ev_wire EB = Wire_XX"
    and r: "rekey_ready EA A B" "rekey_ready EB B A" and fresh: "last_rekey_msg1 B = None" "fresh_ok tb B"
    and k: "es_k_bit (sl_cur (st_slots A)) = es_k_bit (sl_cur (st_slots B))"
  shows "\<exists>f1 f2 f3 A1 A2 B1 B2. start_rekey EA ta A = (Ok (), A1) \<and> tx_sent (nd_tx A1) = tx_sent (nd_tx A) @ wire_data (nd_raw_framing A) f1 \<and>
    steady_frame EB tb f1 B = (Ok (), B1) \<and> tx_sent (nd_tx B1) = tx_sent (nd_tx B) @ wire_data (nd_raw_framing B) f2 \<and>
    steady_frame EA tc f2 A1 = (Ok (), A2) \<and> tx_sent (nd_tx A2) = tx_sent (nd_tx A1) @ wire_data (nd_raw_framing A) f3 \<and>
    steady_frame EB td f3 B1 = (Ok (), B2) \<and> armed A2 B2"
proof -
  have CA: "crypto_ok (ev_crypto EA)" "crypto_ok (ev_crypto EB)" and eq: "ev_crypto EB = ev_crypto EA" using C E by auto
  obtain ri m rng where a: "start_rekey EA ta A = (Ok (), (resent (ri_msg1 ri) A)\<lparr>nd_rng := rng, rekey_init := Some ri\<rparr>)"
    "build_msg1 (ev_wire EA) (ri_our_index ri) m 256 = Ok (ri_msg1 ri)" "rekey_offer EA A (nd_nsec B) (ri_hs ri) m"
    "(case ri_hs ri of RK_IK _ \<Rightarrow> ev_wire EA = Wire_IK | RK_XX _ \<Rightarrow> ev_wire EA = Wire_XX)"
    using start_rekey_Ok [OF CA(1) rekey_readyD(1-4) [OF r(1)]] .
  obtain i1 e where i1: "ri_hs ri = RK_XX i1" "xx_offer (ev_crypto EB) (nd_nsec A) (nd_nsec B) e i1 m"
    using a(3,4) E by (auto simp: rekey_offer_def split: rekey_machine.splits)
  let ?A1 = "(resent (ri_msg1 ri) A)\<lparr>nd_rng := rng, rekey_init := Some ri\<rparr>"
  have f1: "build_msg1 Wire_XX (ri_our_index ri) m 256 = Ok (ri_msg1 ri)" using a(2) E(3) by simp
  obtain m2 r2 f2 j pb pre re i2 B1 where b: "steady_frame EB tb (ri_msg1 ri) B = (Ok (), B1)" "rekey_hs B1 = Some (r2, j, ri_our_index ri)"
    "st_slots B1 = st_slots B" "frame_count (nd_policy B1) < FRAME_RATE_MAX" "nd_peer_npub B1 = nd_peer_npub B"
    "tx_sent (nd_tx B1) = tx_sent (nd_tx B) @ wire_data (nd_raw_framing B) f2"
    "build_msg2 Wire_XX j (ri_our_index ri) m2 256 = Ok f2" "length m2 = 106" "pubkey_prim (ev_crypto EB) (nd_nsec B) = Some pb"
    "NoiseXxInitiator_read_message2 (ev_crypto EB) m2 i1 = (Ok (pb, st_epoch B), i2)" "xx_synced i2 r2"
    "pubkey_prim (ev_crypto EB) re = Some pre" "xxi_re_pub i2 = Some pre" "xxr_e_priv r2 = Some re" "xxi_s_priv i2 = nd_nsec A"
    using xx_rekey_answered [OF CA(2) E(4) r(2) fresh i1(2) f1] .
  have c: "frame_count (nd_policy ?A1) < FRAME_RATE_MAX" "tx_up (nd_tx ?A1) = []" "length (st_epoch ?A1) = 8" "paired ?A1 (ev_crypto EA) B"
      "rekey_init ?A1 = Some ri" "xxi_s_priv i2 = nd_nsec ?A1"
    using rekey_readyD [OF r(1)] b(15) by (simp_all add: resent_def paired_def)
  obtain m3 f3 r3 pa ck A2 where a2: "steady_frame EA tc f2 ?A1 = (Ok (), A2)" "pend_self A2" "sl_cur (st_slots A2) = sl_cur (st_slots ?A1)"
    "sl_pend (st_slots A2) = Some (new_slot (fst (split_keys (ev_crypto EA) ck)) (snd (split_keys (ev_crypto EA) ck)) j (\<not> es_k_bit (sl_cur (st_slots ?A1))))"
    "tx_sent (nd_tx A2) = tx_sent (nd_tx ?A1) @ wire_data (nd_raw_framing ?A1) f3" "build_msg3 Wire_XX (ri_our_index ri) j m3 256 = Ok f3"
    "pubkey_prim (ev_crypto EA) (nd_nsec ?A1) = Some pa" "NoiseXxResponder_read_message3 (ev_crypto EA) m3 r2 = (Ok (pa, st_epoch ?A1), r3)" "sy_ck r3 = ck"
    using xx_rekey_completed [OF CA(1) E(3) c(1-4) b(9) [unfolded eq] c(5) i1(1) b(7,8) b(10) [unfolded eq] b(11) b(12) [unfolded eq] b(13,14) c(6)] .
  have pa: "pubkey_prim (ev_crypto EA) (nd_nsec A) = Some pa" using a2(7) by (simp add: resent_def)
  obtain par where par: "nd_peer_npub B1 = par # tl pa" using rekey_readyD(1) [OF r(2)] pa b(5) eq by (auto simp: paired_def)
  obtain B2 where b2: "steady_frame EB td f3 B1 = (Ok (), B2)" "sl_cur (st_slots B2) = sl_cur (st_slots B1)"
    "sl_pend (st_slots B2) = Some (new_slot (snd (split_keys (ev_crypto EB) (sy_ck r3))) (fst (split_keys (ev_crypto EB) (sy_ck r3))) (ri_our_index ri) (\<not> es_k_bit (sl_cur (st_slots B1))))"
    using xx_rekey_confirmed [OF CA(2) E(4) b(4,2) a2(6) a2(8) [folded eq] pa [folded eq] par] .
  have "armed A2 B2" by (rule armedI [OF C, of A2 ck j B2 "ri_our_index ri"]) (use a2 b2 b(3) k E in \<open>simp_all add: resent_def\<close>)
  then show ?thesis
    by (intro exI [of _ "ri_msg1 ri"] exI [of _ f2] exI [of _ f3] exI [of _ ?A1] exI [of _ A2] exI [of _ B1] exI [of _ B2])
      (use a(1) a2(1,5) b(1,6) b2(1) in \<open>simp add: resent_def\<close>)
qed

text \<open>C12. The cutover after a rekey: the initiator's timer branch promotes the pending epoch, the
  heartbeat it then sends is opened by the peer under its own pending epoch, which promotes it too.
  Both ends then send with the key the other one opens with, carry the flipped key-epoch bit, and keep
  the old epoch for stragglers.\<close>

theorem rekey_cutover:
  assumes C: "crypto_ok C" and E: "ev_crypto EA = C" "ev_crypto EB = C" "ev_wire EB = ev_wire EA" and ab: "armed A B"
    and up: "tx_up (nd_tx A) = []" and rate: "frame_count (nd_policy B) < FRAME_RATE_MAX"
  shows "\<exists>f A1 A2 B1. promote_own EA ta A = (Ok (), A1) \<and> heartbeat_due EA ta A1 = (Ok (), A2) \<and>
    tx_sent (nd_tx A2) = tx_sent (nd_tx A) @ wire_data (nd_raw_framing A) f \<and> steady_frame EB tb f B = (Ok (), B1) \<and>
    es_ks (sl_cur (st_slots A2)) = es_kr (sl_cur (st_slots B1)) \<and> es_kr (sl_cur (st_slots A2)) = es_ks (sl_cur (st_slots B1)) \<and>
    es_k_bit (sl_cur (st_slots A2)) \<noteq> es_k_bit (sl_cur (st_slots A)) \<and> es_k_bit (sl_cur (st_slots B1)) = es_k_bit (sl_cur (st_slots A2)) \<and>
    sl_prev (st_slots A2) = Some (sl_cur (st_slots A)) \<and> sl_prev (st_slots B1) = Some (sl_cur (st_slots B)) \<and>
    sl_pend (st_slots A2) = None \<and> sl_pend (st_slots B1) = None \<and> \<not> pend_self A2"
proof -
  obtain ks kr ia ib k where ar: "length ks = 32" "sl_pend (st_slots A) = Some (new_slot ks kr ib (\<not> k))" "es_k_bit (sl_cur (st_slots A)) = k"
      "pend_self A" "sl_pend (st_slots B) = Some (new_slot kr ks ia (\<not> k))" "es_k_bit (sl_cur (st_slots B)) = k"
    using ab by (auto simp: armed_def)
  let ?a = "new_slot ks kr ib (\<not> k)" and ?b = "new_slot kr ks ia (\<not> k)"
  define A1 where "A1 = (promote EA ta ?a A)\<lparr>pend_self := False\<rparr>"
  have A1: "promote_own EA ta A = (Ok (), A1)" using ar by (simp add: promote_own_def modm_def A1_def)
  have sl: "st_slots A1 = \<lparr>sl_cur = ?a, sl_pend = None, sl_prev = Some (sl_cur (st_slots A))\<rparr>" "nd_tx A1 = nd_tx A" "nd_raw_framing A1 = nd_raw_framing A"
    "\<not> pend_self A1" by (simp_all add: A1_def)
  obtain f A2 where a: "heartbeat_due EA ta A1 = (Ok (), A2)" "seal_link C (ev_wire EB) ta 32 [MSG_HEARTBEAT] ?a = (Ok f, ?a\<lparr>es_send_ctr := es_send_ctr ?a + 1\<rparr>)"
      "tx_sent (nd_tx A2) = tx_sent (nd_tx A) @ wire_data (nd_raw_framing A) f" "pend_self A2 = pend_self A1"
      "st_slots A2 = (st_slots A1)\<lparr>sl_cur := ?a\<lparr>es_send_ctr := es_send_ctr ?a + 1\<rparr>\<rparr>"
    by (rule heartbeat_sent [of EA A1 ta]) (use C E sl up ar(1) in \<open>simp_all add: new_slot_def\<close>)
  obtain p' where p': "trial_decrypt (ev_ptr EB) C (ev_wire EB) f (st_slots B) = (From_pend (opened 0 (ta, MSG_HEARTBEAT, [])), (st_slots B)\<lparr>sl_pend := Some p'\<rparr>)"
      "es_ks p' = kr" "es_kr p' = ks" "es_k_bit p' = (\<not> k)"
    by (rule trial_decrypt_cutover [OF C a(2), of "st_slots B" ?b "ev_ptr EB"]) (use ar in \<open>simp_all add: new_slot_def\<close>)
  obtain r c ct where parse: "parse_message (ev_wire EB) f = Ok (Established r c ct)"
    using seal_link_Ok [OF C, of ?a ta MSG_HEARTBEAT "[]" 32 "ev_wire EB"] a(2) ar(1) by (auto simp: msg_ok_def sealed_frame_def new_slot_def)
  let ?B = "B\<lparr>nd_policy := snd (check_frame_rate tb (nd_policy B))\<rparr>"
  let ?h = "heard tb (?B\<lparr>st_slots := (st_slots B)\<lparr>sl_pend := Some p'\<rparr>\<rparr>)"
  obtain B1 where B1: "handle_opened EB tb (opened 0 (ta, MSG_HEARTBEAT, [])) (promote EB tb p' ?h) = (Ok (), B1)" "st_slots B1 = st_slots (promote EB tb p' ?h)"
    using handle_heartbeat by blast
  have "steady_frame EB tb f B = (Ok (), B1)"
    unfolding frame_routed [OF rate] using parse p'(1) B1(1) E by (simp add: route_frame_def steady_established_def step_simps)
  moreover have "st_slots ?h = (st_slots B)\<lparr>sl_pend := Some p'\<rparr>" by (simp add: heard_def upd_policy_def)
  ultimately show ?thesis
    by (intro exI [of _ f] exI [of _ A1] exI [of _ A2] exI [of _ B1]) (use A1 a sl B1(2) p'(2-4) ar(3) in \<open>simp add: new_slot_def\<close>)
qed

text \<open>C39. A node whose own rekey has just completed and that answers a Msg1 of the peer
  before its next timer round promotes the epoch of that answer on the timer, with no frame of the peer
  under the new keys: the flag that says who armed the pending epoch is not reset when it is replaced.\<close>

theorem responder_pend_promoted:
  assumes C: "crypto_ok C" and E: "ev_crypto EA = C" "ev_crypto EB = C" "ev_wire EA = Wire_IK" "ev_wire EB = Wire_IK"
    and r: "rekey_ready EA A B" "rekey_ready EB B A" and fresh: "last_rekey_msg1 B = None" "fresh_ok tb B" and self: "pend_self B"
  shows "\<exists>f1 i m A1 B1 B2 slot. start_rekey EA ta A = (Ok (), A1) \<and> tx_sent (nd_tx A1) = tx_sent (nd_tx A) @ wire_data (nd_raw_framing A) f1 \<and>
    st_slots A1 = st_slots A \<and> parse_message Wire_IK f1 = Ok (Msg1 i m) \<and> steady_frame EB tb f1 B = (Ok (), B1) \<and>
    sl_pend (st_slots B1) = Some slot \<and> es_them slot = i \<and> promote_own EB tc B1 = (Ok (), B2) \<and> sl_cur (st_slots B2) = slot"
proof -
  have CA: "crypto_ok (ev_crypto EA)" "crypto_ok (ev_crypto EB)" using C E by auto
  obtain ri m rng where a: "start_rekey EA ta A = (Ok (), (resent (ri_msg1 ri) A)\<lparr>nd_rng := rng, rekey_init := Some ri\<rparr>)"
    "build_msg1 (ev_wire EA) (ri_our_index ri) m 256 = Ok (ri_msg1 ri)" "rekey_offer EA A (nd_nsec B) (ri_hs ri) m"
    "(case ri_hs ri of RK_IK _ \<Rightarrow> ev_wire EA = Wire_IK | RK_XX _ \<Rightarrow> ev_wire EA = Wire_XX)"
    using start_rekey_Ok [OF CA(1) rekey_readyD(1-4) [OF r(1)]] .
  obtain i1 e where i1: "ri_hs ri = RK_IK i1" "ik_offer (ev_crypto EB) (st_epoch A) (nd_nsec A) (nd_nsec B) e i1 m"
    using a(3,4) E by (auto simp: rekey_offer_def split: rekey_machine.splits)
  have f1: "build_msg1 Wire_IK (ri_our_index ri) m 256 = Ok (ri_msg1 ri)" using a(2) E(3) by simp
  obtain ks kr B1 where b: "steady_frame EB tb (ri_msg1 ri) B = (Ok (), B1)" "pend_self B1"
      "sl_pend (st_slots B1) = Some (new_slot ks kr (ri_our_index ri) (\<not> es_k_bit (sl_cur (st_slots B))))"
    by (rule ik_rekey_answered [OF CA(2) E(4) r(2) fresh i1(2) f1]) (use self in blast)
  have p: "promote_own EB tc B1 = (Ok (), (promote EB tc (the (sl_pend (st_slots B1))) B1)\<lparr>pend_self := False\<rparr>)"
    using b(2,3) by (simp add: promote_own_def modm_def)
  show ?thesis
    using a(1) b p handshake_frames(1) [OF f1] by (fastforce simp: resent_def new_slot_def)
qed

theorem ik_rekey_agrees_witness:
  "\<exists>f1 f2 A1 A2 B1. start_rekey (sample_env Wire_IK) 5 (sample_link 1 2) = (Ok (), A1) \<and> steady_frame (sample_env Wire_IK) 6 f1 (sample_link 2 1) = (Ok (), B1) \<and>
     steady_frame (sample_env Wire_IK) 7 f2 A1 = (Ok (), A2) \<and> armed A2 B1"
  using ik_rekey_agrees [OF sample_crypto_ok, of "sample_env Wire_IK" "sample_env Wire_IK" "sample_link 1 2" "sample_link 2 1" 6 5 7]
    sample_links [of Wire_IK] by fastforce

theorem xx_rekey_agrees_witness:
  "\<exists>f1 f2 f3 A1 A2 B1 B2. start_rekey (sample_env Wire_XX) 5 (sample_link 1 2) = (Ok (), A1) \<and> steady_frame (sample_env Wire_XX) 6 f1 (sample_link 2 1) = (Ok (), B1) \<and>
     steady_frame (sample_env Wire_XX) 7 f2 A1 = (Ok (), A2) \<and> steady_frame (sample_env Wire_XX) 8 f3 B1 = (Ok (), B2) \<and> armed A2 B2"
  using xx_rekey_agrees [OF sample_crypto_ok, of "sample_env Wire_XX" "sample_env Wire_XX" "sample_link 1 2" "sample_link 2 1" 6 5 7 8]
    sample_links [of Wire_XX] by fastforce

theorem rekey_cutover_witness:
  "\<exists>f A1 A2 B1. promote_own (sample_env Wire_IK) 9 ((set_pend (Some (new_slot (replicate 32 3) (replicate 32 4) 8 True)) (sample_link 1 2))\<lparr>pend_self := True\<rparr>) = (Ok (), A1) \<and>
     heartbeat_due (sample_env Wire_IK) 9 A1 = (Ok (), A2) \<and>
     steady_frame (sample_env Wire_IK) 10 f (set_pend (Some (new_slot (replicate 32 4) (replicate 32 3) 6 True)) (sample_link 2 1)) = (Ok (), B1) \<and>
     es_ks (sl_cur (st_slots A2)) = es_kr (sl_cur (st_slots B1))"
proof -
  let ?A = "(set_pend (Some (new_slot (replicate 32 3) (replicate 32 4) 8 True)) (sample_link 1 2))\<lparr>pend_self := True\<rparr>"
  let ?B = "set_pend (Some (new_slot (replicate 32 4) (replicate 32 3) 6 True)) (sample_link 2 1)"
  have "armed ?A ?B"
    unfolding armed_def
    by (intro exI [of _ "replicate 32 3"] exI [of _ "replicate 32 4"] exI [of _ 6] exI [of _ 8] exI [of _ False]) (simp add: set_pend_def)
  then show ?thesis
    using rekey_cutover [OF sample_crypto_ok, of "sample_env Wire_IK" "sample_env Wire_IK" ?A ?B 9 10] by (fastforce simp: set_pend_def)
qed

theorem responder_pend_promoted_witness:
  "\<exists>f1 A1 B1 B2 slot. start_rekey (sample_env Wire_IK) 5 (sample_link 1 2) = (Ok (), A1) \<and>
     steady_frame (sample_env Wire_IK) 6 f1 ((sample_link 2 1)\<lparr>pend_self := True\<rparr>) = (Ok (), B1) \<and> sl_pend (st_slots B1) = Some slot \<and>
     promote_own (sample_env Wire_IK) 7 B1 = (Ok (), B2) \<and> sl_cur (st_slots B2) = slot"
proof -
  let ?B = "(sample_link 2 1)\<lparr>pend_self := True\<rparr>"
  have "rekey_ready (sample_env Wire_IK) (sample_link 1 2) ?B" "rekey_ready (sample_env Wire_IK) ?B (sample_link 1 2)"
    using sample_links [of Wire_IK] by (auto simp: rekey_ready_def paired_def can_draw_def)
  moreover have "fresh_ok 6 ?B" using sample_link_simps(3) [of 6 2 1] by (simp add: fresh_ok_def sample_link_def steady_init_more)
  ultimately show ?thesis
    using responder_pend_promoted [OF sample_crypto_ok, of "sample_env Wire_IK" "sample_env Wire_IK" "sample_link 1 2" ?B 6 5 7] by fastforce
qed


theorem watchdog_fed_only_by_peer_witness:
  "\<exists>f s'. steady_frame (sample_env Wire_IK) 5 f ((sample_link 1 2)\<lparr>last_rekey_msg1 := Some f\<rparr>) = (Ok (), s') \<and> last_rx s' = 5 \<and>
     (opens_live (sample_env Wire_IK) ((sample_link 1 2)\<lparr>last_rekey_msg1 := Some f\<rparr>) f \<or>
      last_rekey_msg1 ((sample_link 1 2)\<lparr>last_rekey_msg1 := Some f\<rparr>) = Some (take 128 f) \<or>
      (\<exists>i np. parse_message Wire_IK f = Ok (Msg1 i np) \<and> msg1_proves_peer (sample_env Wire_IK) ((sample_link 1 2)\<lparr>last_rekey_msg1 := Some f\<rparr>) (take 128 np)) \<or>
      (\<exists>i j np. parse_message Wire_IK f = Ok (Msg2 i j np) \<and> rekey_init ((sample_link 1 2)\<lparr>last_rekey_msg1 := Some f\<rparr>) \<noteq> None))"
proof -
  obtain f where f: "build_msg1 Wire_IK 3 (replicate 106 0) 256 = Ok f" by (simp add: build_msg_frames)
  note p = handshake_frames(1) [OF f]
  let ?s = "(sample_link 1 2)\<lparr>last_rekey_msg1 := Some f\<rparr>"
  have r: "frame_count (nd_policy ?s) < FRAME_RATE_MAX" by simp
  have s: "steady_frame (sample_env Wire_IK) 5 f ?s = (Ok (), snd (steady_frame (sample_env Wire_IK) 5 f ?s)) \<and> last_rx (snd (steady_frame (sample_env Wire_IK) 5 f ?s)) = 5"
    unfolding frame_routed [OF r] using p
    by (cases "last_rekey_msg2 (sample_link 1 2)")
      (simp_all add: route_frame_def steady_msg1_def Let_def step_simps bindm_send_ignored modm_def heard_def upd_policy_def)
  show ?thesis
    by (intro exI [of _ f] exI conjI, rule s [THEN conjunct1], rule s [THEN conjunct2], rule watchdog_fed_only_by_peer [OF _ s [THEN conjunct1]])
      (use s in simp_all)
qed

text \<open>C38. On an XX link anybody restarts the link-dead timer: a Msg1 frame with any valid
  ephemeral public key, built without any secret of the peer, counts as a sign of it.\<close>

theorem xx_msg1_feeds_watchdog:
  assumes C: "crypto_ok (ev_crypto E)" and wire: "ev_wire E = Wire_XX" and key: "pubkey_prim (ev_crypto E) e = Some m"
    and own: "pubkey_prim (ev_crypto E) (nd_nsec s) \<noteq> None" "length (st_epoch s) = 8" "can_draw E 1 s"
    and rate: "frame_count (nd_policy s) < FRAME_RATE_MAX" "fresh_ok now s"
    and f: "build_msg1 Wire_XX i m 256 = Ok f"
  shows "\<exists>s'. steady_frame E now f s = (Ok (), s') \<and> last_rx s' = now"
proof -
  let ?s = "s\<lparr>nd_policy := snd (check_frame_rate now (nd_policy s))\<rparr>"
  let ?s1 = "?s\<lparr>last_fresh_answer_at := Some now\<rparr>"
  obtain pb where pb: "pubkey_prim (ev_crypto E) (nd_nsec s) = Some pb" using own(1) by blast
  obtain i1 where o: "xx_offer (ev_crypto E) [] (nd_nsec s) e i1 m"
    using xx_message1 [OF C key pb, of 33 "[]"] key pb by (auto simp: xx_offer_def)
  have len: "length m = 33" using length_pubkey [OF C key] .
  have parse: "parse_message Wire_XX f = Ok (Msg1 i m)" using handshake_frames(1) [OF f] by simp
  have step: "steady_frame E now f s = steady_msg1 E now i m f ?s"
    using frame_routed [OF rate(1)] parse wire by (simp add: route_frame_def step_simps)
  obtain r2 j f2 rb rw where b: "begin_rekey_xx E i m (st_epoch s) ?s1 = (Ok (r2, j, f2), ?s1\<lparr>nd_rng := \<lparr>rng_blocks = rb, rng_words = rw\<rparr>\<rparr>)"
    by (rule begin_xx_Ok [of E "[]" ?s1 e i1 m "st_epoch s" i]) (use C o own in \<open>simp_all add: begin_xx_congs\<close>)
  show ?thesis
  proof (cases "last_rekey_msg1 s = Some (take 128 f)")
    case True
    then show ?thesis using step
      by (cases "last_rekey_msg2 s") (auto simp: steady_msg1_def Let_def step_simps bindm_send_ignored modm_def heard_def upd_policy_def)
  next
    case False
    then show ?thesis
      using step b len wire rate(2)
      by (cases "last_fresh_answer_at s") (simp_all add: steady_msg1_def Let_def step_simps fresh_ok_def answer_fresh_msg1_def bindm_optm_Ok bindm_send_ignored modm_def heard_def upd_policy_def retm_def)
  qed
qed

theorem xx_msg1_feeds_watchdog_witness:
  "\<exists>f s'. steady_frame (sample_env Wire_XX) 5 f (sample_link 1 2) = (Ok (), s') \<and> last_rx s' = 5"
proof -
  have e: "pubkey_prim sample_crypto (replicate 32 9) = Some (2 # replicate 32 9)" by (simp add: sample_crypto_def)
  obtain f where f: "build_msg1 Wire_XX 3 (2 # replicate 32 9) 256 = Ok f" by (simp add: build_msg_frames)
  have "can_draw (sample_env Wire_XX) 1 (sample_link 1 2)" "pubkey_prim sample_crypto (nd_nsec (sample_link 1 2)) \<noteq> None"
    using sample_links(1) [of Wire_XX] by (auto simp: rekey_ready_def paired_def)
  then show ?thesis
    using xx_msg1_feeds_watchdog [of "sample_env Wire_XX" "replicate 32 9" "2 # replicate 32 9" "sample_link 1 2" 5 3 f] e f sample_crypto_ok by auto
qed

end
