(* ===== verification/Ipv6Shim.thy ===== *)
theory Ipv6Shim
  imports FspWire
begin

text \<open>
  The ICMPv6 echo responder behind port 256 of the session protocol
  (\<^verbatim>\<open>microfips-core/src/ipv6_shim.rs\<close>): a leaf without an IP stack answers \<^verbatim>\<open>ping\<close> by turning the
  request into the reply in place and updating its checksum incrementally.  The reference definition is the
  Internet checksum of the whole message over a pseudo header, a sum of the big-endian 16-bit words in ones'
  complement; \<open>pseudo\<close> is the sum of the pseudo header's words.
\<close>

unbundle bit_operations_syntax

section \<open>The responder\<close>

definition FSP_PORT_HEADER_SIZE :: nat where [simp]: "FSP_PORT_HEADER_SIZE = 4"
definition IPV6_SHIM_FORMAT_COMPRESSED :: byte where [simp]: "IPV6_SHIM_FORMAT_COMPRESSED = 0x00"
definition IPV6_SHIM_HEADER_SIZE :: nat where [simp]: "IPV6_SHIM_HEADER_SIZE = 7"
definition ICMPV6_ECHO_MIN :: nat where [simp]: "ICMPV6_ECHO_MIN = 8"
definition IPPROTO_ICMPV6 :: byte where [simp]: "IPPROTO_ICMPV6 = 58"
definition ICMPV6_ECHO_REQUEST :: byte where [simp]: "ICMPV6_ECHO_REQUEST = 128"
definition ICMPV6_ECHO_REPLY :: byte where [simp]: "ICMPV6_ECHO_REPLY = 129"
definition REPLY_HOP_LIMIT :: byte where [simp]: "REPLY_HOP_LIMIT = 64"

definition be16_of :: "byte \<Rightarrow> byte \<Rightarrow> u16" where
  "be16_of a b = from_le [b, a]"

definition be16 :: "u16 \<Rightarrow> bytes" where
  "be16 w = rev (le16 w)"

lemma unat_low: "unat (s AND 0xffff :: u32) = unat s mod 65536"
proof -
  have "s AND 0xffff = take_bit 16 s" by (simp add: take_bit_eq_mask mask_eq_exp_minus_1)
  then have "unat (s AND 0xffff) = take_bit 16 (unat s)" by (simp only: unsigned_take_bit_eq)
  then show ?thesis by (simp add: take_bit_eq_mod)
qed

lemma unat_high: "unat (drop_bit 16 (s :: u32)) = unat s div 65536"
  by (subst unat_drop_bit_eq) (simp add: drop_bit_eq_div)

lemma fold_step: "drop_bit 16 s \<noteq> 0 \<Longrightarrow> unat ((s AND 0xffff) + drop_bit 16 (s :: u32)) < unat s"
proof -
  assume "drop_bit 16 s \<noteq> 0"
  then have pos: "0 < unat s div 65536" by (metis unat_high gr0I unat_eq_zero)
  have "unat ((s AND 0xffff) + drop_bit 16 s) \<le> unat (s AND 0xffff) + unat (drop_bit 16 s)"
    by (simp only: unat_word_ariths mod_less_eq_dividend)
  moreover have "unat s mod 65536 + unat s div 65536 < unat s"
    using pos div_mult_mod_eq [of "unat s" "65536"] by linarith
  ultimately show ?thesis unfolding unat_low unat_high by linarith
qed

function fold_carries :: "u32 \<Rightarrow> u32" where
  "fold_carries s = (if drop_bit 16 s \<noteq> 0 then fold_carries ((s AND 0xffff) + drop_bit 16 s) else s)"
  by pat_completeness auto
termination by (relation "measure unat") (auto simp: fold_step)

declare fold_carries.simps [simp del]

definition checksum_update :: "u16 \<Rightarrow> u16 \<Rightarrow> u16 \<Rightarrow> u16" where
  "checksum_update hc m m_new = NOT (ucast (fold_carries (ucast (NOT hc) + ucast (NOT m) + ucast m_new)))"

definition icmpv6_echo_reply :: "bytes \<Rightarrow> nat \<Rightarrow> (bytes, unit) res" where
  "icmpv6_echo_reply service_payload out_len =
     (let p = service_payload; n = length p;
          shim = drop FSP_PORT_HEADER_SIZE p; icmp = drop IPV6_SHIM_HEADER_SIZE shim in
      if n < FSP_PORT_HEADER_SIZE + IPV6_SHIM_HEADER_SIZE + ICMPV6_ECHO_MIN \<or> out_len < n then Err ()
      else if from_le [p ! 2, p ! 3] \<noteq> FSP_PORT_IPV6_SHIM then Err ()
      else if shim ! 0 \<noteq> IPV6_SHIM_FORMAT_COMPRESSED \<or> drop_bit 4 (shim ! 1) \<noteq> 6 \<or> shim ! 5 \<noteq> IPPROTO_ICMPV6 then Err ()
      else if icmp ! 0 \<noteq> ICMPV6_ECHO_REQUEST \<or> icmp ! 1 \<noteq> 0 then Err ()
      else
        let new_sum = checksum_update (be16_of (icmp ! 2) (icmp ! 3)) (be16_of ICMPV6_ECHO_REQUEST 0) (be16_of ICMPV6_ECHO_REPLY 0);
            reply = splice (splice p 0 (take 2 (drop 2 p))) 2 (take 2 p);
            reply = reply[FSP_PORT_HEADER_SIZE + 6 := REPLY_HOP_LIMIT];
            base = FSP_PORT_HEADER_SIZE + IPV6_SHIM_HEADER_SIZE;
            reply = reply[base := ICMPV6_ECHO_REPLY]
        in Ok (splice reply (base + 2) (be16 new_sum)))"

section \<open>Specification\<close>

definition residue :: "nat \<Rightarrow> nat" where
  "residue n = (if n = 0 then 0 else (n - 1) mod 65535 + 1)"

text \<open>The Internet checksum of a message over a pseudo header whose words add up to \<open>pseudo\<close>.\<close>

fun words16 :: "bytes \<Rightarrow> nat list" where
  "words16 (a # b # r) = (unat a * 256 + unat b) # words16 r"
| "words16 [a] = [unat a * 256]"
| "words16 [] = []"

definition inet_checksum :: "nat \<Rightarrow> u16" where
  "inet_checksum s = NOT (of_nat (residue s))"

definition icmp_checksum_ok :: "nat \<Rightarrow> bytes \<Rightarrow> bool" where
  "icmp_checksum_ok pseudo icmp \<longleftrightarrow>
     take 2 (drop 2 icmp) = be16 (inet_checksum (pseudo + sum_list (words16 (splice icmp 2 [0, 0]))))"

section \<open>Lemmas\<close>

lemma unat_fold_sum: 
  assumes "unat (a :: u32) + unat b < 4294967296" shows "unat (a + b) = unat a + unat b"
  using assms by (simp add: unat_word_ariths)

text \<open>The carries fold to the representative of the sum modulo 65535 that is zero only for the sum zero.\<close>

lemma fold_next: "unat ((s AND 0xffff) + drop_bit 16 (s :: u32)) = unat s mod 65536 + unat s div 65536"
proof -
  have "unat s < 4294967296" using unsigned_less [of s] by simp
  then have "unat s mod 65536 + unat s div 65536 < 4294967296" by linarith
  then show ?thesis by (subst unat_fold_sum) (simp_all only: unat_low unat_high)
qed

lemma residue_fold: "residue (n mod 65536 + n div 65536) = residue n"
proof (cases "n = 0")
  case False
  let ?q = "n div 65536" and ?r = "n mod 65536"
  have n: "n = ?q * 65536 + ?r" by simp
  then have pos: "0 < ?r + ?q" using False by (metis add_gr_0 mult_is_0 neq0_conv)
  have "n - 1 = (?r + ?q - 1) + ?q * 65535" using n pos by linarith
  then have "(n - 1) mod 65535 = (?r + ?q - 1) mod 65535" by (metis mod_mult_self1)
  then show ?thesis using False pos by (simp add: residue_def)
qed (simp add: residue_def)

lemma fold_carries_residue: "unat (fold_carries s) = residue (unat s)"
proof (induction s rule: fold_carries.induct)
  case (1 s)
  show ?case
  proof (cases "drop_bit 16 s = 0")
    case True
    then have "unat s div 65536 = 0" by (metis unat_high unat_0)
    then have "unat s < 65536" by simp
    then show ?thesis using True by (subst fold_carries.simps) (auto simp: residue_def)
  next
    case False
    then show ?thesis using 1 fold_next [of s] residue_fold [of "unat s"] by (subst fold_carries.simps) simp
  qed
qed

lemma u16_less: "unat (w :: u16) < 65536"
proof -
  have "unat w < 2 ^ LENGTH(16)" by (rule unsigned_less)
  then show ?thesis by simp
qed

lemma unat_be16_of: "unat (be16_of a b) = unat a * 256 + unat b"
proof -
  have "(ucast b :: u16) AND push_bit 8 (ucast a) = 0"
    by (rule bit_eqI) (auto simp: bit_and_iff bit_ucast_iff bit_push_bit_iff dest: bit_imp_le_length)
  then have "be16_of a b = ucast b + push_bit 8 (ucast a)"
    by (simp add: be16_of_def from_le.simps disjunctive_add_eq_or)
  moreover have "unat a < 256" "unat b < 256" using unsigned_less [of a] unsigned_less [of b] by simp_all
  ultimately show ?thesis by (simp add: push_bit_eq_mult unat_word_ariths unsigned_ucast_eq take_bit_nat_eq_self)
qed

lemma be16_of_be16: "be16 w = [a, b] \<Longrightarrow> be16_of a b = w"
proof -
  assume "be16 w = [a, b]"
  then have "le16 w = [b, a]" by (metis be16_def rev_rev_ident rev.simps(1,2) append_Cons append_Nil)
  then show ?thesis using from_le_to_le [of 2 w] by (simp add: be16_of_def)
qed

lemma residue_pos: "0 < n \<Longrightarrow> 0 < residue n" "residue n \<le> 65535"
  by (auto simp: residue_def intro: Suc_leI)

lemma residue_split: "\<exists>q. n = residue n + 65535 * q"
proof (cases "n = 0")
  case False
  then have "n = residue n + 65535 * ((n - 1) div 65535)"
    using mod_mult_div_eq [of "n - 1" 65535] by (simp add: residue_def)
  then show ?thesis by blast
qed (simp add: residue_def)

lemma residue_shift: "0 < n \<Longrightarrow> residue (n + 65535 * q) = residue n"
proof -
  assume "0 < n"
  then have "n + 65535 * q - 1 = (n - 1) + 65535 * q" by simp
  then have "(n + 65535 * q - 1) mod 65535 = (n - 1) mod 65535" by simp
  then show ?thesis using \<open>0 < n\<close> by (simp add: residue_def)
qed

lemma unat_not16: "unat (NOT w :: u16) = 65535 - unat w"
proof -
  have "NOT w = 65535 - w" by (simp add: not_eq_complement)
  moreover have "w \<le> 65535" using u16_less [of w] by (simp add: word_le_nat_alt)
  ultimately show ?thesis by (simp add: unat_sub)
qed

lemma checksum_update_inet:
  assumes "0 < s" "unat m \<le> s" "0 < unat m'"
  shows "checksum_update (inet_checksum s) m m' = inet_checksum (s - unat m + unat m')"
proof -
  let ?x = "residue s + (65535 - unat m) + unat m'"
  have b: "unat m \<le> 65535" "unat m' \<le> 65535" "residue s \<le> 65535"
    using u16_less [of m] u16_less [of m'] residue_pos(2) by simp_all
  have "unat (NOT (inet_checksum s)) = residue s" using b(3) by (simp add: inet_checksum_def unat_of_nat)
  then have y: "unat (ucast (NOT (inet_checksum s)) + ucast (NOT m) + ucast m' :: u32) = ?x"
    using b by (simp add: unat_word_ariths unsigned_ucast_eq unat_not16 take_bit_nat_eq_self)
  have "ucast (fold_carries z) = (of_nat (residue (unat z)) :: u16)" for z
    by (simp flip: fold_carries_residue)
  then have c: "checksum_update (inet_checksum s) m m' = NOT (of_nat (residue ?x))"
    unfolding checksum_update_def y [symmetric] by simp
  obtain q where q: "s = residue s + 65535 * q" using residue_split by blast
  have "s - unat m + unat m' + 65535 * 1 = ?x + 65535 * q" using q b assms(2) by linarith
  then have "residue ?x = residue (s - unat m + unat m')"
    using residue_shift [of "s - unat m + unat m'" 1] residue_shift [of ?x q] assms(3) by (metis add_gr_0)
  then show ?thesis using c by (simp add: inet_checksum_def)
qed

lemma length_be16 [simp]: "length (be16 w) = 2"
  by (simp add: be16_def)

lemma take_map_nth: "n \<le> length xs \<Longrightarrow> map ((!) xs) [0..<n] = take n xs"
  by (simp add: list_eq_iff_nth_eq)

lemma echo_reply_Ok:
  assumes "icmpv6_echo_reply p cap = Ok r"
  obtains a b c d e f g h i j cs1 cs2 rest where
    "p = [a, b, c, d, e, f, g, h, i, 58, j, 128, 0, cs1, cs2] @ rest" "4 \<le> length rest" "length p \<le> cap"
    "r = [c, d, a, b, e, f, g, h, i, 58, 64, 129, 0] @ be16 (checksum_update (be16_of cs1 cs2) (be16_of 128 0) (be16_of 129 0)) @ rest"
proof -
  have len: "19 \<le> length p" using assms by (auto simp: icmpv6_echo_reply_def Let_def split: if_splits)
  have "map ((!) p) [0..<15] @ drop 15 p = p" using len by (simp add: take_map_nth)
  then have "p ! 0 # p ! 1 # p ! 2 # p ! 3 # p ! 4 # p ! 5 # p ! 6 # p ! 7 # p ! 8 # p ! 9 # p ! 10 # p ! 11 # p ! 12 # p ! 13 # p ! 14 # drop 15 p = p" by (simp add: upt_rec numeral_eq_Suc)
  then obtain a b c d e f g h i n j t k cs1 cs2 rest where p: "p = a # b # c # d # e # f # g # h # i # n # j # t # k # cs1 # cs2 # rest"
    by metis
  then have "n = 58 \<and> t = 128 \<and> k = 0 \<and> length p \<le> cap \<and>
      r = [c, d, a, b, e, f, g, h, i, 58, 64, 129, 0] @ be16 (checksum_update (be16_of cs1 cs2) (be16_of 128 0) (be16_of 129 0)) @ rest"
    using assms by (simp add: icmpv6_echo_reply_def Let_def splice_def split: if_splits)
  then show ?thesis using that p len by auto
qed

lemma icmp_checksum_ok_iff:
  "icmp_checksum_ok pseudo ([t, 0] @ cs @ rest) \<longleftrightarrow> cs = be16 (inet_checksum (pseudo + (unat t * 256 + sum_list (words16 rest))))" if "length cs = 2"
  using that by (auto simp: icmp_checksum_ok_def splice_def)

lemma echo_types: "unat (128 :: byte) * 256 = 32768" "unat (129 :: byte) * 256 = 33024"
  "unat (be16_of 128 0) = 32768" "unat (be16_of 129 0) = 33024"
proof -
  show "unat (128 :: byte) * 256 = 32768" "unat (129 :: byte) * 256 = 33024" by simp_all
  then show "unat (be16_of 128 0) = 32768" "unat (be16_of 129 0) = 33024" by (simp_all only: unat_be16_of unsigned_0 add_0_right)
qed

section \<open>Properties\<close>



end
