(* ===== verification/FspHandler.thy ===== *)
theory FspHandler
  imports Node FspSession Ipv6Shim
begin

text \<open>
  The application handler of a session endpoint (\<^verbatim>\<open>microfips-protocol/src/fsp_handler.rs\<close>).  A
  \<^verbatim>\<open>FspDualHandler\<close> answers sessions others open to it and, when built with a target, opens one itself and
  retries it from its timer; it is a \<^verbatim>\<open>NodeHandler\<close>, that is a value of \<open>handler_ops\<close>, so that a node runs it.

  The application behind it, \<^verbatim>\<open>FspAppHandler\<close>, is the parameter \<open>'a fsp_app\<close>: message type, payload, response
  buffer and peer in; outcome (\<open>None\<close> for a panic), buffer and application state out.  A step of the handler
  works on the pair of the handler and the response buffer; its error \<open>()\<close> is the early
  \<^verbatim>\<open>return HandleResult::None\<close>.  \<^verbatim>\<open>app_buf\<close> is scratch space that every use overwrites, so the model keeps only its
  capacity \<open>fd_app_cap\<close>; the array behind \<^verbatim>\<open>last_setup\<close> is kept as the bytes in use.
\<close>

unbundle bit_operations_syntax

section \<open>The application and the handler\<close>

definition FSP_START_DELAY_SECS :: nat where [simp]: "FSP_START_DELAY_SECS = 5"
definition FSP_RETRY_SECS :: nat where [simp]: "FSP_RETRY_SECS = 8"
definition FSP_MSG3_TIMEOUT_SECS :: nat where [simp]: "FSP_MSG3_TIMEOUT_SECS = 2"

datatype fsp_app_result = App_None | App_Reply byte nat | App_Disconnect

record peer_context =
  pc_link_pubkey :: bytes
  pc_src_addr :: "node_addr option"

definition link_pubkey_is_provisioned :: "peer_context \<Rightarrow> bool" where
  "link_pubkey_is_provisioned p = (pc_link_pubkey p \<noteq> replicate 32 0)"

type_synonym 'a fsp_app = "byte \<Rightarrow> bytes \<Rightarrow> bytes \<Rightarrow> peer_context \<Rightarrow> 'a \<Rightarrow> fsp_app_result option \<times> bytes \<times> 'a"

definition NoopFspApp :: "unit fsp_app" where
  "NoopFspApp msg_type payload response peer a = (Some App_None, response, a)"

record 'a fsp_dual =
  fd_nsec :: bytes
  fd_link_pubkey :: bytes
  fd_session :: fsp_session
  fd_ephemeral :: bytes
  fd_epoch :: bytes
  fd_initiator :: "fsp_initiator_session option"
  fd_target_addr :: "node_addr option"
  fd_timer :: "instant option"
  fd_test_ping :: bool
  fd_app :: 'a
  fd_app_cap :: nat
  fd_last_setup :: "bytes option"

definition new_responder :: "nat \<Rightarrow> bytes \<Rightarrow> bytes \<Rightarrow> bytes \<Rightarrow> 'a \<Rightarrow> 'a fsp_dual" where
  "new_responder app_buf nsec ephemeral epoch app =
     \<lparr>fd_nsec = nsec, fd_link_pubkey = replicate 32 0, fd_session = FspSession_new, fd_ephemeral = ephemeral, fd_epoch = epoch,
      fd_initiator = None, fd_target_addr = None, fd_timer = None, fd_test_ping = False, fd_app = app, fd_app_cap = app_buf,
      fd_last_setup = None\<rparr>"

definition new_dual ::
  "wire \<Rightarrow> crypto \<Rightarrow> nat \<Rightarrow> bytes \<Rightarrow> bytes \<Rightarrow> bytes \<Rightarrow> bytes \<Rightarrow> node_addr \<Rightarrow> bytes \<Rightarrow> 'a \<Rightarrow> 'a fsp_dual" where
  "new_dual v C app_buf nsec responder_ephemeral initiator_ephemeral target_pub target_addr epoch app =
     \<lparr>fd_nsec = nsec, fd_link_pubkey = take 32 (drop 1 target_pub), fd_session = FspSession_new, fd_ephemeral = responder_ephemeral,
      fd_epoch = epoch,
      fd_initiator = (case FspInitiatorSession_new v C nsec initiator_ephemeral target_pub of Ok i \<Rightarrow> Some i | _ \<Rightarrow> None),
      fd_target_addr = Some target_addr, fd_timer = None, fd_test_ping = False, fd_app = app, fd_app_cap = app_buf,
      fd_last_setup = None\<rparr>"

definition set_link_pubkey :: "bytes \<Rightarrow> 'a fsp_dual \<Rightarrow> 'a fsp_dual" where
  "set_link_pubkey pk h = h\<lparr>fd_link_pubkey := pk\<rparr>"

definition on_event_default :: "instant \<Rightarrow> node_event \<Rightarrow> 'a fsp_dual \<Rightarrow> 'a fsp_dual" where
  "on_event_default now event h =
     (case event of
        HandshakeOk \<Rightarrow>
          (let h1 = h\<lparr>fd_session := FspSession_reset (fd_session h)\<rparr>
           in if fd_initiator h1 \<noteq> None then h1\<lparr>fd_timer := Some (now + from_secs FSP_START_DELAY_SECS)\<rparr> else h1)
      | DisconnectedEv \<Rightarrow> h\<lparr>fd_initiator := None, fd_timer := None\<rparr>
      | ErrorEv \<Rightarrow> h\<lparr>fd_initiator := None, fd_timer := None\<rparr>
      | _ \<Rightarrow> h)"

section \<open>Steps on the handler and the response buffer\<close>

type_synonym ('a, 'r) dstep = "('a fsp_dual \<times> bytes, unit, 'r) estep"

definition geth :: "('a fsp_dual \<Rightarrow> 'r) \<Rightarrow> ('a, 'r) dstep" where
  "geth f = getm (\<lambda>(h, resp). f h)"

definition modh :: "('a fsp_dual \<Rightarrow> 'a fsp_dual) \<Rightarrow> ('a, unit) dstep" where
  "modh f = modm (\<lambda>(h, resp). (f h, resp))"

definition write_resp :: "nat \<Rightarrow> bytes \<Rightarrow> ('a, unit) dstep" where
  "write_resp at bs = (\<lambda>(h, resp). if at + length bs \<le> length resp then (Ok (), (h, splice resp at bs)) else (Panic, (h, resp)))"

definition some_or :: "'x option \<Rightarrow> ('x, unit) res" where
  "some_or x = (case x of Some y \<Rightarrow> Ok y | None \<Rightarrow> Err ())"

definition on_session :: "(fsp_session, 'e, 'r) estep \<Rightarrow> ('a fsp_dual \<times> bytes, 'e, 'r) estep" where
  "on_session m = (\<lambda>(h, resp). case m (fd_session h) of (q, s) \<Rightarrow> (q, (h\<lparr>fd_session := s\<rparr>, resp)))"

definition on_initiator :: "(fsp_initiator_session, 'e, 'r) estep \<Rightarrow> fsp_initiator_session \<Rightarrow> ('a fsp_dual \<times> bytes, 'e, 'r) estep" where
  "on_initiator m f = (\<lambda>(h, resp). case m f of (q, f1) \<Rightarrow> (q, (h\<lparr>fd_initiator := Some f1\<rparr>, resp)))"

definition ignore_err :: "('s, 'e, 'r) estep \<Rightarrow> ('s, unit, 'r) estep" where
  "ignore_err m = map_errm (\<lambda>_. ()) m"

definition my_addr :: "crypto \<Rightarrow> 'a fsp_dual \<Rightarrow> (node_addr, unit) res" where
  "my_addr C h = bind_res (map_err (\<lambda>_. ()) (ecdh_pubkey C (fd_nsec h))) (\<lambda>p.
     Ok (NodeAddr_from_pubkey_x C (drop 1 (parity_normalize p))))"

section \<open>The responder side\<close>

definition setup_retry ::
  "wire \<Rightarrow> crypto \<Rightarrow> bytes \<Rightarrow> bytes \<Rightarrow> bytes \<Rightarrow> bytes \<Rightarrow> nat \<Rightarrow> (fsp_session, fsp_session_error, bytes) estep" where
  "setup_retry v C secret ephemeral epoch fsp_data cap s =
     (case FspSession_handle_setup v C secret ephemeral epoch fsp_data cap s of
        (Err e, s1) \<Rightarrow> if e = SInvalidState
          then FspSession_handle_setup v C secret ephemeral epoch fsp_data cap (FspSession_reset s1) else (Err e, s1)
      | r \<Rightarrow> r)"

definition respond_setup :: "wire \<Rightarrow> crypto \<Rightarrow> bytes \<Rightarrow> bytes \<Rightarrow> ('a, handle_result) dstep" where
  "respond_setup v C reply_body fsp_data =
     bindm (getm (\<lambda>(h, resp). (h, length resp))) (\<lambda>(h, n).
     bindm (guardm (n \<le> SESSION_DATAGRAM_BODY_SIZE) ()) (\<lambda>_.
     bindm (ignore_err (on_session (setup_retry v C (fd_nsec h) (fd_ephemeral h) (fd_epoch h) fsp_data (n - SESSION_DATAGRAM_BODY_SIZE)))) (\<lambda>ack.
     bindm (write_resp SESSION_DATAGRAM_BODY_SIZE ack) (\<lambda>_.
     bindm (write_resp 0 reply_body) (\<lambda>_.
       retm (HR_SendDatagram (SESSION_DATAGRAM_BODY_SIZE + length ack)))))))"

definition APP_OFFSET :: nat where [simp]:
  "APP_OFFSET = SESSION_DATAGRAM_BODY_SIZE + FSP_HEADER_SIZE + FSP_INNER_HEADER_SIZE"

text \<open>The echo reply of the shim, or the application; both write into the response buffer.\<close>

definition app_answer :: "'a fsp_app \<Rightarrow> node_addr \<Rightarrow> byte \<Rightarrow> bytes \<Rightarrow> ('a, fsp_app_result) dstep" where
  "app_answer app src_addr msg_type inner_payload = (\<lambda>(h, resp).
     case (if msg_type = FSP_MSG_DATA then icmpv6_echo_reply inner_payload (length resp - APP_OFFSET) else Err ()) of
       Ok reply \<Rightarrow> (Ok (App_Reply FSP_MSG_DATA (length reply)), (h, splice resp APP_OFFSET reply))
     | Panic \<Rightarrow> (Panic, (h, resp))
     | Err _ \<Rightarrow>
         (case app msg_type inner_payload (drop APP_OFFSET resp) \<lparr>pc_link_pubkey = fd_link_pubkey h, pc_src_addr = Some src_addr\<rparr> (fd_app h) of
            (r, out, a) \<Rightarrow> (case r of Some x \<Rightarrow> Ok x | None \<Rightarrow> Panic, (h\<lparr>fd_app := a\<rparr>, take APP_OFFSET resp @ out))))"

definition seal_reply :: "crypto \<Rightarrow> bytes \<Rightarrow> bytes \<Rightarrow> byte \<Rightarrow> nat \<Rightarrow> ('a, handle_result) dstep" where
  "seal_reply C reply_body k_send msg_type len =
     bindm (getm snd) (\<lambda>resp.
     bindm (liftm (slice resp APP_OFFSET (APP_OFFSET + len))) (\<lambda>app_payload.
     bindm (geth fd_app_cap) (\<lambda>cap.
     let inner = fsp_prepend_inner_header 0 msg_type 0x00 app_payload cap; off = SESSION_DATAGRAM_BODY_SIZE + FSP_HEADER_SIZE in
     bindm (guardm (inner = []) ()) (\<lambda>_.
     bindm (on_session (\<lambda>s. case FspSession_next_send_counter s of (c, s1) \<Rightarrow> (Ok c, s1))) (\<lambda>send_ctr.
     let header = build_fsp_header send_ctr 0x00 (of_nat (length inner + TAG_SIZE)) in
     bindm (guardm (length resp - off < length inner + TAG_SIZE) ()) (\<lambda>_.
     bindm (liftm (map_err (\<lambda>_. ()) (aead_encrypt C k_send send_ctr header inner (length inner + TAG_SIZE)))) (\<lambda>ct.
     bindm (write_resp off ct) (\<lambda>_.
     bindm (write_resp 0 reply_body) (\<lambda>_.
     bindm (write_resp SESSION_DATAGRAM_BODY_SIZE header) (\<lambda>_.
       retm (HR_SendDatagram (off + length ct))))))))))))"

definition respond_data :: "crypto \<Rightarrow> 'a fsp_app \<Rightarrow> bytes \<Rightarrow> node_addr \<Rightarrow> bytes \<Rightarrow> ('a, handle_result) dstep" where
  "respond_data C app reply_body src_addr fsp_data =
     bindm (geth fd_session) (\<lambda>s.
     bindm (guardm (fs_state s \<noteq> SEstablished) ()) (\<lambda>_.
     bindm (liftm (parse_fsp_encrypted_header fsp_data)) (\<lambda>(flags, counter, header, encrypted).
     bindm (guardm (flags AND FLAG_UNENCRYPTED \<noteq> 0) ()) (\<lambda>_.
     bindm (liftm (some_or (FspSession_session_keys s))) (\<lambda>(k_recv, k_send).
     bindm (geth fd_app_cap) (\<lambda>cap.
     bindm (liftm (map_err (\<lambda>_. ()) (aead_decrypt C k_recv counter header encrypted cap))) (\<lambda>dec.
     bindm (liftm (fsp_strip_inner_header dec)) (\<lambda>(_, inner_msg_type, _, inner_payload).
     bindm (getm (\<lambda>(h, resp). length resp)) (\<lambda>n.
     bindm (guardm (n \<le> APP_OFFSET) ()) (\<lambda>_.
     bindm (app_answer app src_addr inner_msg_type inner_payload) (\<lambda>r.
     case r of
       App_None \<Rightarrow> retm HR_None
     | App_Disconnect \<Rightarrow> retm HR_Disconnect
     | App_Reply msg_type len \<Rightarrow> seal_reply C reply_body k_send msg_type len)))))))))))"

definition handle_responder :: "wire \<Rightarrow> crypto \<Rightarrow> 'a fsp_app \<Rightarrow> byte \<Rightarrow> bytes \<Rightarrow> ('a, handle_result) dstep" where
  "handle_responder v C app msg_type payload =
     bindm (guardm (msg_type \<noteq> MSG_SESSION_DATAGRAM) ()) (\<lambda>_.
     bindm (guardm (length payload < SESSION_DATAGRAM_BODY_SIZE) ()) (\<lambda>_.
     bindm (liftm (slice payload 3 19)) (\<lambda>src_addr.
     bindm (liftm (slice payload 19 35)) (\<lambda>dst_addr.
     let reply_body = build_session_datagram_body dst_addr src_addr; fsp_data = drop SESSION_DATAGRAM_BODY_SIZE payload in
     bindm (guardm (fsp_data = []) ()) (\<lambda>_.
     let phase = hd fsp_data AND 0x0F in
     if phase = 0x01 then respond_setup v C reply_body fsp_data
     else if phase = 0x03 then bindm (ignore_err (on_session (FspSession_handle_msg3 v C fsp_data))) (\<lambda>_. retm HR_None)
     else if phase = 0x00 then respond_data C app reply_body src_addr fsp_data
     else retm HR_None)))))"

section \<open>The initiator side\<close>

definition set_timer :: "instant \<Rightarrow> nat \<Rightarrow> ('a, unit) dstep" where
  "set_timer now secs = modh (\<lambda>h. h\<lparr>fd_timer := Some (now + from_secs secs)\<rparr>)"

definition initiator_ack :: "crypto \<Rightarrow> instant \<Rightarrow> node_addr \<Rightarrow> node_addr \<Rightarrow> fsp_initiator_session \<Rightarrow> bytes \<Rightarrow> ('a, handle_result) dstep" where
  "initiator_ack C now me target fsp fsp_data =
     bindm (ignore_err (on_initiator (FspInitiatorSession_handle_ack C fsp_data) fsp)) (\<lambda>_.
     bindm (geth (\<lambda>h. (the (fd_initiator h), fd_epoch h))) (\<lambda>(fsp1, epoch).
     bindm (ignore_err (on_initiator (FspInitiatorSession_build_msg3 C epoch 512) fsp1)) (\<lambda>msg3.
     bindm (write_resp 0 (build_session_datagram_body me target)) (\<lambda>_.
     bindm (write_resp SESSION_DATAGRAM_BODY_SIZE msg3) (\<lambda>_.
     bindm (set_timer now FSP_MSG3_TIMEOUT_SECS) (\<lambda>_.
       retm (HR_SendDatagram (SESSION_DATAGRAM_BODY_SIZE + length msg3))))))))"

definition initiator_data :: "crypto \<Rightarrow> fsp_initiator_session \<Rightarrow> bytes \<Rightarrow> ('a, handle_result) dstep" where
  "initiator_data C fsp fsp_data =
     bindm (liftm (parse_fsp_encrypted_header fsp_data)) (\<lambda>(flags, counter, header, encrypted).
     bindm (guardm (flags AND FLAG_UNENCRYPTED \<noteq> 0) ()) (\<lambda>_.
     bindm (liftm (some_or (FspInitiatorSession_session_keys fsp))) (\<lambda>(k_recv, _).
     bindm (liftm (map_err (\<lambda>_. ()) (aead_decrypt C k_recv counter header encrypted 512))) (\<lambda>dec.
     bindm (liftm (fsp_strip_inner_header dec)) (\<lambda>(_, _, _, inner_payload).
     bindm (geth fd_test_ping) (\<lambda>ping.
       retm (if inner_payload = [0x50, 0x4F, 0x4E, 0x47] \<and> ping then HR_Disconnect else HR_None)))))))"

definition handle_initiator :: "crypto \<Rightarrow> instant \<Rightarrow> byte \<Rightarrow> bytes \<Rightarrow> ('a, handle_result) dstep" where
  "handle_initiator C now msg_type payload =
     bindm (guardm (msg_type \<noteq> MSG_SESSION_DATAGRAM) ()) (\<lambda>_.
     bindm (geth (\<lambda>h. h)) (\<lambda>h.
     bindm (liftm (some_or (fd_target_addr h))) (\<lambda>target.
     bindm (liftm (my_addr C h)) (\<lambda>me.
     bindm (liftm (some_or (fd_initiator h))) (\<lambda>fsp.
     bindm (guardm (length payload < SESSION_DATAGRAM_BODY_SIZE) ()) (\<lambda>_.
     let fsp_data = drop SESSION_DATAGRAM_BODY_SIZE payload in
     bindm (guardm (fsp_data = []) ()) (\<lambda>_.
     let phase = hd fsp_data AND 0x0F in
     case fi_state fsp of
       IIdle \<Rightarrow> retm HR_None
     | IAwaitingAck \<Rightarrow> if phase = 0x02 then initiator_ack C now me target fsp fsp_data else retm HR_None
     | IAwaitingEstablished \<Rightarrow> bindm (set_timer now FSP_RETRY_SECS) (\<lambda>_. retm HR_None)
     | IEstablished \<Rightarrow> if phase = 0x00 then initiator_data C fsp fsp_data else retm HR_None)))))))"

definition send_ping :: "crypto \<Rightarrow> instant \<Rightarrow> ('a, handle_result) dstep" where
  "send_ping C now =
     bindm (geth (\<lambda>h. h)) (\<lambda>h.
     bindm (liftm (some_or (fd_target_addr h))) (\<lambda>target.
     bindm (liftm (my_addr C h)) (\<lambda>me.
     bindm (liftm (some_or (fd_initiator h))) (\<lambda>fsp.
     bindm (liftm (some_or (FspInitiatorSession_session_keys fsp))) (\<lambda>(_, k_send).
     bindm (on_initiator (\<lambda>f. case FspInitiatorSession_next_send_counter f of (c, f1) \<Rightarrow> (Ok c, f1)) fsp) (\<lambda>send_ctr.
     bindm (liftm (map_err (\<lambda>_. ()) (build_fsp_data_message C send_ctr 0 [0x50, 0x49, 0x4E, 0x47] k_send 512))) (\<lambda>packet.
     bindm (write_resp 0 (build_session_datagram_body me target)) (\<lambda>_.
     bindm (write_resp SESSION_DATAGRAM_BODY_SIZE packet) (\<lambda>_.
     bindm (set_timer now 10) (\<lambda>_.
       retm (HR_SendDatagram (SESSION_DATAGRAM_BODY_SIZE + length packet))))))))))))"

definition start_setup :: "crypto \<Rightarrow> instant \<Rightarrow> node_addr \<Rightarrow> node_addr \<Rightarrow> fsp_initiator_session \<Rightarrow> ('a, handle_result) dstep" where
  "start_setup C now me target fsp =
     bindm (ignore_err (on_initiator (FspInitiatorSession_build_setup C me target 512) fsp)) (\<lambda>setup_msg.
     let dg = build_session_datagram_body me target @ setup_msg in
     bindm (write_resp 0 (build_session_datagram_body me target)) (\<lambda>_.
     bindm (write_resp SESSION_DATAGRAM_BODY_SIZE setup_msg) (\<lambda>_.
     bindm (modh (\<lambda>h. h\<lparr>fd_last_setup := Some dg\<rparr>)) (\<lambda>_.
     bindm (set_timer now FSP_RETRY_SECS) (\<lambda>_.
       retm (HR_SendDatagram (length dg)))))))"

definition dual_tick :: "crypto \<Rightarrow> instant \<Rightarrow> ('a, handle_result) dstep" where
  "dual_tick C now =
     bindm (geth (\<lambda>h. h)) (\<lambda>h.
     bindm (liftm (some_or (fd_target_addr h))) (\<lambda>target.
     bindm (liftm (my_addr C h)) (\<lambda>me.
     bindm (liftm (some_or (fd_initiator h))) (\<lambda>fsp.
     case fi_state fsp of
       IIdle \<Rightarrow> start_setup C now me target fsp
     | IAwaitingAck \<Rightarrow>
         (case fd_last_setup h of
            Some buf \<Rightarrow>
              bindm (write_resp 0 buf) (\<lambda>_.
              bindm (set_timer now FSP_RETRY_SECS) (\<lambda>_. retm (HR_SendDatagram (length buf))))
          | None \<Rightarrow> bindm (set_timer now FSP_RETRY_SECS) (\<lambda>_. retm HR_None))
     | IAwaitingEstablished \<Rightarrow> bindm (set_timer now FSP_RETRY_SECS) (\<lambda>_. retm HR_None)
     | IEstablished \<Rightarrow> send_ping C now))))"

section \<open>The node handler\<close>

text \<open>An early \<^verbatim>\<open>return HandleResult::None\<close> is the error of a step.\<close>

definition outcome :: "(handle_result, unit) res \<times> 'a fsp_dual \<times> bytes \<Rightarrow> handle_result option \<times> bytes \<times> 'a fsp_dual" where
  "outcome x = (case x of (q, h, resp) \<Rightarrow> (case q of Ok r \<Rightarrow> Some r | Err _ \<Rightarrow> Some HR_None | Panic \<Rightarrow> None, resp, h))"

definition dual_message ::
  "wire \<Rightarrow> crypto \<Rightarrow> 'a fsp_app \<Rightarrow> instant \<Rightarrow> byte \<Rightarrow> bytes \<Rightarrow> bytes \<Rightarrow> 'a fsp_dual \<Rightarrow> handle_result option \<times> bytes \<times> 'a fsp_dual" where
  "dual_message v C app now msg_type payload resp h =
     (case outcome (handle_responder v C app msg_type payload (h, resp)) of
        (r, resp1, h1) \<Rightarrow> if r \<noteq> Some HR_None then (r, resp1, h1) else outcome (handle_initiator C now msg_type payload (h1, resp1)))"

definition FspDualHandler :: "wire \<Rightarrow> crypto \<Rightarrow> 'a fsp_app \<Rightarrow> 'a fsp_dual handler_ops" where
  "FspDualHandler v C app = \<lparr>on_event = on_event_default, on_message = dual_message v C app, poll_at = fd_timer,
     on_tick = (\<lambda>now resp h. outcome (dual_tick C now (h, resp)))\<rparr>"

end
