(* ===== verification/FspSafety.thy ===== *)
theory FspSafety
  imports SteadySafety FspHandler
begin

text \<open>
  Safety of the session handler.  The contract of the application is the locale \<open>fsp_application\<close>: it does not
  panic, writes into the buffer it is given and announces no longer a reply.  Under it every operation keeps
  \<open>dual_inv\<close>, and the panics are exactly those of the two session parsers (\<open>bad_setup\<close>, \<open>bad_ack\<close>).
\<close>

unbundle bit_operations_syntax

section \<open>Specification\<close>

text \<open>\<open>ok_with\<close> is the triple of the proofs: the step keeps \<open>I\<close>, panics only if \<open>X\<close>, and its result satisfies \<open>Q\<close>.
  \<open>dual_reach\<close> are the states of a handler: \<^verbatim>\<open>test_ping\<close> is a public field the simulator sets.\<close>

definition ok_with :: "('s \<Rightarrow> bool) \<Rightarrow> bool \<Rightarrow> ('a \<Rightarrow> bool) \<Rightarrow> ('s, 'e, 'a) estep \<Rightarrow> 's \<Rightarrow> bool" where
  "ok_with I X Q m s \<longleftrightarrow> (case m s of (r, s') \<Rightarrow> I s' \<and> (r = Panic \<longrightarrow> X) \<and> (\<forall>x. r = Ok x \<longrightarrow> Q x))"

fun machine_ok :: "wire \<Rightarrow> session_initiator \<Rightarrow> bool" where
  "machine_ok Wire_IK (XkInit m) \<longleftrightarrow> length (xki_e_pub m) = 33"
| "machine_ok Wire_XX (XxInit m) \<longleftrightarrow> length (xxi_e_pub m) = 33"
| "machine_ok _ _ \<longleftrightarrow> False"

definition initiator_inv :: "wire \<Rightarrow> fsp_initiator_session \<Rightarrow> bool" where
  "initiator_inv v f \<longleftrightarrow> (\<forall>i. fi_initiator f = Some i \<longrightarrow> machine_ok v i) \<and>
     (if fi_state f = IEstablished then fi_k_recv f \<noteq> None \<and> fi_k_send f \<noteq> None else fi_k_recv f = None \<and> fi_k_send f = None)"

definition dual_inv :: "wire \<Rightarrow> 'a fsp_dual \<Rightarrow> bool" where
  "dual_inv v h \<longleftrightarrow> fsp_session_inv v (fd_session h) \<and> (\<forall>f. fd_initiator h = Some f \<longrightarrow> initiator_inv v f) \<and>
     (\<forall>a. fd_target_addr h = Some a \<longrightarrow> length a = 16) \<and> (\<forall>d. fd_last_setup h = Some d \<longrightarrow> length d \<le> 320)"

definition dual_io :: "wire \<Rightarrow> 'a fsp_dual \<times> bytes \<Rightarrow> bool" where
  "dual_io v s \<longleftrightarrow> dual_inv v (fst s) \<and> length (snd s) = 320"

definition result_ok :: "handle_result \<Rightarrow> bool" where
  "result_ok r \<longleftrightarrow> (\<forall>n. r = HR_SendDatagram n \<longrightarrow> n \<le> 320)"

locale fsp_application =
  fixes app :: "'a fsp_app"
  assumes app_writes: "app t p resp peer a = (r, out, a') \<Longrightarrow> length out = length resp \<and> r \<noteq> None"
    and app_reply: "app t p resp peer a = (Some (App_Reply mt n), out, a') \<Longrightarrow> n \<le> length resp"

definition bad_setup :: "byte \<Rightarrow> bytes \<Rightarrow> bool" where
  "bad_setup msg_type payload \<longleftrightarrow> msg_type = MSG_SESSION_DATAGRAM \<and> 36 \<le> length payload \<and> payload ! 35 AND 0x0F = 0x01 \<and>
     parse_session_setup_full (drop 35 payload) = Panic"

fun machine_ready :: "session_initiator \<Rightarrow> bool" where
  "machine_ready (XkInit m) \<longleftrightarrow> sy_k m \<noteq> None \<and> xki_re_pub m \<noteq> None"
| "machine_ready (XxInit m) \<longleftrightarrow> sy_k m \<noteq> None"

definition bad_ack :: "crypto \<Rightarrow> 'a fsp_dual \<Rightarrow> byte \<Rightarrow> bytes \<Rightarrow> bool" where
  "bad_ack C h msg_type payload \<longleftrightarrow> msg_type = MSG_SESSION_DATAGRAM \<and> 36 \<le> length payload \<and> payload ! 35 AND 0x0F = 0x02 \<and>
     fd_target_addr h \<noteq> None \<and> my_addr C h \<noteq> Err () \<and> (\<exists>f. fd_initiator h = Some f \<and> fi_state f = IAwaitingAck) \<and>
     parse_session_ack (drop 35 payload) = Panic"

inductive dual_reach :: "wire \<Rightarrow> crypto \<Rightarrow> 'a fsp_app \<Rightarrow> 'a fsp_dual \<Rightarrow> bool" for v C app where
  responder: "dual_reach v C app (new_responder cap nsec eph epoch a)"
| dual: "length target_addr = 16 \<Longrightarrow> dual_reach v C app (new_dual v C cap nsec eph ieph target_pub target_addr epoch a)"
| link_pubkey: "dual_reach v C app h \<Longrightarrow> dual_reach v C app (set_link_pubkey pk h)"
| ping: "dual_reach v C app h \<Longrightarrow> dual_reach v C app (h\<lparr>fd_test_ping := b\<rparr>)"
| event: "dual_reach v C app h \<Longrightarrow> dual_reach v C app (on_event (FspDualHandler v C app) now ev h)"
| message: "dual_reach v C app h \<Longrightarrow> length resp = 320 \<Longrightarrow>
    on_message (FspDualHandler v C app) now mt p resp h = (Some r, resp', h') \<Longrightarrow> dual_reach v C app h'"
| tick: "dual_reach v C app h \<Longrightarrow> length resp = 320 \<Longrightarrow>
    on_tick (FspDualHandler v C app) now resp h = (Some r, resp', h') \<Longrightarrow> dual_reach v C app h'"

definition sample_responder :: "unit fsp_dual" where
  "sample_responder = new_responder 1024 (hp_rs sample_hp) (hp_re sample_hp) (hp_repoch sample_hp) ()"

section \<open>Lemmas\<close>


interpretation noop_app: fsp_application NoopFspApp
  by unfold_locales (auto simp: NoopFspApp_def)

lemma ok_with_bindm:
  "ok_with I X Q' m s \<Longrightarrow> (\<And>x s'. m s = (Ok x, s') \<Longrightarrow> I s' \<Longrightarrow> Q' x \<Longrightarrow> ok_with I X Q (f x) s') \<Longrightarrow> ok_with I X Q (bindm m f) s"
  by (auto simp: ok_with_def bindm_def split: prod.splits res.splits)

lemma ok_with_simps:
  "ok_with I X Q (retm x) s \<longleftrightarrow> I s \<and> Q x" "ok_with I X Q (liftm r) s \<longleftrightarrow> I s \<and> (r = Panic \<longrightarrow> X) \<and> (\<forall>x. r = Ok x \<longrightarrow> Q x)"
  "ok_with I X Q (ignore_err m) s \<longleftrightarrow> ok_with I X Q m s"
  by (auto simp: ok_with_def retm_def liftm_def ignore_err_def map_errm_def split: prod.splits res.splits)

lemma ok_with_intros:
  "ok_with I X Q (f (g s)) s \<Longrightarrow> ok_with I X Q (bindm (getm g) f) s"
  "ok_with I X Q (f' (g' (fst t))) t \<Longrightarrow> ok_with I X Q (bindm (geth g') f') t"
  "ok_with I X Q (f2 ()) (u s2) \<Longrightarrow> ok_with I X Q (bindm (modm u) f2) s2"
  "ok_with I' X Q (f6 ()) (u6 (fst t), snd t) \<Longrightarrow> ok_with I' X Q (bindm (modh u6) f6) t"
  "I s4 \<Longrightarrow> (r = Panic \<Longrightarrow> X) \<Longrightarrow> (\<And>x. r = Ok x \<Longrightarrow> ok_with I X Q (f4 x) s4) \<Longrightarrow> ok_with I X Q (bindm (liftm r) f4) s4"
  "I s5 \<Longrightarrow> (\<not> c \<Longrightarrow> ok_with I X Q (f5 ()) s5) \<Longrightarrow> ok_with I X Q (bindm (guardm c e) f5) s5"
  by (auto simp: ok_with_def geth_def modh_def step_simps split_beta split: res.splits)

lemma ok_write_resp:
  assumes "dual_io v s" "at + length bs \<le> 320" "\<And>h resp. dual_io v (h, resp) \<Longrightarrow> fst s = h \<Longrightarrow> ok_with (dual_io v) X Q (f ()) (h, resp)"
  shows "ok_with (dual_io v) X Q (bindm (write_resp at bs) f) s"
  using assms by (cases s) (auto simp: ok_with_def write_resp_def bindm_def dual_io_def)

lemma ok_set_timer:
  assumes "dual_io v s" "\<And>t. dual_io v ((fst s)\<lparr>fd_timer := t\<rparr>, snd s) \<Longrightarrow> ok_with (dual_io v) X Q (f ()) ((fst s)\<lparr>fd_timer := t\<rparr>, snd s)"
  shows "ok_with (dual_io v) X Q (bindm (set_timer now n) f) s"
  using assms unfolding set_timer_def by (intro ok_with_intros) (simp add: dual_io_def dual_inv_def)

lemma some_or_simps [simp]: "some_or x \<noteq> Panic" "some_or x = Ok y \<longleftrightarrow> x = Some y"
  by (auto simp: some_or_def split: option.splits)

lemma my_addr_Ok:
  assumes "crypto_ok C"
  shows "my_addr C h \<noteq> Panic" "my_addr C h = Ok a \<Longrightarrow> length a = 16"
  using assms by (auto simp: my_addr_def bind_res_Panic_iff bind_res_Ok_iff)

lemma length_datagram_body [simp]: "length (build_session_datagram_body a b) = 3 + length a + length b"
  by (simp add: build_session_datagram_body_def)

lemma setup_retry_inv:
  assumes "fsp_session_inv v s" "setup_retry v C sec eph ep data cap s = (q, s')"
  shows "fsp_session_inv v s' \<and> (q = Panic \<longleftrightarrow> parse_session_setup_full data = Panic)"
proof -
  obtain q1 s1 where 1: "FspSession_handle_setup v C sec eph ep data cap s = (q1, s1)" by fastforce
  obtain q2 s2 where 2: "FspSession_handle_setup v C sec eph ep data cap (FspSession_reset s1) = (q2, s2)" by fastforce
  have i: "fsp_session_inv v s1" "q1 = Panic \<longleftrightarrow> fs_state s = SIdle \<and> parse_session_setup_full data = Panic"
    "fsp_session_inv v s2" "q2 = Panic \<longleftrightarrow> parse_session_setup_full data = Panic"
    using handle_setup_inv [OF assms(1) 1] handle_setup_inv [OF reset_inv 2] by auto
  have st: "fs_state s \<noteq> SIdle \<Longrightarrow> q1 = Err SInvalidState" "parse_session_setup_full data = Panic \<Longrightarrow> fs_state s = SIdle \<Longrightarrow> q1 = Panic"
    using 1 i(2) by (auto simp: FspSession_handle_setup_def step_simps)
  show ?thesis using assms(2) 1 2 i st
    by (cases q1) (auto simp: setup_retry_def split: if_splits)
qed

lemma setup_src_length: "parse_session_setup_full data = Ok (fl, src, hs) \<Longrightarrow> length src = 16"
  by (auto simp: parse_session_setup_full_def bind_res_Ok_iff Let_def reject_if_def slice_def split: if_splits)

lemma session_ack_length:
  "build_session_ack [a] [b] hs cap = Ok ack \<Longrightarrow> length a = 16 \<Longrightarrow> length b = 16 \<Longrightarrow> length ack \<le> cap"
  "build_session_setup fl [a] [b] hs cap = Ok setup_msg \<Longrightarrow> length a = 16 \<Longrightarrow> length b = 16 \<Longrightarrow> length setup_msg = 43 + length hs"
  "build_session_msg3 hs cap = Ok msg3 \<Longrightarrow> length msg3 = 7 + length hs"
  by (auto simp: build_session_ack_def build_session_setup_def build_session_msg3_def put_coords_def Let_def split: if_splits)

lemma handle_setup_length:
  assumes "crypto_ok C" "FspSession_handle_setup v C sec eph ep data cap s = (Ok ack, s')"
  shows "length ack \<le> cap"
  using assms
  by (cases v) (auto simp: FspSession_handle_setup_def step_OkE Let_def dest!: setup_src_length session_ack_length(1))

lemma setup_retry_length:
  assumes "crypto_ok C" "setup_retry v C sec eph ep data cap s = (Ok ack, s')"
  shows "length ack \<le> cap"
  using assms handle_setup_length [OF assms(1)]
  by (auto simp: setup_retry_def split: prod.splits res.splits if_splits)

lemma ok_on_session:
  assumes "dual_io v s" "\<And>q s'. m (fd_session (fst s)) = (q, s') \<Longrightarrow> fsp_session_inv v s' \<and> (q = Panic \<longrightarrow> X) \<and> (\<forall>x. q = Ok x \<longrightarrow> Q x)"
  shows "ok_with (dual_io v) X Q (on_session m) s"
  using assms by (cases s) (fastforce simp: ok_with_def on_session_def dual_io_def dual_inv_def split: prod.splits)

lemma ok_respond_setup:
  assumes "crypto_ok C" "dual_io v s" "length rb = 35"
  shows "ok_with (dual_io v) (parse_session_setup_full data = Panic) result_ok (respond_setup v C rb data) s"
proof -
  have n: "length (snd s) = 320" "fsp_session_inv v (fd_session (fst s))" using assms(2) by (auto simp: dual_io_def dual_inv_def)
  let ?h = "fst s"
  have r: "ok_with (dual_io v) (parse_session_setup_full data = Panic) (\<lambda>ack. length ack \<le> 285)
      (ignore_err (on_session (setup_retry v C (fd_nsec ?h) (fd_ephemeral ?h) (fd_epoch ?h) data 285))) s"
    unfolding ok_with_simps using assms(2) n(2) by (intro ok_on_session) (auto dest: setup_retry_inv setup_retry_length [OF assms(1)])
  show ?thesis
    unfolding respond_setup_def using assms(2) n
    by (intro ok_with_intros; (simp only: split_beta fst_conv snd_conv)?; intro ok_with_intros)
      (auto intro!: ok_with_bindm [OF r] ok_write_resp simp: assms(3) ok_with_simps result_ok_def split_beta)
qed

lemma ok_respond_msg3:
  assumes "dual_io v s"
  shows "ok_with (dual_io v) False result_ok (bindm (ignore_err (on_session (FspSession_handle_msg3 v C data))) (\<lambda>_. retm HR_None)) s"
proof -
  have n: "fsp_session_inv v (fd_session (fst s))" using assms by (auto simp: dual_io_def dual_inv_def)
  have "ok_with (dual_io v) False (\<lambda>_. True) (ignore_err (on_session (FspSession_handle_msg3 v C data))) s"
    unfolding ok_with_simps using assms n by (intro ok_on_session) (auto dest: handle_msg3_inv)
  then show ?thesis by (rule ok_with_bindm) (simp add: ok_with_simps result_ok_def)
qed


lemma ok_next_counter:
  assumes "dual_io v s"
  shows "ok_with (dual_io v) X (\<lambda>_. True) (on_session (\<lambda>s. case FspSession_next_send_counter s of (c, s1) \<Rightarrow> (Ok c, s1))) s"
  using assms by (intro ok_on_session) (auto simp: FspSession_next_send_counter_def dual_io_def dual_inv_def fsp_session_inv_def
      split: fsp_session_state.splits)

lemma ok_seal_reply:
  assumes "crypto_ok C" "dual_io v s" "length rb = 35" "53 + len \<le> 320"
  shows "ok_with (dual_io v) False result_ok (seal_reply C rb k mt len) s"
proof -
  have n: "length (snd s) = 320" using assms(2) by (simp add: dual_io_def)
  have sl: "slice (snd s) APP_OFFSET (APP_OFFSET + len) = (Ok (take len (drop 53 (snd s))) :: (bytes, unit) res)"
    using n assms(4) by (simp add: slice_def)
  let ?p = "take len (drop 53 (snd s))"
  show ?thesis
    unfolding seal_reply_def Let_def
    by (intro ok_with_intros ok_with_bindm [OF ok_next_counter] ok_write_resp)
      (use sl in \<open>auto simp: assms(2,3) n ok_with_simps result_ok_def dest!: aead_encrypt_length [OF assms(1)]\<close>)
qed

context fsp_application
begin

lemma ok_app_answer:
  assumes "dual_io v s"
  shows "ok_with (dual_io v) False (\<lambda>r. \<forall>t n. r = App_Reply t n \<longrightarrow> 53 + n \<le> 320) (app_answer app src mt p) s"
proof -
  obtain h resp where s: "s = (h, resp)" by (cases s)
  have n: "length resp = 320" using assms s by (simp add: dual_io_def)
  obtain r out a where a: "app mt p (drop APP_OFFSET resp) \<lparr>pc_link_pubkey = fd_link_pubkey h, pc_src_addr = Some src\<rparr> (fd_app h) = (r, out, a)"
    by (metis prod_cases3)
  have o: "length out = 267" "r \<noteq> None" using app_writes [OF a] n by simp_all
  have l: "t + len \<le> 320" if "r = Some (App_Reply mt' len)" "t = 53" for mt' len t using app_reply a that n by fastforce
  have e: "icmpv6_echo_reply p cap \<noteq> Panic" for cap by (simp add: icmpv6_echo_reply_def Let_def)
  have el: "icmpv6_echo_reply p cap = Ok reply \<Longrightarrow> length reply \<le> cap" for cap reply using echo_reply_Ok by fastforce
  show ?thesis
    using assms a o l e el n
    by (auto simp: s app_answer_def ok_with_def dual_io_def dual_inv_def split: res.splits option.splits if_splits)
qed

lemma ok_respond_data:
  assumes "crypto_ok C" "dual_io v s" "length rb = 35"
  shows "ok_with (dual_io v) False result_ok (respond_data C app rb src data) s"
proof -
  have np: "parse_fsp_encrypted_header d \<noteq> Panic" "fsp_strip_inner_header d \<noteq> Panic" for d
    using parse_fsp_encrypted_header_not_Panic fsp_strip_inner_header_not_Panic by auto
  show ?thesis
    unfolding respond_data_def split_beta
    by (intro ok_with_intros ok_with_bindm [OF ok_app_answer])
      (auto simp: np assms(2,3) ok_with_simps result_ok_def split: fsp_app_result.splits intro: ok_seal_reply [OF assms(1)])
qed

end


lemma ok_with_weaken: "ok_with I X Q m s \<Longrightarrow> (X \<Longrightarrow> X') \<Longrightarrow> ok_with I X' Q m s"
  by (auto simp: ok_with_def)

context fsp_application
begin

lemma ok_handle_responder:
  assumes "crypto_ok C" "dual_io v s"
  shows "ok_with (dual_io v) (bad_setup mt p) result_ok (handle_responder v C app mt p) s"
proof -
  have rb: "length (build_session_datagram_body a b) = 35" if "slice p 3 19 = (Ok b :: (bytes, unit) res)" "slice p 19 35 = (Ok a :: (bytes, unit) res)" for a b
    using that by (auto simp: slice_def split: if_splits)
  have h: "hd (drop 35 p) = p ! 35" if "drop 35 p \<noteq> []" using that by (simp add: hd_drop_conv_nth)
  have sl: "slice p 3 19 \<noteq> (Panic :: (bytes, unit) res)" "slice p 19 35 \<noteq> (Panic :: (bytes, unit) res)" if "35 \<le> length p" using that by (auto simp: slice_def)
  show ?thesis
    unfolding handle_responder_def Let_def
  proof (intro ok_with_intros)
    fix a b assume 1: "\<not> mt \<noteq> MSG_SESSION_DATAGRAM" "\<not> length p < SESSION_DATAGRAM_BODY_SIZE" "slice p 3 19 = (Ok a :: (bytes, unit) res)"
      "slice p 19 35 = (Ok b :: (bytes, unit) res)" "\<not> drop SESSION_DATAGRAM_BODY_SIZE p = []"
    note r = rb [OF 1(3,4)]
    show "ok_with (dual_io v) (bad_setup mt p) result_ok
       (if hd (drop SESSION_DATAGRAM_BODY_SIZE p) AND 0x0F = 0x01
        then respond_setup v C (build_session_datagram_body b a) (drop SESSION_DATAGRAM_BODY_SIZE p)
        else if hd (drop SESSION_DATAGRAM_BODY_SIZE p) AND 0x0F = 0x03
             then bindm (ignore_err (on_session (FspSession_handle_msg3 v C (drop SESSION_DATAGRAM_BODY_SIZE p)))) (\<lambda>_. retm HR_None)
             else if hd (drop SESSION_DATAGRAM_BODY_SIZE p) AND 0x0F = 0x00
                  then respond_data C app (build_session_datagram_body b a) a (drop SESSION_DATAGRAM_BODY_SIZE p) else retm HR_None) s"
      using 1 h ok_with_weaken [OF ok_respond_setup [OF assms r, of "drop 35 p"], of "bad_setup mt p"]
        ok_with_weaken [OF ok_respond_msg3 [OF assms(2)], of "bad_setup mt p"]
        ok_with_weaken [OF ok_respond_data [OF assms r], of "bad_setup mt p"] assms(2)
      by (auto simp: bad_setup_def ok_with_simps result_ok_def)
  qed (use sl assms in auto)
qed

end

lemma xk_write1_no_panic: "no_panic (NoiseXkInitiator_write_message1 C cap) i"
  unfolding NoiseXkInitiator_write_message1_def
  by (intro no_panic_bindm) (auto simp: step_OkE mixk_eq mixh_eq)

lemma xk_read2_ready: "NoiseXkInitiator_read_message2 C msg i = (Ok x, i') \<Longrightarrow> sy_k i' \<noteq> None \<and> xki_re_pub i' \<noteq> None"
  by (auto simp: NoiseXkInitiator_read_message2_def step_OkE mixk_eq mixh_eq slicem_def dest!: decm_OkD)

lemma xk_write3_no_panic: "sy_k i \<noteq> None \<Longrightarrow> xki_re_pub i \<noteq> None \<Longrightarrow> no_panic (NoiseXkInitiator_write_message3 C my_pub epoch cap) i"
  unfolding NoiseXkInitiator_write_message3_def
  by (intro no_panic_bindm) (auto simp: step_OkE mixk_eq mixh_eq dest!: encm_OkD)

lemma keeps_mix_pub:
  "keeps (\<lambda>m. xki_e_pub m = e) (mixh C d)" "keeps (\<lambda>m. xki_e_pub m = e) (mixk C d)"
  "keeps (\<lambda>m. xxi_e_pub m = e) (mixh C d)" "keeps (\<lambda>m. xxi_e_pub m = e) (mixk C d)"
  by (auto simp: keeps_def mixh_eq mixk_eq)

lemma keeps_aead_pub:
  "keeps (\<lambda>m. xki_e_pub m = e) (encm C d cap)" "keeps (\<lambda>m. xki_e_pub m = e) (decm C d cap)"
  "keeps (\<lambda>m. xxi_e_pub m = e) (encm C d cap)" "keeps (\<lambda>m. xxi_e_pub m = e) (decm C d cap)"
  unfolding encm_def decm_def by (intro keeps_bindm keeps_modm keeps_mix_pub keeps_simps; simp)+

lemmas keeps_pub = keeps_mix_pub keeps_aead_pub

lemma keeps_machine:
  "keeps (\<lambda>m. xki_e_pub m = e) (NoiseXkInitiator_write_message1 C cap)"
  "keeps (\<lambda>m. xki_e_pub m = e) (NoiseXkInitiator_read_message2 C payload)"
  "keeps (\<lambda>m. xki_e_pub m = e) (NoiseXkInitiator_write_message3 C my_pub epoch cap)"
  "keeps (\<lambda>m. xxi_e_pub m = e) (NoiseXxInitiator_write_message1 C cap)"
  "keeps (\<lambda>m. xxi_e_pub m = e) (NoiseXxInitiator_read_message2 C payload)"
  "keeps (\<lambda>m. xxi_e_pub m = e) (NoiseXxInitiator_write_message3 C my_pub epoch cap)"
  "keeps (\<lambda>m. xxi_e_pub m = e) (NoiseXxInitiator_decrypt_payload C ct cap)"
  "keeps (\<lambda>m. xxi_e_pub m = e) (NoiseXxInitiator_encrypt_payload C ct cap)"
  unfolding NoiseXkInitiator_write_message1_def NoiseXkInitiator_read_message2_def NoiseXkInitiator_write_message3_def
    NoiseXxInitiator_write_message1_def NoiseXxInitiator_read_message2_def NoiseXxInitiator_write_message3_def
    NoiseXxInitiator_decrypt_payload_def NoiseXxInitiator_encrypt_payload_def slicem_def
  by (intro keeps_bindm keeps_modm keeps_pub keeps_simps; simp)+

lemma encm_length: "crypto_ok C \<Longrightarrow> encm C pt cap s = (Ok ct, s') \<Longrightarrow> length ct \<le> cap"
  by (auto simp: encm_def step_OkE aead_encrypt_def dest: seal_lengths split: if_splits option.splits)

lemma write1_Ok:
  "NoiseXkInitiator_write_message1 C cap m = (Ok x, m') \<Longrightarrow> x = xki_e_pub m"
  "NoiseXxInitiator_write_message1 C cap n = (Ok y, n') \<Longrightarrow> y = xxi_e_pub n"
  by (auto simp: NoiseXkInitiator_write_message1_def NoiseXxInitiator_write_message1_def step_OkE)

lemma session_write1_ok:
  assumes "machine_ok v i" "session_write1 C 64 i = (q, i')"
  shows "machine_ok v i' \<and> q \<noteq> Panic \<and> (\<forall>m. q = Ok m \<longrightarrow> length m = 33)"
proof (cases i)
  case (XkInit m)
  obtain q1 m1 where 1: "NoiseXkInitiator_write_message1 C 64 m = (q1, m1)" by fastforce
  have "xki_e_pub m1 = xki_e_pub m" "q1 \<noteq> Panic" "q1 = Ok x \<Longrightarrow> x = xki_e_pub m" for x
    using keepsD [OF keeps_machine(1) refl 1] no_panicD [OF xk_write1_no_panic 1] 1 write1_Ok(1) by auto
  then show ?thesis using assms 1 XkInit by (cases v) (auto simp: session_write1_def)
next
  case (XxInit m)
  obtain q1 m1 where 1: "NoiseXxInitiator_write_message1 C 64 m = (q1, m1)" by fastforce
  have "xxi_e_pub m1 = xxi_e_pub m" "q1 \<noteq> Panic" "q1 = Ok x \<Longrightarrow> x = xxi_e_pub m" for x
    using keepsD [OF keeps_machine(4) refl 1] no_panicD [OF xx_write1_no_panic 1] 1 write1_Ok(2) by auto
  then show ?thesis using assms 1 XxInit by (cases v) (auto simp: session_write1_def)
qed


lemma decrypt_payload_ready:
  assumes "sy_k m \<noteq> None" "NoiseXxInitiator_decrypt_payload C enc cap m = (q, m')"
  shows "q \<noteq> Panic \<and> sy_k m' \<noteq> None"
  using assms by (cases "sy_k m") (auto simp: NoiseXxInitiator_decrypt_payload_def decm_cases decm_def step_simps split: res.splits)

lemma session_read2_ok:
  assumes "machine_ok v i" "session_read2 C pinned payload i = (q, i')"
  shows "machine_ok v i' \<and> q \<noteq> Panic \<and> (\<forall>x. q = Ok x \<longrightarrow> machine_ready i')"
proof (cases i)
  case (XkInit m)
  obtain q1 m1 where 1: "NoiseXkInitiator_read_message2 C payload m = (q1, m1)" by fastforce
  have "xki_e_pub m1 = xki_e_pub m" "q1 \<noteq> Panic" "q1 = Ok x \<Longrightarrow> sy_k m1 \<noteq> None \<and> xki_re_pub m1 \<noteq> None" for x
    using keepsD [OF keeps_machine(2) refl 1] no_panicD [OF xk_initiator_no_panic 1] 1 xk_read2_ready by blast+
  then show ?thesis using assms 1 XkInit by (cases v; cases q1) (auto simp: session_read2_def)
next
  case (XxInit m)
  obtain b e where sp: "split_msg2_noise payload = (b, e)" by fastforce
  obtain q1 m1 where 1: "NoiseXxInitiator_read_message2 C b m = (q1, m1)" by fastforce
  have f: "xxi_e_pub m1 = xxi_e_pub m" "q1 \<noteq> Panic" "q1 = Ok x \<Longrightarrow> sy_k m1 \<noteq> None" for x
    using keepsD [OF keeps_machine(5) refl 1] no_panicD [OF xx_initiator_no_panic 1] 1 xx_read2_k by blast+
  have d: "q2 \<noteq> Panic \<and> sy_k m2 \<noteq> None \<and> xxi_e_pub m2 = xxi_e_pub m"
    if "q1 = Ok x" "NoiseXxInitiator_decrypt_payload C enc cap m1 = (q2, m2)" for x enc cap q2 m2
    using decrypt_payload_ready [OF f(3) [OF that(1)] that(2)] keepsD [OF keeps_machine(7) refl that(2)] f(1) by simp
  show ?thesis
  proof (cases q1)
    case (Ok x)
    note d' = d [OF Ok]
    obtain rs ep where x: "x = (rs, ep)" by fastforce
    show ?thesis
    proof (cases e)
      case (Some enc)
      obtain q2 m2 where 2: "NoiseXxInitiator_decrypt_payload C enc NEGOTIATION_MAX_SIZE m1 = (q2, m2)" by fastforce
      show ?thesis using assms sp 1 f(1) f(3) [OF Ok] d' [OF 2] XxInit Ok x Some 2
        by (cases v; cases q2) (auto simp: session_read2_def split: if_splits)
    qed (use assms sp 1 f(1) f(3) [OF Ok] XxInit Ok x in \<open>cases v; auto simp: session_read2_def split: if_splits\<close>)
  qed (use assms sp 1 f XxInit in \<open>cases v; auto simp: session_read2_def\<close>)+
qed

lemma encm_twice:
  assumes "crypto_ok C" "encm C p cap s = (Ok a, s1)" "encm C ep (cap - length a) s2 = (Ok b, s3)"
  shows "length (a @ b) \<le> cap" "sy_k s3 \<noteq> None"
  using encm_length [OF assms(1,2)] encm_length [OF assms(1,3)] encm_OkD [OF assms(3)] by auto

lemma write3_length:
  assumes "crypto_ok C"
  shows "NoiseXkInitiator_write_message3 C p ep cap m = (Ok x, m') \<Longrightarrow> length x \<le> cap"
    "NoiseXxInitiator_write_message3 C p ep cap n = (Ok y, n') \<Longrightarrow> length y \<le> cap \<and> sy_k n' \<noteq> None"
  unfolding NoiseXkInitiator_write_message3_def NoiseXxInitiator_write_message3_def
  by (simp only: step_OkE, elim exE conjE, use encm_twice [OF assms] in blast)+


lemma encrypt_payload_ok:
  assumes "crypto_ok C" "sy_k m \<noteq> None" "NoiseXxInitiator_encrypt_payload C pt cap m = (q, m')"
  shows "q \<noteq> Panic" "q = Ok x \<Longrightarrow> length x \<le> cap"
proof -
  show "q \<noteq> Panic" using assms(2,3) no_panic_encm [of m C pt cap] by (auto simp: NoiseXxInitiator_encrypt_payload_def no_panic_def)
  show "q = Ok x \<Longrightarrow> length x \<le> cap" using assms(3) encm_length [OF assms(1)] by (auto simp: NoiseXxInitiator_encrypt_payload_def)
qed

lemma session_write3_ok:
  assumes "crypto_ok C" "machine_ok v i" "machine_ready i" "session_write3 C p ep i = (q, i')"
  shows "machine_ok v i' \<and> q \<noteq> Panic \<and> (\<forall>m. q = Ok m \<longrightarrow> length m \<le> 153)"
proof (cases i)
  case (XkInit m)
  obtain q1 m1 where 1: "NoiseXkInitiator_write_message3 C p ep 128 m = (q1, m1)" by fastforce
  have r: "sy_k m \<noteq> None" "xki_re_pub m \<noteq> None" using assms(3) XkInit by auto
  have "xki_e_pub m1 = xki_e_pub m" "q1 \<noteq> Panic" "q1 = Ok x \<Longrightarrow> length x \<le> 128" for x
    using keepsD [OF keeps_machine(3) refl 1] no_panicD [OF xk_write3_no_panic [OF r] 1] 1 write3_length(1) [OF assms(1)] by auto
  then show ?thesis using assms(2,4) 1 XkInit by (cases v; cases q1) (auto simp: session_write3_def)
next
  case (XxInit m)
  have r: "sy_k m \<noteq> None" using assms(3) XxInit by auto
  obtain q1 m1 where 1: "NoiseXxInitiator_write_message3 C p ep SESSION_MSG3_BUF m = (q1, m1)" by fastforce
  have f: "xxi_e_pub m1 = xxi_e_pub m" "q1 \<noteq> Panic" "q1 = Ok x \<Longrightarrow> length x \<le> SESSION_MSG3_BUF \<and> sy_k m1 \<noteq> None" for x
    using keepsD [OF keeps_machine(6) refl 1] no_panicD [OF xx_write3_no_panic [OF r] 1] 1 write3_length(2) [OF assms(1)] by auto
  obtain neg where neg: "encode_payload 64 0 0 0 None = Ok neg" using fsp_neg by blast
  show ?thesis
  proof (cases q1)
    case (Ok x)
    obtain q2 m2 where 2: "NoiseXxInitiator_encrypt_payload C neg (SESSION_MSG3_BUF - length x) m1 = (q2, m2)" by fastforce
    have g: "q2 \<noteq> Panic" "\<And>y. q2 = Ok y \<Longrightarrow> length y \<le> SESSION_MSG3_BUF - length x" "xxi_e_pub m2 = xxi_e_pub m"
      using encrypt_payload_ok [OF assms(1) _ 2] f(3) [OF Ok] keepsD [OF keeps_machine(8) refl 2] f(1) by auto
    have l: "length (x @ y) \<le> 153" if "q2 = Ok y" for y using g(2) [OF that] conjunct1 [OF f(3) [OF Ok]] by simp
    show ?thesis using assms(2,4) 1 2 g l neg XxInit Ok by (cases v; cases q2) (auto simp: session_write3_def)
  qed (use assms(2,4) 1 f XxInit in \<open>cases v; auto simp: session_write3_def\<close>)+
qed

lemma build_setup_inv:
  assumes "initiator_inv v f" "FspInitiatorSession_build_setup C a b cap f = (q, f')" "length a = 16" "length b = 16"
  shows "initiator_inv v f' \<and> q \<noteq> Panic \<and> (\<forall>m. q = Ok m \<longrightarrow> length m = 76)"
proof (cases "fi_state f = IIdle \<and> fi_initiator f \<noteq> None")
  case True
  then obtain i where i: "fi_initiator f = Some i" "machine_ok v i" "fi_k_recv f = None" "fi_k_send f = None"
    using assms(1) by (auto simp: initiator_inv_def)
  obtain q1 i1 where 1: "session_write1 C 64 i = (q1, i1)" by fastforce
  note w = session_write1_ok [OF i(2) 1]
  have b: "build_session_setup 0 [a] [b] x cap \<noteq> Panic" for x by (simp add: build_session_setup_def Let_def)
  show ?thesis
    using assms(2) 1 w i True b session_ack_length(2) [OF _ assms(3,4)]
    by (cases q1; cases "build_session_setup 0 [a] [b] (case q1 of Ok x \<Rightarrow> x | _ \<Rightarrow> []) cap")
      (auto simp: FspInitiatorSession_build_setup_def initiator_inv_def step_simps)
qed (use assms in \<open>cases "fi_state f = IIdle"; auto simp: FspInitiatorSession_build_setup_def step_simps\<close>)

lemma handle_ack_inv:
  assumes "initiator_inv v f" "FspInitiatorSession_handle_ack C data f = (q, f')"
  shows "initiator_inv v f' \<and> (q = Panic \<longleftrightarrow> fi_state f = IAwaitingAck \<and> parse_session_ack data = Panic) \<and>
    (\<forall>x. q = Ok x \<longrightarrow> (\<exists>i. fi_initiator f' = Some i \<and> machine_ok v i \<and> machine_ready i))"
proof (cases "fi_state f = IAwaitingAck")
  case True
  show ?thesis
  proof (cases "parse_session_ack data")
    case (Ok p)
    show ?thesis
    proof (cases "fi_initiator f")
      case (Some i)
      then have i: "machine_ok v i" "fi_k_recv f = None" "fi_k_send f = None" using assms(1) True by (auto simp: initiator_inv_def)
      obtain q1 i1 where 1: "session_read2 C (fi_pinned_responder_pub f) p i = (q1, i1)" by fastforce
      show ?thesis using assms(2) 1 session_read2_ok [OF i(1) 1] i True Ok Some
        by (cases q1) (auto simp: FspInitiatorSession_handle_ack_def initiator_inv_def step_simps modm_def)
    qed (use assms True Ok in \<open>auto simp: FspInitiatorSession_handle_ack_def step_simps\<close>)
  qed (use assms True in \<open>auto simp: FspInitiatorSession_handle_ack_def step_simps\<close>)
qed (use assms in \<open>auto simp: FspInitiatorSession_handle_ack_def step_simps\<close>)

lemma build_msg3_inv:
  assumes "crypto_ok C" "initiator_inv v f" "FspInitiatorSession_build_msg3 C ep cap f = (q, f')"
    "fi_initiator f = Some i" "machine_ready i"
  shows "initiator_inv v f' \<and> q \<noteq> Panic \<and> (\<forall>m. q = Ok m \<longrightarrow> length m \<le> 160)"
proof (cases "fi_state f = IAwaitingEstablished")
  case True
  have i: "machine_ok v i" using assms by (auto simp: initiator_inv_def)
  obtain q1 i1 where 1: "session_write3 C (fi_my_pub f) ep i = (q1, i1)" by fastforce
  note w = session_write3_ok [OF assms(1) i assms(5) 1]
  have b: "build_session_msg3 x cap \<noteq> Panic" for x by (simp add: build_session_msg3_def Let_def)
  obtain ks kr where k: "initiator_finalize C i1 = (ks, kr)" by fastforce
  show ?thesis
  proof (cases q1)
    case (Ok x)
    then have x: "length x \<le> 153" using w by blast
    show ?thesis using assms(2-4) 1 w b k True Ok session_ack_length(3) [of x cap] x
      by (cases "build_session_msg3 x cap") (auto simp: FspInitiatorSession_build_msg3_def initiator_inv_def step_simps)
  qed (use assms(2-4) 1 w True in \<open>auto simp: FspInitiatorSession_build_msg3_def initiator_inv_def step_simps\<close>)
qed (use assms in \<open>auto simp: FspInitiatorSession_build_msg3_def step_simps\<close>)


lemma ok_on_initiator:
  assumes "dual_io v s" "m f = (q, f')" "initiator_inv v f'" "q = Panic \<Longrightarrow> X"
    "\<And>x h resp. q = Ok x \<Longrightarrow> dual_io v (h, resp) \<Longrightarrow> fd_initiator h = Some f' \<Longrightarrow> ok_with (dual_io v) X R (g x) (h, resp)"
  shows "ok_with (dual_io v) X R (bindm (ignore_err (on_initiator m f)) g) s"
  using assms by (cases s; cases q)
    (auto simp: ok_with_def on_initiator_def ignore_err_def map_errm_def bindm_def dual_io_def dual_inv_def)

lemma ok_initiator_ack:
  assumes "crypto_ok C" "dual_io v s" "initiator_inv v f" "length me = 16" "length target = 16"
  shows "ok_with (dual_io v) (fi_state f = IAwaitingAck \<and> parse_session_ack data = Panic) result_ok (initiator_ack C now me target f data) s"
proof -
  obtain q1 f1 where 1: "FspInitiatorSession_handle_ack C data f = (q1, f1)" by fastforce
  note a = handle_ack_inv [OF assms(3) 1]
  define q2 f2 where "q2 ep = fst (FspInitiatorSession_build_msg3 C ep 512 f1)" and "f2 ep = snd (FspInitiatorSession_build_msg3 C ep 512 f1)" for ep
  then have 2: "FspInitiatorSession_build_msg3 C ep 512 f1 = (q2 ep, f2 ep)" for ep by simp
  have m: "initiator_inv v (f2 ep) \<and> q2 ep \<noteq> Panic \<and> (\<forall>m. q2 ep = Ok m \<longrightarrow> length m \<le> 160)" if "q1 = Ok x" for x ep
    using a that build_msg3_inv [OF assms(1) _ 2] by blast
  have msg3: "ok_with (dual_io v) X result_ok (bindm (ignore_err (on_initiator (FspInitiatorSession_build_msg3 C ep 512) f1)) (\<lambda>msg3.
     bindm (write_resp 0 (build_session_datagram_body me target)) (\<lambda>_.
     bindm (write_resp SESSION_DATAGRAM_BODY_SIZE msg3) (\<lambda>_.
     bindm (set_timer now FSP_MSG3_TIMEOUT_SECS) (\<lambda>_.
       retm (HR_SendDatagram (SESSION_DATAGRAM_BODY_SIZE + length msg3))))))) t" if "dual_io v t" "q1 = Ok x" for X ep t x
    by (rule ok_on_initiator [where m = "FspInitiatorSession_build_msg3 C ep 512" and f = f1, OF that(1) 2])
      (use m [OF that(2), of ep] assms(4,5) in \<open>auto simp: ok_with_simps result_ok_def intro!: ok_write_resp ok_set_timer\<close>)
  show ?thesis
    unfolding initiator_ack_def split_beta
    by (rule ok_on_initiator [where m = "FspInitiatorSession_handle_ack C data" and f = f, OF assms(2) 1])
      (use a in \<open>auto intro!: ok_with_intros(2) msg3 [simplified]\<close>)
qed

lemma ok_initiator_data:
  assumes "dual_io v s"
  shows "ok_with (dual_io v) False result_ok (initiator_data C f data) s"
proof -
  have np: "parse_fsp_encrypted_header d \<noteq> Panic" "fsp_strip_inner_header d \<noteq> Panic" for d
    using parse_fsp_encrypted_header_not_Panic fsp_strip_inner_header_not_Panic by auto
  show ?thesis
    unfolding initiator_data_def split_beta
    by (intro ok_with_intros) (auto simp: np assms ok_with_simps result_ok_def)
qed

lemma dual_ioD: "dual_io v s \<Longrightarrow> fd_initiator (fst s) = Some f \<Longrightarrow> initiator_inv v f"
  "dual_io v s \<Longrightarrow> fd_target_addr (fst s) = Some a \<Longrightarrow> length a = 16"
  "dual_io v s \<Longrightarrow> fd_last_setup (fst s) = Some d \<Longrightarrow> length d \<le> 320"
  by (auto simp: dual_io_def dual_inv_def)

lemma ok_handle_initiator:
  assumes "crypto_ok C" "dual_io v s"
  shows "ok_with (dual_io v) (bad_ack C (fst s) mt p) result_ok (handle_initiator C now mt p) s"
proof -
  have h: "hd (drop 35 p) = p ! 35" if "drop 35 p \<noteq> []" using that by (simp add: hd_drop_conv_nth)
  have c: "ok_with (dual_io v) (bad_ack C (fst s) mt p) result_ok
      (case fi_state f of IIdle \<Rightarrow> retm HR_None
        | IAwaitingAck \<Rightarrow> if hd (drop 35 p) AND 15 = 2 then initiator_ack C now me target f (drop 35 p) else retm HR_None
        | IAwaitingEstablished \<Rightarrow> bindm (set_timer now FSP_RETRY_SECS) (\<lambda>_. retm HR_None)
        | IEstablished \<Rightarrow> if hd (drop 35 p) AND 15 = 0 then initiator_data C f (drop 35 p) else retm HR_None) s"
    if 1: "mt = MSG_SESSION_DATAGRAM" "fd_target_addr (fst s) = Some target" "my_addr C (fst s) = Ok me" "fd_initiator (fst s) = Some f"
      "drop 35 p \<noteq> []" for target me f
    using that assms h
      ok_with_weaken [OF ok_initiator_ack [OF assms dual_ioD(1) [OF assms(2) 1(4)] my_addr_Ok(2) [OF assms(1) 1(3)] dual_ioD(2) [OF assms(2) 1(2)]]]
      ok_with_weaken [OF ok_initiator_data [OF assms(2)]]
    by (auto simp: ok_with_simps result_ok_def bad_ack_def not_le not_less split: fsp_initiator_state.split intro!: ok_set_timer)
  show ?thesis
    unfolding handle_initiator_def Let_def SESSION_DATAGRAM_BODY_SIZE_def
    by (intro ok_with_intros) (use assms c in \<open>auto simp: my_addr_Ok\<close>)
qed

lemma ok_next_ping:
  assumes "dual_io v s" "initiator_inv v f"
  shows "ok_with (dual_io v) X (\<lambda>_. True) (on_initiator (\<lambda>f. case FspInitiatorSession_next_send_counter f of (c, f1) \<Rightarrow> (Ok c, f1)) f) s"
  using assms by (cases s) (auto simp: ok_with_def on_initiator_def FspInitiatorSession_next_send_counter_def dual_io_def dual_inv_def initiator_inv_def)

lemma data_message_length:
  assumes "crypto_ok C" "build_fsp_data_message C ctr ts p k cap = Ok msg"
  shows "length msg = 34 + length p"
  using assms(2) by (auto simp: build_fsp_data_message_def Let_def bind_res_Ok_iff build_fsp_encrypted_def fsp_prepend_inner_header_def build_fsp_header_def
      dest!: aead_encrypt_length [OF assms(1)] split: if_splits)

lemma ok_send_ping:
  assumes "crypto_ok C" "dual_io v s"
  shows "ok_with (dual_io v) False result_ok (send_ping C now) s"
proof -
  have np: "build_fsp_data_message C ctr ts p k cap \<noteq> Panic" for ctr ts p k cap
    by (simp add: build_fsp_data_message_def Let_def bind_res_Panic_iff)
  show ?thesis
    unfolding send_ping_def split_beta
    by (intro ok_with_intros ok_with_bindm [OF ok_next_ping [unfolded split_beta]] ok_write_resp ok_set_timer)
      (auto simp: assms my_addr_Ok np ok_with_simps result_ok_def dest: dual_ioD [OF assms(2)]
        dest!: data_message_length [OF assms(1)] my_addr_Ok(2) [OF assms(1)])
qed

lemma ok_start_setup:
  assumes "dual_io v s" "initiator_inv v f" "length me = 16" "length target = 16"
  shows "ok_with (dual_io v) False result_ok (start_setup C now me target f) s"
proof -
  obtain q f' where 1: "FspInitiatorSession_build_setup C me target 512 f = (q, f')" by fastforce
  show ?thesis
    unfolding start_setup_def Let_def
    by (rule ok_on_initiator [where m = "FspInitiatorSession_build_setup C me target 512" and f = f, OF assms(1) 1])
      (use build_setup_inv [OF assms(2) 1 assms(3,4)] assms(3,4) in
        \<open>auto simp: ok_with_simps result_ok_def dual_io_def dual_inv_def intro!: ok_write_resp ok_with_intros(4) ok_set_timer\<close>)
qed

lemma ok_dual_tick:
  assumes "crypto_ok C" "dual_io v s"
  shows "ok_with (dual_io v) False result_ok (dual_tick C now) s"
  unfolding dual_tick_def
  by (intro ok_with_intros)
    (auto simp: assms my_addr_Ok ok_with_simps result_ok_def split: fsp_initiator_state.split option.split
      intro!: ok_start_setup ok_write_resp ok_set_timer ok_send_ping dest: dual_ioD [OF assms(2)] my_addr_Ok(2) [OF assms(1)])


lemma outcome_ok:
  assumes "ok_with (dual_io v) X result_ok m (h, resp)" "outcome (m (h, resp)) = (r, resp', h')"
  shows "dual_io v (h', resp') \<and> (r = None \<longrightarrow> X) \<and> (\<forall>x. r = Some x \<longrightarrow> result_ok x)"
  using assms by (auto simp: ok_with_def outcome_def result_ok_def split: prod.splits res.splits)

lemma responder_route:
  assumes "36 \<le> length p"
  shows "handle_responder v C app MSG_SESSION_DATAGRAM p s =
    (let src = take 16 (drop 3 p); dst = take 16 (drop 19 p); rb = build_session_datagram_body dst src; phase = p ! 35 AND 0x0F in
     if phase = 1 then respond_setup v C rb (drop 35 p) s
     else if phase = 3 then bindm (ignore_err (on_session (FspSession_handle_msg3 v C (drop 35 p)))) (\<lambda>_. retm HR_None) s
     else if phase = 0 then respond_data C app rb src (drop 35 p) s else (Ok HR_None, s))"
  using assms by (simp add: handle_responder_def step_simps Let_def hd_drop_conv_nth slice_def)

lemma initiator_route:
  assumes "36 \<le> length p" "fd_target_addr h = Some target" "my_addr C h = Ok me" "fd_initiator h = Some f"
  shows "handle_initiator C now MSG_SESSION_DATAGRAM p (h, resp) =
    (case fi_state f of
       IIdle \<Rightarrow> (Ok HR_None, (h, resp))
     | IAwaitingAck \<Rightarrow> if p ! 35 AND 0x0F = 2 then initiator_ack C now me target f (drop 35 p) (h, resp) else (Ok HR_None, (h, resp))
     | IAwaitingEstablished \<Rightarrow> bindm (set_timer now FSP_RETRY_SECS) (\<lambda>_. retm HR_None) (h, resp)
     | IEstablished \<Rightarrow> if p ! 35 AND 0x0F = 0 then initiator_data C f (drop 35 p) (h, resp) else (Ok HR_None, (h, resp)))"
  using assms by (cases "fi_state f") (simp_all add: handle_initiator_def geth_def some_or_def step_simps Let_def hd_drop_conv_nth)

lemma bindm_on_session:
  "m (fd_session h) = (Ok x, s) \<Longrightarrow> bindm (ignore_err (on_session m)) f (h, resp) = f x (h\<lparr>fd_session := s\<rparr>, resp)"
  "m (fd_session h) = (Err e, s) \<Longrightarrow> bindm (ignore_err (on_session m)) f (h, resp) = (Err (), h\<lparr>fd_session := s\<rparr>, resp)"
  "m (fd_session h) = (Panic, s) \<Longrightarrow> bindm (ignore_err (on_session m)) f (h, resp) = (Panic, h\<lparr>fd_session := s\<rparr>, resp)"
  by (auto simp: bindm_def ignore_err_def map_errm_def on_session_def)

lemma bindm_on_initiator:
  "m i = (Ok x, i') \<Longrightarrow> bindm (ignore_err (on_initiator m i)) f (h, resp) = f x (h\<lparr>fd_initiator := Some i'\<rparr>, resp)"
  "m i = (Panic, i') \<Longrightarrow> bindm (ignore_err (on_initiator m i)) f (h, resp) = (Panic, h\<lparr>fd_initiator := Some i'\<rparr>, resp)"
  by (auto simp: bindm_def ignore_err_def map_errm_def on_initiator_def)

lemma responder_other_phase:
  assumes "payload ! 35 AND 0x0F = 0x02" "36 \<le> length payload"
  shows "outcome (handle_responder v C app MSG_SESSION_DATAGRAM payload (h, resp)) = (Some HR_None, resp, h)"
  using assms by (simp add: responder_route outcome_def)

lemma bad_setup_panics:
  assumes "fsp_session_inv v (fd_session h)" "bad_setup mt p" "length resp = 320"
  shows "fst (outcome (handle_responder v C app mt p (h, resp))) = None"
proof -
  let ?m = "setup_retry v C (fd_nsec h) (fd_ephemeral h) (fd_epoch h) (drop 35 p) 285"
  obtain q s where 1: "?m (fd_session h) = (q, s)" by fastforce
  have "?m (fd_session h) = (Panic, s)" using 1 setup_retry_inv [OF assms(1) 1] assms(2) by (simp add: bad_setup_def)
  then show ?thesis using assms(2,3)
    by (simp add: bad_setup_def responder_route respond_setup_def step_simps outcome_def bindm_on_session)
qed

lemma bad_ack_panics:
  assumes "crypto_ok C" "\<forall>f. fd_initiator h = Some f \<longrightarrow> initiator_inv v f" "bad_ack C h mt p"
  shows "fst (outcome (handle_initiator C now mt p (h, resp))) = None"
proof -
  obtain f t me where f: "fd_initiator h = Some f" "fi_state f = IAwaitingAck" "fd_target_addr h = Some t" "my_addr C h = Ok me"
      "initiator_inv v f"
    using assms my_addr_Ok(1) [OF assms(1), of h] by (cases "my_addr C h") (auto simp: bad_ack_def)
  obtain q f1 where 1: "FspInitiatorSession_handle_ack C (drop 35 p) f = (q, f1)" by fastforce
  then have "FspInitiatorSession_handle_ack C (drop 35 p) f = (Panic, f1)" using handle_ack_inv [OF f(5) 1] assms(3) f(2) by (simp add: bad_ack_def)
  then show ?thesis using assms(3) f(1-4)
    by (simp add: bad_ack_def initiator_route initiator_ack_def outcome_def bindm_on_initiator)
qed

context fsp_application
begin

lemma message_ok:
  assumes "crypto_ok C" "dual_inv v h" "length resp = 320" "on_message (FspDualHandler v C app) now mt p resp h = (r, resp', h')"
  shows "dual_inv v h' \<and> length resp' = 320 \<and> (\<forall>x. r = Some x \<longrightarrow> result_ok x) \<and> (r = None \<longleftrightarrow> bad_setup mt p \<or> bad_ack C h mt p)"
proof -
  have io: "dual_io v (h, resp)" using assms by (simp add: dual_io_def)
  obtain r1 resp1 h1 where 1: "outcome (handle_responder v C app mt p (h, resp)) = (r1, resp1, h1)" by (metis prod_cases3)
  obtain r2 resp2 h2 where 2: "outcome (handle_initiator C now mt p (h1, resp1)) = (r2, resp2, h2)" by (metis prod_cases3)
  have a: "dual_io v (h1, resp1)" "r1 = None \<Longrightarrow> bad_setup mt p" "\<And>x. r1 = Some x \<Longrightarrow> result_ok x"
    using outcome_ok [OF ok_handle_responder [OF assms(1) io] 1] by auto
  have b: "dual_io v (h2, resp2)" "r2 = None \<Longrightarrow> bad_ack C h1 mt p" "\<And>x. r2 = Some x \<Longrightarrow> result_ok x"
    using outcome_ok [OF ok_handle_initiator [OF assms(1) a(1)] 2] by auto
  have bs: "bad_setup mt p \<Longrightarrow> r1 = None" using bad_setup_panics [of v h mt p resp C app] assms(2,3) 1 by (simp add: dual_inv_def)
  have other: "r1 = Some HR_None \<and> h1 = h \<and> resp1 = resp" if "bad_ack C x mt p" for x
    using that responder_other_phase [of p v C app h resp] 1 by (simp add: bad_ack_def)
  have ba: "bad_ack C h mt p \<Longrightarrow> r2 = None"
    using bad_ack_panics [OF assms(1), of h v mt p now resp] other [of h] assms(2) 2 by (simp add: dual_inv_def)
  have m: "(r, resp', h') = (if r1 \<noteq> Some HR_None then (r1, resp1, h1) else (r2, resp2, h2))"
    using assms(4) 1 2 by (auto simp: FspDualHandler_def dual_message_def split: if_splits)
  show ?thesis using m a b bs ba other by (auto simp: dual_io_def split: if_splits)
qed

lemma tick_ok:
  assumes "crypto_ok C" "dual_inv v h" "length resp = 320" "on_tick (FspDualHandler v C app) now resp h = (r, resp', h')"
  shows "dual_inv v h' \<and> length resp' = 320 \<and> (\<exists>x. r = Some x \<and> result_ok x)"
proof -
  have io: "dual_io v (h, resp)" using assms by (simp add: dual_io_def)
  show ?thesis using outcome_ok [OF ok_dual_tick [OF assms(1) io]] assms(4) by (cases r) (auto simp: FspDualHandler_def dual_io_def)
qed

lemma event_ok: "dual_inv v h \<Longrightarrow> dual_inv v (on_event (FspDualHandler v C app) now ev h)"
  by (cases ev) (auto simp: FspDualHandler_def on_event_default_def dual_inv_def Let_def reset_inv)

lemma new_initiator_inv:
  assumes "crypto_ok C" "FspInitiatorSession_new v C s e p = Ok f"
  shows "initiator_inv v f"
proof -
  have "length (xki_e_pub i) = 33" if "NoiseXkInitiator_new C e s p = Ok (i, x)" for i x
    using that length_pubkey [OF assms(1)] by (auto simp: NoiseXkInitiator_new_def Let_def bind_res_Ok_iff)
  moreover have "length (xxi_e_pub i) = 33" if "NoiseXxInitiator_new C e s = Ok (i, x)" for i x
    using that length_pubkey [OF assms(1)] by (auto simp: NoiseXxInitiator_new_def Let_def bind_res_Ok_iff)
  ultimately show ?thesis using assms(2)
    by (cases v) (auto simp: FspInitiatorSession_new_def initiator_inv_def bind_res_Ok_iff)
qed

lemma reach_inv: "dual_reach v C app h \<Longrightarrow> crypto_ok C \<Longrightarrow> dual_inv v h"
proof (induction rule: dual_reach.induct)
  case (responder cap nsec eph epoch a)
  show ?case by (simp add: new_responder_def dual_inv_def fsp_session_inv_def FspSession_new_def)
next
  case (dual target_addr cap nsec eph ieph target_pub epoch a)
  then show ?case by (auto simp: new_dual_def dual_inv_def fsp_session_inv_def FspSession_new_def dest: new_initiator_inv split: res.splits)
next
  case (message h resp now mt p r resp' h')
  then show ?case using message_ok by blast
next
  case (tick h resp now r resp' h')
  then show ?case using tick_ok by blast
next
  case (event h now ev)
  then show ?case using event_ok by blast
qed (simp_all add: set_link_pubkey_def dual_inv_def)

end


section \<open>Properties\<close>





end
