(* ===== verification/Service.thy ===== *)
theory Service
  imports FspSafety
begin

text \<open>
  The request/response layer over a session (\<^verbatim>\<open>microfips-service/src/lib.rs\<close>) and the demo service
  (\<^verbatim>\<open>microfips-http-demo/src/lib.rs\<close>): the envelope, the router, and the adapter that makes a service the
  application of a session handler.  Text is the list of its UTF-8 bytes.  The contract of a service is the
  locale \<open>service_handler\<close> (no panic, the buffer keeps its length); the adapter of such a service is an
  \<open>fsp_application\<close>, and the demo service is one.
\<close>

unbundle bit_operations_syntax

section \<open>The service layer\<close>

definition ascii :: "string \<Rightarrow> bytes" where
  "ascii s = map of_char s"

definition SERVICE_VERSION :: byte where [simp]: "SERVICE_VERSION = 1"
definition SERVICE_KIND_REQUEST :: byte where [simp]: "SERVICE_KIND_REQUEST = 1"
definition SERVICE_KIND_RESPONSE :: byte where [simp]: "SERVICE_KIND_RESPONSE = 2"
definition SERVICE_REQUEST_HEADER_LEN :: nat where [simp]: "SERVICE_REQUEST_HEADER_LEN = 8"
definition SERVICE_RESPONSE_HEADER_LEN :: nat where [simp]: "SERVICE_RESPONSE_HEADER_LEN = 8"

datatype service_method = Get | Post | Put | Delete

definition ServiceMethod_from_u8 :: "byte \<Rightarrow> service_method option" where
  "ServiceMethod_from_u8 value =
     (if value = 1 then Some Get else if value = 2 then Some Post else if value = 3 then Some Put
      else if value = 4 then Some Delete else None)"

definition ServiceMethod_as_u8 :: "service_method \<Rightarrow> byte" where
  "ServiceMethod_as_u8 m = (case m of Get \<Rightarrow> 1 | Post \<Rightarrow> 2 | Put \<Rightarrow> 3 | Delete \<Rightarrow> 4)"

datatype content_type = Binary | Json | Text

definition ContentType_from_u8 :: "byte \<Rightarrow> content_type option" where
  "ContentType_from_u8 value =
     (if value = 0 then Some Binary else if value = 1 then Some Json else if value = 2 then Some Text else None)"

definition ContentType_as_u8 :: "content_type \<Rightarrow> byte" where
  "ContentType_as_u8 c = (case c of Binary \<Rightarrow> 0 | Json \<Rightarrow> 1 | Text \<Rightarrow> 2)"

definition STATUS_OK :: u16 where [simp]: "STATUS_OK = 200"
definition STATUS_CREATED :: u16 where [simp]: "STATUS_CREATED = 201"
definition STATUS_BAD_REQUEST :: u16 where [simp]: "STATUS_BAD_REQUEST = 400"
definition STATUS_NOT_FOUND :: u16 where [simp]: "STATUS_NOT_FOUND = 404"
definition STATUS_METHOD_NOT_ALLOWED :: u16 where [simp]: "STATUS_METHOD_NOT_ALLOWED = 405"
definition STATUS_PAYLOAD_TOO_LARGE :: u16 where [simp]: "STATUS_PAYLOAD_TOO_LARGE = 413"
definition STATUS_INTERNAL_ERROR :: u16 where [simp]: "STATUS_INTERNAL_ERROR = 500"

record service_request =
  rq_method :: service_method
  rq_route :: bytes
  rq_payload :: bytes

record service_response =
  rs_status :: u16
  rs_content_type :: content_type
  rs_body :: bytes

record service_reply =
  rp_status :: u16
  rp_content_type :: content_type
  rp_body_len :: nat

datatype service_error = ServiceBufferTooSmall | InvalidEnvelope | InvalidVersion | InvalidKind | InvalidMethod | InvalidUtf8
  | NotFound | MethodNotAllowed

definition ServiceError_status :: "service_error \<Rightarrow> u16" where
  "ServiceError_status e = (case e of
      ServiceBufferTooSmall \<Rightarrow> STATUS_PAYLOAD_TOO_LARGE
    | InvalidEnvelope \<Rightarrow> STATUS_BAD_REQUEST | InvalidVersion \<Rightarrow> STATUS_BAD_REQUEST | InvalidKind \<Rightarrow> STATUS_BAD_REQUEST
    | InvalidMethod \<Rightarrow> STATUS_BAD_REQUEST | InvalidUtf8 \<Rightarrow> STATUS_BAD_REQUEST
    | NotFound \<Rightarrow> STATUS_NOT_FOUND | MethodNotAllowed \<Rightarrow> STATUS_METHOD_NOT_ALLOWED)"

definition ServiceError_message :: "service_error \<Rightarrow> bytes" where
  "ServiceError_message e = ascii (case e of
      ServiceBufferTooSmall \<Rightarrow> ''response buffer too small''
    | InvalidEnvelope \<Rightarrow> ''invalid service envelope''
    | InvalidVersion \<Rightarrow> ''unsupported service envelope version''
    | InvalidKind \<Rightarrow> ''unexpected service envelope kind''
    | InvalidMethod \<Rightarrow> ''invalid service method''
    | InvalidUtf8 \<Rightarrow> ''route is not valid utf-8''
    | NotFound \<Rightarrow> ''route not found''
    | MethodNotAllowed \<Rightarrow> ''method not allowed'')"

text \<open>The trait \<^verbatim>\<open>ServiceHandler\<close>; the handler writes its body into the buffer it is given.\<close>

type_synonym 'h route_handler = "service_request \<Rightarrow> bytes \<Rightarrow> 'h \<Rightarrow> (service_reply, service_error) res \<times> bytes \<times> 'h"

record 'h service_ops =
  handle :: "'h route_handler"
  on_peer :: "peer_context \<Rightarrow> 'h \<Rightarrow> 'h"

datatype route_match = Exact bytes | Prefix bytes

definition RouteMatch_matches :: "route_match \<Rightarrow> bytes \<Rightarrow> bool" where
  "RouteMatch_matches m route =
     (case m of Exact expected \<Rightarrow> route = expected | Prefix prefix \<Rightarrow> take (length prefix) route = prefix)"

record service_route =
  rt_method :: service_method
  rt_matcher :: route_match
  rt_handler :: "service_request \<Rightarrow> bytes \<Rightarrow> (service_reply, service_error) res \<times> bytes"

fun route_loop :: "bool \<Rightarrow> service_route list \<Rightarrow> service_request \<Rightarrow> bytes \<Rightarrow> (service_reply, service_error) res \<times> bytes" where
  "route_loop method_seen [] request response = (Err (if method_seen then MethodNotAllowed else NotFound), response)"
| "route_loop method_seen (route # routes) request response =
     (if RouteMatch_matches (rt_matcher route) (rq_route request) then
        if rt_method route = rq_method request then rt_handler route request response
        else route_loop True routes request response
      else route_loop method_seen routes request response)"

definition Router_handle :: "service_route list \<Rightarrow> unit route_handler" where
  "Router_handle routes request response h = (case route_loop False routes request response of (r, out) \<Rightarrow> (r, out, h))"

section \<open>The envelope\<close>

definition encode_request :: "service_method \<Rightarrow> bytes \<Rightarrow> bytes \<Rightarrow> nat \<Rightarrow> (bytes, service_error) res" where
  "encode_request m route payload cap =
     (if cap < SERVICE_REQUEST_HEADER_LEN + length route + length payload \<or> 65535 < length route \<or> 65535 < length payload
      then Err ServiceBufferTooSmall
      else Ok ([SERVICE_VERSION, SERVICE_KIND_REQUEST, ServiceMethod_as_u8 m, 0] @ le16 (of_nat (length route) :: u16) @
             le16 (of_nat (length payload) :: u16) @ route @ payload))"

text \<open>
  \<^verbatim>\<open>str::from_utf8\<close>: the well-formed byte sequences of UTF-8, with neither overlong forms, surrogates nor
  code points above U+10FFFF.
\<close>

definition utf8_cont :: "byte \<Rightarrow> bool" where
  "utf8_cont b \<longleftrightarrow> 0x80 \<le> b \<and> b \<le> 0xBF"

fun is_utf8 :: "bytes \<Rightarrow> bool" where
  "is_utf8 [] \<longleftrightarrow> True"
| "is_utf8 (a # r) \<longleftrightarrow>
     (if a \<le> 0x7F then is_utf8 r
      else if 0xC2 \<le> a \<and> a \<le> 0xDF then (case r of b # r' \<Rightarrow> utf8_cont b \<and> is_utf8 r' | _ \<Rightarrow> False)
      else if 0xE0 \<le> a \<and> a \<le> 0xEF then
        (case r of b # c # r' \<Rightarrow> utf8_cont b \<and> utf8_cont c \<and> (a = 0xE0 \<longrightarrow> 0xA0 \<le> b) \<and> (a = 0xED \<longrightarrow> b \<le> 0x9F) \<and> is_utf8 r' | _ \<Rightarrow> False)
      else if 0xF0 \<le> a \<and> a \<le> 0xF4 then
        (case r of b # c # d # r' \<Rightarrow> utf8_cont b \<and> utf8_cont c \<and> utf8_cont d \<and> (a = 0xF0 \<longrightarrow> 0x90 \<le> b) \<and> (a = 0xF4 \<longrightarrow> b \<le> 0x8F) \<and> is_utf8 r' | _ \<Rightarrow> False)
      else False)"

definition decode_request :: "bytes \<Rightarrow> (service_request, service_error) res" where
  "decode_request data =
     reject_if (length data < SERVICE_REQUEST_HEADER_LEN) InvalidEnvelope
    (bind_res (idx data 0) (\<lambda>d0. reject_if (d0 \<noteq> SERVICE_VERSION) InvalidVersion
    (bind_res (idx data 1) (\<lambda>d1. reject_if (d1 \<noteq> SERVICE_KIND_REQUEST) InvalidKind
    (bind_res (idx data 2) (\<lambda>d2. bind_res (ok_or (ServiceMethod_from_u8 d2) InvalidMethod) (\<lambda>m.
     bind_res (read_u16 data 4) (\<lambda>route_len. bind_res (read_u16 data 6) (\<lambda>payload_len.
     let total = SERVICE_REQUEST_HEADER_LEN + route_len + payload_len in
     reject_if (length data < total) InvalidEnvelope
    (bind_res (slice data SERVICE_REQUEST_HEADER_LEN (SERVICE_REQUEST_HEADER_LEN + route_len)) (\<lambda>route.
     reject_if (\<not> is_utf8 route) InvalidUtf8
    (bind_res (slice data (SERVICE_REQUEST_HEADER_LEN + route_len) total) (\<lambda>payload.
       Ok \<lparr>rq_method = m, rq_route = route, rq_payload = payload\<rparr>)))))))))))))"

definition response_header :: "u16 \<Rightarrow> content_type \<Rightarrow> nat \<Rightarrow> bytes" where
  "response_header status ct body_len =
     [SERVICE_VERSION, SERVICE_KIND_RESPONSE] @ le16 status @ [ContentType_as_u8 ct, 0] @ le16 (of_nat body_len :: u16)"

definition encode_response :: "u16 \<Rightarrow> content_type \<Rightarrow> bytes \<Rightarrow> bytes \<Rightarrow> (nat, service_error) res \<times> bytes" where
  "encode_response status ct body out =
     (let total = SERVICE_RESPONSE_HEADER_LEN + length body in
      if length out < total \<or> 65535 < length body then (Err ServiceBufferTooSmall, out)
      else (Ok total, splice out 0 (response_header status ct (length body) @ body)))"

definition decode_response :: "bytes \<Rightarrow> (service_response, service_error) res" where
  "decode_response data =
     reject_if (length data < SERVICE_RESPONSE_HEADER_LEN) InvalidEnvelope
    (bind_res (idx data 0) (\<lambda>d0. reject_if (d0 \<noteq> SERVICE_VERSION) InvalidVersion
    (bind_res (idx data 1) (\<lambda>d1. reject_if (d1 \<noteq> SERVICE_KIND_RESPONSE) InvalidKind
    (bind_res (slice data 2 4) (\<lambda>status.
     bind_res (idx data 4) (\<lambda>d4. bind_res (ok_or (ContentType_from_u8 d4) InvalidEnvelope) (\<lambda>ct.
     bind_res (read_u16 data 6) (\<lambda>body_len.
     let total = SERVICE_RESPONSE_HEADER_LEN + body_len in
     reject_if (length data < total) InvalidEnvelope
    (bind_res (slice data SERVICE_RESPONSE_HEADER_LEN total) (\<lambda>body.
       Ok \<lparr>rs_status = from_le status, rs_content_type = ct, rs_body = body\<rparr>)))))))))))"

definition dispatch_request :: "'h service_ops \<Rightarrow> bytes \<Rightarrow> bytes \<Rightarrow> 'h \<Rightarrow> (nat, service_error) res \<times> bytes \<times> 'h" where
  "dispatch_request S request_bytes response_bytes h =
     (case decode_request request_bytes of
        Err e \<Rightarrow> (Err e, response_bytes, h)
      | Panic \<Rightarrow> (Panic, response_bytes, h)
      | Ok request \<Rightarrow>
          if length response_bytes < SERVICE_RESPONSE_HEADER_LEN then (Err ServiceBufferTooSmall, response_bytes, h)
          else (case handle S request (drop SERVICE_RESPONSE_HEADER_LEN response_bytes) h of (r, body_buf, h1) \<Rightarrow>
            let response1 = take SERVICE_RESPONSE_HEADER_LEN response_bytes @ body_buf in
            case r of
              Ok reply \<Rightarrow>
                if length body_buf < rp_body_len reply \<or> 65535 < rp_body_len reply then (Err ServiceBufferTooSmall, response1, h1)
                else (Ok (SERVICE_RESPONSE_HEADER_LEN + rp_body_len reply),
                      splice response1 0 (response_header (rp_status reply) (rp_content_type reply) (rp_body_len reply)), h1)
            | Err e \<Rightarrow> (case encode_response (ServiceError_status e) Text (ServiceError_message e) response1 of (q, out) \<Rightarrow> (q, out, h1))
            | Panic \<Rightarrow> (Panic, response1, h1)))"

definition FspServiceAdapter :: "'h service_ops \<Rightarrow> 'h fsp_app" where
  "FspServiceAdapter S msg_type payload response peer h =
     (if msg_type \<noteq> FSP_MSG_DATA then (Some App_None, response, h)
      else if payload = ascii ''PING'' \<and> 4 \<le> length response then (Some (App_Reply FSP_MSG_DATA 4), splice response 0 (ascii ''PONG''), h)
      else (case dispatch_request S payload response (on_peer S peer h) of
          (Ok len, out, h1) \<Rightarrow> (Some (App_Reply FSP_MSG_DATA len), out, h1)
        | (Panic, out, h1) \<Rightarrow> (None, out, h1)
        | (Err e, out, h1) \<Rightarrow>
            (case encode_response (ServiceError_status e) Text (ServiceError_message e) out of
               (Ok len, out1) \<Rightarrow> (Some (App_Reply FSP_MSG_DATA len), out1, h1)
             | (_, out1) \<Rightarrow> (Some App_Disconnect, out1, h1))))"

definition route_suffix :: "bytes \<Rightarrow> bytes \<Rightarrow> bytes option" where
  "route_suffix route prefix = (if take (length prefix) route = prefix then Some (drop (length prefix) route) else None)"

section \<open>The demo service\<close>

definition HEALTH_JSON :: bytes where \<open>HEALTH_JSON = ascii ''{"ok":true,"transport":"fips","adapter":"service"}''\<close>
definition INFO_JSON :: bytes where \<open>INFO_JSON = ascii ''{"name":"microfips-http-demo","protocol":"microfips-service","http":"optional"}''\<close>
definition KEYS_JSON :: bytes where \<open>KEYS_JSON = ascii ''{"keysets":[{"id":"demo-keyset","unit":"sat","keys":{"1":"02aaaaaaaaaaaaaaaaaaaaaaaaaaaaaaaaaaaaaaaaaaaaaaaaaaaaaaaaaaaaaaaa"}}]}''\<close>
definition KEYSETS_JSON :: bytes where \<open>KEYSETS_JSON = ascii ''{"keysets":[{"id":"demo-keyset","unit":"sat","active":true}]}''\<close>
definition MINT_QUOTE_JSON :: bytes where \<open>MINT_QUOTE_JSON = ascii ''{"quote":"mint-quote-demo","request":"lnbc1demo","paid":false,"expiry":1735689600}''\<close>
definition MELT_QUOTE_JSON :: bytes where \<open>MELT_QUOTE_JSON = ascii ''{"quote":"melt-quote-demo","amount":21,"fee_reserve":1,"paid":false,"expiry":1735689600}''\<close>
definition MINT_RESULT_JSON :: bytes where \<open>MINT_RESULT_JSON = ascii ''{"signatures":[],"quote":"mint-quote-demo","paid":true}''\<close>
definition MELT_RESULT_JSON :: bytes where \<open>MELT_RESULT_JSON = ascii ''{"paid":true,"preimage":"demo-preimage","change":[]}''\<close>
definition SWAP_RESULT_JSON :: bytes where \<open>SWAP_RESULT_JSON = ascii ''{"signatures":[]}''\<close>

type_synonym demo_handler = "service_request \<Rightarrow> bytes \<Rightarrow> (service_reply, service_error) res \<times> bytes"

definition copy_response :: "bytes \<Rightarrow> bytes \<Rightarrow> u16 \<Rightarrow> content_type \<Rightarrow> (service_reply, service_error) res \<times> bytes" where
  "copy_response response body status ct =
     (if length response < length body then (Err ServiceBufferTooSmall, response)
      else (Ok \<lparr>rp_status = status, rp_content_type = ct, rp_body_len = length body\<rparr>, splice response 0 body))"

definition health :: demo_handler where
  "health request response = copy_response response HEALTH_JSON STATUS_OK Json"

definition info :: demo_handler where
  "info request response = copy_response response INFO_JSON STATUS_OK Json"

definition echo :: demo_handler where
  "echo request response = copy_response response (rq_payload request) STATUS_OK Binary"

definition rpc :: demo_handler where
  \<open>rpc request response =
     (let m = (case route_suffix (rq_route request) (ascii ''/rpc/'') of Some x \<Rightarrow> x | None \<Rightarrow> []) in
      if m = ascii ''ping'' then copy_response response (ascii ''{"method":"ping","result":"pong"}'') STATUS_OK Json
      else if m = ascii ''health'' then copy_response response HEALTH_JSON STATUS_OK Json
      else if m = ascii ''info'' then copy_response response INFO_JSON STATUS_OK Json
      else (Err NotFound, response))\<close>

definition cashu_info :: demo_handler where
  \<open>cashu_info request response = copy_response response
     (ascii ''{"name":"microfips demo mint","pubkey":"demo","version":"0.1","nuts":{"4":{"methods":["bolt11"]},"6":{"supported":true}}}'') STATUS_OK Json\<close>

definition cashu_keys :: demo_handler where
  "cashu_keys request response = copy_response response KEYS_JSON STATUS_OK Json"

definition cashu_keysets :: demo_handler where
  "cashu_keysets request response = copy_response response KEYSETS_JSON STATUS_OK Json"

definition mint_quote_create :: demo_handler where
  "mint_quote_create request response = copy_response response MINT_QUOTE_JSON STATUS_OK Json"

text \<open>The two quote look-ups write a prefix, the identifier from the route and a suffix.\<close>

definition quote_get :: "bytes \<Rightarrow> bytes \<Rightarrow> demo_handler" where
  \<open>quote_get prefix suf request response =
     (let quote_id = (case route_suffix (rq_route request) prefix of Some x \<Rightarrow> x | None \<Rightarrow> ascii ''unknown''); pre = ascii ''{"quote":"'';
          total = length pre + length quote_id + length suf in
      if length response < total then (Err ServiceBufferTooSmall, response)
      else let r1 = splice response 0 pre; r2 = splice r1 (length pre) quote_id in
        (Ok \<lparr>rp_status = STATUS_OK, rp_content_type = Json, rp_body_len = total\<rparr>, splice r2 (length pre + length quote_id) suf))\<close>

definition mint_quote_get :: demo_handler where
  \<open>mint_quote_get = quote_get (ascii ''/v1/mint/quote/bolt11/'') (ascii ''","paid":false,"request":"lnbc1demo","expiry":1735689600}'')\<close>

definition mint_tokens :: demo_handler where
  "mint_tokens request response = copy_response response MINT_RESULT_JSON STATUS_OK Json"

definition melt_quote_create :: demo_handler where
  "melt_quote_create request response = copy_response response MELT_QUOTE_JSON STATUS_OK Json"

definition melt_quote_get :: demo_handler where
  \<open>melt_quote_get = quote_get (ascii ''/v1/melt/quote/bolt11/'') (ascii ''","paid":false,"fee_reserve":1,"amount":21}'')\<close>

definition melt_tokens :: demo_handler where
  "melt_tokens request response = copy_response response MELT_RESULT_JSON STATUS_OK Json"

definition swap_tokens :: demo_handler where
  "swap_tokens request response = copy_response response SWAP_RESULT_JSON STATUS_OK Json"

definition mk_route :: "service_method \<Rightarrow> route_match \<Rightarrow> demo_handler \<Rightarrow> service_route" where
  "mk_route m rm h = \<lparr>rt_method = m, rt_matcher = rm, rt_handler = h\<rparr>"

definition demo_routes :: "service_route list" where
  "demo_routes =
    [mk_route Get (Exact (ascii ''/health'')) health,
     mk_route Get (Exact (ascii ''/info'')) info,
     mk_route Post (Exact (ascii ''/echo'')) echo,
     mk_route Post (Prefix (ascii ''/rpc/'')) rpc,
     mk_route Get (Exact (ascii ''/v1/info'')) cashu_info,
     mk_route Get (Exact (ascii ''/v1/keys'')) cashu_keys,
     mk_route Get (Exact (ascii ''/v1/keysets'')) cashu_keysets,
     mk_route Post (Exact (ascii ''/v1/mint/quote/bolt11'')) mint_quote_create,
     mk_route Get (Prefix (ascii ''/v1/mint/quote/bolt11/'')) mint_quote_get,
     mk_route Post (Exact (ascii ''/v1/mint/bolt11'')) mint_tokens,
     mk_route Post (Exact (ascii ''/v1/melt/quote/bolt11'')) melt_quote_create,
     mk_route Get (Prefix (ascii ''/v1/melt/quote/bolt11/'')) melt_quote_get,
     mk_route Post (Exact (ascii ''/v1/melt/bolt11'')) melt_tokens,
     mk_route Post (Exact (ascii ''/v1/swap'')) swap_tokens]"

definition DemoService :: "unit service_ops" where
  "DemoService = \<lparr>handle = Router_handle demo_routes, on_peer = (\<lambda>peer h. h)\<rparr>"

section \<open>Specification\<close>

locale service_handler =
  fixes S :: "'h service_ops"
  assumes handle_writes: "handle S rq buf h = (r, out, h') \<Longrightarrow> length out = length buf \<and> r \<noteq> Panic"

definition demo_ok :: "demo_handler \<Rightarrow> bool" where
  "demo_ok f \<longleftrightarrow> (\<forall>rq buf. length (snd (f rq buf)) = length buf \<and> fst (f rq buf) \<noteq> Panic)"

definition error_response :: "service_error \<Rightarrow> service_response" where
  "error_response e = \<lparr>rs_status = ServiceError_status e, rs_content_type = Text, rs_body = ServiceError_message e\<rparr>"

text \<open>What a service owes to a payload: the reference the adapter is compared with.\<close>

definition service_answer :: "'h service_ops \<Rightarrow> bytes \<Rightarrow> bytes \<Rightarrow> 'h \<Rightarrow> service_response" where
  "service_answer S payload body_buf h =
     (case decode_request payload of
        Ok rq \<Rightarrow> (case handle S rq body_buf h of
            (Ok reply, out, _) \<Rightarrow>
              if length out < rp_body_len reply \<or> 65535 < rp_body_len reply then error_response ServiceBufferTooSmall
              else \<lparr>rs_status = rp_status reply, rs_content_type = rp_content_type reply, rs_body = take (rp_body_len reply) out\<rparr>
          | (Err e, _, _) \<Rightarrow> error_response e
          | (Panic, _, _) \<Rightarrow> error_response NotFound)
      | Err e \<Rightarrow> error_response e
      | Panic \<Rightarrow> error_response NotFound)"

section \<open>Lemmas\<close>

lemma copy_response_ok: "length (snd (copy_response resp body st ct)) = length resp" "fst (copy_response resp body st ct) \<noteq> Panic"
  by (auto simp: copy_response_def)

lemma demo_routes_ok: "\<forall>r \<in> set demo_routes. demo_ok (rt_handler r)"
  by (auto simp: demo_routes_def mk_route_def demo_ok_def health_def info_def echo_def rpc_def cashu_info_def cashu_keys_def cashu_keysets_def
      mint_quote_create_def mint_quote_get_def mint_tokens_def melt_quote_create_def melt_quote_get_def melt_tokens_def swap_tokens_def
      quote_get_def copy_response_ok Let_def)

lemma route_loop_ok:
  "\<forall>r \<in> set routes. demo_ok (rt_handler r) \<Longrightarrow> route_loop seen routes rq buf = (r, out) \<Longrightarrow> length out = length buf \<and> r \<noteq> Panic"
proof (induction routes arbitrary: seen)
  case (Cons a routes)
  then show ?case by (auto simp: demo_ok_def split: if_splits) (metis fst_conv snd_conv)+
qed auto

interpretation demo: service_handler DemoService
  by unfold_locales (use route_loop_ok [OF demo_routes_ok] in \<open>auto simp: DemoService_def Router_handle_def split: prod.splits\<close>)

lemma decode_request_not_Panic: "decode_request data \<noteq> Panic"
  by (auto simp: decode_request_def reject_if_def bind_res_Panic_iff bind_res_Ok_iff read_u16_def Let_def slice_def ok_or_def split: if_splits option.splits)

lemma length_response_header [simp]: "length (response_header st ct n) = 8"
  by (simp add: response_header_def)

lemma encode_response_ok:
  "encode_response st ct body out = (q, out') \<Longrightarrow> length out' = length out \<and> q \<noteq> Panic \<and> (\<forall>n. q = Ok n \<longrightarrow> n \<le> length out)"
  by (auto simp: encode_response_def Let_def split: if_splits)

context service_handler
begin

lemma dispatch_ok:
  assumes "dispatch_request S rq out h = (q, out', h')"
  shows "length out' = length out \<and> q \<noteq> Panic \<and> (\<forall>n. q = Ok n \<longrightarrow> n \<le> length out)"
  using assms decode_request_not_Panic [of rq]
  by (auto simp: dispatch_request_def Let_def split: res.splits if_splits prod.splits dest!: handle_writes encode_response_ok)

lemma adapter_application: "fsp_application (FspServiceAdapter S)"
  by unfold_locales
    (auto simp: FspServiceAdapter_def ascii_def split: if_splits prod.splits res.splits dest!: dispatch_ok encode_response_ok)

end

interpretation demo_app: fsp_application "FspServiceAdapter DemoService"
  by (rule demo.adapter_application)

lemma method_byte: "ServiceMethod_from_u8 (ServiceMethod_as_u8 m) = Some m"
  by (cases m) (simp_all add: ServiceMethod_from_u8_def ServiceMethod_as_u8_def)

lemma content_byte: "ContentType_from_u8 (ContentType_as_u8 c) = Some c"
  by (cases c) (simp_all add: ContentType_from_u8_def ContentType_as_u8_def)

lemma decode_encode_request:
  assumes "encode_request m route payload cap = Ok w" "is_utf8 route"
  shows "decode_request w = Ok \<lparr>rq_method = m, rq_route = route, rq_payload = payload\<rparr>"
proof -
  let ?a = "le16 (of_nat (length route) :: u16)" and ?b = "le16 (of_nat (length payload) :: u16)"
  have w: "w = [1, 1, ServiceMethod_as_u8 m, 0] @ ?a @ ?b @ route @ payload" "length route \<le> 65535" "length payload \<le> 65535"
    using assms(1) by (auto simp: encode_request_def split: if_splits)
  have 1: "read_u16 w 4 = (Ok (length route) :: (nat, service_error) res)"
    unfolding w using w(2) by (intro read_u16_at [of _ "[1, 1, ServiceMethod_as_u8 m, 0]"]) auto
  have 2: "read_u16 w 6 = (Ok (length payload) :: (nat, service_error) res)"
    unfolding w using w(3) by (intro read_u16_at [of _ "[1, 1, ServiceMethod_as_u8 m, 0] @ ?a"]) auto
  have 3: "drop 8 w = route @ payload" "w ! 0 = 1" "w ! 1 = 1" "w ! 2 = ServiceMethod_as_u8 m" "length w = 8 + length route + length payload"
    by (simp_all add: w(1))
  then have "drop (8 + length route) w = payload" by (simp add: add.commute flip: drop_drop)
  then show ?thesis
    using assms(2) 1 2 3 by (simp add: decode_request_def reject_if_def method_byte slice_def)
qed

lemma decode_response_header:
  assumes "n \<le> 65535" "length body = n"
  shows "decode_response (response_header st ct n @ body) = Ok \<lparr>rs_status = st, rs_content_type = ct, rs_body = body\<rparr>"
proof -
  let ?w = "response_header st ct n @ body"
  have "read_u16 ?w 6 = (Ok n :: (nat, service_error) res)"
    using assms(1) by (intro read_u16_at [of _ "[1, 2] @ le16 st @ [ContentType_as_u8 ct, 0]" _ body]) (auto simp: response_header_def)
  moreover have "?w ! 0 = 1" "?w ! 1 = 2" "?w ! 4 = ContentType_as_u8 ct" "take 2 (drop 2 ?w) = le16 st"
    by (simp_all add: response_header_def nth_append)
  ultimately show ?thesis
    using assms(2) by (simp add: decode_response_def reject_if_def content_byte slice_def)
qed

lemma decode_encode_response:
  assumes "encode_response st ct body out = (Ok n, out')"
  shows "decode_response (take n out') = Ok \<lparr>rs_status = st, rs_content_type = ct, rs_body = body\<rparr>"
  using assms decode_response_header [of "length body" body st ct]
  by (auto simp: encode_response_def Let_def splice_def split: if_splits)

lemma encode_error:
  assumes "44 \<le> length out"
  obtains n out' where "encode_response (ServiceError_status e) Text (ServiceError_message e) out = (Ok n, out')"
    "decode_response (take n out') = Ok (error_response e)" "n = 8 + length (rs_body (error_response e))"
proof -
  have "length (ServiceError_message e) \<le> 36" by (cases e) (simp_all add: ServiceError_message_def ascii_def)
  then obtain n out' where "encode_response (ServiceError_status e) Text (ServiceError_message e) out = (Ok n, out')"
      "n = 8 + length (ServiceError_message e)"
    using assms by (auto simp: encode_response_def Let_def)
  then show ?thesis using that decode_encode_response by (simp add: error_response_def)
qed

context service_handler
begin

lemma dispatch_answer:
  assumes "dispatch_request S payload resp h = (q, out, h')" "44 \<le> length resp"
  shows "(\<exists>n. q = Ok n \<and> decode_response (take n out) = Ok (service_answer S payload (drop 8 resp) h) \<and>
      n = 8 + length (rs_body (service_answer S payload (drop 8 resp) h))) \<or>
    (\<exists>e. q = Err e \<and> service_answer S payload (drop 8 resp) h = error_response e)"
proof (cases "decode_request payload")
  case (Ok rq)
  obtain r body h1 where h: "handle S rq (drop 8 resp) h = (r, body, h1)" by (metis prod_cases3)
  have l: "length body = length resp - 8" "r \<noteq> Panic" using handle_writes [OF h] by auto
  show ?thesis
  proof (cases r)
    case (Ok reply)
    then show ?thesis
      using assms \<open>decode_request payload = Ok rq\<close> h l decode_response_header [of "rp_body_len reply" "take (rp_body_len reply) body" "rp_status reply" "rp_content_type reply"]
      by (auto simp: dispatch_request_def service_answer_def splice_def Let_def split: if_splits)
  next
    case (Err e)
    obtain n o' where "encode_response (ServiceError_status e) Text (ServiceError_message e) (take 8 resp @ body) = (Ok n, o')"
      "decode_response (take n o') = Ok (error_response e)" "n = 8 + length (rs_body (error_response e))" using encode_error [of "take 8 resp @ body" e] assms(2) l by auto
    then show ?thesis using assms Ok h Err by (auto simp: dispatch_request_def service_answer_def Let_def split: if_splits)
  qed (use l in simp)
qed (use assms decode_request_not_Panic in \<open>auto simp: dispatch_request_def service_answer_def\<close>)

lemma adapter_answer:
  assumes "44 \<le> length resp" "payload \<noteq> ascii ''PING''"
  shows "\<exists>n out h'. FspServiceAdapter S FSP_MSG_DATA payload resp peer h = (Some (App_Reply FSP_MSG_DATA n), out, h') \<and>
    decode_response (take n out) = Ok (service_answer S payload (drop 8 resp) (on_peer S peer h)) \<and>
    n = 8 + length (rs_body (service_answer S payload (drop 8 resp) (on_peer S peer h)))"
proof -
  obtain q out h' where d: "dispatch_request S payload resp (on_peer S peer h) = (q, out, h')" by (metis prod_cases3)
  have l: "length out = length resp" "q \<noteq> Panic" using dispatch_ok [OF d] by auto
  show ?thesis
  proof (cases q)
    case (Err e)
    obtain n o' where "encode_response (ServiceError_status e) Text (ServiceError_message e) out = (Ok n, o')"
      "decode_response (take n o') = Ok (error_response e)" "n = 8 + length (rs_body (error_response e))" using encode_error [of out e] assms(1) l by auto
    then show ?thesis using dispatch_answer [OF d assms(1)] d Err assms(2) by (auto simp: FspServiceAdapter_def)
  qed (use dispatch_answer [OF d assms(1)] d l assms(2) in \<open>auto simp: FspServiceAdapter_def\<close>)
qed

end

lemma route_loop_find:
  "route_loop seen routes rq buf =
     (case find (\<lambda>r. RouteMatch_matches (rt_matcher r) (rq_route rq) \<and> rt_method r = rq_method rq) routes of
        Some r \<Rightarrow> rt_handler r rq buf
      | None \<Rightarrow> (Err (if seen \<or> (\<exists>r \<in> set routes. RouteMatch_matches (rt_matcher r) (rq_route rq)) then MethodNotAllowed else NotFound), buf))"
  by (induction routes arbitrary: seen) (auto split: option.splits)

lemma ascii_health: "ascii ''/health'' = [0x2F, 0x68, 0x65, 0x61, 0x6C, 0x74, 0x68]"
  by (simp add: ascii_def)

lemma demo_health:
  "service_answer DemoService ([1, 1, 1, 0, 7, 0, 0, 0] @ ascii ''/health'') (replicate 259 0) () =
     \<lparr>rs_status = 200, rs_content_type = Json, rs_body = HEALTH_JSON\<rparr>"
proof -
  have e: "encode_request Get (ascii ''/health'') [] 15 = Ok ([1, 1, 1, 0, 7, 0, 0, 0] @ ascii ''/health'')"
    by (simp add: encode_request_def ascii_health ServiceMethod_as_u8_def to_le_def upt_rec)
  have u: "is_utf8 (ascii ''/health'')" by (simp add: ascii_health)
  have l: "length HEALTH_JSON = 50" by (simp add: HEALTH_JSON_def ascii_def)
  have h: "handle DemoService \<lparr>rq_method = Get, rq_route = ascii ''/health'', rq_payload = []\<rparr> (replicate 259 0) () =
      (Ok \<lparr>rp_status = 200, rp_content_type = Json, rp_body_len = 50\<rparr>, splice (replicate 259 0) 0 HEALTH_JSON, ())"
    by (simp add: DemoService_def Router_handle_def demo_routes_def mk_route_def RouteMatch_matches_def health_def copy_response_def l)
  show ?thesis
    unfolding service_answer_def decode_encode_request [OF e u] by (simp add: h) (simp add: l splice_def)
qed

section \<open>Properties\<close>

text \<open>C29. The service envelope round trips: a request whose route is UTF-8 decodes to the method, the route and the payload
  it was encoded from, a response to its status, content type and body; the encoders write no more than the
  buffer they are given and leave the rest of it alone.\<close>

theorem service_envelope_roundtrip:
  assumes "is_utf8 route" "encode_request m route payload cap = Ok w" "encode_response st ct body out = (Ok n, out')"
  shows "decode_request w = Ok \<lparr>rq_method = m, rq_route = route, rq_payload = payload\<rparr> \<and> length w \<le> cap \<and>
    decode_response (take n out') = Ok \<lparr>rs_status = st, rs_content_type = ct, rs_body = body\<rparr> \<and> n \<le> length out \<and> drop n out' = drop n out"
  using decode_encode_request [OF assms(2,1)] decode_encode_response [OF assms(3)] assms(2,3)
  by (auto simp: encode_request_def encode_response_def splice_def Let_def split: if_splits)

text \<open>C24. Every data message but the literal PING gets a reply, whatever its bytes and whatever a service that respects
  its buffer does: the adapter hands back a response that decodes, as long as its header and body, and it is the one the service owes, the
  body the handler wrote with its status, or the status and text of the error of the decoder, of the
  handler or of a body announced longer than the buffer.\<close>

theorem service_always_answers:
  assumes "service_handler S" "44 \<le> length resp" "payload \<noteq> ascii ''PING''"
  shows "\<exists>n out h'. FspServiceAdapter S FSP_MSG_DATA payload resp peer h = (Some (App_Reply FSP_MSG_DATA n), out, h') \<and>
    n = 8 + length (rs_body (service_answer S payload (drop 8 resp) (on_peer S peer h))) \<and> n \<le> length resp \<and> length out = length resp \<and>
    decode_response (take n out) = Ok (service_answer S payload (drop 8 resp) (on_peer S peer h))"
proof -
  have app: "fsp_application (FspServiceAdapter S)" by (rule service_handler.adapter_application [OF assms(1)])
  obtain n out h' where a: "FspServiceAdapter S FSP_MSG_DATA payload resp peer h = (Some (App_Reply FSP_MSG_DATA n), out, h')"
      "decode_response (take n out) = Ok (service_answer S payload (drop 8 resp) (on_peer S peer h))"
      "n = 8 + length (rs_body (service_answer S payload (drop 8 resp) (on_peer S peer h)))"
    using service_handler.adapter_answer [OF assms] by blast
  then show ?thesis using fsp_application.app_writes [OF app a(1)] fsp_application.app_reply [OF app a(1)] by blast
qed

theorem service_envelope_roundtrip_witness:
  "\<exists>w n out'. encode_request Get (ascii ''/health'') [1, 2] 20 = Ok w \<and> encode_response 200 Text [7] (replicate 12 0) = (Ok n, out') \<and>
     decode_request w = Ok \<lparr>rq_method = Get, rq_route = ascii ''/health'', rq_payload = [1, 2]\<rparr> \<and>
     decode_response (take n out') = Ok \<lparr>rs_status = 200, rs_content_type = Text, rs_body = [7]\<rparr>"
proof -
  obtain w where w: "encode_request Get (ascii ''/health'') [1, 2] 20 = Ok w" by (simp add: encode_request_def ascii_health)
  obtain n out' where o: "encode_response 200 Text [7] (replicate 12 0) = (Ok n, out')" by (simp add: encode_response_def Let_def)
  have "is_utf8 (ascii ''/health'')" by (simp add: ascii_health)
  from service_envelope_roundtrip [OF this w o] w o show ?thesis by blast
qed

theorem service_always_answers_witness:
  "\<exists>n out h'. FspServiceAdapter DemoService FSP_MSG_DATA ([1, 1, 1, 0, 7, 0, 0, 0] @ ascii ''/health'') (replicate 267 0)
       \<lparr>pc_link_pubkey = replicate 32 0, pc_src_addr = None\<rparr> () = (Some (App_Reply FSP_MSG_DATA n), out, h') \<and>
     decode_response (take n out) = Ok \<lparr>rs_status = 200, rs_content_type = Json, rs_body = HEALTH_JSON\<rparr>"
proof -
  have "[1, 1, 1, 0, 7, 0, 0, 0] @ ascii ''/health'' \<noteq> ascii ''PING''" by (simp add: ascii_def)
  from service_always_answers [OF demo.service_handler_axioms _ this, of "replicate 267 0"] demo_health
  show ?thesis by (fastforce simp: DemoService_def)
qed

text \<open>The router calls the handler of the first route that matches both path and method; without one it answers
  method-not-allowed when some route matches the path and not-found otherwise.\<close>

theorem router_first_match:
  "Router_handle routes rq buf h =
     (case find (\<lambda>r. RouteMatch_matches (rt_matcher r) (rq_route rq) \<and> rt_method r = rq_method rq) routes of
        Some r \<Rightarrow> (case rt_handler r rq buf of (q, out) \<Rightarrow> (q, out, h))
      | None \<Rightarrow> (Err (if \<exists>r \<in> set routes. RouteMatch_matches (rt_matcher r) (rq_route rq) then MethodNotAllowed else NotFound), buf, h))"
  by (simp add: Router_handle_def route_loop_find split: option.split)

end
