(* ===== verification/FspDialogue.thy ===== *)
theory FspDialogue
  imports Service
begin

text \<open>
  Sessions between two handlers.  \<open>relay\<close> is what a node does with the outcome of its handler: it sends the announced
  prefix of the buffer.  \<open>fsp_dialogue\<close> runs the handshake and one ping between an initiating handler and a
  responding one, every datagram passing through \<open>on_tick\<close> and \<open>on_message\<close>.
\<close>

unbundle bit_operations_syntax

section \<open>Specification\<close>

text \<open>\<open>restarted\<close> is the session a setup finds: as it is when idle, reset otherwise.\<close>

definition relay :: "handle_result option \<times> bytes \<times> 'h \<Rightarrow> (bytes \<times> 'h, unit) res" where
  "relay x = (case x of (r, resp, h) \<Rightarrow>
     (case r of Some (HR_SendDatagram n) \<Rightarrow> Ok (take n resp, h) | Some _ \<Rightarrow> Err () | None \<Rightarrow> Panic))"

definition fsp_dialogue ::
  "wire \<Rightarrow> crypto \<Rightarrow> 'a fsp_app \<Rightarrow> 'b fsp_app \<Rightarrow> (nat \<Rightarrow> instant) \<Rightarrow> bytes \<Rightarrow> 'a fsp_dual \<Rightarrow> 'b fsp_dual
     \<Rightarrow> (handle_result option \<times> 'a fsp_dual \<times> 'b fsp_dual, unit) res" where
  "fsp_dialogue v C appI appR t resp hI hR =
     (let I = FspDualHandler v C appI; R = FspDualHandler v C appR; dg = MSG_SESSION_DATAGRAM in
      bind_res (relay (on_tick I (t 0) resp hI)) (\<lambda>(setup_dg, hI1).
      bind_res (relay (on_message R (t 1) dg setup_dg resp hR)) (\<lambda>(ack_dg, hR1).
      bind_res (relay (on_message I (t 2) dg ack_dg resp hI1)) (\<lambda>(msg3_dg, hI2).
      case on_message R (t 3) dg msg3_dg resp hR1 of (_, _, hR2) \<Rightarrow>
      bind_res (relay (on_tick I (t 4) resp hI2)) (\<lambda>(ping_dg, hI3).
      bind_res (relay (on_message R (t 5) dg ping_dg resp hR2)) (\<lambda>(pong_dg, hR3).
      case on_message I (t 6) dg pong_dg resp hI3 of (r, _, hI4) \<Rightarrow> Ok (r, hI4, hR3)))))))"

definition phase_of :: "bytes \<Rightarrow> byte" where
  "phase_of d = d ! 35 AND 0x0F"

definition restarted :: "fsp_session \<Rightarrow> fsp_session" where
  "restarted s = (if fs_state s = SIdle then s else FspSession_reset s)"

definition sample_rs_pub :: bytes where
  "sample_rs_pub = the (pubkey_prim sample_crypto (hp_rs sample_hp))"

definition sample_dual :: "wire \<Rightarrow> unit fsp_dual" where
  "sample_dual v = (new_dual v sample_crypto 1024 (hp_is sample_hp) (replicate 32 9) (hp_ie sample_hp) (hp_parity sample_hp # tl sample_rs_pub)
     (replicate 16 8) (hp_iepoch sample_hp) ())\<lparr>fd_test_ping := True\<rparr>"

abbreviation sample_service :: "unit fsp_app" where
  "sample_service \<equiv> FspServiceAdapter DemoService"

section \<open>Lemmas\<close>

lemma sealed_message:
  assumes "crypto_ok C" "length key = 32" "length payload \<le> 490" "22 + length payload \<le> cap" "cap' \<ge> 6 + length payload"
  shows "\<exists>ct. aead_encrypt C key ctr (build_fsp_header ctr 0 n) (le32 ts @ [mt, fl] @ payload) cap = Ok ct \<and> length ct = 22 + length payload \<and>
    parse_fsp_encrypted_header (build_fsp_header ctr 0 n @ ct) = Ok (0, ctr, build_fsp_header ctr 0 n, ct) \<and>
    aead_decrypt C key ctr (build_fsp_header ctr 0 n) ct cap' = Ok (le32 ts @ [mt, fl] @ payload)"
proof -
  let ?inner = "le32 ts @ [mt, fl] @ payload" and ?hdr = "build_fsp_header ctr 0 n"
  obtain ct where ct: "aead_encrypt C key ctr ?hdr ?inner cap = Ok ct"
    using aead_encrypt_total [OF assms(1,2), of ?inner cap] assms(3,4) by auto
  have len: "length ct = 22 + length payload" using aead_encrypt_length [OF assms(1) ct] by simp
  have "aead_decrypt C key ctr ?hdr ct cap' = Ok ?inner" using aead_decrypt_encrypt [OF assms(1) ct, of cap'] assms(5) by simp
  moreover have "parse_fsp_encrypted_header (?hdr @ ct) = Ok (0, ctr, ?hdr, ct)"
    using len by (simp add: parse_fsp_encrypted_header_def reject_if_def build_fsp_header_def)
  ultimately show ?thesis using ct len by blast
qed

lemma strip_inner [simp]: "fsp_strip_inner_header (le32 ts @ mt # fl # payload) = Ok (ts, mt, fl, payload)"
  by (simp add: fsp_strip_inner_header_def reject_if_def nth_append)

lemma data_message:
  assumes "crypto_ok C" "length key = 32" "length payload \<le> 478" "34 + length payload \<le> cap" "6 + length payload \<le> cap'"
  obtains ct n where
    "build_fsp_data_message C ctr ts payload key cap = Ok (build_fsp_header ctr 0 n @ ct)"
    "parse_fsp_encrypted_header (build_fsp_header ctr 0 n @ ct) = Ok (0, ctr, build_fsp_header ctr 0 n, ct)"
    "aead_decrypt C key ctr (build_fsp_header ctr 0 n) ct cap' = Ok (le32 ts @ [FSP_MSG_DATA, 0] @ payload)"
    "length ct = 22 + length payload"
proof -
  let ?n = "of_nat (length (le32 ts @ [0x10, 0] @ payload) + TAG_SIZE)"
  obtain ct where ct: "aead_encrypt C key ctr (build_fsp_header ctr 0 ?n) (le32 ts @ [0x10, 0] @ payload) 512 = Ok ct"
      "length ct = 22 + length payload" "parse_fsp_encrypted_header (build_fsp_header ctr 0 ?n @ ct) = Ok (0, ctr, build_fsp_header ctr 0 ?n, ct)"
      "aead_decrypt C key ctr (build_fsp_header ctr 0 ?n) ct cap' = Ok (le32 ts @ [0x10, 0] @ payload)"
    using sealed_message [OF assms(1,2), of payload 512 cap' ctr ?n ts "0x10" 0] assms(3,5) by auto
  have "fsp_prepend_inner_header ts 0x10 0 payload 512 = le32 ts @ [0x10, 0] @ payload"
    using assms(3) by (simp add: fsp_prepend_inner_header_def)
  then have "build_fsp_data_message C ctr ts payload key cap = Ok (build_fsp_header ctr 0 ?n @ ct)"
    using ct(1,2) assms(4) by (simp add: build_fsp_data_message_def build_fsp_encrypted_def Let_def flip: length_0_conv)
  then show ?thesis using that ct by simp
qed

lemma header_phase [simp]: "build_fsp_header c f n ! 0 AND 15 = 0" "(build_fsp_header c f n @ ct) ! 0 AND 15 = 0"
  by (simp_all add: build_fsp_header_def nth_append)

lemma datagram_parts:
  assumes "length src = 16" "length dst = 16"
  shows "take 16 (drop 3 (build_session_datagram_body src dst @ d)) = src" "take 16 (drop 19 (build_session_datagram_body src dst @ d)) = dst"
    "drop 35 (build_session_datagram_body src dst @ d) = d" "(build_session_datagram_body src dst @ d) ! 35 = d ! 0" "length (build_session_datagram_body src dst @ d) = 35 + length d"
  using assms by (simp_all add: build_session_datagram_body_def nth_append)

lemma write_resp_Ok:
  "at + length bs \<le> length resp \<Longrightarrow> bindm (write_resp at bs) f (h, resp) = f () (h, splice resp at bs)"
  by (simp add: bindm_def write_resp_def)

text \<open>The reply as it stands in the buffer: datagram body, header, ciphertext.\<close>

lemma take_spliced:
  assumes "length b = 35" "length hdr = 12" "47 + length ct \<le> length resp"
  shows "take (47 + length ct) (splice (splice (splice resp 47 ct) 0 b) 35 hdr) = b @ hdr @ ct"
  using assms by (simp add: splice_def)

lemma seal_reply_Ok:
  assumes "crypto_ok C" "length k = 32" "length resp = 320" "length rb = 35" "n \<le> 251" "6 + n \<le> fd_app_cap h"
  defines "c \<equiv> fs_send_counter (fd_session h)" and "pl \<equiv> take n (drop 53 resp)"
  shows "\<exists>resp' hdr ct. seal_reply C rb k mt n (h, resp) = (Ok (HR_SendDatagram (69 + n)), h\<lparr>fd_session := (fd_session h)\<lparr>fs_send_counter := c + 1\<rparr>\<rparr>, resp') \<and>
    length resp' = 320 \<and> take (69 + n) resp' = rb @ hdr @ ct \<and> length hdr = 12 \<and> length ct = 22 + n \<and> hdr ! 0 AND 15 = 0 \<and>
    parse_fsp_encrypted_header (hdr @ ct) = Ok (0, c, hdr, ct) \<and> aead_decrypt C k c hdr ct 512 = Ok (le32 0 @ [mt, 0] @ pl)"
proof -
  let ?n = "of_nat (length (le32 0 @ [mt, 0] @ pl) + TAG_SIZE)"
  have l: "length pl = n" using assms(3,5) by (simp add: pl_def)
  obtain ct where ct: "aead_encrypt C k c (build_fsp_header c 0 ?n) (le32 0 @ [mt, 0] @ pl) (length (le32 0 @ [mt, 0] @ pl) + TAG_SIZE) = Ok ct"
      "length ct = 22 + n" "parse_fsp_encrypted_header (build_fsp_header c 0 ?n @ ct) = Ok (0, c, build_fsp_header c 0 ?n, ct)"
      "aead_decrypt C k c (build_fsp_header c 0 ?n) ct 512 = Ok (le32 0 @ [mt, 0] @ pl)"
    using sealed_message [OF assms(1,2), of pl "length (le32 0 @ [mt, 0] @ pl) + TAG_SIZE" 512 c ?n 0 mt 0] l assms(5) by auto
  have p: "fsp_prepend_inner_header 0 mt 0 pl (fd_app_cap h) = le32 0 @ [mt, 0] @ pl"
    using assms(6) l by (simp add: fsp_prepend_inner_header_def)
  have sl: "slice resp APP_OFFSET (APP_OFFSET + n) = (Ok pl :: (bytes, unit) res)" using assms(3,5) by (simp add: slice_def pl_def)
  let ?r = "splice (splice (splice resp 47 ct) 0 rb) 35 (build_fsp_header c 0 ?n)"
  have "seal_reply C rb k mt n (h, resp) = (Ok (HR_SendDatagram (69 + n)), h\<lparr>fd_session := (fd_session h)\<lparr>fs_send_counter := c + 1\<rparr>\<rparr>, ?r)"
    using ct(1,2) p sl assms(3,4,5) l
    by (simp add: seal_reply_def step_simps geth_def Let_def on_session_def bindm_def FspSession_next_send_counter_def c_def
        write_resp_def liftm_def getm_def guardm_def)
  then show ?thesis
    using ct(2-4) assms(3-5) take_spliced [of rb "build_fsp_header c 0 ?n" ct resp] by (intro exI [of _ ?r] exI [of _ "build_fsp_header c 0 ?n"] exI [of _ ct]) simp
qed

lemma on_message_responder:
  assumes "outcome (handle_responder v C app mt p (h, resp)) = (r, resp', h')" "r \<noteq> Some HR_None"
  shows "on_message (FspDualHandler v C app) now mt p resp h = (r, resp', h')"
  using assms by (simp add: FspDualHandler_def dual_message_def)

lemma on_message_initiator:
  assumes "outcome (handle_responder v C app mt p (h, resp)) = (Some HR_None, resp', h')"
  shows "on_message (FspDualHandler v C app) now mt p resp h = outcome (handle_initiator C now mt p (h', resp'))"
  using assms by (simp add: FspDualHandler_def dual_message_def)

lemma app_answer_app:
  assumes "icmpv6_echo_reply p (length resp - 53) = Err ()" "length resp = 320"
    "app FSP_MSG_DATA p (drop 53 resp) \<lparr>pc_link_pubkey = fd_link_pubkey h, pc_src_addr = Some src\<rparr> (fd_app h) = (Some r, out, a)"
  shows "app_answer app src FSP_MSG_DATA p (h, resp) = (Ok r, h\<lparr>fd_app := a\<rparr>, take 53 resp @ out)"
  using assms by (simp add: app_answer_def)

lemma respond_data_Ok:
  assumes "crypto_ok C" "fs_state (fd_session h) = SEstablished" "FspSession_session_keys (fd_session h) = Some (k1, k2)"
    "length k1 = 32" "length k2 = 32" "length resp = 320" "length rb = 35" "length payload \<le> 478" "6 + length payload \<le> fd_app_cap h"
    "icmpv6_echo_reply payload 267 = Err ()"
    "app FSP_MSG_DATA payload (drop 53 resp) \<lparr>pc_link_pubkey = fd_link_pubkey h, pc_src_addr = Some src\<rparr> (fd_app h) = (Some (App_Reply mt n), out, a)"
    "length out = 267" "n \<le> 251" "6 + n \<le> fd_app_cap h" "34 + length payload \<le> cap"
  defines "c \<equiv> fs_send_counter (fd_session h)"
  shows "\<exists>msg resp' hdr ct. build_fsp_data_message C ctr ts payload k1 cap = Ok msg \<and> length msg = 34 + length payload \<and> msg ! 0 AND 15 = 0 \<and>
    respond_data C app rb src msg (h, resp) =
      (Ok (HR_SendDatagram (69 + n)), h\<lparr>fd_app := a, fd_session := (fd_session h)\<lparr>fs_send_counter := c + 1\<rparr>\<rparr>, resp') \<and>
    length resp' = 320 \<and> take (69 + n) resp' = rb @ hdr @ ct \<and> length hdr = 12 \<and> length ct = 22 + n \<and> hdr ! 0 AND 15 = 0 \<and>
    parse_fsp_encrypted_header (hdr @ ct) = Ok (0, c, hdr, ct) \<and> aead_decrypt C k2 c hdr ct 512 = Ok (le32 0 @ [mt, 0] @ take n out)"
proof -
  obtain ct0 n0 where m: "build_fsp_data_message C ctr ts payload k1 cap = Ok (build_fsp_header ctr 0 n0 @ ct0)"
    "parse_fsp_encrypted_header (build_fsp_header ctr 0 n0 @ ct0) = Ok (0, ctr, build_fsp_header ctr 0 n0, ct0)"
    "aead_decrypt C k1 ctr (build_fsp_header ctr 0 n0) ct0 (fd_app_cap h) = Ok (le32 ts @ [FSP_MSG_DATA, 0] @ payload)"
    "length ct0 = 22 + length payload"
    using data_message [OF assms(1,4,8,15,9)] by metis
  let ?h = "h\<lparr>fd_app := a\<rparr>" and ?resp = "take 53 resp @ out"
  have "length ?resp = 320" "take n (drop 53 ?resp) = take n out" using assms(6,12) by simp_all
  then obtain resp' hdr ct where s: "seal_reply C rb k2 mt n (?h, ?resp) =
      (Ok (HR_SendDatagram (69 + n)), ?h\<lparr>fd_session := (fd_session h)\<lparr>fs_send_counter := c + 1\<rparr>\<rparr>, resp')"
     "length resp' = 320" "take (69 + n) resp' = rb @ hdr @ ct" "length hdr = 12" "length ct = 22 + n" "hdr ! 0 AND 15 = 0"
     "parse_fsp_encrypted_header (hdr @ ct) = Ok (0, c, hdr, ct)" "aead_decrypt C k2 c hdr ct 512 = Ok (le32 0 @ [mt, 0] @ take n out)"
    using seal_reply_Ok [of C k2 ?resp rb n ?h mt] assms(1,5,7,13,14) unfolding c_def by auto
  have a: "app_answer app src FSP_MSG_DATA payload (h, resp) = (Ok (App_Reply mt n), ?h, ?resp)"
    using app_answer_app [of payload resp app h src] assms(6,10,11) by simp
  have "respond_data C app rb src (build_fsp_header ctr 0 n0 @ ct0) (h, resp) = seal_reply C rb k2 mt n (?h, ?resp)"
    using assms(2,3,6) m a by (simp add: respond_data_def geth_def step_simps some_or_def)
  then show ?thesis using m s by (intro exI [of _ "build_fsp_header ctr 0 n0 @ ct0"] exI [of _ resp'] exI [of _ hdr] exI [of _ ct]) simp
qed

lemma write2_length:
  assumes "crypto_ok C"
  shows "NoiseXkResponder_write_message2 C e ep 128 m = (Ok x, m') \<Longrightarrow> length x \<le> 128"
    "NoiseXxResponder_write_message2 C e ep 186 n = (Ok y, n') \<Longrightarrow> length y \<le> 186"
    "NoiseXxResponder_encrypt_payload C pt cap n = (Ok z, n') \<Longrightarrow> length z \<le> cap"
proof -
  show "NoiseXxResponder_encrypt_payload C pt cap n = (Ok z, n') \<Longrightarrow> length z \<le> cap"
    using encm_length [OF assms] by (auto simp: NoiseXxResponder_encrypt_payload_def)
  show "length x \<le> 128" if "NoiseXkResponder_write_message2 C e ep 128 m = (Ok x, m')"
    using that length_pubkey [OF assms] by (auto simp: NoiseXkResponder_write_message2_def step_OkE dest!: encm_length [OF assms])
  show "length y \<le> 186" if "NoiseXxResponder_write_message2 C e ep 186 n = (Ok y, n')"
    using that length_pubkey [OF assms] by (auto simp: NoiseXxResponder_write_message2_def step_OkE dest!: encm_length [OF assms])
qed

lemma write2_length_fst:
  assumes "crypto_ok C"
  shows "fst (NoiseXkResponder_write_message2 C e ep 128 m) = Ok x \<Longrightarrow> length x \<le> 128"
    "fst (NoiseXxResponder_write_message2 C e ep 186 n) = Ok y \<Longrightarrow> length y \<le> 186"
    "fst (NoiseXxResponder_encrypt_payload C pt cap n) = Ok z \<Longrightarrow> length z \<le> cap"
  using write2_length [OF assms] by (metis prod.collapse)+

lemma session_msg2_length:
  assumes "crypto_ok C" "session_msg2 v C s e ep hs = Ok (m, r)"
  shows "length m \<le> 186"
proof (cases v)
  case Wire_IK
  then show ?thesis using assms(2) by (auto simp: session_msg2_def bind_res_Ok_iff split_beta dest!: write2_length_fst(1) [OF assms(1)])
next
  case Wire_XX
  then show ?thesis using assms(2)
    by (auto simp: session_msg2_def bind_res_Ok_iff split_beta dest!: write2_length_fst(2,3) [OF assms(1)])
qed

lemma session_ack_cap:
  "build_session_ack [a] [b] hs cap = Ok ack \<Longrightarrow> length hs \<le> 186 \<Longrightarrow> 229 \<le> cap' \<Longrightarrow> build_session_ack [a] [b] hs cap' = Ok ack"
  by (auto simp: build_session_ack_def Let_def split: if_splits)

lemma handle_setup_cap:
  assumes "crypto_ok C" "FspSession_handle_setup v C s e ep data cap st = (Ok ack, st')" "229 \<le> cap'"
  shows "FspSession_handle_setup v C s e ep data cap' st = (Ok ack, st')"
  using assms(2) unfolding FspSession_handle_setup_def Let_def step_OkE
  by (cases v) (fastforce simp: step_OkE intro: session_ack_cap [OF _ session_msg2_length [OF assms(1)] assms(3)])+

lemma prefix_phase [simp]: "(fsp_prefix ph fl n @ r) ! 0 AND 15 = ph AND 15"
  by (simp add: fsp_prefix_def)

lemma built_phase:
  "build_session_setup fl src dst hs cap = Ok m \<Longrightarrow> m ! 0 AND 15 = 1 \<and> 1 \<le> length m"
  "build_session_ack src dst hs cap = Ok m \<Longrightarrow> m ! 0 AND 15 = 2 \<and> 1 \<le> length m"
  "build_session_msg3 hs cap = Ok m \<Longrightarrow> m ! 0 AND 15 = 3 \<and> 1 \<le> length m"
  by (auto simp: build_session_setup_def build_session_ack_def build_session_msg3_def Let_def split: if_splits)

lemma setup_message:
  "FspInitiatorSession_build_setup C a b cap f = (Ok m, f') \<Longrightarrow> m ! 0 AND 15 = 1 \<and> 1 \<le> length m \<and> fi_state f = IIdle \<and> fi_state f' = IAwaitingAck \<and> fi_send_counter f' = fi_send_counter f"
  by (auto simp: FspInitiatorSession_build_setup_def step_OkE split_beta dest!: built_phase(1))

lemma ack_message:
  "FspSession_handle_setup v C s e ep data cap st = (Ok ack, st') \<Longrightarrow>
     ack ! 0 AND 15 = 2 \<and> 1 \<le> length ack \<and> fs_state st = SIdle \<and> (\<exists>r. st' = st\<lparr>fs_responder := Some r, fs_state := SAwaitingMsg3\<rparr>)"
  by (auto simp: FspSession_handle_setup_def step_OkE Let_def split_beta dest!: built_phase(2))

lemma ack_accepted_state:
  "FspInitiatorSession_handle_ack C data f = (Ok (), f') \<Longrightarrow>
     fi_state f = IAwaitingAck \<and> (\<exists>i. f' = f\<lparr>fi_initiator := Some i, fi_state := IAwaitingEstablished\<rparr>)"
  by (auto simp: FspInitiatorSession_handle_ack_def step_OkE split_beta)

lemma msg3_message:
  "FspInitiatorSession_build_msg3 C ep cap f = (Ok m, f') \<Longrightarrow>
     m ! 0 AND 15 = 3 \<and> 1 \<le> length m \<and> fi_state f' = IEstablished \<and> fi_send_counter f' = fi_send_counter f"
  by (auto simp: FspInitiatorSession_build_msg3_def step_OkE split_beta Let_def dest!: built_phase(3))

lemma take_two: "length b + length m \<le> length resp \<Longrightarrow>
    take (length b + length m) (splice (splice resp 0 b) (length b) m) = b @ m"
  by (simp add: splice_def)

lemma set_timer_step: "bindm (set_timer now n) f (h, resp) = f () (h\<lparr>fd_timer := Some (now + from_secs n)\<rparr>, resp)"
  by (simp add: set_timer_def modh_def step_simps)

lemma tick_setup:
  assumes "fd_initiator h = Some f" "fd_target_addr h = Some target" "my_addr C h = Ok me" "length me = 16" "length target = 16"
    "FspInitiatorSession_build_setup C me target 512 f = (Ok m, f')" "length m \<le> 285" "length resp = 320"
  shows "\<exists>resp'. on_tick (FspDualHandler v C app) now resp h =
      (Some (HR_SendDatagram (35 + length m)), resp',
       h\<lparr>fd_initiator := Some f', fd_last_setup := Some (build_session_datagram_body me target @ m), fd_timer := Some (now + 8000000)\<rparr>) \<and>
    length resp' = 320 \<and> take (35 + length m) resp' = build_session_datagram_body me target @ m"
proof -
  let ?b = "build_session_datagram_body me target"
  have b: "length ?b = 35" using assms(4,5) by simp
  have "fi_state f = IIdle" using setup_message [OF assms(6)] by simp
  then have "dual_tick C now (h, resp) = start_setup C now me target f (h, resp)"
    using assms(1-3) by (simp add: dual_tick_def geth_def some_or_def step_simps)
  also have "\<dots> = (Ok (HR_SendDatagram (35 + length m)),
      h\<lparr>fd_initiator := Some f', fd_last_setup := Some (?b @ m), fd_timer := Some (now + 8000000)\<rparr>, splice (splice resp 0 ?b) 35 m)"
    using b assms(7,8) by (simp add: start_setup_def bindm_on_initiator(1) [where m = "FspInitiatorSession_build_setup C me target 512", OF assms(6)] write_resp_Ok
        set_timer_step modh_def step_simps)
  finally show ?thesis using take_two [of ?b m resp] b assms(4,5,7,8) by (simp add: FspDualHandler_def outcome_def)
qed

lemma setup_retry_fresh:
  "FspSession_handle_setup v C s e ep data cap st = (Ok ack, st') \<Longrightarrow> setup_retry v C s e ep data cap st = (Ok ack, st')"
  by (simp add: setup_retry_def)

lemma message_setup:
  assumes "setup_retry v C (fd_nsec h) (fd_ephemeral h) (fd_epoch h) data 285 (fd_session h) = (Ok ack, s')"
    "data ! 0 AND 15 = 1" "1 \<le> length data" "length src = 16" "length dst = 16" "length ack \<le> 285" "length resp = 320"
  shows "\<exists>resp'. on_message (FspDualHandler v C app) now MSG_SESSION_DATAGRAM (build_session_datagram_body src dst @ data) resp h =
      (Some (HR_SendDatagram (35 + length ack)), resp', h\<lparr>fd_session := s'\<rparr>) \<and>
    length resp' = 320 \<and> take (35 + length ack) resp' = build_session_datagram_body dst src @ ack"
proof -
  let ?p = "build_session_datagram_body src dst @ data" and ?b = "build_session_datagram_body dst src"
  have b: "length ?b = 35" using assms(4,5) by simp
  have r: "splice (splice resp 35 ack) 0 ?b = ?b @ ack @ drop (35 + length ack) resp"
    using assms(6,7) b by (simp add: splice_def)
  have "handle_responder v C app MSG_SESSION_DATAGRAM ?p (h, resp) = respond_setup v C ?b data (h, resp)"
    using datagram_parts [OF assms(4,5), of data] assms(2-5) by (simp add: responder_route)
  also have "\<dots> = (Ok (HR_SendDatagram (35 + length ack)), h\<lparr>fd_session := s'\<rparr>, splice (splice resp 35 ack) 0 ?b)"
    using b assms(6,7) by (simp add: respond_setup_def step_simps bindm_on_session(1) [of "setup_retry v C (fd_nsec h) (fd_ephemeral h) (fd_epoch h) data 285", OF assms(1)] write_resp_Ok)
  finally show ?thesis unfolding r using assms(6,7) b by (subst on_message_responder) (auto simp: outcome_def)
qed

lemma message_ack:
  assumes "fd_initiator h = Some f" "fd_target_addr h = Some target" "my_addr C h = Ok me" "length me = 16" "length target = 16"
    "FspInitiatorSession_handle_ack C data f = (Ok (), f1)" "FspInitiatorSession_build_msg3 C (fd_epoch h) 512 f1 = (Ok m, f2)"
    "data ! 0 AND 15 = 2" "1 \<le> length data" "length m \<le> 285" "length resp = 320" "length src = 16" "length dst = 16"
  shows "\<exists>resp'. on_message (FspDualHandler v C app) now MSG_SESSION_DATAGRAM (build_session_datagram_body src dst @ data) resp h =
      (Some (HR_SendDatagram (35 + length m)), resp', h\<lparr>fd_initiator := Some f2, fd_timer := Some (now + 2000000)\<rparr>) \<and>
    length resp' = 320 \<and> take (35 + length m) resp' = build_session_datagram_body me target @ m"
proof -
  let ?p = "build_session_datagram_body src dst @ data" and ?b = "build_session_datagram_body me target"
  note parts = datagram_parts [OF assms(12,13), of data]
  have b: "length ?b = 35" using assms(4,5) by simp
  have "outcome (handle_responder v C app MSG_SESSION_DATAGRAM ?p (h, resp)) = (Some HR_None, resp, h)"
    using parts assms(8,9) by (intro responder_other_phase) simp_all
  then have "on_message (FspDualHandler v C app) now MSG_SESSION_DATAGRAM ?p resp h = outcome (handle_initiator C now MSG_SESSION_DATAGRAM ?p (h, resp))"
    by (rule on_message_initiator)
  also have "\<dots> = outcome (initiator_ack C now me target f data (h, resp))"
    using parts assms(1-3,8,9) ack_accepted_state [OF assms(6)] by (simp add: initiator_route)
  also have "initiator_ack C now me target f data (h, resp) =
      (Ok (HR_SendDatagram (35 + length m)), h\<lparr>fd_initiator := Some f2, fd_timer := Some (now + 2000000)\<rparr>, splice (splice resp 0 ?b) 35 m)"
    using b assms(10,11)
    by (simp add: initiator_ack_def bindm_on_initiator(1) [where m = "FspInitiatorSession_handle_ack C data", OF assms(6)] geth_def step_simps
        bindm_on_initiator(1) [where m = "FspInitiatorSession_build_msg3 C (fd_epoch h) 512", OF assms(7)] write_resp_Ok set_timer_step)
  finally show ?thesis using take_two [of ?b m resp] b assms(4,5,10,11) by (simp add: outcome_def)
qed

lemma message_msg3:
  assumes "FspSession_handle_msg3 v C data (fd_session h) = (Ok (), s')" "fd_target_addr h = None"
    "data ! 0 AND 15 = 3" "1 \<le> length data" "length src = 16" "length dst = 16"
  shows "on_message (FspDualHandler v C app) now MSG_SESSION_DATAGRAM (build_session_datagram_body src dst @ data) resp h =
      (Some HR_None, resp, h\<lparr>fd_session := s'\<rparr>)"
proof -
  let ?p = "build_session_datagram_body src dst @ data"
  note parts = datagram_parts [OF assms(5,6), of data]
  have "handle_responder v C app MSG_SESSION_DATAGRAM ?p (h, resp) = (Ok HR_None, h\<lparr>fd_session := s'\<rparr>, resp)"
    using parts assms(3,4) by (simp add: responder_route bindm_on_session(1) [of "FspSession_handle_msg3 v C data", OF assms(1)] step_simps)
  then have "on_message (FspDualHandler v C app) now MSG_SESSION_DATAGRAM ?p resp h =
      outcome (handle_initiator C now MSG_SESSION_DATAGRAM ?p (h\<lparr>fd_session := s'\<rparr>, resp))"
    by (intro on_message_initiator) (simp add: outcome_def)
  also have "\<dots> = (Some HR_None, resp, h\<lparr>fd_session := s'\<rparr>)"
    using assms(2) by (simp add: handle_initiator_def geth_def step_simps some_or_def outcome_def)
  finally show ?thesis .
qed

lemma ping_bytes: "ascii ''PING'' = [0x50, 0x49, 0x4E, 0x47]" "ascii ''PONG'' = [0x50, 0x4F, 0x4E, 0x47]"
  by (simp_all add: ascii_def)

lemma relay_Ok [simp]: "relay (Some (HR_SendDatagram n), resp, h) = Ok (take n resp, h)"
  by (simp add: relay_def)

lemma tick_ping:
  assumes "fd_initiator h = Some f" "fd_target_addr h = Some target" "my_addr C h = Ok me" "length me = 16" "length target = 16"
    "fi_state f = IEstablished" "FspInitiatorSession_session_keys f = Some (kr, ks)"
    "build_fsp_data_message C (fi_send_counter f) 0 (ascii ''PING'') ks 512 = Ok m" "length m = 38" "length resp = 320"
  shows "\<exists>resp'. on_tick (FspDualHandler v C app) now resp h =
      (Some (HR_SendDatagram 73), resp', h\<lparr>fd_initiator := Some (f\<lparr>fi_send_counter := fi_send_counter f + 1\<rparr>), fd_timer := Some (now + 10000000)\<rparr>) \<and>
    take 73 resp' = build_session_datagram_body me target @ m"
proof -
  let ?b = "build_session_datagram_body me target" and ?f = "f\<lparr>fi_send_counter := fi_send_counter f + 1\<rparr>"
  have b: "length ?b = 35" using assms(4,5) by simp
  have n: "on_initiator (\<lambda>f. case FspInitiatorSession_next_send_counter f of (c, f1) \<Rightarrow> (Ok c, f1)) f (h, resp) =
      (Ok (fi_send_counter f) :: (u64, unit) res, h\<lparr>fd_initiator := Some ?f\<rparr>, resp)"
    by (simp add: on_initiator_def FspInitiatorSession_next_send_counter_def)
  have "dual_tick C now (h, resp) = send_ping C now (h, resp)"
    using assms(1-3,6) by (simp add: dual_tick_def geth_def some_or_def step_simps)
  also have "\<dots> = (Ok (HR_SendDatagram 73), h\<lparr>fd_initiator := Some ?f, fd_timer := Some (now + 10000000)\<rparr>, splice (splice resp 0 ?b) 35 m)"
    using assms(1-3,7-10) b by (simp add: send_ping_def geth_def some_or_def step_simps bindm_Ok [of "on_initiator _ _", OF n] write_resp_Ok
        set_timer_step ping_bytes)
  finally show ?thesis using take_two [of ?b m resp] b assms(4,5,9,10) by (simp add: FspDualHandler_def outcome_def)
qed

lemma message_pong:
  assumes "fd_initiator h = Some f" "fd_target_addr h = Some target" "my_addr C h = Ok me" "fs_state (fd_session h) = SIdle" "fd_test_ping h"
    "fi_state f = IEstablished" "FspInitiatorSession_session_keys f = Some (kr, ks)"
    "parse_fsp_encrypted_header data = Ok (0, c, hdr, ct)" "aead_decrypt C kr c hdr ct 512 = Ok (le32 0 @ [mt, 0] @ ascii ''PONG'')"
    "data ! 0 AND 15 = 0" "1 \<le> length data" "length src = 16" "length dst = 16"
  shows "on_message (FspDualHandler v C app) now MSG_SESSION_DATAGRAM (build_session_datagram_body src dst @ data) resp h = (Some HR_Disconnect, resp, h)"
proof -
  let ?p = "build_session_datagram_body src dst @ data"
  note parts = datagram_parts [OF assms(12,13), of data]
  have "handle_responder v C app MSG_SESSION_DATAGRAM ?p (h, resp) = (Err (), h, resp)"
    using parts assms(4,10,11) by (simp add: responder_route respond_data_def geth_def step_simps)
  then have "on_message (FspDualHandler v C app) now MSG_SESSION_DATAGRAM ?p resp h = outcome (handle_initiator C now MSG_SESSION_DATAGRAM ?p (h, resp))"
    by (intro on_message_initiator) (simp add: outcome_def)
  also have "\<dots> = outcome (initiator_data C f data (h, resp))"
    using parts assms(1-3,6,10,11) by (simp add: initiator_route)
  also have "\<dots> = (Some HR_Disconnect, resp, h)"
    using assms(5,7-9) by (simp add: initiator_data_def geth_def some_or_def step_simps outcome_def ping_bytes)
  finally show ?thesis .
qed

lemma establish_steps:
  assumes "hp_valid C p" "length saddr = 16" "length daddr = 16" "pubkey_prim C (hp_rs p) = Some rs_pub"
  obtains i0 setup_msg i1 ack r1 i2 msg3 i3 r2 k1 k2 where
    "FspInitiatorSession_new v C (hp_is p) (hp_ie p) (hp_parity p # tl rs_pub) = Ok i0"
    "FspInitiatorSession_build_setup C saddr daddr 512 i0 = (Ok setup_msg, i1)"
    "FspSession_handle_setup v C (hp_rs p) (hp_re p) (hp_repoch p) setup_msg 285 FspSession_new = (Ok ack, r1)"
    "FspInitiatorSession_handle_ack C ack i1 = (Ok (), i2)"
    "FspInitiatorSession_build_msg3 C (hp_iepoch p) 512 i2 = (Ok msg3, i3)"
    "FspSession_handle_msg3 v C msg3 r1 = (Ok (), r2)"
    "FspInitiatorSession_session_keys i3 = Some (k2, k1)" "FspSession_session_keys r2 = Some (k1, k2)"
    "length k1 = 32" "length k2 = 32" "fs_initiator_pub r2 = pubkey_prim C (hp_is p)" "fs_state r2 = SEstablished"
proof -
  have C: "crypto_ok C" using assms(1) by (simp add: hp_valid_def)
  obtain i r k1 k2 where e: "fsp_establish v C saddr daddr p = Ok (i, r)" "fs_state r = SEstablished"
      "FspInitiatorSession_session_keys i = Some (k2, k1)" "FspSession_session_keys r = Some (k1, k2)"
      "length k1 = 32" "length k2 = 32" "fs_initiator_pub r = pubkey_prim C (hp_is p)"
    using fsp_establishes [OF assms(1-3), of v] by blast
  let ?su = "\<lambda>i0. FspInitiatorSession_build_setup C saddr daddr 512 i0"
  let ?ack = "\<lambda>m. FspSession_handle_setup v C (hp_rs p) (hp_re p) (hp_repoch p) m 512 FspSession_new"
  obtain rs' i0 m ack u1 msg3 u2 where s: "ecdh_pubkey C (hp_rs p) = Ok rs'" "FspInitiatorSession_new v C (hp_is p) (hp_ie p) (hp_parity p # tl rs') = Ok i0"
      "fst (?su i0) = Ok m" "fst (?ack m) = Ok ack" "fst (FspInitiatorSession_handle_ack C ack (snd (?su i0))) = Ok u1"
      "fst (FspInitiatorSession_build_msg3 C (hp_iepoch p) 512 (snd (FspInitiatorSession_handle_ack C ack (snd (?su i0))))) = Ok msg3"
      "snd (FspInitiatorSession_build_msg3 C (hp_iepoch p) 512 (snd (FspInitiatorSession_handle_ack C ack (snd (?su i0))))) = i"
      "fst (FspSession_handle_msg3 v C msg3 (snd (?ack m))) = Ok u2" "snd (FspSession_handle_msg3 v C msg3 (snd (?ack m))) = r"
    using e(1) unfolding fsp_establish_def bind_res_Ok_iff prod.case_eq_if map_err_Ok_iff res.inject prod.inject by blast
  have rs: "rs' = rs_pub" using s(1) assms(4) by (simp add: ecdh_pubkey_def)
  define i1 i2 r1 where "i1 = snd (?su i0)" and "i2 = snd (FspInitiatorSession_handle_ack C ack i1)" and "r1 = snd (?ack m)"
  have 1: "?su i0 = (Ok m, i1)" "?ack m = (Ok ack, r1)" "FspInitiatorSession_handle_ack C ack i1 = (Ok (), i2)"
      "FspInitiatorSession_build_msg3 C (hp_iepoch p) 512 i2 = (Ok msg3, i)" "FspSession_handle_msg3 v C msg3 r1 = (Ok (), r)"
    using s(3-9) unfolding i1_def i2_def r1_def prod_eq_iff fst_conv snd_conv by simp_all
  have "FspSession_handle_setup v C (hp_rs p) (hp_re p) (hp_repoch p) m 285 FspSession_new = (Ok ack, r1)"
    by (rule handle_setup_cap [OF C 1(2)]) simp
  then show ?thesis by (rule that [OF s(2) [unfolded rs] 1(1) _ 1(3-5) e(3-7,2)])
qed

lemma msg3_counter: "FspSession_handle_msg3 v C d s = (Ok (), s') \<Longrightarrow> fs_send_counter s' = fs_send_counter s"
  by (auto simp: FspSession_handle_msg3_def step_OkE Let_def split_beta)

lemma new_initiator_fields:
  "FspInitiatorSession_new v C s e pub = Ok f \<Longrightarrow> fi_send_counter f = 0 \<and> fi_state f = IIdle"
  by (auto simp: FspInitiatorSession_new_def bind_res_Ok_iff)

text \<open>The handshake as the two handlers run it, the four datagrams included.\<close>

lemma handlers_establish:
  assumes "hp_valid C p" "pubkey_prim C (hp_rs p) = Some rs_pub" "length target = 16" "length resp = 320"
    and hI_def: "hI = (new_dual v C capI (hp_is p) eph (hp_ie p) (hp_parity p # tl rs_pub) target (hp_iepoch p) a)\<lparr>fd_test_ping := True\<rparr>"
    and hR_def: "hR = new_responder capR (hp_rs p) (hp_re p) (hp_repoch p) b"
  obtains me d1 d2 d3 hI1 hI2 f hR1 r k1 k2 where
    "my_addr C hI = Ok me" "length me = 16"
    "relay (on_tick (FspDualHandler v C appI) t0 resp hI) = Ok (d1, hI1)"
    "relay (on_message (FspDualHandler v C appR) t1 MSG_SESSION_DATAGRAM d1 resp hR) = Ok (d2, hR1)"
    "relay (on_message (FspDualHandler v C appI) t2 MSG_SESSION_DATAGRAM d2 resp hI1) = Ok (d3, hI2)"
    "on_message (FspDualHandler v C appR) t3 MSG_SESSION_DATAGRAM d3 resp hR1 = (Some HR_None, resp, hR\<lparr>fd_session := r\<rparr>)"
    "\<exists>ls t. hI2 = hI\<lparr>fd_initiator := Some f, fd_last_setup := ls, fd_timer := t\<rparr>" "fi_state f = IEstablished" "fi_send_counter f = 0"
    "FspInitiatorSession_session_keys f = Some (k2, k1)" "FspSession_session_keys r = Some (k1, k2)" "length k1 = 32" "length k2 = 32"
    "fs_state r = SEstablished" "fs_initiator_pub r = pubkey_prim C (hp_is p)" "fs_send_counter r = 0"
    "36 \<le> length d1" "phase_of d1 = 1" "36 \<le> length d3" "phase_of d3 = 3"
proof -
  have C: "crypto_ok C" using assms(1) by (simp add: hp_valid_def)
  obtain pis where pis: "pubkey_prim C (hp_is p) = Some pis" using assms(1) by (auto simp: hp_valid_def)
  define me where "me = NodeAddr_from_pubkey_x C (drop 1 (parity_normalize pis))"
  have me: "length me = 16" "\<And>h :: 'a fsp_dual. fd_nsec h = hp_is p \<Longrightarrow> my_addr C h = Ok me"
    using C pis by (simp_all add: me_def my_addr_def ecdh_pubkey_def)
  obtain i0 m i1 ack r1 i2 msg3 i3 r2 k1 k2 where
    e: "FspInitiatorSession_new v C (hp_is p) (hp_ie p) (hp_parity p # tl rs_pub) = Ok i0"
    "FspInitiatorSession_build_setup C me target 512 i0 = (Ok m, i1)"
    "FspSession_handle_setup v C (hp_rs p) (hp_re p) (hp_repoch p) m 285 FspSession_new = (Ok ack, r1)"
    "FspInitiatorSession_handle_ack C ack i1 = (Ok (), i2)" "FspInitiatorSession_build_msg3 C (hp_iepoch p) 512 i2 = (Ok msg3, i3)"
    "FspSession_handle_msg3 v C msg3 r1 = (Ok (), r2)"
    and k: "FspInitiatorSession_session_keys i3 = Some (k2, k1)" "FspSession_session_keys r2 = Some (k1, k2)"
    "length k1 = 32" "length k2 = 32" "fs_initiator_pub r2 = pubkey_prim C (hp_is p)" "fs_state r2 = SEstablished"
    using establish_steps [OF assms(1) me(1) assms(3,2)] by metis
  note i0 = noop_app.new_initiator_inv [OF C e(1)]
  note i1 = build_setup_inv [OF i0 e(2) me(1) assms(3)] and i2 = handle_ack_inv [OF _ e(4), of v]
  have l: "length m = 76" "length ack \<le> 285" "length msg3 \<le> 160"
    using i1 i2 build_msg3_inv [OF C _ e(5), of v] handle_setup_length [OF C e(3)] by blast+
  note ph = setup_message [OF e(2)] ack_message [OF e(3)] ack_accepted_state [OF e(4)] msg3_message [OF e(5)]
  let ?hI1 = "hI\<lparr>fd_initiator := Some i1, fd_last_setup := Some (build_session_datagram_body me target @ m), fd_timer := Some (t0 + 8000000)\<rparr>"
  have 1: "relay (on_tick (FspDualHandler v C appI) t0 resp hI) = Ok (build_session_datagram_body me target @ m, ?hI1)"
    using tick_setup [of hI i0 target C me m i1 resp v appI t0] e(1,2) me l(1) assms(3,4) by (auto simp: hI_def new_dual_def)
  have 2: "relay (on_message (FspDualHandler v C appR) t1 MSG_SESSION_DATAGRAM (build_session_datagram_body me target @ m) resp hR) =
      Ok (build_session_datagram_body target me @ ack, hR\<lparr>fd_session := r1\<rparr>)"
    using message_setup [of v C hR m ack r1 me target resp appR t1] setup_retry_fresh [OF e(3)] ph(1) me(1) l(1,2) assms(3,4)
    by (auto simp: hR_def new_responder_def)
  have 3: "relay (on_message (FspDualHandler v C appI) t2 MSG_SESSION_DATAGRAM (build_session_datagram_body target me @ ack) resp ?hI1) =
      Ok (build_session_datagram_body me target @ msg3, ?hI1\<lparr>fd_initiator := Some i3, fd_timer := Some (t2 + 2000000)\<rparr>)"
    using message_ack [of ?hI1 i1 target C me ack i2 msg3 i3 resp target me v appI t2] e(4,5) ph(2) me l(2,3) assms(3,4)
    by (auto simp: hI_def new_dual_def)
  have 4: "on_message (FspDualHandler v C appR) t3 MSG_SESSION_DATAGRAM (build_session_datagram_body me target @ msg3) resp (hR\<lparr>fd_session := r1\<rparr>) =
      (Some HR_None, resp, hR\<lparr>fd_session := r2\<rparr>)"
    using message_msg3 [of v C msg3 "hR\<lparr>fd_session := r1\<rparr>" r2 me target appR t3 resp] e(6) ph(4) me(1) assms(3)
    by (simp add: hR_def new_responder_def)
  have c: "fi_send_counter i3 = 0" "fs_send_counter r2 = 0"
    using ph new_initiator_fields [OF e(1)] msg3_counter [OF e(6)] by (auto simp: FspSession_new_def)
  have d: "36 \<le> length (build_session_datagram_body me target @ x) \<and> phase_of (build_session_datagram_body me target @ x) = x ! 0 AND 15"
    if "1 \<le> length x" for x using that datagram_parts [OF me(1) assms(3), of x] by (simp add: phase_of_def)
  show ?thesis
    by (rule that [OF _ me(1) 1 2 3 4 _ _ c(1) k(1-4) k(6,5) c(2)]) (use ph(1,4) me d [of m] d [of msg3] in \<open>auto simp: hI_def new_dual_def\<close>)
qed

lemma adapter_ping:
  "4 \<le> length resp \<Longrightarrow> FspServiceAdapter S FSP_MSG_DATA (ascii ''PING'') resp peer h =
     (Some (App_Reply FSP_MSG_DATA 4), splice resp 0 (ascii ''PONG''), h)"
  by (simp add: FspServiceAdapter_def)

text \<open>An established responder answers a sealed data message with the sealed reply of its application.\<close>

lemma message_data_resp:
  assumes "crypto_ok C" "fs_state (fd_session h) = SEstablished" "FspSession_session_keys (fd_session h) = Some (k1, k2)"
    "length k1 = 32" "length k2 = 32" "length resp = 320" "length payload \<le> 478" "6 + length payload \<le> fd_app_cap h"
    "icmpv6_echo_reply payload 267 = Err ()"
    "app FSP_MSG_DATA payload (drop 53 resp) \<lparr>pc_link_pubkey = fd_link_pubkey h, pc_src_addr = Some src\<rparr> (fd_app h) = (Some (App_Reply mt n), out, a)"
    "length out = 267" "n \<le> 251" "6 + n \<le> fd_app_cap h" "34 + length payload \<le> cap" "length src = 16" "length dst = 16"
  defines "c \<equiv> fs_send_counter (fd_session h)"
  obtains msg resp' hdr ct where "build_fsp_data_message C ctr ts payload k1 cap = Ok msg" "length msg = 34 + length payload"
    "on_message (FspDualHandler v C app) now MSG_SESSION_DATAGRAM (build_session_datagram_body src dst @ msg) resp h =
      (Some (HR_SendDatagram (69 + n)), resp', h\<lparr>fd_app := a, fd_session := (fd_session h)\<lparr>fs_send_counter := c + 1\<rparr>\<rparr>)"
    "length resp' = 320" "take (69 + n) resp' = build_session_datagram_body dst src @ hdr @ ct"
    "length hdr = 12" "hdr ! 0 AND 15 = 0" "parse_fsp_encrypted_header (hdr @ ct) = Ok (0, c, hdr, ct)"
    "aead_decrypt C k2 c hdr ct 512 = Ok (le32 0 @ [mt, 0] @ take n out)"
proof -
  let ?b = "build_session_datagram_body dst src" and ?h = "h\<lparr>fd_app := a, fd_session := (fd_session h)\<lparr>fs_send_counter := c + 1\<rparr>\<rparr>"
  have b: "length ?b = 35" using assms(15,16) by simp
  obtain msg resp' hdr ct where m: "build_fsp_data_message C ctr ts payload k1 cap = Ok msg" "length msg = 34 + length payload" "msg ! 0 AND 15 = 0"
      "respond_data C app ?b src msg (h, resp) = (Ok (HR_SendDatagram (69 + n)), ?h, resp')"
      "length resp' = 320" "take (69 + n) resp' = ?b @ hdr @ ct" "length hdr = 12" "hdr ! 0 AND 15 = 0"
      "parse_fsp_encrypted_header (hdr @ ct) = Ok (0, c, hdr, ct)" "aead_decrypt C k2 c hdr ct 512 = Ok (le32 0 @ [mt, 0] @ take n out)"
    using respond_data_Ok [where app = app and h = h, OF assms(1-6) b assms(7-14)] unfolding c_def by metis
  note parts = datagram_parts [OF assms(15,16), of msg]
  have "handle_responder v C app MSG_SESSION_DATAGRAM (build_session_datagram_body src dst @ msg) (h, resp) = respond_data C app ?b src msg (h, resp)"
    using parts m(2,3) assms(15,16) by (simp add: responder_route)
  then have "on_message (FspDualHandler v C app) now MSG_SESSION_DATAGRAM (build_session_datagram_body src dst @ msg) resp h =
      (Some (HR_SendDatagram (69 + n)), resp', ?h)"
    using m(4) by (intro on_message_responder) (simp_all add: outcome_def)
  then show ?thesis using that m by simp
qed

lemma message_data:
  assumes "crypto_ok C" "fs_state (fd_session h) = SEstablished" "FspSession_session_keys (fd_session h) = Some (k1, k2)"
    "length k1 = 32" "length k2 = 32" "length resp = 320" "length payload \<le> 478" "6 + length payload \<le> fd_app_cap h"
    "icmpv6_echo_reply payload 267 = Err ()"
    "app FSP_MSG_DATA payload (drop 53 resp) \<lparr>pc_link_pubkey = fd_link_pubkey h, pc_src_addr = Some src\<rparr> (fd_app h) = (Some (App_Reply mt n), out, a)"
    "length out = 267" "n \<le> 251" "6 + n \<le> fd_app_cap h" "34 + length payload \<le> cap" "length src = 16" "length dst = 16"
  defines "c \<equiv> fs_send_counter (fd_session h)"
  obtains msg hdr ct where "build_fsp_data_message C ctr ts payload k1 cap = Ok msg" "length msg = 34 + length payload"
    "relay (on_message (FspDualHandler v C app) now MSG_SESSION_DATAGRAM (build_session_datagram_body src dst @ msg) resp h) =
      Ok (build_session_datagram_body dst src @ hdr @ ct, h\<lparr>fd_app := a, fd_session := (fd_session h)\<lparr>fs_send_counter := c + 1\<rparr>\<rparr>)"
    "length hdr = 12" "hdr ! 0 AND 15 = 0" "parse_fsp_encrypted_header (hdr @ ct) = Ok (0, c, hdr, ct)"
    "aead_decrypt C k2 c hdr ct 512 = Ok (le32 0 @ [mt, 0] @ take n out)"
  by (rule message_data_resp [where h = h and app = app and v = v and now = now and ctr = ctr and ts = ts and mt = mt and n = n,
      OF assms(1-16)]) (use that c_def in \<open>auto simp: relay_def\<close>)

text \<open>The exchange over an established session: the initiator's ping and the service's answer.\<close>

lemma handlers_ping:
  assumes "crypto_ok C" "fd_target_addr hI = Some target" "my_addr C hI = Ok me" "fd_initiator hI = Some f" "fs_state (fd_session hI) = SIdle"
    "fd_test_ping hI" "fi_state f = IEstablished" "fi_send_counter f = 0" "FspInitiatorSession_session_keys f = Some (k2, k1)"
    "FspSession_session_keys (fd_session hR) = Some (k1, k2)" "length k1 = 32" "length k2 = 32" "fs_state (fd_session hR) = SEstablished"
    "fs_send_counter (fd_session hR) = 0" "10 \<le> fd_app_cap hR" "length me = 16" "length target = 16" "length resp = 320"
    and hI'_def: "hI' = hI\<lparr>fd_initiator := Some (f\<lparr>fi_send_counter := 1\<rparr>), fd_timer := Some (t4 + 10000000)\<rparr>"
  obtains ping pong where "relay (on_tick (FspDualHandler v C appI) t4 resp hI) = Ok (ping, hI')"
    "relay (on_message (FspDualHandler v C (FspServiceAdapter S)) t5 MSG_SESSION_DATAGRAM ping resp hR) =
      Ok (pong, hR\<lparr>fd_session := (fd_session hR)\<lparr>fs_send_counter := 1\<rparr>\<rparr>)"
    "on_message (FspDualHandler v C appI) t6 MSG_SESSION_DATAGRAM pong resp hI' = (Some HR_Disconnect, resp, hI')"
proof -
  let ?out = "splice (drop 53 resp) 0 (ascii ''PONG'')" and ?app = "FspServiceAdapter S"
  have app: "?app FSP_MSG_DATA (ascii ''PING'') (drop 53 resp) peer h = (Some (App_Reply FSP_MSG_DATA 4), ?out, h)" for peer h
    using assms(18) by (intro adapter_ping) simp
  have lens: "length (ascii ''PING'') = 4" "take 4 ?out = ascii ''PONG''" "length ?out = 267" "icmpv6_echo_reply (ascii ''PING'') 267 = Err ()"
    using assms(18) by (simp_all add: ping_bytes splice_def icmpv6_echo_reply_def)
  obtain ping hdr ct where m: "build_fsp_data_message C 0 0 (ascii ''PING'') k1 512 = Ok ping" "length ping = 38"
      "relay (on_message (FspDualHandler v C ?app) t5 MSG_SESSION_DATAGRAM (build_session_datagram_body me target @ ping) resp hR) =
        Ok (build_session_datagram_body target me @ hdr @ ct, hR\<lparr>fd_session := (fd_session hR)\<lparr>fs_send_counter := 1\<rparr>\<rparr>)"
      "length hdr = 12" "hdr ! 0 AND 15 = 0" "parse_fsp_encrypted_header (hdr @ ct) = Ok (0, 0, hdr, ct)"
      "aead_decrypt C k2 0 hdr ct 512 = Ok (le32 0 @ [FSP_MSG_DATA, 0] @ ascii ''PONG'')"
    by (rule message_data [where h = hR and app = ?app and src = me and dst = target and cap = 512 and ctr = 0 and ts = 0 and
          payload = "ascii ''PING''", OF assms(1,13,10-12,18) _ _ lens(4) app lens(3), of v t5])
      (use lens(1,2) assms(14-17) in simp_all)
  obtain resp5 where 5: "on_tick (FspDualHandler v C appI) t4 resp hI = (Some (HR_SendDatagram 73), resp5, hI')"
      "take 73 resp5 = build_session_datagram_body me target @ ping"
    using tick_ping [OF assms(4,2,3,16,17,7,9), of ping resp v appI t4] m(1,2) assms(8,18) by (auto simp: hI'_def)
  have 6: "on_message (FspDualHandler v C appI) t6 MSG_SESSION_DATAGRAM (build_session_datagram_body target me @ hdr @ ct) resp hI' = (Some HR_Disconnect, resp, hI')"
    by (rule message_pong [where f = "f\<lparr>fi_send_counter := 1\<rparr>" and kr = k2 and ks = k1 and target = target and me = me])
      (use assms(2-7,9,16,17) m(4-7) in \<open>simp_all add: hI'_def my_addr_def FspInitiatorSession_session_keys_def nth_append\<close>)
  show ?thesis by (rule that [OF _ m(3) 6]) (simp add: 5)
qed

text \<open>The session of a handler after a message: what the responder side made of it.\<close>

lemma keeps_session:
  "keeps (\<lambda>s. fd_session (fst s) = x) (write_resp at bs)" "keeps (\<lambda>s. fd_session (fst s) = x) (set_timer now n)"
  "keeps (\<lambda>s. fd_session (fst s) = x) (geth g)" "keeps (\<lambda>s. fd_session (fst s) = x) (on_initiator m i)"
  "keeps (\<lambda>s. fd_session (fst s) = x) (ignore_err w) \<longleftrightarrow> keeps (\<lambda>s. fd_session (fst s) = x) w"
  by (simp_all add: keeps_def write_resp_def set_timer_def modh_def modm_def geth_def getm_def on_initiator_def ignore_err_def map_errm_def
      split_beta)

lemma keeps_state_case:
  "keeps P a \<Longrightarrow> keeps P b \<Longrightarrow> keeps P c \<Longrightarrow> keeps P d \<Longrightarrow>
     keeps P (case st of IIdle \<Rightarrow> a | IAwaitingAck \<Rightarrow> b | IAwaitingEstablished \<Rightarrow> c | IEstablished \<Rightarrow> d)"
  "keeps P a \<Longrightarrow> keeps P b \<Longrightarrow> keeps P (if q then a else b)"
  by (auto split: fsp_initiator_state.split)

lemma initiator_keeps_session: "keeps (\<lambda>s. fd_session (fst s) = x) (handle_initiator C now mt p)"
  unfolding handle_initiator_def initiator_ack_def initiator_data_def Let_def split_beta
  by (intro keeps_bindm keeps_state_case; simp add: keeps_session)

lemma initiator_session: "handle_initiator C now mt p (h, resp) = (q, h', resp') \<Longrightarrow> fd_session h' = fd_session h"
  using keepsD [OF initiator_keeps_session [of "fd_session h"]] by (metis fst_conv)

lemma message_session:
  assumes "on_message (FspDualHandler v C app) now mt p resp h = (r, resp', h')"
    "handle_responder v C app mt p (h, resp) = (q, h1, resp1)"
  shows "fd_session h' = fd_session h1"
proof -
  obtain q2 h2 resp2 where 2: "handle_initiator C now mt p (h1, resp1) = (q2, h2, resp2)" by (metis prod_cases3)
  then show ?thesis using assms initiator_session [OF 2] by (auto simp: FspDualHandler_def dual_message_def outcome_def split: if_splits)
qed

lemma handle_setup_indep:
  assumes "FspSession_handle_setup v C s e ep data cap st = (Ok ack, st1)" "fs_state st' = SIdle"
  shows "FspSession_handle_setup v C s e ep data cap st' = (Ok ack, st'\<lparr>fs_responder := fs_responder st1, fs_state := SAwaitingMsg3\<rparr>)"
  using assms unfolding FspSession_handle_setup_def Let_def by (cases v) (fastforce simp: step_OkE)+

lemma setup_retry_indep:
  assumes "setup_retry v C s e ep data cap st = (Ok ack, st1)"
  shows "setup_retry v C s e ep data cap st' = (Ok ack, (restarted st')\<lparr>fs_responder := fs_responder st1, fs_state := SAwaitingMsg3\<rparr>)"
    "fs_state st1 = SAwaitingMsg3"
proof -
  obtain st0 where h: "FspSession_handle_setup v C s e ep data cap st0 = (Ok ack, st1)"
    using assms by (auto simp: setup_retry_def split: prod.splits res.splits if_splits)
  then show "fs_state st1 = SAwaitingMsg3" using ack_message by fastforce
  have i: "fs_state st' \<noteq> SIdle \<Longrightarrow> FspSession_handle_setup v C s e ep data cap st' = (Err SInvalidState, st')"
    by (simp add: FspSession_handle_setup_def step_simps)
  show "setup_retry v C s e ep data cap st' = (Ok ack, (restarted st')\<lparr>fs_responder := fs_responder st1, fs_state := SAwaitingMsg3\<rparr>)"
    using handle_setup_indep [OF h, of st'] handle_setup_indep [OF h, of "FspSession_reset st'"] i
    by (cases "fs_state st' = SIdle") (simp_all add: setup_retry_def restarted_def)
qed

lemma handle_msg3_indep:
  assumes "FspSession_handle_msg3 v C d s = (Ok (), s2)" "fs_state s' = SAwaitingMsg3" "fs_responder s' = fs_responder s"
  shows "FspSession_handle_msg3 v C d s' = (Ok (), s'\<lparr>fs_k_recv := fs_k_recv s2, fs_k_send := fs_k_send s2, fs_initiator_pub := fs_initiator_pub s2,
     fs_responder := None, fs_state := SEstablished\<rparr>)"
  using assms unfolding FspSession_handle_msg3_def by (cases v) (auto simp: step_OkE Let_def split_beta)

lemma initiator_quiet:
  assumes "crypto_ok C" "phase_of p = 1" "36 \<le> length p"
  shows "relay (outcome (handle_initiator C now MSG_SESSION_DATAGRAM p (h, resp))) = Err ()"
proof (cases "fd_target_addr h = None \<or> my_addr C h = Err () \<or> fd_initiator h = None")
  case True
  then show ?thesis using my_addr_Ok(1) [OF assms(1), of h]
    by (cases "fd_target_addr h"; cases "my_addr C h"; cases "fd_initiator h")
      (auto simp: handle_initiator_def geth_def some_or_def step_simps outcome_def relay_def)
next
  case False
  then obtain target me f where "fd_target_addr h = Some target" "my_addr C h = Ok me" "fd_initiator h = Some f"
    using my_addr_Ok(1) [OF assms(1), of h] by (cases "my_addr C h") auto
  then show ?thesis using assms(2,3)
    by (cases "fi_state f") (simp_all add: initiator_route phase_of_def outcome_def relay_def set_timer_step step_simps)
qed

lemma answered_setup:
  assumes "crypto_ok C" "36 \<le> length p" "phase_of p = 1" "length resp = 320"
    "setup_retry v C (fd_nsec h) (fd_ephemeral h) (fd_epoch h) (drop 35 p) 285 (fd_session h) = (q, s')"
  shows "relay (on_message (FspDualHandler v C app) now MSG_SESSION_DATAGRAM p resp h) =
    (case q of Ok ack \<Rightarrow> Ok (build_session_datagram_body (take 16 (drop 19 p)) (take 16 (drop 3 p)) @ ack, h\<lparr>fd_session := s'\<rparr>)
     | Err _ \<Rightarrow> Err () | Panic \<Rightarrow> Panic)"
proof -
  let ?b = "build_session_datagram_body (take 16 (drop 19 p)) (take 16 (drop 3 p))" and ?h = "h\<lparr>fd_session := s'\<rparr>"
  let ?m = "setup_retry v C (fd_nsec h) (fd_ephemeral h) (fd_epoch h) (drop 35 p) 285"
  have b: "length ?b = 35" using assms(2) by simp
  have r: "handle_responder v C app MSG_SESSION_DATAGRAM p (h, resp) = respond_setup v C ?b (drop 35 p) (h, resp)"
    using assms(2,3) by (simp add: responder_route phase_of_def)
  show ?thesis
  proof (cases q)
    case (Ok ack)
    have l: "length ack \<le> 285" using setup_retry_length [OF assms(1)] assms(5) Ok by blast
    have "respond_setup v C ?b (drop 35 p) (h, resp) = (Ok (HR_SendDatagram (35 + length ack)), ?h, splice (splice resp 35 ack) 0 ?b)"
      using b l assms(4,5) Ok by (simp add: respond_setup_def step_simps bindm_on_session(1) [of ?m] write_resp_Ok)
    moreover have "splice (splice resp 35 ack) 0 ?b = ?b @ ack @ drop (35 + length ack) resp" using l assms(4) b by (simp add: splice_def)
    ultimately have "on_message (FspDualHandler v C app) now MSG_SESSION_DATAGRAM p resp h =
        (Some (HR_SendDatagram (35 + length ack)), ?b @ ack @ drop (35 + length ack) resp, ?h)"
      using r by (intro on_message_responder) (simp_all add: outcome_def)
    then show ?thesis using Ok b by simp
  next
    case (Err e)
    then have "respond_setup v C ?b (drop 35 p) (h, resp) = (Err (), ?h, resp)"
      using assms(4,5) by (simp add: respond_setup_def step_simps bindm_on_session(2) [of ?m])
    then show ?thesis using r Err initiator_quiet [OF assms(1,3,2)] on_message_initiator [of v C app MSG_SESSION_DATAGRAM p h resp resp ?h now]
      by (simp add: outcome_def)
  next
    case Panic
    then have "respond_setup v C ?b (drop 35 p) (h, resp) = (Panic, ?h, resp)"
      using assms(4,5) by (simp add: respond_setup_def step_simps bindm_on_session(3) [of ?m])
    then show ?thesis using r Panic on_message_responder [of v C app MSG_SESSION_DATAGRAM p h resp None resp ?h now]
      by (simp add: outcome_def relay_def)
  qed
qed

text \<open>The two datagrams of a handshake as the responder sees them.\<close>

lemma answered_setupD:
  assumes "crypto_ok C" "36 \<le> length p" "phase_of p = 1" "length resp = 320"
    "relay (on_message (FspDualHandler v C app) now MSG_SESSION_DATAGRAM p resp h) = Ok (d, h1)"
  obtains ack where "setup_retry v C (fd_nsec h) (fd_ephemeral h) (fd_epoch h) (drop 35 p) 285 (fd_session h) = (Ok ack, fd_session h1)"
    "d = build_session_datagram_body (take 16 (drop 19 p)) (take 16 (drop 3 p)) @ ack" "h1 = h\<lparr>fd_session := fd_session h1\<rparr>"
proof -
  obtain q s' where q: "setup_retry v C (fd_nsec h) (fd_ephemeral h) (fd_epoch h) (drop 35 p) 285 (fd_session h) = (q, s')" by fastforce
  show ?thesis using answered_setup [OF assms(1-4) q, of app now] assms(5) q that by (cases q) auto
qed

lemma third_message:
  assumes "36 \<le> length p" "phase_of p = 3" "on_message (FspDualHandler v C app) now MSG_SESSION_DATAGRAM p resp h = (r, resp', h')"
  shows "fd_session h' = snd (FspSession_handle_msg3 v C (drop 35 p) (fd_session h))"
proof -
  obtain q s where q: "FspSession_handle_msg3 v C (drop 35 p) (fd_session h) = (q, s)" by fastforce
  obtain q1 h1 resp1 where r: "handle_responder v C app MSG_SESSION_DATAGRAM p (h, resp) = (q1, h1, resp1)" by (metis prod_cases3)
  have "fd_session h1 = s"
    using r q assms(1,2) by (cases q) (auto simp: responder_route phase_of_def bindm_on_session [of "FspSession_handle_msg3 v C (drop 35 p)"] step_simps)
  then show ?thesis using message_session [OF assms(3) r] q by simp
qed

lemma msg3_established:
  assumes "FspSession_handle_msg3 v C d s = (q, s')" "fs_state s = SAwaitingMsg3" "fs_state s' = SEstablished"
  shows "q = Ok ()"
proof (cases "parse_session_msg3 d")
  case (Ok hs)
  show ?thesis
  proof (cases "fs_responder s")
    case (Some m)
    then show ?thesis using assms Ok
      by (cases "fst (session_read3 C hs m)")
        (auto simp: FspSession_handle_msg3_def step_simps split_beta Let_def modm_def ok_or_def split: if_splits)
  qed (use assms Ok in \<open>auto simp: FspSession_handle_msg3_def step_simps ok_or_def split: if_splits\<close>)
qed (use assms in \<open>auto simp: FspSession_handle_msg3_def step_simps\<close>)

lemma session_keys_cong:
  "fs_k_recv s = fs_k_recv s' \<Longrightarrow> fs_k_send s = fs_k_send s' \<Longrightarrow> FspSession_session_keys s = FspSession_session_keys s'"
  by (simp add: FspSession_session_keys_def)

lemma tick_setupD:
  assumes "crypto_ok C" "fd_initiator h = Some f" "fi_state f = IIdle" "initiator_inv v f" "fd_target_addr h = Some target" "length target = 16"
    "length resp = 320" "relay (on_tick (FspDualHandler v C app) now resp h) = Ok (d, h')"
  obtains me f' where "my_addr C h = Ok me" "fi_state f' = IAwaitingAck" "36 \<le> length d" "phase_of d = 1" "length d \<le> 320"
    "h' = h\<lparr>fd_initiator := Some f', fd_last_setup := Some d, fd_timer := Some (now + 8000000)\<rparr>"
proof -
  obtain me where me: "my_addr C h = Ok me"
    using assms(5,8) my_addr_Ok(1) [OF assms(1), of h]
    by (cases "my_addr C h") (auto simp: FspDualHandler_def dual_tick_def geth_def some_or_def step_simps outcome_def relay_def)
  have l: "length me = 16" by (rule my_addr_Ok(2) [OF assms(1) me])
  obtain q f' where b: "FspInitiatorSession_build_setup C me target 512 f = (q, f')" by fastforce
  note i = build_setup_inv [OF assms(4) b l assms(6)]
  have "dual_tick C now (h, resp) = start_setup C now me target f (h, resp)"
    using assms(2,3,5) me by (simp add: dual_tick_def geth_def some_or_def step_simps)
  then obtain m where q: "q = Ok m"
    using assms(8) b i by (cases q) (auto simp: FspDualHandler_def start_setup_def outcome_def relay_def bindm_def ignore_err_def map_errm_def on_initiator_def)
  have m: "length m = 76" using i q by simp
  obtain resp' where t: "on_tick (FspDualHandler v C app) now resp h =
      (Some (HR_SendDatagram (35 + length m)), resp',
       h\<lparr>fd_initiator := Some f', fd_last_setup := Some (build_session_datagram_body me target @ m), fd_timer := Some (now + 8000000)\<rparr>)"
      "take (35 + length m) resp' = build_session_datagram_body me target @ m"
    using tick_setup [OF assms(2,5) me l assms(6) b [unfolded q] _ assms(7), of v app now] m by auto
  have d: "d = build_session_datagram_body me target @ m" using t assms(8) by simp
  show ?thesis
    by (rule that [OF me]) (use setup_message [OF b [unfolded q]] t assms(8) d m l assms(6) datagram_parts [OF l assms(6), of m] in \<open>auto simp: phase_of_def\<close>)
qed

lemma sample_rs: "pubkey_prim sample_crypto (hp_rs sample_hp) = Some sample_rs_pub"
  using sample_hp_valid by (auto simp: hp_valid_def sample_rs_pub_def)

lemma sample_handshake:
  obtains f d1 d2 d3 hI1 hR1 r where
    "fd_initiator (sample_dual v) = Some f" "fi_state f = IIdle" "initiator_inv v f" "fd_target_addr (sample_dual v) = Some (replicate 16 8)"
    "relay (on_tick (FspDualHandler v sample_crypto NoopFspApp) 0 (replicate 320 0) (sample_dual v)) = Ok (d1, hI1)"
    "relay (on_message (FspDualHandler v sample_crypto sample_service) 1 MSG_SESSION_DATAGRAM d1 (replicate 320 0) sample_responder) = Ok (d2, hR1)"
    "on_message (FspDualHandler v sample_crypto sample_service) 3 MSG_SESSION_DATAGRAM d3 (replicate 320 0) hR1 =
       (Some HR_None, replicate 320 0, sample_responder\<lparr>fd_session := r\<rparr>)"
    "fs_state r = SEstablished" "36 \<le> length d1" "phase_of d1 = 1" "36 \<le> length d3" "phase_of d3 = 3"
proof -
  have L: "length (replicate 16 8 :: bytes) = 16" "length (replicate 320 0 :: bytes) = 320" by simp_all
  obtain me d1 d2 d3 hI1 hI2 f hR1 r k1 k2 where run:
    "relay (on_tick (FspDualHandler v sample_crypto NoopFspApp) 0 (replicate 320 0) (sample_dual v)) = Ok (d1, hI1)"
    "relay (on_message (FspDualHandler v sample_crypto sample_service) 1 MSG_SESSION_DATAGRAM d1 (replicate 320 0) sample_responder) = Ok (d2, hR1)"
    "relay (on_message (FspDualHandler v sample_crypto NoopFspApp) 2 MSG_SESSION_DATAGRAM d2 (replicate 320 0) hI1) = Ok (d3, hI2)"
    "on_message (FspDualHandler v sample_crypto sample_service) 3 MSG_SESSION_DATAGRAM d3 (replicate 320 0) hR1 =
       (Some HR_None, replicate 320 0, sample_responder\<lparr>fd_session := r\<rparr>)"
    "fs_state r = SEstablished" "36 \<le> length d1" "phase_of d1 = 1" "36 \<le> length d3" "phase_of d3 = 3"
    by (rule handlers_establish [OF sample_hp_valid sample_rs L sample_dual_def sample_responder_def]) blast
  obtain f0 where f: "FspInitiatorSession_new v sample_crypto (hp_is sample_hp) (hp_ie sample_hp) (hp_parity sample_hp # tl sample_rs_pub) = Ok f0"
    using establish_steps [OF sample_hp_valid _ _ sample_rs, of "replicate 16 0" "replicate 16 0" v] by auto
  show ?thesis
    by (rule that [OF _ _ noop_app.new_initiator_inv [OF sample_crypto_ok f] _ run(1,2,4-9)])
      (use f new_initiator_fields [OF f] in \<open>simp_all add: sample_dual_def new_dual_def\<close>)
qed

section \<open>Properties\<close>

text \<open>C8. Two handlers, one built with a target and one as a responder serving a service, complete a session and use it
  through the response buffers of their nodes alone: the initiator's tick emits the setup, each answer is
  what the other expects, both end established with mirrored keys and the responder knows the initiator's
  static key; the next tick sends the ping under counter 0, the service answers it, and the test
  initiator disconnects on the pong, each side having used exactly one counter value.\<close>

theorem dual_handlers_converse:
  fixes appI :: "'a fsp_app" and S :: "'h service_ops"
  assumes "hp_valid C p" "pubkey_prim C (hp_rs p) = Some rs_pub" "length target = 16" "length resp = 320" "10 \<le> capR"
  shows "\<exists>hI hR f k1 k2.
    fsp_dialogue v C appI (FspServiceAdapter S) t resp
      ((new_dual v C capI (hp_is p) eph (hp_ie p) (hp_parity p # tl rs_pub) target (hp_iepoch p) a)\<lparr>fd_test_ping := True\<rparr>)
      (new_responder capR (hp_rs p) (hp_re p) (hp_repoch p) b) = Ok (Some HR_Disconnect, hI, hR) \<and>
    fd_initiator hI = Some f \<and> fi_state f = IEstablished \<and> fs_state (fd_session hR) = SEstablished \<and>
    FspInitiatorSession_session_keys f = Some (k2, k1) \<and> FspSession_session_keys (fd_session hR) = Some (k1, k2) \<and>
    fs_initiator_pub (fd_session hR) = pubkey_prim C (hp_is p) \<and> fi_send_counter f = 1 \<and> fs_send_counter (fd_session hR) = 1 \<and>
    fd_timer hI = Some (t 4 + 10000000)"
proof -
  let ?hI = "(new_dual v C capI (hp_is p) eph (hp_ie p) (hp_parity p # tl rs_pub) target (hp_iepoch p) a)\<lparr>fd_test_ping := True\<rparr>"
  let ?hR = "new_responder capR (hp_rs p) (hp_re p) (hp_repoch p) b" and ?app = "FspServiceAdapter S"
  have C: "crypto_ok C" using assms(1) by (simp add: hp_valid_def)
  obtain me d1 d2 d3 hI1 hI2 f hR1 r k1 k2 where me: "my_addr C ?hI = Ok me" "length me = 16"
    and run: "relay (on_tick (FspDualHandler v C appI) (t 0) resp ?hI) = Ok (d1, hI1)"
      "relay (on_message (FspDualHandler v C ?app) (t 1) MSG_SESSION_DATAGRAM d1 resp ?hR) = Ok (d2, hR1)"
      "relay (on_message (FspDualHandler v C appI) (t 2) MSG_SESSION_DATAGRAM d2 resp hI1) = Ok (d3, hI2)"
      "on_message (FspDualHandler v C ?app) (t 3) MSG_SESSION_DATAGRAM d3 resp hR1 = (Some HR_None, resp, ?hR\<lparr>fd_session := r\<rparr>)"
    and hI2: "\<exists>ls t. hI2 = ?hI\<lparr>fd_initiator := Some f, fd_last_setup := ls, fd_timer := t\<rparr>"
    and f: "fi_state f = IEstablished" "fi_send_counter f = 0" "FspInitiatorSession_session_keys f = Some (k2, k1)"
    and r: "FspSession_session_keys r = Some (k1, k2)" "length k1 = 32" "length k2 = 32" "fs_state r = SEstablished"
      "fs_initiator_pub r = pubkey_prim C (hp_is p)" "fs_send_counter r = 0"
    by (rule handlers_establish [OF assms(1-4) refl refl]) blast
  let ?hR2 = "?hR\<lparr>fd_session := r\<rparr>" and ?f = "f\<lparr>fi_send_counter := 1\<rparr>"
  let ?hI3 = "hI2\<lparr>fd_initiator := Some ?f, fd_timer := Some (t 4 + 10000000)\<rparr>" and ?hR3 = "?hR2\<lparr>fd_session := r\<lparr>fs_send_counter := 1\<rparr>\<rparr>"
  obtain ping pong where "relay (on_tick (FspDualHandler v C appI) (t 4) resp hI2) = Ok (ping, ?hI3)"
      "relay (on_message (FspDualHandler v C ?app) (t 5) MSG_SESSION_DATAGRAM ping resp ?hR2) = Ok (pong, ?hR3)"
      "on_message (FspDualHandler v C appI) (t 6) MSG_SESSION_DATAGRAM pong resp ?hI3 = (Some HR_Disconnect, resp, ?hI3)"
    by (rule handlers_ping [where hI = hI2 and hR = ?hR2 and me = me and target = target and f = f and ?k1.0 = k1 and ?k2.0 = k2, OF C _ _ _ _ _ _ _ _ _ _ _ _ _ _ _ _ _ refl])
      (use hI2 me f r assms(3-5) in \<open>auto simp: new_dual_def new_responder_def my_addr_def FspSession_new_def\<close>)
  then have "fsp_dialogue v C appI ?app t resp ?hI ?hR = Ok (Some HR_Disconnect, ?hI3, ?hR3)"
    unfolding fsp_dialogue_def Let_def using run by simp
  then show ?thesis using f r
    by (intro exI [of _ ?hI3] exI [of _ ?hR3] exI [of _ ?f] exI [of _ k1] exI [of _ k2])
      (simp add: FspInitiatorSession_session_keys_def FspSession_session_keys_def)
qed

text \<open>C27. A lost acknowledgement is repaired by the retry timer: after a setup was sent and answered, the next tick
  resends the same bytes, the responder answers them with the same acknowledgement, and every third message
  the first answer would have accepted is accepted after the second, with the same session keys.\<close>

theorem lost_ack_recovered:
  assumes "crypto_ok C" "fd_initiator hI = Some f" "fi_state f = IIdle" "initiator_inv v f" "fd_target_addr hI = Some target" "length target = 16"
    "length resp = 320"
    "relay (on_tick (FspDualHandler v C appI) t0 resp hI) = Ok (d, hI1)"
    "relay (on_message (FspDualHandler v C appR) t1 MSG_SESSION_DATAGRAM d resp hR) = Ok (ack, hR1)"
  shows "relay (on_tick (FspDualHandler v C appI) t2 resp hI1) = Ok (d, hI1\<lparr>fd_timer := Some (t2 + 8000000)\<rparr>) \<and>
    (\<exists>hR2. relay (on_message (FspDualHandler v C appR) t3 MSG_SESSION_DATAGRAM d resp hR1) = Ok (ack, hR2) \<and>
      (\<forall>m s. FspSession_handle_msg3 v C m (fd_session hR1) = (Ok (), s) \<longrightarrow>
        (\<exists>s'. FspSession_handle_msg3 v C m (fd_session hR2) = (Ok (), s') \<and> fs_state s' = SEstablished \<and>
           FspSession_session_keys s' = FspSession_session_keys s)))"
proof -
  obtain me f' where i: "my_addr C hI = Ok me" "fi_state f' = IAwaitingAck" "36 \<le> length d" "phase_of d = 1" "length d \<le> 320"
      "hI1 = hI\<lparr>fd_initiator := Some f', fd_last_setup := Some d, fd_timer := Some (t0 + 8000000)\<rparr>"
    by (rule tick_setupD [OF assms(1-8)])
  have "my_addr C hI1 = Ok me" using i(1,6) by (simp add: my_addr_def)
  then have tick: "relay (on_tick (FspDualHandler v C appI) t2 resp hI1) = Ok (d, hI1\<lparr>fd_timer := Some (t2 + 8000000)\<rparr>)"
    using i(2,5) assms(5,7) unfolding i(6)
    by (simp add: FspDualHandler_def dual_tick_def geth_def some_or_def step_simps write_resp_Ok set_timer_step outcome_def splice_def)
  obtain a where s: "setup_retry v C (fd_nsec hR) (fd_ephemeral hR) (fd_epoch hR) (drop 35 d) 285 (fd_session hR) = (Ok a, fd_session hR1)"
      "ack = build_session_datagram_body (take 16 (drop 19 d)) (take 16 (drop 3 d)) @ a" "hR1 = hR\<lparr>fd_session := fd_session hR1\<rparr>"
    by (rule answered_setupD [OF assms(1) i(3,4) assms(7,9)])
  have id: "fd_nsec hR1 = fd_nsec hR" "fd_ephemeral hR1 = fd_ephemeral hR" "fd_epoch hR1 = fd_epoch hR" by (subst s(3), simp)+
  let ?s = "(restarted (fd_session hR1))\<lparr>fs_responder := fs_responder (fd_session hR1), fs_state := SAwaitingMsg3\<rparr>"
  have again: "relay (on_message (FspDualHandler v C appR) t3 MSG_SESSION_DATAGRAM d resp hR1) = Ok (ack, hR1\<lparr>fd_session := ?s\<rparr>)"
    using answered_setup [OF assms(1) i(3,4) assms(7), of v hR1 "Ok a" ?s appR t3] setup_retry_indep(1) [OF s(1), of "fd_session hR1"] s(2) id by simp
  have "\<exists>s'. FspSession_handle_msg3 v C m ?s = (Ok (), s') \<and> fs_state s' = SEstablished \<and> FspSession_session_keys s' = FspSession_session_keys st"
    if "FspSession_handle_msg3 v C m (fd_session hR1) = (Ok (), st)" for m st
    using handle_msg3_indep [OF that, of ?s] by (auto intro: session_keys_cong)
  then show ?thesis using tick again by (intro conjI exI [of _ "hR1\<lparr>fd_session := ?s\<rparr>"]) auto
qed

text \<open>C31. Because the responder's ephemeral key and epoch are fixed when the handler is built, a recorded setup and
  third message establish the recorded session again: whatever session a handler with these keys is in,
  replaying the two datagrams ends it, yields the same acknowledgement and the same session keys and sets
  the send counter back to zero, so the replies that follow reuse nonces under those keys.\<close>

theorem session_replayed:
  assumes "crypto_ok C" "length resp = 320" "36 \<le> length d1" "phase_of d1 = 1" "36 \<le> length d3" "phase_of d3 = 3"
    "relay (on_message (FspDualHandler v C app) t1 MSG_SESSION_DATAGRAM d1 resp h) = Ok (ack, h1)"
    "on_message (FspDualHandler v C app) t3 MSG_SESSION_DATAGRAM d3 resp h1 = (r, resp1, h2)" "fs_state (fd_session h2) = SEstablished"
    "fd_nsec h' = fd_nsec h" "fd_ephemeral h' = fd_ephemeral h" "fd_epoch h' = fd_epoch h" "fs_state (fd_session h') \<noteq> SIdle"
  shows "\<exists>h1' r' resp' h2'. relay (on_message (FspDualHandler v C app) t5 MSG_SESSION_DATAGRAM d1 resp h') = Ok (ack, h1') \<and>
    on_message (FspDualHandler v C app) t7 MSG_SESSION_DATAGRAM d3 resp h1' = (r', resp', h2') \<and> fs_state (fd_session h2') = SEstablished \<and>
    FspSession_session_keys (fd_session h2') = FspSession_session_keys (fd_session h2) \<and> fs_send_counter (fd_session h2') = 0"
proof -
  obtain a where s: "setup_retry v C (fd_nsec h) (fd_ephemeral h) (fd_epoch h) (drop 35 d1) 285 (fd_session h) = (Ok a, fd_session h1)"
      "ack = build_session_datagram_body (take 16 (drop 19 d1)) (take 16 (drop 3 d1)) @ a" "h1 = h\<lparr>fd_session := fd_session h1\<rparr>"
    by (rule answered_setupD [OF assms(1,3,4,2,7)])
  let ?s = "(FspSession_reset (fd_session h'))\<lparr>fs_responder := fs_responder (fd_session h1), fs_state := SAwaitingMsg3\<rparr>"
  let ?h1 = "h'\<lparr>fd_session := ?s\<rparr>"
  have 1: "relay (on_message (FspDualHandler v C app) t5 MSG_SESSION_DATAGRAM d1 resp h') = Ok (ack, ?h1)"
    using answered_setup [OF assms(1,3,4,2), of v h' "Ok a" ?s app t5] setup_retry_indep(1) [OF s(1), of "fd_session h'"] s(2) assms(10-13)
    by (simp add: restarted_def)
  obtain q s2 where q: "FspSession_handle_msg3 v C (drop 35 d3) (fd_session h1) = (q, s2)" by fastforce
  have s2: "fd_session h2 = s2" using third_message [OF assms(5,6,8)] q by simp
  have "q = Ok ()" using msg3_established [OF q setup_retry_indep(2) [OF s(1)]] assms(9) s2 by simp
  then have m: "FspSession_handle_msg3 v C (drop 35 d3) (fd_session ?h1) = (Ok (), ?s\<lparr>fs_k_recv := fs_k_recv s2, fs_k_send := fs_k_send s2,
      fs_initiator_pub := fs_initiator_pub s2, fs_responder := None, fs_state := SEstablished\<rparr>)"
    using handle_msg3_indep [of v C "drop 35 d3" "fd_session h1" s2 ?s] q by simp
  obtain r' resp' h2' where 3: "on_message (FspDualHandler v C app) t7 MSG_SESSION_DATAGRAM d3 resp ?h1 = (r', resp', h2')" by (metis prod_cases3)
  have "fd_session h2' = ?s\<lparr>fs_k_recv := fs_k_recv s2, fs_k_send := fs_k_send s2,
      fs_initiator_pub := fs_initiator_pub s2, fs_responder := None, fs_state := SEstablished\<rparr>"
    using third_message [OF assms(5,6) 3] m by simp
  then have "fs_state (fd_session h2') = SEstablished" "FspSession_session_keys (fd_session h2') = FspSession_session_keys (fd_session h2)"
    "fs_send_counter (fd_session h2') = 0"
    using s2 by (auto simp: FspSession_reset_def intro: session_keys_cong)
  then show ?thesis using 1 3 by blast
qed

theorem dual_handlers_converse_witness:
  "\<exists>hI hR. fsp_dialogue Wire_XX sample_crypto NoopFspApp sample_service (\<lambda>n. n * 1000000) (replicate 320 0) (sample_dual Wire_XX) sample_responder =
     Ok (Some HR_Disconnect, hI, hR)"
  using dual_handlers_converse [OF sample_hp_valid sample_rs, of "replicate 16 8" "replicate 320 0" 1024 Wire_XX NoopFspApp DemoService "\<lambda>n. n * 1000000"
      1024 "replicate 32 9" "()" "()"]
  unfolding sample_dual_def sample_responder_def by auto

theorem lost_ack_recovered_witness:
  "\<exists>d hI1 ack hR1 hR2.
     relay (on_tick (FspDualHandler Wire_IK sample_crypto NoopFspApp) 0 (replicate 320 0) (sample_dual Wire_IK)) = Ok (d, hI1) \<and>
     relay (on_message (FspDualHandler Wire_IK sample_crypto sample_service) 1 MSG_SESSION_DATAGRAM d (replicate 320 0) sample_responder) = Ok (ack, hR1) \<and>
     relay (on_tick (FspDualHandler Wire_IK sample_crypto NoopFspApp) 8000000 (replicate 320 0) hI1) = Ok (d, hI1\<lparr>fd_timer := Some 16000000\<rparr>) \<and>
     relay (on_message (FspDualHandler Wire_IK sample_crypto sample_service) 8000001 MSG_SESSION_DATAGRAM d (replicate 320 0) hR1) = Ok (ack, hR2)"
proof -
  obtain f d1 d2 hI1 hR1 where h: "fd_initiator (sample_dual Wire_IK) = Some f" "fi_state f = IIdle" "initiator_inv Wire_IK f"
      "fd_target_addr (sample_dual Wire_IK) = Some (replicate 16 8)"
      "relay (on_tick (FspDualHandler Wire_IK sample_crypto NoopFspApp) 0 (replicate 320 0) (sample_dual Wire_IK)) = Ok (d1, hI1)"
      "relay (on_message (FspDualHandler Wire_IK sample_crypto sample_service) 1 MSG_SESSION_DATAGRAM d1 (replicate 320 0) sample_responder) = Ok (d2, hR1)"
    by (rule sample_handshake [of Wire_IK]) blast
  have "length (replicate 16 8 :: bytes) = 16" "length (replicate 320 0 :: bytes) = 320" by simp_all
  from lost_ack_recovered [OF sample_crypto_ok h(1-4) this h(5,6), of 8000000 8000001] h(5,6)
  show ?thesis by - (rule exI [of _ d1], rule exI [of _ hI1], rule exI [of _ d2], rule exI [of _ hR1], auto)
qed

theorem session_replayed_witness:
  "\<exists>d1 d3 ack h1 h2 h1' r' resp' h2'.
     relay (on_message (FspDualHandler Wire_XX sample_crypto sample_service) 1 MSG_SESSION_DATAGRAM d1 (replicate 320 0) sample_responder) = Ok (ack, h1) \<and>
     on_message (FspDualHandler Wire_XX sample_crypto sample_service) 3 MSG_SESSION_DATAGRAM d3 (replicate 320 0) h1 = (Some HR_None, replicate 320 0, h2) \<and>
     fs_state (fd_session h2) = SEstablished \<and>
     relay (on_message (FspDualHandler Wire_XX sample_crypto sample_service) 60000000 MSG_SESSION_DATAGRAM d1 (replicate 320 0) h2) = Ok (ack, h1') \<and>
     on_message (FspDualHandler Wire_XX sample_crypto sample_service) 60000001 MSG_SESSION_DATAGRAM d3 (replicate 320 0) h1' = (r', resp', h2') \<and>
     FspSession_session_keys (fd_session h2') = FspSession_session_keys (fd_session h2) \<and> fs_send_counter (fd_session h2') = 0"
proof -
  obtain d1 d2 d3 hR1 r where h: 
      "relay (on_message (FspDualHandler Wire_XX sample_crypto sample_service) 1 MSG_SESSION_DATAGRAM d1 (replicate 320 0) sample_responder) = Ok (d2, hR1)"
      "on_message (FspDualHandler Wire_XX sample_crypto sample_service) 3 MSG_SESSION_DATAGRAM d3 (replicate 320 0) hR1 =
        (Some HR_None, replicate 320 0, sample_responder\<lparr>fd_session := r\<rparr>)"
      "fs_state r = SEstablished" "36 \<le> length d1" "phase_of d1 = 1" "36 \<le> length d3" "phase_of d3 = 3"
    by (rule sample_handshake [of Wire_XX]) blast
  have "length (replicate 320 0 :: bytes) = 320" by simp
  from session_replayed [OF sample_crypto_ok this h(4-7,1,2), of "sample_responder\<lparr>fd_session := r\<rparr>" 60000000 60000001] h(1-3)
  show ?thesis by - (rule exI [of _ d1], rule exI [of _ d3], rule exI [of _ d2], rule exI [of _ hR1],
      rule exI [of _ "sample_responder\<lparr>fd_session := r\<rparr>"], auto)
qed

end
