(* ===== verification/FspNode.thy ===== *)
theory FspNode
  imports SteadyRekey FspDialogue
begin

text \<open>
  A node whose application is the dual session handler.  \<open>synced\<close> relates the slot of the peer that seals
  a frame to the slots of the node that receives it: the same key, epoch bit and a counter the replay window admits.
\<close>

unbundle bit_operations_syntax

section \<open>Specification\<close>

text \<open>\<open>sample_host\<close> and \<open>sample_host_link\<close> are a concrete node with a link, \<open>sample_session\<close> its handler with a session.\<close>

definition synced :: "nat \<Rightarrow> epoch_slot \<Rightarrow> slots \<Rightarrow> bool" where
  "synced ptr a s \<longleftrightarrow> length (es_ks a) = 32 \<and> es_ks a = es_kr (sl_cur s) \<and> es_k_bit a = es_k_bit (sl_cur s) \<and> unat (es_send_ctr a) < 2 ^ ptr \<and>
     (\<exists>S. window_rel ptr (es_replay (sl_cur s)) S \<and> admissible S (es_send_ctr a))"

definition sample_host :: "unit fsp_app \<Rightarrow> unit fsp_dual env" where
  "sample_host app = \<lparr>ev_crypto = sample_crypto, ev_wire = Wire_XX, ev_mmp = False, ev_bench = False, ev_ptr = 32,
     ev_f64 = ev_f64 (sample_env Wire_XX), ev_handler = FspDualHandler Wire_XX sample_crypto app\<rparr>"

definition sample_host_link :: "unit fsp_dual \<Rightarrow> unit fsp_dual steady" where
  "sample_host_link h = steady_init 0 (replicate 8 1) (replicate 32 1) (replicate 32 2) 7 empty_rx
     (Node_new 0 fresh_transport \<lparr>rng_blocks = [], rng_words = []\<rparr> (replicate 32 1) (3 # replicate 32 2) h)"

definition sample_session :: "unit fsp_dual" where
  "sample_session = sample_responder\<lparr>fd_session := (fd_session sample_responder)
     \<lparr>fs_state := SEstablished, fs_k_recv := Some (replicate 32 4), fs_k_send := Some (replicate 32 5)\<rparr>\<rparr>"

abbreviation sample_peer_slot :: epoch_slot where
  "sample_peer_slot \<equiv> new_slot (replicate 32 2) (replicate 32 1) 9 False"

section \<open>Lemmas\<close>

lemma link_frame_opened:
  assumes "crypto_ok C" "synced ptr a s" "length p \<le> 219"
  obtains f cur where "seal_link C v now 512 (t # p) a = (Ok f, a\<lparr>es_send_ctr := es_send_ctr a + 1\<rparr>)"
    "\<exists>r ct. parse_message v f = Ok (Established r (es_send_ctr a) ct)"
    "trial_decrypt ptr C v f s = (From_cur (opened (es_send_ctr a) (now, t, p)), s\<lparr>sl_cur := cur\<rparr>)"
    "es_ks cur = es_ks (sl_cur s)" "es_send_ctr cur = es_send_ctr (sl_cur s)"
proof -
  obtain S where S: "length (es_ks a) = 32" "es_ks a = es_kr (sl_cur s)" "es_k_bit a = es_k_bit (sl_cur s)" "unat (es_send_ctr a) < 2 ^ ptr"
      "window_rel ptr (es_replay (sl_cur s)) S" "admissible S (es_send_ctr a)" using assms(2) by (auto simp: synced_def)
  obtain f where f: "seal_link C v now 512 (t # p) a = (Ok f, a\<lparr>es_send_ctr := es_send_ctr a + 1\<rparr>)"
      "sealed_frame C v (es_ks a) (es_send_ctr a) (now, t, p) f"
    using seal_link_Ok [OF assms(1) S(1), of now t p 512 v] assms(3) by (auto simp: msg_ok_def)
  obtain w where w: "open_slot ptr C v f (sl_cur s) = (Ok (opened (es_send_ctr a) (now, t, p)), (sl_cur s)\<lparr>es_replay := w\<rparr>)"
    using open_slot_sealed [OF S(5,4) f(2) [unfolded S(2)]] S(6) by auto
  have k: "frame_k_bit v f = es_k_bit (sl_cur s)" using sealed_k_bit [OF assms(1) S(1) f(1) assms(3)] assms(3) S(3) by simp
  show ?thesis
    by (rule that [OF f(1), of "(sl_cur s)\<lparr>es_replay := w\<rparr>"])
      (use f(2) w k in \<open>auto simp: sealed_frame_def trial_decrypt_def or_try_def try_cur_def Let_def\<close>)
qed

lemma datagram_dispatched:
  assumes "on_message (ev_handler E) now MSG_SESSION_DATAGRAM p (nd_resp s) (nd_handler s) = (None, resp, h)"
  shows "fst (handle_opened E now (opened c (t, MSG_SESSION_DATAGRAM, p)) s) = Panic"
  using assms
  by (simp add: handle_opened_def opened_def maybe_handle_mmp_control_def dispatch_node_def dispatch_link_message_def bindm_def modm_def map_errm_def retm_def
      upd_mmp_def wire_defs Let_def)

lemma on_message_panics:
  assumes "fst (outcome (handle_responder v C app mt p (h, resp))) = None"
  shows "\<exists>resp' h'. on_message (FspDualHandler v C app) now mt p resp h = (None, resp', h')"
  using assms by (cases "outcome (handle_responder v C app mt p (h, resp))") (auto simp: FspDualHandler_def dual_message_def)

lemma datagram_answered:
  assumes "crypto_ok (ev_crypto E)" "on_message (ev_handler E) now MSG_SESSION_DATAGRAM p (nd_resp s) (nd_handler s) = (Some (HR_SendDatagram n), resp, h)"
    "n \<le> 219" "n \<le> length resp" "tx_up (nd_tx s) = []" "length (es_ks (sl_cur (st_slots s))) = 32"
  shows "\<exists>g s'. handle_opened E now (opened c (t, MSG_SESSION_DATAGRAM, p)) s = (Ok (), s') \<and> nd_handler s' = h \<and>
    tx_sent (nd_tx s') = tx_sent (nd_tx s) @ wire_data (nd_raw_framing s) g \<and>
    sealed_frame (ev_crypto E) (ev_wire E) (es_ks (sl_cur (st_slots s))) (es_send_ctr (sl_cur (st_slots s))) (now, MSG_SESSION_DATAGRAM, take n resp) g"
proof -
  let ?slot = "sl_cur (st_slots s)"
  obtain g where g: "seal_link (ev_crypto E) (ev_wire E) now 512 (MSG_SESSION_DATAGRAM # take n resp) ?slot = (Ok g, ?slot\<lparr>es_send_ctr := es_send_ctr ?slot + 1\<rparr>)"
      "sealed_frame (ev_crypto E) (ev_wire E) (es_ks ?slot) (es_send_ctr ?slot) (now, MSG_SESSION_DATAGRAM, take n resp) g"
    using seal_link_Ok [OF assms(1,6), of now MSG_SESSION_DATAGRAM "take n resp" 512 "ev_wire E"] assms(3,4) by (auto simp: msg_ok_def)
  have m: "response_message MSG_SESSION_DATAGRAM n resp = (Ok (MSG_SESSION_DATAGRAM # take n resp) :: (bytes, protocol_error) res)"
    using assms(3,4) by (simp add: response_message_def)
  let ?s = "snd (handle_opened E now (opened c (t, MSG_SESSION_DATAGRAM, p)) s)"
  have "handle_opened E now (opened c (t, MSG_SESSION_DATAGRAM, p)) s = (Ok (), ?s) \<and> nd_handler ?s = h \<and>
      tx_sent (nd_tx ?s) = tx_sent (nd_tx s) @ wire_data (nd_raw_framing s) g"
    using assms(2,5) g(1) m
    by (simp add: handle_opened_def opened_def maybe_handle_mmp_control_def dispatch_node_def dispatch_link_message_def bindm_def modm_def map_errm_def
        retm_def getm_def guardm_def liftm_def upd_mmp_def upd_policy_def wire_defs Let_def action_of_result_def run_action_def with_cur_def
        process_frame_action_def send_session_datagram_def send_sealed_def node_send_frame_up)
  then show ?thesis using g(2) by blast
qed

lemma link_datagram_routed:
  assumes "crypto_ok (ev_crypto E)" "synced (ev_ptr E) a (st_slots B)" "length p \<le> 219" "frame_count (nd_policy B) < FRAME_RATE_MAX"
    "tx_up (nd_tx B) = []" "length (es_ks (sl_cur (st_slots B))) = 32"
    "on_message (ev_handler E) tb MSG_SESSION_DATAGRAM p (nd_resp B) (nd_handler B) = (Some (HR_SendDatagram n), resp, h)"
    "n \<le> 219" "n \<le> length resp"
  obtains f g B' where "seal_link (ev_crypto E) (ev_wire E) ta 512 (MSG_SESSION_DATAGRAM # p) a = (Ok f, a\<lparr>es_send_ctr := es_send_ctr a + 1\<rparr>)"
    "steady_frame E tb f B = (Ok (), B')" "nd_handler B' = h"
    "tx_sent (nd_tx B') = tx_sent (nd_tx B) @ wire_data (nd_raw_framing B) g"
    "sealed_frame (ev_crypto E) (ev_wire E) (es_ks (sl_cur (st_slots B))) (es_send_ctr (sl_cur (st_slots B))) (tb, MSG_SESSION_DATAGRAM, take n resp) g"
proof -
  let ?B = "B\<lparr>nd_policy := snd (check_frame_rate tb (nd_policy B))\<rparr>"
  obtain f cur where f: "seal_link (ev_crypto E) (ev_wire E) ta 512 (MSG_SESSION_DATAGRAM # p) a = (Ok f, a\<lparr>es_send_ctr := es_send_ctr a + 1\<rparr>)"
      "\<exists>r ct. parse_message (ev_wire E) f = Ok (Established r (es_send_ctr a) ct)"
      "trial_decrypt (ev_ptr E) (ev_crypto E) (ev_wire E) f (st_slots B) = (From_cur (opened (es_send_ctr a) (ta, MSG_SESSION_DATAGRAM, p)), (st_slots B)\<lparr>sl_cur := cur\<rparr>)"
      "es_ks cur = es_ks (sl_cur (st_slots B))" "es_send_ctr cur = es_send_ctr (sl_cur (st_slots B))"
    using link_frame_opened [OF assms(1-3)] by metis
  let ?B1 = "heard tb (?B\<lparr>st_slots := (st_slots B)\<lparr>sl_cur := cur\<rparr>\<rparr>)"
  have n: "nd_resp ?B1 = nd_resp B" "nd_handler ?B1 = nd_handler B" "nd_tx ?B1 = nd_tx B" "nd_raw_framing ?B1 = nd_raw_framing B"
      "sl_cur (st_slots ?B1) = cur" by (simp_all add: heard_def upd_policy_def)
  obtain g B' where g: "handle_opened E tb (opened (es_send_ctr a) (ta, MSG_SESSION_DATAGRAM, p)) ?B1 = (Ok (), B')" "nd_handler B' = h"
      "tx_sent (nd_tx B') = tx_sent (nd_tx B) @ wire_data (nd_raw_framing B) g"
      "sealed_frame (ev_crypto E) (ev_wire E) (es_ks cur) (es_send_ctr cur) (tb, MSG_SESSION_DATAGRAM, take n resp) g"
    using datagram_answered [of E tb p ?B1 n resp h "es_send_ctr a" ta] assms(1,5-9) f(4) unfolding n by auto
  have "route_frame E tb f ?B = (Ok (), B')"
    using f(2,3) g(1) by (auto simp: route_frame_def steady_established_def step_simps)
  then show ?thesis using that [OF f(1) _ g(2,3)] g(4) f(4,5) frame_routed [OF assms(4), of E tb f] by auto
qed

lemma sample_host_simps [simp]:
  "ev_crypto (sample_host app) = sample_crypto" "ev_wire (sample_host app) = Wire_XX" "ev_ptr (sample_host app) = 32"
  "ev_handler (sample_host app) = FspDualHandler Wire_XX sample_crypto app"
  by (simp_all add: sample_host_def)

lemma sample_host_link_ready [simp]:
  "synced 32 sample_peer_slot (st_slots (sample_host_link h))" "frame_count (nd_policy (sample_host_link h)) = 0"
  "nd_resp (sample_host_link h) = replicate 320 0" "nd_handler (sample_host_link h) = h" "tx_up (nd_tx (sample_host_link h)) = []"
  "length (es_ks (sl_cur (st_slots (sample_host_link h)))) = 32"
proof -
  show "synced 32 sample_peer_slot (st_slots (sample_host_link h))"
    using window_rel_new [of 32] by (auto simp: synced_def sample_host_link_def steady_init_def node.defs steady.defs new_slot_def admissible_def Let_def intro: exI [of _ "{}"])
qed (simp_all add: sample_host_link_def steady_init_def node.defs steady.defs Node_new_def Node_with_timing_def fresh_transport_def new_slot_def Let_def PeerPolicy_with_timing_def)

section \<open>Properties\<close>


text \<open>C7. A request crosses all the layers and the answer comes back: a peer that holds the keys of the link and of the
  established session seals a request as a data message, wraps it in a session datagram and sends it as
  a link frame; the node that receives the frame transmits exactly one frame, sealed on the link under its
  own counter, with the addresses exchanged, whose session ciphertext opens under the session's other key
  to the response the service owes, and one session counter value is used.\<close>

theorem node_serves_request:
  assumes "crypto_ok C" "service_handler S" "ev_crypto E = C" "ev_handler E = FspDualHandler w C (FspServiceAdapter S)"
    "synced (ev_ptr E) a (st_slots B)" "frame_count (nd_policy B) < FRAME_RATE_MAX" "tx_up (nd_tx B) = []"
    "length (es_ks (sl_cur (st_slots B))) = 32" "length (nd_resp B) = 320" "nd_handler B = h" "fs_state (fd_session h) = SEstablished"
    "FspSession_session_keys (fd_session h) = Some (k1, k2)" "length k1 = 32" "length k2 = 32" "256 \<le> fd_app_cap h"
    "length src = 16" "length dst = 16" "length payload \<le> 150" "payload \<noteq> ascii ''PING''" "icmpv6_echo_reply payload 267 = Err ()"
    and peer_def: "peer = \<lparr>pc_link_pubkey = fd_link_pubkey h, pc_src_addr = Some src\<rparr>"
    and answer_def: "answer = service_answer S payload (drop 61 (nd_resp B)) (on_peer S peer (fd_app h))" and "length (rs_body answer) \<le> 142"
  shows "\<exists>msg f B' g hdr ct r. build_fsp_data_message C ctr ts payload k1 512 = Ok msg \<and>
    seal_link C (ev_wire E) ta 512 (MSG_SESSION_DATAGRAM # build_session_datagram_body src dst @ msg) a = (Ok f, a\<lparr>es_send_ctr := es_send_ctr a + 1\<rparr>) \<and>
    steady_frame E tb f B = (Ok (), B') \<and> tx_sent (nd_tx B') = tx_sent (nd_tx B) @ wire_data (nd_raw_framing B) g \<and>
    sealed_frame C (ev_wire E) (es_ks (sl_cur (st_slots B))) (es_send_ctr (sl_cur (st_slots B)))
      (tb, MSG_SESSION_DATAGRAM, build_session_datagram_body dst src @ hdr @ ct) g \<and>
    parse_fsp_encrypted_header (hdr @ ct) = Ok (0, fs_send_counter (fd_session h), hdr, ct) \<and>
    aead_decrypt C k2 (fs_send_counter (fd_session h)) hdr ct 512 = Ok (le32 0 @ [FSP_MSG_DATA, 0] @ r) \<and> decode_response r = Ok answer \<and>
    fs_send_counter (fd_session (nd_handler B')) = fs_send_counter (fd_session h) + 1"
proof -
  have l: "length (drop 53 (nd_resp B)) = 267" "44 \<le> length (drop 53 (nd_resp B))" using assms(9) by simp_all
  obtain n out h' where a: "FspServiceAdapter S FSP_MSG_DATA payload (drop 53 (nd_resp B)) peer (fd_app h) = (Some (App_Reply FSP_MSG_DATA n), out, h')"
      "n = 8 + length (rs_body answer)" "decode_response (take n out) = Ok answer"
    using service_handler.adapter_answer [OF assms(2) l(2) assms(19), of peer "fd_app h"] by (auto simp: answer_def)
  have o: "length out = 267" "n \<le> 150"
    using fsp_application.app_writes [OF service_handler.adapter_application [OF assms(2)] a(1)] l a(2) assms(23) by auto
  note cap = assms(15,18)
  obtain msg resp hdr ct where m: "build_fsp_data_message C ctr ts payload k1 512 = Ok msg" "length msg = 34 + length payload"
      "on_message (FspDualHandler w C (FspServiceAdapter S)) tb MSG_SESSION_DATAGRAM (build_session_datagram_body src dst @ msg) (nd_resp B) h =
        (Some (HR_SendDatagram (69 + n)), resp, h\<lparr>fd_app := h', fd_session := (fd_session h)\<lparr>fs_send_counter := fs_send_counter (fd_session h) + 1\<rparr>\<rparr>)"
      "length resp = 320" "take (69 + n) resp = build_session_datagram_body dst src @ hdr @ ct"
      "parse_fsp_encrypted_header (hdr @ ct) = Ok (0, fs_send_counter (fd_session h), hdr, ct)"
      "aead_decrypt C k2 (fs_send_counter (fd_session h)) hdr ct 512 = Ok (le32 0 @ [FSP_MSG_DATA, 0] @ take n out)"
    by (rule message_data_resp [where app = "FspServiceAdapter S" and h = h and v = w and now = tb and ctr = ctr and ts = ts and cap = 512, OF assms(1,11-14,9) _ _ assms(20) a(1) [unfolded peer_def] o(1) _ _ _ assms(16,17)])
      (use cap o(2) in \<open>auto\<close>)
  obtain f g B' where r: "seal_link C (ev_wire E) ta 512 (MSG_SESSION_DATAGRAM # build_session_datagram_body src dst @ msg) a = (Ok f, a\<lparr>es_send_ctr := es_send_ctr a + 1\<rparr>)"
      "steady_frame E tb f B = (Ok (), B')" "nd_handler B' = h\<lparr>fd_app := h', fd_session := (fd_session h)\<lparr>fs_send_counter := fs_send_counter (fd_session h) + 1\<rparr>\<rparr>"
      "tx_sent (nd_tx B') = tx_sent (nd_tx B) @ wire_data (nd_raw_framing B) g"
      "sealed_frame C (ev_wire E) (es_ks (sl_cur (st_slots B))) (es_send_ctr (sl_cur (st_slots B))) (tb, MSG_SESSION_DATAGRAM, take (69 + n) resp) g"
    by (rule link_datagram_routed [of E a B "build_session_datagram_body src dst @ msg" tb "69 + n" resp _ ta, unfolded assms(3,4,10), OF _ _ _ _ _ _ m(3)])
      (use m(2,4) o(2) assms(1,5-8,16-18) in auto)
  show ?thesis
    by (rule exI [of _ msg], rule exI [of _ f], rule exI [of _ B'], rule exI [of _ g], rule exI [of _ hdr], rule exI [of _ ct], rule exI [of _ "take n out"])
      (use m(1,5-7) r a(3) in simp)
qed


theorem node_serves_request_witness:
  "\<exists>msg f B' g hdr ct r. build_fsp_data_message sample_crypto 0 0 ([1, 1, 1, 0, 7, 0, 0, 0] @ ascii ''/health'') (replicate 32 4) 512 = Ok msg \<and>
    seal_link sample_crypto Wire_XX 0 512 (MSG_SESSION_DATAGRAM # build_session_datagram_body (replicate 16 8) (replicate 16 9) @ msg) sample_peer_slot =
      (Ok f, sample_peer_slot\<lparr>es_send_ctr := es_send_ctr sample_peer_slot + 1\<rparr>) \<and>
    steady_frame (sample_host sample_service) 1 f (sample_host_link sample_session) = (Ok (), B') \<and>
    tx_sent (nd_tx B') = tx_sent (nd_tx (sample_host_link sample_session)) @ wire_data (nd_raw_framing (sample_host_link sample_session)) g \<and>
    sealed_frame sample_crypto Wire_XX (es_ks (sl_cur (st_slots (sample_host_link sample_session)))) (es_send_ctr (sl_cur (st_slots (sample_host_link sample_session))))
      (1, MSG_SESSION_DATAGRAM, build_session_datagram_body (replicate 16 9) (replicate 16 8) @ hdr @ ct) g \<and>
    parse_fsp_encrypted_header (hdr @ ct) = Ok (0, 0, hdr, ct) \<and>
    aead_decrypt sample_crypto (replicate 32 5) 0 hdr ct 512 = Ok (le32 0 @ [FSP_MSG_DATA, 0] @ r) \<and>
    decode_response r = Ok \<lparr>rs_status = 200, rs_content_type = Json, rs_body = HEALTH_JSON\<rparr> \<and>
    fs_send_counter (fd_session (nd_handler B')) = 1"
proof -
  let ?p = "[1, 1, 1, 0, 7, 0, 0, 0] @ ascii ''/health'' :: bytes"
  have p: "length ?p \<le> 150" "?p \<noteq> ascii ''PING''" "icmpv6_echo_reply ?p 267 = Err ()" by (simp_all add: ascii_def icmpv6_echo_reply_def)
  have l: "length HEALTH_JSON \<le> 142" by (simp add: HEALTH_JSON_def ascii_def)
  have s: "fs_state (fd_session sample_session) = SEstablished" "FspSession_session_keys (fd_session sample_session) = Some (replicate 32 4, replicate 32 5)"
      "256 \<le> fd_app_cap sample_session" "fs_send_counter (fd_session sample_session) = 0"
    by (simp_all add: sample_session_def FspSession_session_keys_def sample_responder_def new_responder_def FspSession_new_def)
  from node_serves_request [OF sample_crypto_ok demo.service_handler_axioms _ _ _ _ _ _ _ _ s(1,2) _ _ s(3) _ _ p refl refl, of "sample_host sample_service"
      Wire_XX sample_peer_slot "sample_host_link sample_session" "replicate 16 8" "replicate 16 9" 0 0 0 1] l s(4) demo_health
  show ?thesis by simp
qed

end
