(* ===== verification/EspNow.thy ===== *)
theory EspNow
  imports Framing "HOL-Library.Sublist"
begin

text \<open>
  Frames over ESP-NOW (\<^verbatim>\<open>microfips-esp-common/src/espnow_frag.rs\<close> and \<^verbatim>\<open>espnow_peer.rs\<close>): the fragmenter, the
  reassemblers, the packed hardware address and the peer slot.  \<open>received\<close> is a receiver fed a sequence of payloads
  with their sources, \<open>frame_at\<close> numbers the frames of a sender by message and fragment, and \<open>holding\<close> relates a
  reassembler to the fragments it has.
\<close>

unbundle bit_operations_syntax

section \<open>Fragments\<close>

type_synonym mac_addr = bytes

definition ESP_NOW_MAX_PAYLOAD :: nat where [simp]: "ESP_NOW_MAX_PAYLOAD = 250"
definition FRAG_HEADER_LEN :: nat where [simp]: "FRAG_HEADER_LEN = 2"
definition MAX_CHUNK :: nat where [simp]: "MAX_CHUNK = ESP_NOW_MAX_PAYLOAD - FRAG_HEADER_LEN"
definition MAX_MESSAGE :: nat where [simp]: "MAX_MESSAGE = MAX_FRAME_SIZE"
definition LAST_FLAG :: byte where [simp]: "LAST_FLAG = 0x80"
definition IDX_MASK :: byte where [simp]: "IDX_MASK = 0x7f"

text \<open>\<^verbatim>\<open>Fragmenter\<close> is its counter, the id of the next message.\<close>

record frag_iter =
  fg_msg_id :: byte
  fg_data :: bytes
  fg_idx :: byte
  fg_done :: bool

definition Fragmenter_fragments :: "bytes \<Rightarrow> byte \<Rightarrow> frag_iter option \<times> byte" where
  "Fragmenter_fragments data next_msg_id =
     (if MAX_MESSAGE < length data then (None, next_msg_id)
      else (Some \<lparr>fg_msg_id = next_msg_id, fg_data = data, fg_idx = 0, fg_done = False\<rparr>, next_msg_id + 1))"

text \<open>The increment of the index is checked, as in a debug build.\<close>

definition FragmentIter_next :: "frag_iter \<Rightarrow> ((bytes \<times> bytes) option, unit) res \<times> frag_iter" where
  "FragmentIter_next it =
     (if fg_done it then (Ok None, it)
      else let n = min (length (fg_data it)) MAX_CHUNK; chunk = take n (fg_data it); rest = drop n (fg_data it); last = (rest = []);
               header = [fg_msg_id it, (fg_idx it AND IDX_MASK) OR (if last then LAST_FLAG else 0)] in
        if fg_idx it = 255 then (Panic, it\<lparr>fg_data := rest\<rparr>)
        else (Ok (Some (header, chunk)), it\<lparr>fg_data := rest, fg_idx := fg_idx it + 1, fg_done := last\<rparr>))"

section \<open>Reassembly\<close>

record reassembler =
  ra_buf :: bytes
  ra_len :: nat
  ra_msg_id :: byte
  ra_next_idx :: byte
  ra_active :: bool

definition Reassembler_new :: reassembler where
  "Reassembler_new = \<lparr>ra_buf = replicate MAX_MESSAGE 0, ra_len = 0, ra_msg_id = 0, ra_next_idx = 0, ra_active = False\<rparr>"

definition Reassembler_reset :: "reassembler \<Rightarrow> reassembler" where
  "Reassembler_reset r = r\<lparr>ra_active := False\<rparr>"

definition Reassembler_push :: "bytes \<Rightarrow> reassembler \<Rightarrow> bytes option \<times> reassembler" where
  "Reassembler_push payload r =
     (if length payload < FRAG_HEADER_LEN \<or> ESP_NOW_MAX_PAYLOAD < length payload then (None, r\<lparr>ra_active := False\<rparr>)
      else let msg_id = payload ! 0; last = (payload ! 1 AND LAST_FLAG \<noteq> 0); i = payload ! 1 AND IDX_MASK; chunk = drop FRAG_HEADER_LEN payload;
               r1 = (if i = 0 then r\<lparr>ra_msg_id := msg_id, ra_len := 0, ra_next_idx := 0, ra_active := True\<rparr> else r) in
        if i \<noteq> 0 \<and> (\<not> ra_active r \<or> msg_id \<noteq> ra_msg_id r \<or> i \<noteq> ra_next_idx r) then (None, r\<lparr>ra_active := False\<rparr>)
        else if MAX_MESSAGE < ra_len r1 + length chunk then (None, r1\<lparr>ra_active := False\<rparr>)
        else let r2 = r1\<lparr>ra_buf := splice (ra_buf r1) (ra_len r1) chunk, ra_len := ra_len r1 + length chunk, ra_next_idx := i + 1\<rparr> in
          if last then (Some (take (ra_len r2) (ra_buf r2)), r2\<lparr>ra_active := False\<rparr>) else (None, r2))"

record src_reassembler =
  sr_reassembler :: reassembler
  sr_src :: "mac_addr option"

definition SrcReassembler_new :: src_reassembler where
  "SrcReassembler_new = \<lparr>sr_reassembler = Reassembler_new, sr_src = None\<rparr>"

definition SrcReassembler_push :: "mac_addr \<Rightarrow> bytes \<Rightarrow> src_reassembler \<Rightarrow> bytes option \<times> src_reassembler" where
  "SrcReassembler_push src payload s =
     (let s1 = (if sr_src s \<noteq> Some src then \<lparr>sr_reassembler = Reassembler_reset (sr_reassembler s), sr_src = Some src\<rparr> else s) in
      case Reassembler_push payload (sr_reassembler s1) of (m, r) \<Rightarrow> (m, s1\<lparr>sr_reassembler := r\<rparr>))"

text \<open>The loop over the address is a fold over its bytes.\<close>

definition pack_mac :: "mac_addr \<Rightarrow> u64" where
  "pack_mac mac = foldl (\<lambda>v b. push_bit 8 v OR ucast b) 0 mac OR push_bit 63 1"

definition unpack_mac :: "u64 \<Rightarrow> mac_addr option" where
  "unpack_mac v = (if v AND push_bit 63 1 = 0 then None else Some (map (\<lambda>i. ucast (drop_bit (8 * (5 - i)) v)) [0..<6]))"

section \<open>The peer slot\<close>

definition ACTIVE_HOLD_MS :: nat where [simp]: "ACTIVE_HOLD_MS = 60000"

datatype peer_slot_action = Register mac_addr | Swap mac_addr mac_addr | Keep | Ignore

record peer_slot =
  ps_mac :: "mac_addr option"
  ps_last_seen_ms :: u64

definition PeerSlot_new :: peer_slot where
  "PeerSlot_new = \<lparr>ps_mac = None, ps_last_seen_ms = 0\<rparr>"

definition PeerSlot_observe :: "mac_addr \<Rightarrow> u64 \<Rightarrow> peer_slot \<Rightarrow> peer_slot_action \<times> peer_slot" where
  "PeerSlot_observe src now_ms s =
     (case ps_mac s of
        Some current \<Rightarrow>
          if current = src then (Keep, s\<lparr>ps_last_seen_ms := now_ms\<rparr>)
          else if unat now_ms - unat (ps_last_seen_ms s) \<le> ACTIVE_HOLD_MS then (Ignore, s)
          else (Swap current src, s\<lparr>ps_mac := Some src, ps_last_seen_ms := now_ms\<rparr>)
      | None \<Rightarrow> (Register src, s\<lparr>ps_mac := Some src, ps_last_seen_ms := now_ms\<rparr>))"

definition publish_current :: "peer_slot \<Rightarrow> u64" where
  "publish_current s = (case ps_mac s of Some m \<Rightarrow> pack_mac m | None \<Rightarrow> 0)"

section \<open>Specification\<close>

text \<open>All fragments of one message: the iterator run to its end.\<close>

function frag_collect :: "frag_iter \<Rightarrow> (bytes list, unit) res" where
  "frag_collect it =
     (if fg_done it then Ok []
      else (case FragmentIter_next it of
          (Ok (Some (h, c)), it') \<Rightarrow> (case frag_collect it' of Ok fs \<Rightarrow> Ok ((h @ c) # fs) | e \<Rightarrow> e)
        | _ \<Rightarrow> Panic))"
  by pat_completeness auto
termination
  by (relation "measure (\<lambda>it. if fg_done it then 0 else Suc (length (fg_data it)))")
    (auto simp: FragmentIter_next_def Let_def min_def split: if_splits)

definition fragment :: "byte \<Rightarrow> bytes \<Rightarrow> nat \<Rightarrow> bytes" where
  "fragment i m k = [i, (of_nat k) OR (if length m \<le> 248 * Suc k then 0x80 else 0)] @ take 248 (drop (248 * k) m)"

definition frag_count :: "bytes \<Rightarrow> nat" where
  "frag_count m = max 1 ((length m + 247) div 248)"

text \<open>What a sender that hands its fragmenter a list of messages puts on the air.\<close>

fun sent_frames :: "byte \<Rightarrow> bytes list \<Rightarrow> (bytes list, unit) res" where
  "sent_frames f [] = Ok []"
| "sent_frames f (m # ms) =
     (case Fragmenter_fragments m f of
        (None, f') \<Rightarrow> sent_frames f' ms
      | (Some it, f') \<Rightarrow> bind_res (frag_collect it) (\<lambda>fs. bind_res (sent_frames f' ms) (\<lambda>gs. Ok (fs @ gs))))"

fun received :: "src_reassembler \<Rightarrow> (mac_addr \<times> bytes) list \<Rightarrow> (mac_addr \<times> bytes) list" where
  "received s [] = []"
| "received s ((a, p) # rx) = (case SrcReassembler_push a p s of (out, s') \<Rightarrow> (case out of Some m \<Rightarrow> [(a, m)] | None \<Rightarrow> []) @ received s' rx)"

definition pos_less :: "nat \<times> nat \<Rightarrow> nat \<times> nat \<Rightarrow> bool" where
  "pos_less p q \<longleftrightarrow> fst p < fst q \<or> fst p = fst q \<and> snd p < snd q"

definition positions :: "bytes list \<Rightarrow> (nat \<times> nat) list" where
  "positions ms = concat (map (\<lambda>j. map (Pair j) [0..<frag_count (ms ! j)]) [0..<length ms])"

definition frame_at :: "byte \<Rightarrow> bytes list \<Rightarrow> nat \<times> nat \<Rightarrow> bytes" where
  "frame_at f ms p = fragment (f + of_nat (fst p)) (ms ! fst p) (snd p)"

definition holding :: "byte \<Rightarrow> bytes list \<Rightarrow> nat \<times> nat \<Rightarrow> reassembler \<Rightarrow> bool" where
  "holding f ms p r \<longleftrightarrow> fst p < length ms \<and> 0 < snd p \<and> snd p < frag_count (ms ! fst p) \<and> ra_msg_id r = f + of_nat (fst p) \<and>
     ra_next_idx r = of_nat (snd p) \<and> ra_len r = 248 * snd p \<and> take (248 * snd p) (ra_buf r) = take (248 * snd p) (ms ! fst p)"

definition behind :: "nat \<times> nat \<Rightarrow> nat \<times> nat \<Rightarrow> bool" where
  "behind p q \<longleftrightarrow> p = q \<or> pos_less p q"

definition progress :: "byte \<Rightarrow> bytes list \<Rightarrow> (nat \<times> nat) list \<Rightarrow> reassembler \<Rightarrow> bool" where
  "progress f ms ps r \<longleftrightarrow> ra_active r \<longrightarrow> (\<exists>p. holding f ms p r \<and> (\<forall>q \<in> set ps. behind p q))"

abbreviation from_src :: "mac_addr \<Rightarrow> (mac_addr \<times> bytes) list \<Rightarrow> bytes list" where
  "from_src a xs \<equiv> map snd (filter (\<lambda>x. fst x = a) xs)"

definition radio_table :: "peer_slot_action \<Rightarrow> mac_addr set \<Rightarrow> mac_addr set" where
  "radio_table act T = (case act of Register m \<Rightarrow> insert m T | Swap r m \<Rightarrow> insert m (T - {r}) | Keep \<Rightarrow> T | Ignore \<Rightarrow> T)"

fun observed :: "(mac_addr \<times> u64) list \<Rightarrow> peer_slot \<times> mac_addr set \<Rightarrow> peer_slot \<times> mac_addr set" where
  "observed [] s = s"
| "observed ((m, t) # es) (s, T) = (case PeerSlot_observe m t s of (act, s') \<Rightarrow> observed es (s', radio_table act T))"

section \<open>Lemmas\<close>

lemma frag_count_bound: "length m \<le> 2048 \<Longrightarrow> frag_count m \<le> 9" "0 < frag_count m"
  by (auto simp: frag_count_def)

lemma last_fragment: "k < frag_count m \<Longrightarrow> length m \<le> 248 * Suc k \<longleftrightarrow> Suc k = frag_count m"
  by (auto simp: frag_count_def max_def split: if_splits)

lemma frag_word:
  assumes "k < 9"
  shows "((of_nat k :: byte) AND 0x7f) = of_nat k" "(of_nat k :: byte) \<noteq> 255" "(((of_nat k :: byte) OR 0x80) AND 0x7f) = of_nat k"
    "(of_nat k :: byte) AND 0x80 = 0" "((of_nat k :: byte) OR 0x80) AND 0x80 = 0x80" "(of_nat k :: byte) = 0 \<longleftrightarrow> k = 0"
proof -
  have "k \<in> {0, 1, 2, 3, 4, 5, 6, 7, 8}" using assms by auto
  then show "((of_nat k :: byte) AND 0x7f) = of_nat k" "(of_nat k :: byte) \<noteq> 255" "(((of_nat k :: byte) OR 0x80) AND 0x7f) = of_nat k"
    "(of_nat k :: byte) AND 0x80 = 0" "((of_nat k :: byte) OR 0x80) AND 0x80 = 0x80" "(of_nat k :: byte) = 0 \<longleftrightarrow> k = 0" by auto
qed

lemma take_min: "take (min (length xs) n) xs = take n xs" "drop (min (length xs) n) xs = drop n xs"
  by (auto simp: min_def)

lemma next_fragment:
  assumes "k < frag_count m" "length m \<le> 2048"
  shows "FragmentIter_next \<lparr>fg_msg_id = i, fg_data = drop (248 * k) m, fg_idx = of_nat k, fg_done = False\<rparr> =
    (Ok (Some (take 2 (fragment i m k), drop 2 (fragment i m k))),
     \<lparr>fg_msg_id = i, fg_data = drop (248 * Suc k) m, fg_idx = of_nat (Suc k), fg_done = (Suc k = frag_count m)\<rparr>)"
proof -
  have k: "k < 9" using assms frag_count_bound(1) by fastforce
  have d: "drop 248 (drop (248 * k) m) = drop (248 * Suc k) m" by (simp add: add.commute)
  show ?thesis
    using k last_fragment [OF assms(1)]
    unfolding FragmentIter_next_def Let_def MAX_CHUNK_def FRAG_HEADER_LEN_def ESP_NOW_MAX_PAYLOAD_def frag_iter.simps take_min
    by (simp add: d frag_word fragment_def del: drop_drop)
qed

lemma collect_from:
  assumes "k < frag_count m" "length m \<le> 2048"
  shows "frag_collect \<lparr>fg_msg_id = i, fg_data = drop (248 * k) m, fg_idx = of_nat k, fg_done = False\<rparr> = Ok (map (fragment i m) [k..<frag_count m])"
  using assms(1)
proof (induction "frag_count m - Suc k" arbitrary: k)
  case (0 k)
  then have "Suc k = frag_count m" by simp
  then show ?case using next_fragment [OF 0(2) assms(2), of i] 0(2)
    by (subst frag_collect.simps) (simp add: frag_collect.simps upt_conv_Cons)
next
  case (Suc d k)
  then have "Suc k < frag_count m" "d = frag_count m - Suc (Suc k)" by simp_all
  from Suc(1) [OF this(2,1)] show ?case using next_fragment [OF Suc(3) assms(2), of i] \<open>Suc k < _\<close>
    by (subst frag_collect.simps) (simp add: upt_conv_Cons [of k])
qed

lemma sent_frames_Ok:
  assumes "\<forall>m \<in> set ms. length m \<le> 2048"
  shows "sent_frames f ms = Ok (concat (map (\<lambda>(j, m). map (fragment (f + of_nat j) m) [0..<frag_count m]) (enumerate 0 ms)))"
  using assms
proof (induction ms arbitrary: f)
  case (Cons m ms)
  have c: "frag_collect \<lparr>fg_msg_id = f, fg_data = m, fg_idx = 0, fg_done = False\<rparr> = Ok (map (fragment f m) [0..<frag_count m])"
    using collect_from [of 0 m f] Cons.prems frag_count_bound(2) by simp
  have e: "map (\<lambda>(j, m). map (fragment (f + of_nat j) m) [0..<frag_count m]) (enumerate (Suc 0) ms) =
      map (\<lambda>(j, m). map (fragment (f + 1 + of_nat j) m) [0..<frag_count m]) (enumerate 0 ms)"
    by (rule nth_equalityI) (auto simp: nth_enumerate_eq add.assoc)
  show ?case using Cons.IH [of "f + 1"] Cons.prems c by (simp add: Fragmenter_fragments_def e)
qed simp

lemma sent_positions:
  assumes "\<forall>m \<in> set ms. length m \<le> 2048"
  shows "sent_frames f ms = Ok (map (frame_at f ms) (positions ms))"
proof -
  have e: "enumerate 0 ms = map (\<lambda>j. (j, ms ! j)) [0..<length ms]" by (auto simp: enumerate_eq_zip intro: nth_equalityI)
  show ?thesis unfolding sent_frames_Ok [OF assms] e positions_def by (simp add: map_concat comp_def frame_at_def)
qed

lemma set_positions: "set (positions ms) = {(j, k). j < length ms \<and> k < frag_count (ms ! j)}"
  by (auto simp: positions_def)

lemma sorted_concat_pos:
  "sorted_wrt pos_less (concat (map (\<lambda>j. map (Pair j) [0..<g j]) [a..<b]))"
proof (induction b)
  case (Suc b)
  have "sorted_wrt pos_less (map (Pair b) [0..<g b])" by (simp add: sorted_wrt_map pos_less_def sorted_wrt_upt)
  then show ?case using Suc by (auto simp: sorted_wrt_append) (auto simp: pos_less_def)
qed simp

lemma sorted_positions: "sorted_wrt pos_less (positions ms)"
  unfolding positions_def by (rule sorted_concat_pos)

lemma subseq_mapE: "subseq xs (map f ys) \<Longrightarrow> \<exists>zs. xs = map f zs \<and> subseq zs ys"
proof (induction ys arbitrary: xs)
  case (Cons y ys)
  show ?case
  proof (cases "\<exists>xs'. xs = f y # xs' \<and> subseq xs' (map f ys)")
    case True
    then obtain zs where "xs = f y # map f zs" "subseq zs ys" using Cons.IH by blast
    then show ?thesis by (intro exI [of _ "y # zs"]) simp
  next
    case False
    then have "subseq xs (map f ys)" using Cons.prems by (cases xs) (auto split: if_splits)
    then show ?thesis using Cons.IH by blast
  qed
qed (auto dest: list_emb_Nil2)

lemma sorted_wrt_subseq: "subseq xs ys \<Longrightarrow> sorted_wrt P ys \<Longrightarrow> sorted_wrt P xs"
  by (induction rule: list_emb.induct) (auto dest: list_emb_set)

lemma sorted_subseq_upt: "sorted_wrt (<) js \<Longrightarrow> set js \<subseteq> {a..<b} \<Longrightarrow> subseq js [a..<b]"
proof (induction js arbitrary: a)
  case (Cons j js)
  then have j: "a \<le> j" "j < b" "set js \<subseteq> {Suc j..<b}" by (auto simp: Suc_le_eq subset_iff)
  have "[a..<b] = [a..<j] @ j # [Suc j..<b]" using j upt_add_eq_append [of a j "b - j"] by (simp add: upt_conv_Cons)
  moreover have "subseq js [Suc j..<b]" using Cons j by simp
  ultimately show ?case by (simp add: list_emb_append2)
qed simp

lemma sorted_nths:
  assumes "sorted_wrt (<) js" "set js \<subseteq> {..<length ms}"
  shows "subseq (map ((!) ms) js) ms"
proof -
  have "subseq js [0..<length ms]" using assms by (intro sorted_subseq_upt) auto
  from subseq_map [OF this, of "(!) ms"] show ?thesis by (simp add: map_nth)
qed

lemma push_length:
  "Reassembler_push p r = (out, r') \<Longrightarrow> length (ra_buf r) = 2048 \<Longrightarrow> length (ra_buf r') = 2048"
  by (auto simp: Reassembler_push_def Let_def split: if_splits)

lemma fragment_parts:
  assumes "k < frag_count m" "length m \<le> 2048"
  shows "length (fragment i m k) = 2 + min 248 (length m - 248 * k)" "fragment i m k ! 0 = i"
    "(fragment i m k ! 1) AND 0x7f = of_nat k" "(fragment i m k ! 1) AND 0x80 \<noteq> 0 \<longleftrightarrow> Suc k = frag_count m" "drop 2 (fragment i m k) = take 248 (drop (248 * k) m)"
proof -
  have "k < 9" using assms frag_count_bound(1) by fastforce
  then show "(fragment i m k ! 1) AND 0x7f = of_nat k" "(fragment i m k ! 1) AND 0x80 \<noteq> 0 \<longleftrightarrow> Suc k = frag_count m"
    using last_fragment [OF assms(1)] by (auto simp: fragment_def frag_word)
qed (simp_all add: fragment_def)

lemma chunk_full: "Suc k < frag_count m \<Longrightarrow> 248 * Suc k \<le> length m"
  using last_fragment [of k m] by auto

lemma idx_inj: "j < 256 \<Longrightarrow> k < 256 \<Longrightarrow> (f + of_nat j :: byte) = f + of_nat k \<longleftrightarrow> j = k"
  by (simp add: word_of_nat_eq_iff take_bit_nat_eq_self)

lemma push_accepted:
  assumes "j < length ms" "k < frag_count (ms ! j)" "length (ms ! j) \<le> 2048" "length (ra_buf r) = 2048" "k = 0 \<or> ra_active r \<and> holding f ms (j, k) r"
  obtains r' where "Reassembler_push (frame_at f ms (j, k)) r = (if Suc k = frag_count (ms ! j) then Some (ms ! j) else None, r')"
    "ra_active r' \<longleftrightarrow> Suc k \<noteq> frag_count (ms ! j)" "ra_active r' \<Longrightarrow> holding f ms (j, Suc k) r'"
proof -
  let ?m = "ms ! j" and ?i = "f + of_nat j :: byte"
  have k: "k < 9" "248 * k \<le> length ?m" using assms(2,3) frag_count_bound(1) [of ?m] chunk_full [of "k - 1" ?m] by (cases k; auto)+
  define c where "c = take 248 (drop (248 * k) ?m)"
  define b where "b = splice (ra_buf r) (248 * k) c"
  define r' where "r' = r\<lparr>ra_buf := b, ra_len := 248 * k + length c, ra_msg_id := ?i, ra_next_idx := of_nat (Suc k), ra_active := Suc k \<noteq> frag_count ?m\<rparr>"
  have pre: "take (248 * k) (ra_buf r) = take (248 * k) ?m" using assms(5) by (auto simp: holding_def)
  have tb: "take (248 * k + length c) b = take (248 * Suc k) ?m"
  proof -
    have "take (248 * k + length c) b = take (248 * k) (ra_buf r) @ c" using assms(4) k(1) by (simp add: b_def splice_def)
    also have "\<dots> = take (248 * k + 248) ?m" unfolding take_add pre c_def ..
    finally show ?thesis by (simp only: mult_Suc_right add.commute)
  qed
  have lc: "248 * k + length c \<le> 2048" "length c \<le> 248" using assms(3) k(2) by (auto simp: c_def)
  note fp = fragment_parts [OF assms(2,3), of ?i, folded c_def]
  have "length (fragment ?i ?m k) = 2 + length c" using fp(1) by (simp add: c_def)
  then have push: "Reassembler_push (frame_at f ms (j, k)) r = (if Suc k = frag_count ?m then Some (take (248 * k + length c) b) else None, r')"
    using assms(5) lc fp(2-5) frag_word(6) [OF k(1)]
    by (cases "k = 0") (simp_all add: Reassembler_push_def frame_at_def Let_def holding_def r'_def b_def)
  have full: "take (248 * Suc k) ?m = ?m" if "Suc k = frag_count ?m" using that last_fragment [OF assms(2)] by simp
  show ?thesis
  proof (rule that [of r'])
    show "Reassembler_push (frame_at f ms (j, k)) r = (if Suc k = frag_count ?m then Some ?m else None, r')" unfolding push tb using full by simp
    show "ra_active r' \<longleftrightarrow> Suc k \<noteq> frag_count ?m" by (simp add: r'_def)
    assume "ra_active r'"
    then have "Suc k < frag_count ?m" using assms(2) by (simp add: r'_def)
    then show "holding f ms (j, Suc k) r'" using assms(1) chunk_full [of k ?m] tb by (simp add: holding_def r'_def c_def add.commute)
  qed
qed

lemma push_rejected:
  assumes "j < length ms" "k < frag_count (ms ! j)" "length (ms ! j) \<le> 2048" "length ms \<le> 256" "k \<noteq> 0"
    "ra_active r \<Longrightarrow> \<exists>p. holding f ms p r \<and> p \<noteq> (j, k)"
  shows "Reassembler_push (frame_at f ms (j, k)) r = (None, r\<lparr>ra_active := False\<rparr>)"
proof -
  have k: "k < 9" using assms(2,3) frag_count_bound(1) [of "ms ! j"] by simp
  have "f + of_nat j \<noteq> ra_msg_id r \<or> of_nat k \<noteq> ra_next_idx r" if act: "ra_active r"
  proof -
    obtain p where p: "holding f ms p r" "p \<noteq> (j, k)" using assms(6) [OF act] by blast
    have "fst p < 256" "j < 256" using p assms(1,4) by (auto simp: holding_def)
    then have "f + of_nat j = ra_msg_id r \<longleftrightarrow> fst p = j" using p(1) idx_inj [of j "fst p" f] by (auto simp: holding_def)
    moreover have "of_nat k \<noteq> ra_next_idx r" if "fst p = j"
      using p that k assms(3) frag_count_bound(1) [of "ms ! j"] idx_inj [of k "snd p" 0] by (cases p) (auto simp: holding_def)
    ultimately show ?thesis by blast
  qed
  then show ?thesis
    using fragment_parts [OF assms(2,3), of "f + of_nat j"] assms(3,5) k
    by (auto simp: Reassembler_push_def frame_at_def Let_def frag_word)
qed

lemma push_step:
  assumes "\<forall>m \<in> set ms. length m \<le> 2048" "length ms \<le> 256" "length (ra_buf r) = 2048" "sorted_wrt pos_less ((j, k) # ps)"
    "set ((j, k) # ps) \<subseteq> set (positions ms)" "progress f ms ((j, k) # ps) r"
  obtains out r' where "Reassembler_push (frame_at f ms (j, k)) r = (out, r')" "length (ra_buf r') = 2048" "progress f ms ps r'"
    "out = None \<or> out = Some (ms ! j) \<and> (\<forall>q \<in> set ps. j < fst q)"
proof -
  have v: "j < length ms" "k < frag_count (ms ! j)" "length (ms ! j) \<le> 2048" using assms(1,5) by (auto simp: set_positions)
  have ahead: "q \<in> set ps \<Longrightarrow> pos_less (j, k) q" for q using assms(4) by auto
  show ?thesis
  proof (cases "k = 0 \<or> ra_active r \<and> holding f ms (j, k) r")
    case True
    obtain r' where r: "Reassembler_push (frame_at f ms (j, k)) r = (if Suc k = frag_count (ms ! j) then Some (ms ! j) else None, r')"
        "ra_active r' \<longleftrightarrow> Suc k \<noteq> frag_count (ms ! j)" "ra_active r' \<Longrightarrow> holding f ms (j, Suc k) r'"
      using push_accepted [OF v assms(3) True] by blast
    have next_msg: "j < fst q" if "q \<in> set ps" "Suc k = frag_count (ms ! j)" for q
      using ahead [OF that(1)] that assms(5) by (cases q) (auto simp: pos_less_def set_positions)
    have "behind (j, Suc k) q" if "q \<in> set ps" for q
      using ahead [OF that] by (cases q) (auto simp: pos_less_def behind_def)
    then have "progress f ms ps r'" using r(3) unfolding progress_def by blast
    then show ?thesis using that [OF r(1) push_length [OF r(1) assms(3)]] next_msg by auto
  next
    case False
    have act: "\<exists>p. holding f ms p r \<and> p \<noteq> (j, k)" if "ra_active r" using assms(6) that False by (auto simp: progress_def)
    have "Reassembler_push (frame_at f ms (j, k)) r = (None, r\<lparr>ra_active := False\<rparr>)"
      by (rule push_rejected [OF v assms(2)]) (use False act in auto)
    then show ?thesis using that [of None "r\<lparr>ra_active := False\<rparr>"] assms(3) by (simp add: progress_def)
  qed
qed

lemma received_sorted:
  assumes "\<forall>m \<in> set ms. length m \<le> 2048" "length ms \<le> 256"
  shows "from_src a rx = map (frame_at f ms) ps \<Longrightarrow> sorted_wrt pos_less ps \<Longrightarrow> set ps \<subseteq> set (positions ms) \<Longrightarrow>
    length (ra_buf (sr_reassembler s)) = 2048 \<Longrightarrow> (sr_src s = Some a \<Longrightarrow> progress f ms ps (sr_reassembler s)) \<Longrightarrow>
    \<exists>js. from_src a (received s rx) = map ((!) ms) js \<and> sorted_wrt (<) js \<and> set js \<subseteq> fst ` set ps"
proof (induction rx arbitrary: s ps)
  case (Cons x rx)
  obtain b p where x: "x = (b, p)" by (cases x)
  let ?r = "if sr_src s \<noteq> Some b then Reassembler_reset (sr_reassembler s) else sr_reassembler s"
  obtain out r' where push: "Reassembler_push p ?r = (out, r')" by (metis prod.exhaust)
  let ?s = "\<lparr>sr_reassembler = r', sr_src = Some b\<rparr>"
  have sp: "SrcReassembler_push b p s = (out, ?s)" using push by (cases s) (auto simp: SrcReassembler_push_def Let_def split: if_splits)
  have len: "length (ra_buf r') = 2048" using push_length [OF push] Cons.prems(4) by (simp add: Reassembler_reset_def)
  show ?case
  proof (cases "b = a")
    case False
    then show ?thesis using Cons.IH [of ps ?s] Cons.prems(1-3) len sp x by (auto split: option.splits)
  next
    case True
    then obtain j k qs where ps: "ps = (j, k) # qs" "p = frame_at f ms (j, k)" "from_src a rx = map (frame_at f ms) qs"
      using Cons.prems(1) x by (cases ps) auto
    have pr: "progress f ms ((j, k) # qs) ?r" using Cons.prems(5) ps(1) True by (auto simp: progress_def Reassembler_reset_def)
    have l: "length (ra_buf ?r) = 2048" using Cons.prems(4) by (simp add: Reassembler_reset_def)
    obtain st: "progress f ms qs r'" "out = None \<or> out = Some (ms ! j) \<and> (\<forall>q \<in> set qs. j < fst q)"
      using push_step [OF assms l _ _ pr] Cons.prems(2,3) push ps by auto
    obtain js where js: "from_src a (received ?s rx) = map ((!) ms) js" "sorted_wrt (<) js" "set js \<subseteq> fst ` set qs"
      using Cons.IH [OF ps(3), of ?s] Cons.prems(2,3) ps(1) len st(1) by auto
    then show ?thesis
    proof (cases out)
      case None
      then show ?thesis using js sp x ps(1) by (intro exI [of _ js]) auto
    next
      case (Some m)
      then show ?thesis using js sp x ps(1) st(2) True by (intro exI [of _ "j # js"]) auto
    qed
  qed
qed (auto intro: exI [of _ "[]"])

lemma src_push_accepted:
  assumes "j < length ms" "k < frag_count (ms ! j)" "length (ms ! j) \<le> 2048" "length (ra_buf (sr_reassembler s)) = 2048"
    "k = 0 \<or> sr_src s = Some a \<and> ra_active (sr_reassembler s) \<and> holding f ms (j, k) (sr_reassembler s)"
  obtains s' where "SrcReassembler_push a (frame_at f ms (j, k)) s = (if Suc k = frag_count (ms ! j) then Some (ms ! j) else None, s')"
    "length (ra_buf (sr_reassembler s')) = 2048"
    "Suc k \<noteq> frag_count (ms ! j) \<Longrightarrow> sr_src s' = Some a \<and> ra_active (sr_reassembler s') \<and> holding f ms (j, Suc k) (sr_reassembler s')"
proof -
  define r where "r = (if sr_src s \<noteq> Some a then Reassembler_reset (sr_reassembler s) else sr_reassembler s)"
  have "length (ra_buf r) = 2048" "k = 0 \<or> ra_active r \<and> holding f ms (j, k) r"
    using assms(4,5) by (auto simp: r_def Reassembler_reset_def)
  from push_accepted [OF assms(1-3) this] push_length [OF _ this(1)]
  obtain r' where r: "Reassembler_push (frame_at f ms (j, k)) r = (if Suc k = frag_count (ms ! j) then Some (ms ! j) else None, r')"
    "ra_active r' \<longleftrightarrow> Suc k \<noteq> frag_count (ms ! j)" "ra_active r' \<Longrightarrow> holding f ms (j, Suc k) r'" "length (ra_buf r') = 2048" by metis
  have "SrcReassembler_push a (frame_at f ms (j, k)) s =
      (if Suc k = frag_count (ms ! j) then Some (ms ! j) else None, \<lparr>sr_reassembler = r', sr_src = Some a\<rparr>)"
    using r(1) by (cases s) (auto simp: SrcReassembler_push_def Let_def r_def)
  then show ?thesis using that [of "\<lparr>sr_reassembler = r', sr_src = Some a\<rparr>"] r(2-4) by simp
qed

lemma received_message:
  assumes "j < length ms" "length (ms ! j) \<le> 2048"
  shows "k < frag_count (ms ! j) \<Longrightarrow> length (ra_buf (sr_reassembler s)) = 2048 \<Longrightarrow>
    k = 0 \<or> sr_src s = Some a \<and> ra_active (sr_reassembler s) \<and> holding f ms (j, k) (sr_reassembler s) \<Longrightarrow>
    \<exists>s'. received s (map (\<lambda>k. (a, frame_at f ms (j, k))) [k..<frag_count (ms ! j)] @ rx) = (a, ms ! j) # received s' rx \<and>
      length (ra_buf (sr_reassembler s')) = 2048"
proof (induction "frag_count (ms ! j) - k" arbitrary: k s)
  case (Suc d k s)
  obtain s' where p: "SrcReassembler_push a (frame_at f ms (j, k)) s = (if Suc k = frag_count (ms ! j) then Some (ms ! j) else None, s')"
      "length (ra_buf (sr_reassembler s')) = 2048"
      "Suc k \<noteq> frag_count (ms ! j) \<Longrightarrow> sr_src s' = Some a \<and> ra_active (sr_reassembler s') \<and> holding f ms (j, Suc k) (sr_reassembler s')"
    using src_push_accepted [OF assms(1) Suc(3) assms(2) Suc(4,5)] by blast
  show ?case
  proof (cases "Suc k = frag_count (ms ! j)")
    case True
    then show ?thesis using p(1,2) by (auto simp: upt_conv_Cons simp flip: True)
  next
    case False
    then show ?thesis using Suc(1) [of "Suc k" s'] Suc(2,3) p by (simp add: upt_conv_Cons [of k])
  qed
qed simp

lemma received_all:
  assumes "\<forall>m \<in> set ms. length m \<le> 2048"
  shows "length (ra_buf (sr_reassembler s)) = 2048 \<Longrightarrow>
    received s (concat (map (\<lambda>j. map (\<lambda>k. (a, frame_at f ms (j, k))) [0..<frag_count (ms ! j)]) [i..<length ms])) = map (Pair a) (drop i ms)"
proof (induction "length ms - i" arbitrary: i s)
  case (Suc d i s)
  then have i: "i < length ms" "d = length ms - Suc i" by simp_all
  obtain s' where "received s (map (\<lambda>k. (a, frame_at f ms (i, k))) [0..<frag_count (ms ! i)] @
        concat (map (\<lambda>j. map (\<lambda>k. (a, frame_at f ms (j, k))) [0..<frag_count (ms ! j)]) [Suc i..<length ms])) =
      (a, ms ! i) # received s' (concat (map (\<lambda>j. map (\<lambda>k. (a, frame_at f ms (j, k))) [0..<frag_count (ms ! j)]) [Suc i..<length ms]))"
      "length (ra_buf (sr_reassembler s')) = 2048"
    using received_message [OF i(1) _ frag_count_bound(2) Suc(3)] assms i(1) by fastforce
  then show ?case using Suc(1) [OF i(2), of s'] i(1) by (simp add: upt_conv_Cons Cons_nth_drop_Suc [symmetric])
qed simp

lemma byte_high: "8 \<le> k \<Longrightarrow> \<not> bit (b :: byte) (k + n)"
  by (auto dest: bit_imp_le_length)

lemma mac_bytes:
  assumes "\<And>i. i < 48 \<Longrightarrow> \<not> bit (t :: u64) i"
  shows "map (\<lambda>i. ucast (drop_bit (8 * (5 - i)) (foldl (\<lambda>v b. push_bit 8 v OR ucast b) 0 [a, b, c, d, e, f] OR t)) :: byte) [0..<6] = [a, b, c, d, e, f]"
  using assms by (auto simp: upt_rec intro!: bit_eqI simp: bit_simps byte_high)

lemma observe_table: "PeerSlot_observe m t s = (act, s') \<Longrightarrow> radio_table act (set_option (ps_mac s)) = set_option (ps_mac s')"
  by (auto simp: PeerSlot_observe_def radio_table_def split: option.splits if_splits)

lemma observed_table: "observed es (s, set_option (ps_mac s)) = (s', T') \<Longrightarrow> T' = set_option (ps_mac s')"
proof (induction es arbitrary: s)
  case (Cons e es)
  obtain m t act s1 where e: "e = (m, t)" "PeerSlot_observe m t s = (act, s1)" by (metis prod.exhaust)
  then show ?case using Cons by (simp add: observe_table)
qed auto

lemma observed_owner:
  assumes "ps_mac s = Some m" "\<forall>(a, t) \<in> set es. a \<noteq> m \<longrightarrow> unat t \<le> unat (ps_last_seen_ms s) + ACTIVE_HOLD_MS" "\<forall>(a, t) \<in> set es. a \<noteq> m"
  shows "observed es (s, T) = (s, T)"
  using assms by (induction es) (auto simp: PeerSlot_observe_def radio_table_def)

section \<open>Properties\<close>

text \<open>C23. Fragments may be lost and the fragments of other senders may come in between, in any way: the messages a receiver
  delivers from a sender are, in order and without repetition, messages that the sender fragmented, as long as
  no more than 256 messages share the message ids; when nothing is lost every message is delivered.\<close>

theorem espnow_lossy_delivery:
  assumes "\<forall>m \<in> set ms. length m \<le> MAX_MESSAGE" "length ms \<le> 256" "sent_frames f ms = Ok fs" "subseq (from_src a rx) fs"
  shows "subseq (from_src a (received SrcReassembler_new rx)) ms \<and> received SrcReassembler_new (map (Pair a) fs) = map (Pair a) ms"
proof -
  have ms: "\<forall>m \<in> set ms. length m \<le> 2048" using assms(1) by simp
  then have fs: "fs = map (frame_at f ms) (positions ms)" using sent_positions assms(3) by simp
  obtain ps where ps: "from_src a rx = map (frame_at f ms) ps" "subseq ps (positions ms)" using subseq_mapE assms(4) fs by blast
  have set: "set ps \<subseteq> set (positions ms)" by (auto dest!: list_emb_set [OF ps(2)])
  obtain js where "from_src a (received SrcReassembler_new rx) = map ((!) ms) js" "sorted_wrt (<) js" "set js \<subseteq> fst ` set ps"
    using received_sorted [OF ms assms(2) ps(1) sorted_wrt_subseq [OF ps(2) sorted_positions] set, of SrcReassembler_new]
    by (auto simp: SrcReassembler_new_def Reassembler_new_def progress_def)
  moreover have "set js \<subseteq> {..<length ms}" using calculation(3) set by (fastforce simp: set_positions)
  ultimately have "subseq (from_src a (received SrcReassembler_new rx)) ms" using sorted_nths by metis
  moreover have "received SrcReassembler_new (map (Pair a) fs) = map (Pair a) ms"
    using received_all [OF ms, of SrcReassembler_new a f 0] by (simp add: fs positions_def SrcReassembler_new_def Reassembler_new_def map_concat comp_def)
  ultimately show ?thesis by blast
qed

theorem mac_roundtrip:
  assumes "length mac = 6"
  shows "unpack_mac (pack_mac mac) = Some mac \<and> pack_mac mac \<noteq> 0 \<and> unpack_mac 0 = None"
proof -
  obtain a b c d e f where mac: "mac = [a, b, c, d, e, f]"
    using assms by (auto simp: length_Suc_conv numeral_eq_Suc)
  have top: "bit (pack_mac mac) 63" by (simp add: pack_mac_def bit_simps)
  then have nz: "pack_mac mac AND push_bit 63 1 \<noteq> 0" "pack_mac mac \<noteq> 0"
    by (auto simp: bit_eq_iff bit_simps intro!: exI [of _ 63])
  have "map (\<lambda>i. ucast (drop_bit (8 * (5 - i)) (pack_mac mac)) :: byte) [0..<6] = mac"
    unfolding mac pack_mac_def by (rule mac_bytes, simp only: bit_push_bit_iff, simp)
  then show ?thesis using nz by (simp add: unpack_mac_def)
qed

theorem peer_slot_exclusive:
  assumes "observed es (PeerSlot_new, {}) = (s, T)" "ps_mac s = Some m"
    "\<forall>(a, t) \<in> set foreign. a \<noteq> m \<and> unat t \<le> unat (ps_last_seen_ms s) + ACTIVE_HOLD_MS"
  shows "T = {m} \<and> observed foreign (s, T) = (s, T) \<and> publish_current s = pack_mac m"
  using observed_table [of es PeerSlot_new s T] observed_owner [OF assms(2), of foreign T] assms
  by (auto simp: PeerSlot_new_def publish_current_def)

theorem espnow_lossy_delivery_witness:
  "\<exists>fs. sent_frames 255 [replicate 600 1, [2, 3]] = Ok fs \<and>
     subseq (map snd (filter (\<lambda>x. fst x = replicate 6 7) (received SrcReassembler_new [(replicate 6 7, fs ! 0), (replicate 6 9, fs ! 1), (replicate 6 7, fs ! 3)])))
       [replicate 600 1, [2, 3]] \<and>
     received SrcReassembler_new (map (Pair (replicate 6 7)) fs) = map (Pair (replicate 6 7)) [replicate 600 1, [2, 3]]"
proof -
  let ?ms = "[replicate 600 1, [2, 3]] :: bytes list"
  have ms: "\<forall>m \<in> set ?ms. length m \<le> MAX_MESSAGE" by simp
  then have "sent_frames 255 ?ms = Ok (map (frame_at 255 ?ms) (positions ?ms))" by (intro sent_positions) simp
  moreover have "map (frame_at 255 ?ms) (positions ?ms) = map (frame_at 255 ?ms) [(0, 0), (0, 1), (0, 2), (1, 0)]"
    by (simp add: positions_def frag_count_def upt_rec numeral_2_eq_2)
  ultimately have s: "sent_frames 255 ?ms = Ok (map (frame_at 255 ?ms) [(0, 0), (0, 1), (0, 2), (1, 0)])" by simp
  let ?fs = "map (frame_at 255 ?ms) [(0, 0), (0, 1), (0, 2), (1, 0)]"
  have "subseq (map snd (filter (\<lambda>x. fst x = replicate 6 7) [(replicate 6 7, ?fs ! 0), (replicate 6 9, ?fs ! 1), (replicate 6 7, ?fs ! 3)])) ?fs"
    by (simp add: replicate_eq_replicate)
  from espnow_lossy_delivery [OF ms _ s this] s show ?thesis by auto
qed

end
