(* ===== verification/Spec2Isabelle.thy ===== *)
theory Spec2Isabelle
  imports FspNode EspNow
begin

text \<open>
  A verification development of microfips, a no-std Rust implementation of a leaf node of the FIPS
  mesh.  Paths below are relative to src/crates.

  \<^bold>\<open>The program.\<close>  A node holds one encrypted link to a peer.  The link is set up by a Noise
  handshake, IK or XX by the compile-time feature \<^verbatim>\<open>noise-xx\<close>, carried in FMP frames over a transport, and
  then run by one loop: it opens and dispatches frames, sends heartbeats and measurement reports, replaces its
  keys and watches the peer.  Session datagrams on the link go to the handler of the application.  The handler of
  the firmware is the dual handler: it answers and opens FSP sessions, which are encrypted end to end, and
  hands their data to an application, here a request and response service.  On radio links a fragmentation
  layer carries the frames.

  \<^bold>\<open>Theories and sources.\<close>
  \<^item> Prelude: bytes, outcomes of Rust computations (value, error, panic), the state-passing steps the
    methods are written in, panicking indexing and slicing, little-endian codecs.
  \<^item> Crypto, NoiseCore, NoiseIK, NoiseXK, NoiseXX: fips-noise/src/lib.rs.  The primitives are the
    parameter \<open>crypto\<close>; each machine is a record, each method a step on it.
  \<^item> Replay: fips-noise/src/replay.rs.
  \<^item> Fmp, Negotiation: fips-fmp/src/lib.rs and negotiation.rs.
  \<^item> FspWire, FspSession: microfips-core/src/fsp.rs, and the node address of fips-identity/src/lib.rs.
  \<^item> Ipv6Shim: microfips-core/src/ipv6\_shim.rs.
  \<^item> MmpReport, Mmp: microfips-core/src/mmp and microfips-protocol/src/mmp.
  \<^item> PeerPolicy: microfips-protocol/src/peer\_policy.rs.
  \<^item> Framing, Link, Node, NodeHandshake: microfips-protocol/src/framing.rs, error.rs and node.rs up to the end
    of the handshake.
  \<^item> Steady, SteadySafety, SteadyWatch, SteadyRekey: the function steady of node.rs with session and run.
  \<^item> FspHandler, FspSafety, FspDialogue: microfips-protocol/src/fsp\_handler.rs.
  \<^item> Service: microfips-service/src/lib.rs and the demo service of microfips-http-demo/src/lib.rs.
  \<^item> FspNode: a node of Steady that runs the handler of FspHandler.
  \<^item> EspNow: microfips-esp-common/src/espnow\_frag.rs and espnow\_peer.rs.

  \<^bold>\<open>Correspondence.\<close>  A struct is a record, an enum a datatype, a method a definition with the name
  of the method after the name of its type; a constant keeps its name.  The struct \<^verbatim>\<open>Node\<close> is the
  record \<open>node\<close> and the locals of \<^verbatim>\<open>steady\<close> extend it to the record \<open>steady\<close>.  Features of the build and code
  outside the repository (cryptography, floating point, clock, transport, random numbers, application) are
  arguments; \<open>crypto_ok\<close> names the documented behaviour of the primitives, and \<open>sample_crypto\<close> satisfies it.

  \<^bold>\<open>Interfaces.\<close>  A layer relies on the one below or above it through a locale that the theory of the
  provider interprets: \<open>replay_guard\<close> (both pointer widths), \<open>key_agreement\<close> (the three handshakes and the
  session), \<open>frame_receiver\<close> (both framings and the receive half of a node), \<open>buffer_handler\<close> and
  \<open>steady_link\<close> (a node and its handler), \<open>fsp_application\<close> (a session and its application) and
  \<open>service_handler\<close> (the adapter and its service).  The dual handler keeps every law of \<open>buffer_handler\<close>
  but one: it panics on two kinds of datagram, which FspSafety determines exactly.

  \<^bold>\<open>What is shown.\<close>
  \<^item> Handshakes: both ends of IK, XK and XX and of a session agree on keys and identities; two nodes agree over
    their transports in either framing; a silent peer ends the handshake after its retries.
  \<^item> Link: the replay window accepts every counter at most once and refines a set of counters; frames
    are delivered exactly once across key epochs; both framings reassemble what was sent.
  \<^item> Established loop: an invariant over every history of inputs with no panic, agreement of both
    kinds of rekey and their cutover, detection of a dead peer, and what feeds the watchdog.
  \<^item> Sessions and services: well-formedness of every reachable handler, exact panics, two handlers
    conversing, recovery of a lost acknowledgement, an answer to every request, and a request answered through
    all the layers of a node.
  \<^item> Codecs: exact parsers and round trips of frames, negotiation blocks, reports and envelopes; the echo
    responder against the Internet checksum; fragmentation over a lossy channel with several senders.
  \<^item> Defects: replay truncation on 32-bit targets, panics on short or malformed messages, replayed sessions,
    the report timer that does not advance, and unauthenticated frames that feed the watchdog.

  \<^bold>\<open>Bounds and termination.\<close>  No definition uses fuel in place of a loop bound of the code: loops recurse
  over what they consume (the buffer, the events a transport delivers, the carries of a sum), and a wait sees the
  end of its event list as its timer firing.  \<open>steady_loop\<close>, \<open>session\<close> and \<open>run\<close> recurse over the list of
  rounds the environment chooses, so a theorem about them covers every finite history.  The receivers take
  the capacity of the frame buffer of their caller as an argument.  The random generator is a list of draws;
  a theorem that needs draws says so.

  \<^bold>\<open>Not modelled.\<close>
  \<^item> Clock readings within one round of the loop are one instant, and \<^verbatim>\<open>duration_since\<close> is subtraction.
  \<^item> Key wiping, log lines, key logging, display counters (mmp/stats.rs) and the floating-point display
    values of the metrics: nothing in the protocol reads them.
  \<^item> Transports, radio hosts, boards, the relay access point and the command-line programs: they drive
    hardware, sockets and an asynchronous executor and hold little logic of their own.
  \<^item> The text forms of keys and the allow list (fips-identity), the DHCP and mDNS codecs and the Bluetooth
    rate limiter and back-off: self-contained code that the node does not call; it can be modelled
    in the same way and is left for later.
  \<^item> fips-decrypt, an offline analysis tool, and the HTTP adapter of the demo, which is I/O of third-party crates.
\<close>

end
